(* ===== verification/Prelude.thy ===== *)
theory Prelude
  imports
    Complex_Main
    "HOL-Library.AList"
    "HOL-Library.Char_ord"
    "HOL-Library.List_Lexorder"
    "HOL-Library.Multiset"
    "HOL-Library.Sublist"
begin

section \<open>Prelude: the Python the components are written in\<close>

text \<open>
  What the component theories share.
  \<^item> Exceptions as values: \<open>exn\<close> has one constructor per exception class the source raises or
    catches, \<open>isinstance\<close> is the part of Python's class hierarchy an \<open>except\<close> clause consults,
    and a computation that may raise is of type \<open>'a res\<close> (\<open>Inl\<close> the exception). \<open>rbind\<close> and
    \<open>rmap\<close> sequence such computations and stop at the first exception, as Python does.
  \<^item> Documents read with \<open>json.loads\<close> or \<open>yaml.safe_load\<close>: the datatype \<open>json\<close>, with Python's
    subscript, \<open>.get\<close>, \<open>in\<close>, truth value and numeric reading as partial operations.
  \<^item> Dictionaries as association lists in insertion order (\<open>AList.update\<close> is \<open>d[k] = v\<close>).
  \<^item> Numbers: a Python \<open>float\<close> is a \<open>real\<close> (exact arithmetic: rounding errors, infinities and
    NaN are outside the model, except in the joint limit check, which has its own extended type),
    an \<open>int\<close> is an \<open>int\<close> or \<open>nat\<close>; \<open>py_mod\<close>, \<open>py_round\<close> and \<open>py_round_to\<close> are \<open>%\<close> and \<open>round\<close>.
  \<^item> The interface locales of a component that is driven by a sequence of operations:
    \<open>inv_system\<close> (an invariant every operation keeps) and \<open>log_system\<close> (a log that only grows).
\<close>

named_theorems res_simps \<open>rewrites that evaluate computations that may raise\<close>
named_theorems json_simps \<open>rewrites that evaluate accesses to documents\<close>

subsection \<open>Exceptions\<close>

datatype exn =
    KeyError string
  | ValueError
  | TypeError
  | AttributeError
  | IndexError
  | ZeroDivisionError
  | RuntimeError
  | AssertionError
  | FileNotFoundError
  | OSError
  | SubprocessError
  | URLError
  | HTTPError
  | HTTPException
  | JSONDecodeError
  | NotImplementedError
  | RobotNotReady
  | MotionFailed
  | LimitViolation
  | ScenarioFailed
  | TransformException
  | OtherException

datatype exn_class =
    CException | CKeyError | CValueError | CTypeError | CRuntimeError | CAssertionError
  | COSError | CSubprocessError | CURLError | CHTTPError | CJSONDecodeError | CLimitViolation | CScenarioFailed
  | CTransformException

text \<open>
  \<open>isinstance e c\<close>: an \<open>except c\<close> clause catches \<open>e\<close>. \<open>URLError\<close>, \<open>HTTPError\<close> and
  \<open>FileNotFoundError\<close> are subclasses of \<open>OSError\<close>, \<open>JSONDecodeError\<close> and the client's
  \<open>LimitViolation\<close> of \<open>ValueError\<close>, \<open>RobotNotReady\<close>, \<open>MotionFailed\<close> and \<open>NotImplementedError\<close> of
  \<open>RuntimeError\<close>, \<open>ScenarioFailed\<close> of \<open>AssertionError\<close>; \<open>http.client.HTTPException\<close> is a direct
  subclass of \<open>Exception\<close>.
\<close>

fun isinstance :: "exn \<Rightarrow> exn_class \<Rightarrow> bool" where
  "isinstance e CException = True"
| "isinstance e CKeyError = (case e of KeyError _ \<Rightarrow> True | _ \<Rightarrow> False)"
| "isinstance e CValueError = (e \<in> {ValueError, JSONDecodeError, LimitViolation})"
| "isinstance e CTypeError = (e = TypeError)"
| "isinstance e CRuntimeError =
     (e \<in> {RuntimeError, NotImplementedError, RobotNotReady, MotionFailed})"
| "isinstance e CAssertionError = (e \<in> {AssertionError, ScenarioFailed})"
| "isinstance e COSError = (e \<in> {OSError, FileNotFoundError, URLError, HTTPError})"
| "isinstance e CSubprocessError = (e = SubprocessError)"
| "isinstance e CURLError = (e \<in> {URLError, HTTPError})"
| "isinstance e CHTTPError = (e = HTTPError)"
| "isinstance e CJSONDecodeError = (e = JSONDecodeError)"
| "isinstance e CLimitViolation = (e = LimitViolation)"
| "isinstance e CScenarioFailed = (e = ScenarioFailed)"
| "isinstance e CTransformException = (e = TransformException)"

definition caught :: "exn \<Rightarrow> exn_class list \<Rightarrow> bool" where
  "caught e cs = list_ex (isinstance e) cs"

subsection \<open>Computations that may raise\<close>

type_synonym 'a res = "exn + 'a"

definition rbind :: "'a res \<Rightarrow> ('a \<Rightarrow> 'b res) \<Rightarrow> 'b res" where
  "rbind m f = (case m of Inl e \<Rightarrow> Inl e | Inr x \<Rightarrow> f x)"

fun rmap :: "('a \<Rightarrow> 'b res) \<Rightarrow> 'a list \<Rightarrow> 'b list res" where
  "rmap f [] = Inr []"
| "rmap f (x # xs) = rbind (f x) (\<lambda>y. rbind (rmap f xs) (\<lambda>ys. Inr (y # ys)))"

abbreviation is_ok :: "'a res \<Rightarrow> bool" where
  "is_ok r \<equiv> \<exists>x. r = Inr x"

subsection \<open>Documents\<close>

datatype json =
    JNull
  | JBool bool
  | JInt int
  | JNum real
  | JStr string
  | JArr "json list"
  | JObj "(string \<times> json) list"

text \<open>The truth value of \<open>if j:\<close>.\<close>

fun truthy :: "json \<Rightarrow> bool" where
  "truthy JNull = False"
| "truthy (JBool b) = b"
| "truthy (JInt n) = (n \<noteq> 0)"
| "truthy (JNum x) = (x \<noteq> 0)"
| "truthy (JStr s) = (s \<noteq> [])"
| "truthy (JArr xs) = (xs \<noteq> [])"
| "truthy (JObj kvs) = (kvs \<noteq> [])"

text \<open>\<open>j[k]\<close> with a string key: a missing key raises \<open>KeyError\<close>, a value that is not a
  dictionary \<open>TypeError\<close>.\<close>

fun jitem :: "json \<Rightarrow> string \<Rightarrow> json res" where
  "jitem (JObj kvs) k = (case map_of kvs k of None \<Rightarrow> Inl (KeyError k) | Some v \<Rightarrow> Inr v)"
| "jitem _ k = Inl TypeError"

text \<open>\<open>j.get(k, d)\<close>: only dictionaries have the method.\<close>

fun jget :: "json \<Rightarrow> string \<Rightarrow> json \<Rightarrow> json res" where
  "jget (JObj kvs) k d = Inr (case map_of kvs k of None \<Rightarrow> d | Some v \<Rightarrow> v)"
| "jget _ k d = Inl AttributeError"

text \<open>\<open>k in j\<close> for a string \<open>k\<close>: key of a dictionary, element of a list, substring of a string.\<close>

fun jin :: "string \<Rightarrow> json \<Rightarrow> bool res" where
  "jin k (JObj kvs) = Inr (k \<in> fst ` set kvs)"
| "jin k (JArr xs) = Inr (JStr k \<in> set xs)"
| "jin k (JStr s) = Inr (sublist k s)"
| "jin k _ = Inl TypeError"

text \<open>The number an arithmetic comparison reads; booleans are integers in Python.\<close>

fun jnum :: "json \<Rightarrow> real res" where
  "jnum (JInt n) = Inr (real_of_int n)"
| "jnum (JNum x) = Inr x"
| "jnum (JBool b) = Inr (of_bool b)"
| "jnum _ = Inl TypeError"

text \<open>The elements \<open>for x in j\<close> visits.\<close>

fun jiter :: "json \<Rightarrow> json list res" where
  "jiter (JObj kvs) = Inr (map (JStr \<circ> fst) kvs)"
| "jiter (JArr xs) = Inr xs"
| "jiter (JStr s) = Inr (map (\<lambda>c. JStr [c]) s)"
| "jiter _ = Inl TypeError"

text \<open>Python's list index: negative indices count from the end.\<close>

definition py_index :: "'a list \<Rightarrow> int \<Rightarrow> 'a res" where
  "py_index xs i =
     (if 0 \<le> i \<and> nat i < length xs then Inr (xs ! nat i)
      else if i < 0 \<and> nat (- i) \<le> length xs then Inr (xs ! (length xs - nat (- i)))
      else Inl IndexError)"

text \<open>\<open>j[x]\<close> for any \<open>x\<close>.\<close>

fun jsub :: "json \<Rightarrow> json \<Rightarrow> json res" where
  "jsub j (JStr k) = jitem j k"
| "jsub (JArr xs) (JInt i) = py_index xs i"
| "jsub (JArr xs) (JBool b) = py_index xs (of_bool b)"
| "jsub (JObj kvs) (JArr _) = Inl TypeError"
| "jsub (JObj kvs) (JObj _) = Inl TypeError"
| "jsub (JObj kvs) _ = Inl (KeyError [])"
| "jsub _ _ = Inl TypeError"

text \<open>\<open>sorted(xs)\<close>: strings and numbers can be ordered, a list that mixes them or holds anything else
  cannot.\<close>

definition is_jstr :: "json \<Rightarrow> bool" where
  "is_jstr j = (case j of JStr _ \<Rightarrow> True | _ \<Rightarrow> False)"

definition is_jnum :: "json \<Rightarrow> bool" where
  "is_jnum j = (case jnum j of Inl _ \<Rightarrow> False | Inr _ \<Rightarrow> True)"

definition jstr_val :: "json \<Rightarrow> string" where
  "jstr_val j = (case j of JStr s \<Rightarrow> s | _ \<Rightarrow> [])"

definition jnum_val :: "json \<Rightarrow> real" where
  "jnum_val j = (case jnum j of Inl _ \<Rightarrow> 0 | Inr x \<Rightarrow> x)"

definition py_sorted :: "json list \<Rightarrow> json list res" where
  "py_sorted xs =
     (if length xs \<le> 1 then Inr xs
      else if list_all is_jstr xs then Inr (sort_key jstr_val xs)
      else if list_all is_jnum xs then Inr (sort_key jnum_val xs)
      else Inl TypeError)"

text \<open>\<open>j.items()\<close>.\<close>

fun jitems :: "json \<Rightarrow> (string \<times> json) list res" where
  "jitems (JObj kvs) = Inr kvs"
| "jitems _ = Inl AttributeError"

text \<open>\<open>j == n\<close> for an integer \<open>n\<close>: equality never raises.\<close>

definition jeq_int :: "json \<Rightarrow> int \<Rightarrow> bool" where
  "jeq_int j n = (jnum j = Inr (real_of_int n))"

text \<open>\<open>x == y\<close> on documents: numbers and booleans compare by value, lists element by element,
  dictionaries as maps.\<close>

function (sequential) py_eq :: "json \<Rightarrow> json \<Rightarrow> bool" where
  "py_eq (JArr xs) (JArr ys) \<longleftrightarrow> length xs = length ys \<and> (\<forall>p \<in> set (zip xs ys). py_eq (fst p) (snd p))"
| "py_eq (JObj d) (JObj e) \<longleftrightarrow> length d = length e
     \<and> (\<forall>kv \<in> set d. case map_of e (fst kv) of None \<Rightarrow> False | Some v \<Rightarrow> py_eq (snd kv) v)"
| "py_eq (JStr s) j \<longleftrightarrow> j = JStr s"
| "py_eq JNull j \<longleftrightarrow> j = JNull"
| "py_eq (JInt n) j \<longleftrightarrow> jnum j = Inr (real_of_int n)"
| "py_eq (JNum x) j \<longleftrightarrow> jnum j = Inr x"
| "py_eq (JBool b) j \<longleftrightarrow> jnum j = Inr (of_bool b)"
| "py_eq _ _ \<longleftrightarrow> False"
  by pat_completeness auto
termination
proof (relation "measure (size \<circ> fst)")
  fix xs ys :: "json list" and p
  assume "p \<in> set (zip xs ys)"
  then have "fst p \<in> set xs" by (metis prod.collapse set_zip_leftD)
  then have "size (fst p) \<le> size_list size xs" by (rule size_list_estimation') simp
  then show "((fst p, snd p), (JArr xs, JArr ys)) \<in> measure (size \<circ> fst)" by simp
next
  fix d e :: "(string \<times> json) list" and kv v
  assume "kv \<in> set d"
  then have "Suc (size (snd kv)) \<le> size_list (\<lambda>x. Suc (size (snd x))) d" by (rule size_list_estimation') simp
  then show "((snd kv, v), (JObj d, JObj e)) \<in> measure (size \<circ> fst)" by (auto simp: size_prod_simp)
qed simp

text \<open>\<open>x in j\<close> for any \<open>x\<close>: lists and dictionaries are unhashable, so they cannot be looked up in a
  dictionary; the elements of a list are compared with \<open>==\<close>.\<close>

fun jmember :: "json \<Rightarrow> json \<Rightarrow> bool res" where
  "jmember (JStr k) j = jin k j"
| "jmember x (JArr ys) = Inr (list_ex (py_eq x) ys)"
| "jmember (JArr _) (JObj _) = Inl TypeError"
| "jmember (JObj _) (JObj _) = Inl TypeError"
| "jmember _ (JObj _) = Inr False"
| "jmember _ _ = Inl TypeError"

text \<open>\<open>x >= y\<close>: numbers by value, texts by code points, lists by their first difference; any other pair raises.\<close>

fun py_ge :: "json \<Rightarrow> json \<Rightarrow> bool res" where
  "py_ge (JStr s) (JStr t) = Inr (t \<le> s)"
| "py_ge (JArr []) (JArr ys) = Inr (ys = [])"
| "py_ge (JArr (x # xs)) (JArr []) = Inr True"
| "py_ge (JArr (x # xs)) (JArr (y # ys)) = (if py_eq x y then py_ge (JArr xs) (JArr ys) else py_ge x y)"
| "py_ge x y = rbind (jnum x) (\<lambda>m. rbind (jnum y) (\<lambda>n. Inr (n \<le> m)))"

lemma py_ge_num: "jnum x = Inr m \<Longrightarrow> jnum y = Inr n \<Longrightarrow> py_ge x y = Inr (n \<le> m)"
  by (cases x; cases y) (simp_all add: rbind_def)

text \<open>\<open>f'{x:.1f}'\<close>: numbers format, a string has no such format code, other values no format.\<close>

fun fmt_f :: "json \<Rightarrow> real res" where
  "fmt_f (JStr s) = Inl ValueError"
| "fmt_f j = jnum j"

lemma fmt_f_num: "jnum x = Inr m \<Longrightarrow> fmt_f x = Inr m"
  by (cases x) simp_all

text \<open>A document read from JSON, or built as nested dictionaries, has distinct keys in every object.\<close>

fun wf_doc :: "json \<Rightarrow> bool" where
  "wf_doc (JObj kvs) \<longleftrightarrow> distinct (map fst kvs) \<and> (\<forall>kv \<in> set kvs. wf_doc (snd kv))"
| "wf_doc (JArr xs) \<longleftrightarrow> (\<forall>x \<in> set xs. wf_doc x)"
| "wf_doc _ \<longleftrightarrow> True"

subsection \<open>Numbers\<close>

text \<open>\<open>x / y\<close> on floats. A zero divisor is an error value; numpy scalars would give an infinity or
  NaN instead, which the reals do not have either.\<close>

definition py_div :: "real \<Rightarrow> real \<Rightarrow> real res" where
  "py_div x y = (if y = 0 then Inl ZeroDivisionError else Inr (x / y))"

definition py_mod :: "real \<Rightarrow> real \<Rightarrow> real" where
  "py_mod x y = x - y * real_of_int \<lfloor>x / y\<rfloor>"

text \<open>\<open>round(x)\<close>: to the nearest integer, halves to the even neighbour.\<close>

definition py_round :: "real \<Rightarrow> int" where
  "py_round x =
     (let f = \<lfloor>x\<rfloor>; d = x - real_of_int f in
      if d < 1 / 2 then f else if 1 / 2 < d then f + 1 else if even f then f else f + 1)"

definition py_round_to :: "nat \<Rightarrow> real \<Rightarrow> real" where
  "py_round_to n x = real_of_int (py_round (x * 10 ^ n)) / 10 ^ n"

text \<open>\<open>int(x)\<close>: truncation towards zero.\<close>

definition py_trunc :: "real \<Rightarrow> int" where
  "py_trunc x = (if 0 \<le> x then \<lfloor>x\<rfloor> else \<lceil>x\<rceil>)"

subsection \<open>Strings\<close>

definition is_space :: "char \<Rightarrow> bool" where
  "is_space c \<longleftrightarrow> (of_char c :: nat) \<in> {9, 10, 11, 12, 13, 28, 29, 30, 31, 32}"

text \<open>\<open>s.strip()\<close>.\<close>

definition py_strip :: "string \<Rightarrow> string" where
  "py_strip s = rev (dropWhile is_space (rev (dropWhile is_space s)))"

definition is_digit :: "char \<Rightarrow> bool" where
  "is_digit c \<longleftrightarrow> 48 \<le> (of_char c :: nat) \<and> (of_char c :: nat) \<le> 57"

definition digits_value :: "string \<Rightarrow> nat" where
  "digits_value ds = foldl (\<lambda>a c. 10 * a + (of_char c - 48)) 0 ds"

text \<open>An optional sign: its factor and the rest.\<close>

definition take_sign :: "string \<Rightarrow> int \<times> string" where
  "take_sign s =
     (case s of
        c # r \<Rightarrow> if of_char c = (45 :: nat) then (- 1, r) else if of_char c = (43 :: nat) then (1, r) else (1, s)
      | [] \<Rightarrow> (1, s))"

text \<open>\<open>int(s)\<close> and \<open>float(s)\<close> on decimal literals; \<open>inf\<close>, \<open>nan\<close> and underscores are not modelled.\<close>

definition py_int_str :: "string \<Rightarrow> int res" where
  "py_int_str s =
     (case take_sign (py_strip s) of
        (sign, ds) \<Rightarrow>
          if ds = [] \<or> \<not> list_all is_digit ds then Inl ValueError
          else Inr (sign * int (digits_value ds)))"

definition take_exponent :: "string \<Rightarrow> int option" where
  "take_exponent s =
     (case s of
        [] \<Rightarrow> Some 0
      | c # r \<Rightarrow>
          if of_char c \<in> {69, 101 :: nat}
          then (case take_sign r of
                  (sign, ds) \<Rightarrow> if ds = [] \<or> \<not> list_all is_digit ds then None
                                else Some (sign * int (digits_value ds)))
          else None)"

definition py_float_str :: "string \<Rightarrow> real res" where
  "py_float_str s =
     (let (sign, r) = take_sign (py_strip s);
          whole = takeWhile is_digit r; r1 = dropWhile is_digit r;
          dotted = (case r1 of c # _ \<Rightarrow> of_char c = (46 :: nat) | [] \<Rightarrow> False);
          frac = (if dotted then takeWhile is_digit (tl r1) else []);
          r2 = (if dotted then dropWhile is_digit (tl r1) else r1)
      in if whole = [] \<and> frac = [] then Inl ValueError
         else (case take_exponent r2 of
                 None \<Rightarrow> Inl ValueError
               | Some e \<Rightarrow>
                   Inr (real_of_int sign * (real (digits_value (whole @ frac)) / 10 ^ length frac)
                        * 10 powr real_of_int e)))"

text \<open>\<open>float(j)\<close> and \<open>int(j)\<close> of a document.\<close>

fun py_float :: "json \<Rightarrow> real res" where
  "py_float (JStr s) = py_float_str s"
| "py_float j = jnum j"

fun py_int :: "json \<Rightarrow> int res" where
  "py_int (JInt n) = Inr n"
| "py_int (JBool b) = Inr (of_bool b)"
| "py_int (JNum x) = Inr (py_trunc x)"
| "py_int (JStr s) = py_int_str s"
| "py_int _ = Inl TypeError"

text \<open>\<open>str(n)\<close> of an integer, and \<open>f'{x:.kf}'\<close> of a float.\<close>

fun show_nat :: "nat \<Rightarrow> string" where
  "show_nat n = (if n < 10 then [char_of (48 + n)] else show_nat (n div 10) @ [char_of (48 + n mod 10)])"

declare show_nat.simps [simp del]

definition show_int :: "int \<Rightarrow> string" where
  "show_int n = (if n < 0 then ''-'' else []) @ show_nat (nat \<bar>n\<bar>)"

definition py_fixed :: "nat \<Rightarrow> real \<Rightarrow> string" where
  "py_fixed k x =
     (let r = nat (py_round (\<bar>x\<bar> * 10 ^ k)); digits = show_nat (r mod 10 ^ k)
      in (if x < 0 then ''-'' else []) @ show_nat (r div 10 ^ k)
         @ (if k = 0 then [] else ''.'' @ replicate (k - length digits) (CHR ''0'') @ digits))"

text \<open>\<open>sep.join(parts)\<close>.\<close>

fun py_join :: "string \<Rightarrow> string list \<Rightarrow> string" where
  "py_join sep [] = []"
| "py_join sep [x] = x"
| "py_join sep (x # xs) = x @ sep @ py_join sep xs"

text \<open>\<open>f'{j}'\<close> and \<open>f'{j:.kf}'\<close> of a document; \<open>str\<close> is \<open>str()\<close> on what is not a string.\<close>

definition shown :: "(json \<Rightarrow> string) \<Rightarrow> json \<Rightarrow> string" where
  "shown str j = (case j of JStr s \<Rightarrow> s | _ \<Rightarrow> str j)"

definition shown_fixed :: "nat \<Rightarrow> json \<Rightarrow> string res" where
  "shown_fixed k j = (case j of JStr s \<Rightarrow> Inl ValueError | _ \<Rightarrow> rbind (jnum j) (\<lambda>x. Inr (py_fixed k x)))"

text \<open>\<open>j or {}\<close>.\<close>

definition or_empty :: "json \<Rightarrow> json" where
  "or_empty j = (if truthy j then j else JObj [])"

subsection \<open>Dictionaries built by a comprehension\<close>

text \<open>\<open>{k: v for k, v in pairs}\<close>: a repeated key keeps its first position and takes its last
  value.\<close>

definition dict_of :: "('k \<times> 'v) list \<Rightarrow> ('k \<times> 'v) list" where
  "dict_of kvs = foldl (\<lambda>d (k, v). AList.update k v d) [] kvs"

subsection \<open>Lemmas on computations that may raise\<close>

lemma rbind_Inl [simp, res_simps]: "rbind (Inl e) f = Inl e"
  by (simp add: rbind_def)

lemma rbind_Inr [simp, res_simps]: "rbind (Inr x) f = f x"
  by (simp add: rbind_def)

lemma rbind_eq_Inr: "rbind m f = Inr y \<longleftrightarrow> (\<exists>x. m = Inr x \<and> f x = Inr y)"
  by (cases m) auto

lemma rbind_eq_Inl: "rbind m f = Inl e \<longleftrightarrow> m = Inl e \<or> (\<exists>x. m = Inr x \<and> f x = Inl e)"
  by (cases m) auto

lemma rbind_assoc: "rbind (rbind m f) g = rbind m (\<lambda>x. rbind (f x) g)"
  by (cases m) auto

lemma rmap_ok: "(\<And>x. x \<in> set xs \<Longrightarrow> f x = Inr (g x)) \<Longrightarrow> rmap f xs = Inr (map g xs)"
  by (induction xs) auto

lemma rmap_eq_Inr_iff: "rmap f xs = Inr ys \<longleftrightarrow> list_all2 (\<lambda>x y. f x = Inr y) xs ys"
proof (induction xs arbitrary: ys)
  case (Cons x xs)
  then show ?case by (cases ys) (auto simp: rbind_eq_Inr)
qed auto

lemma rmap_length: "rmap f xs = Inr ys \<Longrightarrow> length ys = length xs"
  by (auto simp: rmap_eq_Inr_iff dest: list_all2_lengthD)

lemma caught_iff: "caught e cs \<longleftrightarrow> (\<exists>c \<in> set cs. isinstance e c)"
  by (simp add: caught_def list_ex_iff)

subsection \<open>Lemmas on documents\<close>

lemma jitem_eq_Inr: "jitem j k = Inr v \<longleftrightarrow> (\<exists>kvs. j = JObj kvs \<and> map_of kvs k = Some v)"
  by (cases j) (auto split: option.splits)

lemma jget_eq_Inr:
  "jget j k d = Inr v \<longleftrightarrow> (\<exists>kvs. j = JObj kvs \<and> v = (case map_of kvs k of None \<Rightarrow> d | Some w \<Rightarrow> w))"
  by (cases j) auto

lemma jin_JObj_dom: "jin k (JObj kvs) = Inr (map_of kvs k \<noteq> None)"
  by (simp add: map_of_eq_None_iff)

lemma jitems_eq_Inr: "jitems j = Inr kvs \<longleftrightarrow> j = JObj kvs"
  by (cases j) auto

lemma jstr_val_JStr [simp]: "jstr_val (JStr s) = s"
  by (simp add: jstr_val_def)

lemma is_jstr_JStr [simp]: "is_jstr (JStr s)"
  by (simp add: is_jstr_def)

lemma sort_key_map_JStr: "sort_key jstr_val (map JStr xs) = map JStr (sort xs)"
proof -
  have ins: "insort_key jstr_val (JStr x) (map JStr ys) = map JStr (insort x ys)" for x ys
    by (induction ys) auto
  show ?thesis by (induction xs) (auto simp: ins)
qed

lemma py_sorted_strings [json_simps]: "py_sorted (map JStr xs) = Inr (map JStr (sort xs))"
proof (cases "length xs \<le> 1")
  case True
  then have "sort xs = xs" by (cases xs) auto
  with True show ?thesis by (simp add: py_sorted_def)
next
  case False
  then show ?thesis by (simp add: py_sorted_def list_all_iff sort_key_map_JStr)
qed

lemma map_JStr_eq [simp]: "map JStr xs = map JStr ys \<longleftrightarrow> xs = ys"
  by (simp add: inj_map_eq_map inj_def)

subsection \<open>Lemmas on numbers\<close>

lemma py_div_nonzero [simp]: "y \<noteq> 0 \<Longrightarrow> py_div x y = Inr (x / y)"
  by (simp add: py_div_def)

lemma py_div_eq_Inr: "py_div x y = Inr z \<longleftrightarrow> y \<noteq> 0 \<and> z = x / y"
  by (auto simp: py_div_def)

lemma py_mod_bounds:
  assumes "0 < y"
  shows "0 \<le> py_mod x y" and "py_mod x y < y"
proof -
  have "real_of_int \<lfloor>x / y\<rfloor> * y \<le> x"
    using assms by (simp flip: pos_le_divide_eq)
  then show "0 \<le> py_mod x y" by (simp add: py_mod_def mult.commute)
  have "x / y < real_of_int \<lfloor>x / y\<rfloor> + 1" by linarith
  then have "x < (real_of_int \<lfloor>x / y\<rfloor> + 1) * y"
    using assms by (simp only: pos_divide_less_eq)
  then show "py_mod x y < y" by (simp add: py_mod_def algebra_simps)
qed

lemma py_mod_id: "0 \<le> x \<Longrightarrow> x < y \<Longrightarrow> py_mod x y = x"
  by (simp add: py_mod_def floor_eq_iff)

lemma py_mod_cong: "\<exists>k :: int. py_mod x y = x - y * real_of_int k"
  by (auto simp: py_mod_def)

lemma py_round_error: "\<bar>real_of_int (py_round x) - x\<bar> \<le> 1 / 2"
  unfolding py_round_def Let_def by (auto split: if_splits)

lemma py_round_of_int [simp]: "py_round (real_of_int n) = n"
  by (simp add: py_round_def)

lemma py_round_mono: "x \<le> y \<Longrightarrow> py_round x \<le> py_round y"
proof -
  assume "x \<le> y"
  then have fl: "\<lfloor>x\<rfloor> \<le> \<lfloor>y\<rfloor>" by (rule floor_mono)
  show ?thesis
  proof (cases "\<lfloor>x\<rfloor> = \<lfloor>y\<rfloor>")
    case True
    with \<open>x \<le> y\<close> show ?thesis by (auto simp: py_round_def Let_def)
  next
    case False
    with fl have "\<lfloor>x\<rfloor> + 1 \<le> \<lfloor>y\<rfloor>" by simp
    moreover have "py_round x \<le> \<lfloor>x\<rfloor> + 1" and "\<lfloor>y\<rfloor> \<le> py_round y"
      by (auto simp: py_round_def Let_def)
    ultimately show ?thesis by linarith
  qed
qed

lemma py_round_to_error: "\<bar>py_round_to n x - x\<bar> \<le> 1 / (2 * 10 ^ n)"
proof -
  have p: "(0::real) < 10 ^ n" by simp
  have "\<bar>real_of_int (py_round (x * 10 ^ n)) - x * 10 ^ n\<bar> \<le> 1 / 2"
    by (rule py_round_error)
  then have "\<bar>real_of_int (py_round (x * 10 ^ n)) - x * 10 ^ n\<bar> / 10 ^ n \<le> (1 / 2) / 10 ^ n"
    using p by (intro divide_right_mono) simp_all
  then have "\<bar>(real_of_int (py_round (x * 10 ^ n)) - x * 10 ^ n) / 10 ^ n\<bar> \<le> (1 / 2) / 10 ^ n"
    using p by simp
  moreover have "(real_of_int (py_round (x * 10 ^ n)) - x * 10 ^ n) / 10 ^ n = py_round_to n x - x"
    using p by (simp add: py_round_to_def diff_divide_distrib)
  ultimately show ?thesis by simp
qed

subsection \<open>Lemmas on dictionaries\<close>

lemma map_of_update_eq [simp]: "map_of (AList.update k v d) = (map_of d)(k \<mapsto> v)"
  by (rule update_conv')

lemma fst_set_update: "fst ` set (AList.update k v d) = insert k (fst ` set d)"
  by (simp flip: dom_map_of_conv_image_fst)

lemma distinct_keys_update: "distinct (map fst d) \<Longrightarrow> distinct (map fst (AList.update k v d))"
  by (rule distinct_update)

lemma foldl_update_map_of:
  "map_of (foldl (\<lambda>d (k, v). AList.update k v d) d0 kvs) = map_of d0 ++ map_of (rev kvs)"
proof (induction kvs arbitrary: d0)
  case (Cons p kvs)
  obtain k v where p: "p = (k, v)" by (cases p)
  have "map_of (foldl (\<lambda>d (k, v). AList.update k v d) d0 (p # kvs))
        = (map_of d0)(k \<mapsto> v) ++ map_of (rev kvs)"
    using Cons.IH [of "AList.update k v d0"] by (simp add: p del: fun_upd_apply)
  then show ?case by (simp add: p map_add_def fun_eq_iff split: option.splits)
qed simp

lemma map_of_dict_of: "map_of (dict_of kvs) = map_of (rev kvs)"
  by (simp add: dict_of_def foldl_update_map_of)

lemma foldl_update_distinct:
  "distinct (map fst d0) \<Longrightarrow> distinct (map fst (foldl (\<lambda>d (k, v). AList.update k v d) d0 kvs))"
  by (induction kvs arbitrary: d0) (auto simp: distinct_keys_update split: prod.splits)

lemma distinct_dict_of: "distinct (map fst (dict_of kvs))"
  by (simp add: dict_of_def foldl_update_distinct)

lemma keys_dict_of: "fst ` set (dict_of kvs) = fst ` set kvs"
proof -
  have "dom (map_of (dict_of kvs)) = dom (map_of (rev kvs))" by (simp add: map_of_dict_of)
  then show ?thesis by (simp add: dom_map_of_conv_image_fst)
qed

lemma py_float_str_error: "py_float_str s = Inl e \<Longrightarrow> e = ValueError"
  by (auto simp: py_float_str_def Let_def split: prod.splits if_splits option.splits)

subsection \<open>Systems driven by a sequence of operations\<close>

text \<open>
  A component is used through a sequence of operations; \<open>foldl step s es\<close> is its state after
  them. The two contracts below are what its clients rely on, proved once for every such
  component.
\<close>

locale inv_system =
  fixes step :: "'s \<Rightarrow> 'e \<Rightarrow> 's" and inv :: "'s \<Rightarrow> bool"
  assumes inv_step: "inv s \<Longrightarrow> inv (step s e)"
begin

lemma inv_run: "inv s \<Longrightarrow> inv (foldl step s es)"
  by (induction es arbitrary: s) (auto intro: inv_step)

lemma inv_every_prefix: "inv s \<Longrightarrow> prefix es es' \<Longrightarrow> inv (foldl step s es)"
  by (rule inv_run)

end

locale log_system =
  fixes step :: "'s \<Rightarrow> 'e \<Rightarrow> 's" and log :: "'s \<Rightarrow> 'l list"
  assumes log_step: "prefix (log s) (log (step s e))"
begin

lemma log_run: "prefix (log s) (log (foldl step s es))"
proof (induction es arbitrary: s)
  case (Cons e es)
  have "prefix (log s) (log (step s e))" by (rule log_step)
  also have "prefix \<dots> (log (foldl step (step s e) es))" by (rule Cons.IH)
  finally show ?case by simp
qed simp

lemma log_entries_kept: "x \<in> set (log s) \<Longrightarrow> x \<in> set (log (foldl step s es))"
  using log_run [of s es] by (auto simp: prefix_def)

end

text \<open>A keyed record that is never overwritten, as long as the invariant holds.\<close>

locale write_once = inv_system step inv
  for step :: "'s \<Rightarrow> 'e \<Rightarrow> 's" and inv :: "'s \<Rightarrow> bool" +
  fixes look :: "'s \<Rightarrow> 'k \<Rightarrow> 'v option"
  assumes look_step: "inv s \<Longrightarrow> look s k = Some v \<Longrightarrow> look (step s e) k = Some v"
begin

lemma look_run: "inv s \<Longrightarrow> look s k = Some v \<Longrightarrow> look (foldl step s es) k = Some v"
  by (induction es arbitrary: s) (auto intro: inv_step look_step)

end

end
