(* ===== verification/Robot_State.thy ===== *)
theory Robot_State
  imports Prelude
begin

section \<open>Aggregated robot state (\<open>threevn_dashboard/robot_state.py\<close>)\<close>

text \<open>
  The store the dashboard's callbacks write and its readers take snapshots of. Every method holds
  the lock for its whole body, so a run is a sequence of whole operations. The values the injected
  clock returns are arguments: \<open>update_*\<close> take one reading, \<open>snapshot\<close> one per age and one for the
  uptime, in the order the source reads them. The second half states what readiness means over the
  history of updates (\<open>ready_spec\<close>).
\<close>

subsection \<open>Data\<close>

definition STALE_AFTER_SECONDS :: real where
  "STALE_AFTER_SECONDS = 1"

definition CONTROLLER_STALE_AFTER_SECONDS :: real where
  "CONTROLLER_STALE_AFTER_SECONDS = 6"

definition REQUIRED_CONTROLLERS :: "string list" where
  "REQUIRED_CONTROLLERS = [''joint_state_broadcaster'', ''arm_controller'']"

record joint =
  jt_position :: real
  jt_velocity :: "real option"

record robot_state =
  rs_started :: real
  rs_joints :: "(string \<times> joint) list"
  rs_joint_stamp :: "real option"
  rs_controllers :: "(string \<times> string) list"
  rs_controller_stamp :: "real option"
  rs_hardware :: "(string \<times> string) list"
  rs_hardware_stamp :: "real option"
  rs_joint_messages :: nat

record snapshot =
  sn_uptime_seconds :: real
  sn_joints :: "(string \<times> joint) list"
  sn_joint_state_age :: "real option"
  sn_joint_messages :: nat
  sn_joints_fresh :: bool
  sn_controllers :: "(string \<times> string) list"
  sn_controllers_fresh :: bool
  sn_controller_state_age :: "real option"
  sn_hardware :: "(string \<times> string) list"
  sn_hardware_fresh :: bool
  sn_hardware_state_age :: "real option"
  sn_missing_controllers :: "string list"
  sn_ready :: bool

datatype why =
    NoJointState
  | JointsStale real
  | ControllersStale real
  | NotActive string

subsection \<open>Writers\<close>

definition rs_init :: "real \<Rightarrow> robot_state" where
  "rs_init now =
     \<lparr>rs_started = now, rs_joints = [], rs_joint_stamp = None, rs_controllers = [],
      rs_controller_stamp = None, rs_hardware = [], rs_hardware_stamp = None,
      rs_joint_messages = 0\<rparr>"

definition joint_entries :: "string list \<Rightarrow> real list \<Rightarrow> real list \<Rightarrow> (string \<times> joint) list" where
  "joint_entries names positions velocities =
     map (\<lambda>(i, name, position).
            (name, \<lparr>jt_position = position,
                    jt_velocity = (if i < length velocities then Some (velocities ! i) else None)\<rparr>))
         (enumerate 0 (zip names positions))"

definition update_joints ::
  "real \<Rightarrow> string list \<Rightarrow> real list \<Rightarrow> real list \<Rightarrow> robot_state \<Rightarrow> robot_state" where
  "update_joints now names positions velocities s =
     s\<lparr>rs_joints := dict_of (joint_entries names positions velocities),
       rs_joint_stamp := Some now,
       rs_joint_messages := rs_joint_messages s + 1\<rparr>"

definition update_controllers :: "real \<Rightarrow> (string \<times> string) list \<Rightarrow> robot_state \<Rightarrow> robot_state" where
  "update_controllers now controllers s =
     s\<lparr>rs_controllers := controllers, rs_controller_stamp := Some now\<rparr>"

definition update_hardware :: "real \<Rightarrow> (string \<times> string) list \<Rightarrow> robot_state \<Rightarrow> robot_state" where
  "update_hardware now components s =
     s\<lparr>rs_hardware := components, rs_hardware_stamp := Some now\<rparr>"

subsection \<open>Readers\<close>

definition age :: "real \<Rightarrow> real option \<Rightarrow> real option" where
  "age now stamp = map_option (\<lambda>t. now - t) stamp"

definition fresh :: "real \<Rightarrow> real option \<Rightarrow> bool" where
  "fresh limit a = (case a of None \<Rightarrow> False | Some x \<Rightarrow> x \<le> limit)"

definition active_names :: "(string \<times> string) list \<Rightarrow> string set" where
  "active_names cs = {n. (n, ''active'') \<in> set cs}"

definition snapshot_of :: "real \<Rightarrow> real \<Rightarrow> real \<Rightarrow> real \<Rightarrow> robot_state \<Rightarrow> snapshot" where
  "snapshot_of tj tc th tu s =
     (let joint_age = age tj (rs_joint_stamp s);
          controller_age = age tc (rs_controller_stamp s);
          controllers_fresh = fresh CONTROLLER_STALE_AFTER_SECONDS controller_age;
          hardware_age = age th (rs_hardware_stamp s);
          hardware_fresh = fresh CONTROLLER_STALE_AFTER_SECONDS hardware_age;
          active = (if controllers_fresh then active_names (rs_controllers s) else {});
          missing = filter (\<lambda>c. c \<notin> active) REQUIRED_CONTROLLERS;
          joints_fresh = fresh STALE_AFTER_SECONDS joint_age
      in \<lparr>sn_uptime_seconds = py_round_to 1 (tu - rs_started s),
          sn_joints = rs_joints s,
          sn_joint_state_age = map_option (py_round_to 3) joint_age,
          sn_joint_messages = rs_joint_messages s,
          sn_joints_fresh = joints_fresh,
          sn_controllers = rs_controllers s,
          sn_controllers_fresh = controllers_fresh,
          sn_controller_state_age = map_option (py_round_to 1) controller_age,
          sn_hardware = rs_hardware s,
          sn_hardware_fresh = hardware_fresh,
          sn_hardware_state_age = map_option (py_round_to 1) hardware_age,
          sn_missing_controllers = missing,
          sn_ready = (joints_fresh \<and> missing = [])\<rparr>)"

definition is_ready :: "real \<Rightarrow> real \<Rightarrow> real \<Rightarrow> real \<Rightarrow> robot_state \<Rightarrow> bool" where
  "is_ready tj tc th tu s = sn_ready (snapshot_of tj tc th tu s)"

definition readiness_detail :: "real \<Rightarrow> real \<Rightarrow> real \<Rightarrow> real \<Rightarrow> robot_state \<Rightarrow> bool \<times> why list" where
  "readiness_detail tj tc th tu s =
     (let snap = snapshot_of tj tc th tu s;
          r1 = (case sn_joint_state_age snap of
                  None \<Rightarrow> [NoJointState]
                | Some a \<Rightarrow> if sn_joints_fresh snap then [] else [JointsStale a]);
          r2 = (case sn_controller_state_age snap of
                  None \<Rightarrow> []
                | Some a \<Rightarrow> if sn_controllers_fresh snap then [] else [ControllersStale a]);
          r3 = map NotActive (sn_missing_controllers snap)
      in (sn_ready snap, r1 @ r2 @ r3))"

subsection \<open>Histories of updates\<close>

datatype rs_event =
    Joints real "string list" "real list" "real list"
  | Controllers real "(string \<times> string) list"
  | Hardware real "(string \<times> string) list"

fun rs_apply :: "robot_state \<Rightarrow> rs_event \<Rightarrow> robot_state" where
  "rs_apply s (Joints t ns ps vs) = update_joints t ns ps vs s"
| "rs_apply s (Controllers t cs) = update_controllers t cs s"
| "rs_apply s (Hardware t hs) = update_hardware t hs s"

text \<open>The last update of each kind.\<close>

fun last_joints :: "rs_event list \<Rightarrow> real option" where
  "last_joints [] = None"
| "last_joints (Joints t _ _ _ # es) = Some t"
| "last_joints (_ # es) = last_joints es"

fun last_controllers :: "rs_event list \<Rightarrow> (real \<times> (string \<times> string) list) option" where
  "last_controllers [] = None"
| "last_controllers (Controllers t cs # es) = Some (t, cs)"
| "last_controllers (_ # es) = last_controllers es"

definition ready_spec :: "rs_event list \<Rightarrow> real \<Rightarrow> real \<Rightarrow> bool" where
  "ready_spec es tj tc \<longleftrightarrow>
     (\<exists>t. last_joints (rev es) = Some t \<and> tj - t \<le> 1)
     \<and> (\<exists>t cs. last_controllers (rev es) = Some (t, cs) \<and> tc - t \<le> 6
            \<and> (''joint_state_broadcaster'', ''active'') \<in> set cs
            \<and> (''arm_controller'', ''active'') \<in> set cs)"

subsection \<open>Lemmas\<close>

lemma rs_stamps:
  "rs_joint_stamp (foldl rs_apply (rs_init t0) es) = last_joints (rev es)"
  "rs_controller_stamp (foldl rs_apply (rs_init t0) es) = map_option fst (last_controllers (rev es))"
  "rs_controllers (foldl rs_apply (rs_init t0) es)
   = (case last_controllers (rev es) of None \<Rightarrow> [] | Some (_, cs) \<Rightarrow> cs)"
proof (induction es rule: rev_induct)
  case Nil
  { case 1 show ?case by (simp add: rs_init_def) }
  { case 2 show ?case by (simp add: rs_init_def) }
  { case 3 show ?case by (simp add: rs_init_def) }
next
  case (snoc e es)
  { case 1 show ?case
      using snoc by (cases e) (simp_all add: update_joints_def update_controllers_def update_hardware_def) }
  { case 2 show ?case
      using snoc by (cases e) (simp_all add: update_joints_def update_controllers_def update_hardware_def) }
  { case 3 show ?case
      using snoc by (cases e) (simp_all add: update_joints_def update_controllers_def update_hardware_def) }
qed

lemma snapshot_ready:
  "sn_ready (snapshot_of tj tc th tu s) \<longleftrightarrow>
     fresh 1 (age tj (rs_joint_stamp s)) \<and> fresh 6 (age tc (rs_controller_stamp s))
     \<and> (''joint_state_broadcaster'', ''active'') \<in> set (rs_controllers s)
     \<and> (''arm_controller'', ''active'') \<in> set (rs_controllers s)"
  by (auto simp: snapshot_of_def Let_def REQUIRED_CONTROLLERS_def STALE_AFTER_SECONDS_def
      CONTROLLER_STALE_AFTER_SECONDS_def active_names_def)

lemma readiness_reasons:
  "snd (readiness_detail tj tc th tu s) = [] \<longleftrightarrow> sn_ready (snapshot_of tj tc th tu s)"
  by (auto simp: readiness_detail_def Let_def snapshot_of_def fresh_def age_def REQUIRED_CONTROLLERS_def
      split: option.splits if_splits)

definition messages_le :: "nat \<Rightarrow> robot_state \<Rightarrow> bool" where
  "messages_le n s \<longleftrightarrow> n \<le> rs_joint_messages s"

interpretation rs: inv_system rs_apply "messages_le n" for n
proof
  show "messages_le n s \<Longrightarrow> messages_le n (rs_apply s e)" for s e
    by (cases e) (simp_all add: messages_le_def update_joints_def update_controllers_def update_hardware_def)
qed

lemma length_joint_entries [simp]:
  "length (joint_entries ns ps vs) = min (length ns) (length ps)"
  by (simp add: joint_entries_def)

lemma joint_entries_nth:
  "i < length ns \<Longrightarrow> i < length ps \<Longrightarrow>
   joint_entries ns ps vs ! i =
     (ns ! i, \<lparr>jt_position = ps ! i, jt_velocity = (if i < length vs then Some (vs ! i) else None)\<rparr>)"
  by (simp add: joint_entries_def nth_enumerate_eq)

lemma fst_joint_entries: "map fst (joint_entries ns ps vs) = take (min (length ns) (length ps)) ns"
  by (rule nth_equalityI) (simp_all add: joint_entries_nth)

subsection \<open>Properties\<close>

text \<open>Readiness is exactly what it claims. After any sequence of updates, whatever their times, a
  snapshot says \<open>ready\<close> if and only if the last joint state is at most 1 second old, the last
  controller list is at most 6 seconds old, and that list has both required controllers active: no
  stale list, and nothing before the last one, counts.\<close>

theorem ready_iff_history:
  "is_ready tj tc th tu (foldl rs_apply (rs_init t0) es) \<longleftrightarrow> ready_spec es tj tc"
  unfolding is_ready_def snapshot_ready rs_stamps ready_spec_def
  by (auto simp: fresh_def age_def split: option.splits)

text \<open>The reasons explain readiness. \<open>readiness_detail\<close> reports the snapshot's own verdict, and
  its list of reasons is empty exactly when the robot is ready: \<open>/readyz\<close> never fails without a reason
  and never gives one for a robot it calls ready.\<close>

theorem readiness_detail_consistent:
  "fst (readiness_detail tj tc th tu s) = is_ready tj tc th tu s
   \<and> (snd (readiness_detail tj tc th tu s) = [] \<longleftrightarrow> is_ready tj tc th tu s)"
  using readiness_reasons [of tj tc th tu s]
  by (simp add: is_ready_def readiness_detail_def Let_def)

text \<open>A joint message is stored as sent. After \<open>update_joints\<close> with distinct names, looking up the
  \<open>i\<close>-th name gives its position, and its velocity if the message carried one that far; names beyond
  the shorter of the two lists are dropped; nothing of an earlier message remains.\<close>

theorem update_joints_lookup:
  assumes "distinct names" and "i < length names"
  shows "map_of (rs_joints (update_joints now names positions velocities s)) (names ! i) =
     (if i < length positions
      then Some \<lparr>jt_position = positions ! i,
                 jt_velocity = (if i < length velocities then Some (velocities ! i) else None)\<rparr>
      else None)"
proof -
  let ?es = "joint_entries names positions velocities"
  let ?n = "min (length names) (length positions)"
  have fst: "map fst ?es = take ?n names" by (rule fst_joint_entries)
  then have dist: "distinct (map fst (rev ?es))"
    using assms(1) by (simp add: rev_map [symmetric])
  have look: "map_of (dict_of ?es) k = map_of (rev ?es) k" for k by (simp add: map_of_dict_of)
  show ?thesis
  proof (cases "i < length positions")
    case True
    then have "?es ! i \<in> set (rev ?es)" using assms(2) by simp
    then have "map_of (rev ?es) (fst (?es ! i)) = Some (snd (?es ! i))"
      using dist by (simp add: map_of_eq_Some_iff)
    with True assms(2) show ?thesis by (simp add: update_joints_def look joint_entries_nth)
  next
    case False
    have "names ! i \<notin> set (take ?n names)"
      using assms False by (auto simp: in_set_conv_nth nth_eq_iff_index_eq)
    then have "names ! i \<notin> fst ` set (rev ?es)"
      by (simp flip: fst)
    then show ?thesis
      using False by (simp add: update_joints_def look map_of_eq_None_iff)
  qed
qed

theorem update_joints_lookup_witness:
  "map_of (rs_joints (update_joints 5 [''a'', ''b''] [1, 2] [3] (rs_init 0))) ''b''
   = Some \<lparr>jt_position = 2, jt_velocity = None\<rparr>"
  using update_joints_lookup [of "[''a'', ''b'']" 1 5 "[1, 2]" "[3]" "rs_init 0"] by simp

end
