(* ===== verification/Push.thy ===== *)
theory Push
  imports Robot_State
begin

section \<open>Reporting out (\<open>threevn_dashboard/fleet_reporter.py\<close>, \<open>otlp_metrics.py\<close>)\<close>

text \<open>
  Two exporters that POST what the dashboard knows, each on its own thread. The callables they are
  built with return a document or raise; the network is the outcome of one request: the exception
  \<open>opener\<close> raised or the status of the response (\<open>None\<close> when it has no such attribute). One
  attempt returns whether it succeeded, or the exception that escaped, with the number of warnings
  it logged and the new counters; \<open>push_thread\<close> is the loop of \<open>_run\<close> both share, over the outcomes
  of its attempts until it is stopped. The locale \<open>pusher\<close> is the contract of an attempt.
\<close>

subsection \<open>Outcomes and the thread's loop\<close>

record push_io =
  io_state :: "json res"
  io_version :: "json res"
  io_opener :: "int option res"

record push =
  ps_sent :: nat
  ps_failed :: nat
  ps_last_error :: "exn option option"

text \<open>The classes both \<open>except\<close> clauses name.\<close>

definition push_caught :: "exn_class list" where
  "push_caught = [CURLError, CHTTPError, COSError, CValueError, CTypeError]"

definition status_ok :: "int option \<Rightarrow> bool" where
  "status_ok st = (let s = (case st of None \<Rightarrow> 200 | Some x \<Rightarrow> x) in 200 \<le> s \<and> s < 300)"

text \<open>\<open>while not stop: attempt(); wait()\<close>: an exception that escapes an attempt ends the thread. The
  result is the number of attempts that returned, whether the thread is still alive, the
  warnings, and the counters.\<close>

fun push_thread ::
  "('s \<Rightarrow> 'o \<Rightarrow> bool res \<times> nat \<times> 's) \<Rightarrow> 's \<Rightarrow> 'o list \<Rightarrow> nat \<times> bool \<times> nat \<times> 's" where
  "push_thread attempt s [] = (0, True, 0, s)"
| "push_thread attempt s (x # xs) =
     (case attempt s x of
        (Inl e, l, s') \<Rightarrow> (0, False, l, s')
      | (Inr b, l, s') \<Rightarrow>
          (case push_thread attempt s' xs of (n, alive, ls, s'') \<Rightarrow> (n + 1, alive, l + ls, s'')))"

text \<open>What the \<open>try\<close> block's result does to the counters; \<open>period\<close> throttles the warnings, which need
  a logger. A rejected request is counted and not logged.\<close>

definition settle :: "nat \<Rightarrow> bool \<Rightarrow> push \<Rightarrow> bool res \<Rightarrow> bool res \<times> nat \<times> push" where
  "settle period logger s r =
     (case r of
        Inl e \<Rightarrow>
          if caught e push_caught
          then (let failed = ps_failed s + 1 in
                (Inr False, if logger \<and> failed mod period = 1 then 1 else 0,
                 s\<lparr>ps_failed := failed, ps_last_error := Some (Some e)\<rparr>))
          else (Inl e, 0, s)
      | Inr ok \<Rightarrow>
          if ok then (Inr True, 0, s\<lparr>ps_sent := ps_sent s + 1\<rparr>)
          else (Inr False, 0, s\<lparr>ps_failed := ps_failed s + 1, ps_last_error := Some None\<rparr>))"

definition push_new :: push where
  "push_new = \<lparr>ps_sent = 0, ps_failed = 0, ps_last_error = None\<rparr>"

subsection \<open>The contract of an attempt\<close>

locale pusher =
  fixes attempt :: "'s \<Rightarrow> 'o \<Rightarrow> bool res \<times> nat \<times> 's" and sent :: "'s \<Rightarrow> nat" and failed :: "'s \<Rightarrow> nat"
    and period :: nat
  assumes period_pos: "0 < period"
    and attempt_ok: "attempt s x = (Inr True, l, s') \<Longrightarrow> sent s' = sent s + 1 \<and> failed s' = failed s \<and> l = 0"
    and attempt_bad: "attempt s x = (Inr False, l, s') \<Longrightarrow>
      sent s' = sent s \<and> failed s' = failed s + 1 \<and> l \<le> of_bool (failed s' mod period = 1)"
    and attempt_escape: "attempt s x = (Inl e, l, s') \<Longrightarrow> s' = s \<and> l = 0"
begin

lemma attempt_counts:
  "attempt s x = (Inr b, l, s') \<Longrightarrow>
     sent s' + failed s' = sent s + failed s + 1 \<and> sent s \<le> sent s' \<and> failed s \<le> failed s'"
  using attempt_ok attempt_bad by (cases b) fastforce+

lemma thread_counts:
  "push_thread attempt s xs = (n, alive, l, s') \<Longrightarrow>
     sent s' + failed s' = sent s + failed s + n \<and> (alive \<longrightarrow> n = length xs)
     \<and> sent s \<le> sent s' \<and> failed s \<le> failed s'"
proof (induction xs arbitrary: s n l)
  case (Cons x xs)
  show ?case
  proof (cases "fst (attempt s x)")
    case (Inl e)
    then obtain l1 s1 where "attempt s x = (Inl e, l1, s1)" by (cases "attempt s x") auto
    with Cons.prems attempt_escape show ?thesis by fastforce
  next
    case (Inr b)
    then obtain l1 s1 where a: "attempt s x = (Inr b, l1, s1)" by (cases "attempt s x") auto
    obtain m ls where r: "push_thread attempt s1 xs = (m, alive, ls, s')" and "n = m + 1"
      using Cons.prems a by (auto split: prod.splits)
    with Cons.IH [OF r] attempt_counts [OF a] show ?thesis by auto
  qed
qed simp

text \<open>At most one warning per \<open>period\<close> failures: the warnings are paid for by the failures that
  reached a multiple of the period plus one.\<close>

definition paid :: "nat \<Rightarrow> nat" where
  "paid f = (f + period - 1) div period"

lemma paid_mono: "paid f \<le> paid (Suc f)"
  by (simp add: paid_def div_le_mono)

lemma paid_step: "Suc f mod period = 1 \<Longrightarrow> paid (Suc f) = Suc (paid f)"
proof -
  assume m: "Suc f mod period = 1"
  show ?thesis
  proof (cases "period = 1")
    case True
    with m show ?thesis by simp
  next
    case False
    then have p: "1 < period" using period_pos by simp
    obtain q where q: "Suc f = q * period + 1" using m by (metis div_mult_mod_eq)
    then have "f + period - 1 = q * period + (period - 1)" using p by simp
    then have "paid f = (period - 1 + q * period) div period" by (simp add: paid_def add.commute)
    also have "\<dots> = q" using p by (simp only: div_mult_self1) simp
    finally have "paid f = q" .
    moreover have "Suc f + period - 1 = Suc q * period" using q p by simp
    then have "paid (Suc f) = Suc q" using p by (simp add: paid_def del: mult_Suc)
    ultimately show ?thesis by simp
  qed
qed

lemma attempt_paid:
  "attempt s x = (Inr b, l, s') \<Longrightarrow> l + paid (failed s) \<le> paid (failed s')"
proof (cases b)
  case False
  assume "attempt s x = (Inr b, l, s')"
  with False have "failed s' = Suc (failed s)" "l \<le> of_bool (Suc (failed s) mod period = 1)"
    using attempt_bad by fastforce+
  then show ?thesis using paid_mono [of "failed s"] paid_step [of "failed s"]
    by (cases "Suc (failed s) mod period = 1") simp_all
qed (use attempt_ok in fastforce)

lemma thread_warnings:
  "push_thread attempt s xs = (n, alive, l, s') \<Longrightarrow> l + paid (failed s) \<le> paid (failed s')"
proof (induction xs arbitrary: s n l)
  case (Cons x xs)
  show ?case
  proof (cases "fst (attempt s x)")
    case (Inl e)
    then obtain l1 s1 where "attempt s x = (Inl e, l1, s1)" by (cases "attempt s x") auto
    with Cons.prems attempt_escape show ?thesis by fastforce
  next
    case (Inr b)
    then obtain l1 s1 where a: "attempt s x = (Inr b, l1, s1)" by (cases "attempt s x") auto
    obtain m ls where r: "push_thread attempt s1 xs = (m, alive, ls, s')" and "l = l1 + ls"
      using Cons.prems a by (auto split: prod.splits)
    with Cons.IH [OF r] attempt_paid [OF a] show ?thesis by simp
  qed
qed simp

end

lemma settle_pusher:
  assumes "0 < period"
  shows "pusher (\<lambda>s x. settle period logger s (f s x)) ps_sent ps_failed period"
  using assms
  by unfold_locales
    (auto simp: settle_def Let_def split: sum.splits if_splits)

subsection \<open>The dashboard's state as a document\<close>

definition pairs_doc :: "(string \<times> string) list \<Rightarrow> json" where
  "pairs_doc ps = JArr (map (\<lambda>(n, st). JObj [(''name'', JStr n), (''state'', JStr st)]) ps)"

definition opt_num :: "real option \<Rightarrow> json" where
  "opt_num x = (case x of None \<Rightarrow> JNull | Some v \<Rightarrow> JNum v)"

definition joints_doc :: "(string \<times> joint) list \<Rightarrow> json" where
  "joints_doc js = JObj (map (\<lambda>(n, j). (n, JObj [(''position'', JNum (jt_position j)),
                                                (''velocity'', opt_num (jt_velocity j))])) js)"

definition snapshot_items :: "snapshot \<Rightarrow> (string \<times> json) list" where
  "snapshot_items sn =
     [(''uptime_seconds'', JNum (sn_uptime_seconds sn)),
      (''joints'', joints_doc (sn_joints sn)),
      (''joint_state_age_seconds'', opt_num (sn_joint_state_age sn)),
      (''joint_messages'', JInt (int (sn_joint_messages sn))),
      (''joints_fresh'', JBool (sn_joints_fresh sn)),
      (''controllers'', pairs_doc (sn_controllers sn)),
      (''controllers_fresh'', JBool (sn_controllers_fresh sn)),
      (''controller_state_age_seconds'', opt_num (sn_controller_state_age sn)),
      (''hardware'', pairs_doc (sn_hardware sn)),
      (''hardware_fresh'', JBool (sn_hardware_fresh sn)),
      (''hardware_state_age_seconds'', opt_num (sn_hardware_state_age sn)),
      (''missing_controllers'', JArr (map JStr (sn_missing_controllers sn))),
      (''ready'', JBool (sn_ready sn))]"

text \<open>\<open>DashboardNode._fleet_state\<close>: a snapshot, and the reasons of a second one taken at later clock
  readings; \<open>msg\<close> renders a reason.\<close>

definition fleet_state ::
  "(why \<Rightarrow> string) \<Rightarrow> (nat \<Rightarrow> real) \<Rightarrow> robot_state \<Rightarrow> json" where
  "fleet_state msg clk s =
     (let sn = snapshot_of (clk 0) (clk 1) (clk 2) (clk 3) s;
          reasons = snd (readiness_detail (clk 4) (clk 5) (clk 6) (clk 7) s)
      in JObj (snapshot_items sn @ [(''reasons'', JArr (map (JStr \<circ> msg) reasons))]))"

subsection \<open>\<open>FleetReporter\<close>\<close>

record fleet_config =
  fc_url :: string
  fc_token :: string
  fc_interval :: real

definition env_get :: "(string \<Rightarrow> string option) \<Rightarrow> string \<Rightarrow> string" where
  "env_get env name = py_strip (case env name of None \<Rightarrow> [] | Some v \<Rightarrow> v)"

definition env_interval :: "(string \<Rightarrow> string option) \<Rightarrow> string \<Rightarrow> real \<Rightarrow> real res" where
  "env_interval env name dflt =
     (case env name of
        None \<Rightarrow> Inr dflt
      | Some v \<Rightarrow>
          (case py_float_str v of
             Inr x \<Rightarrow> Inr x
           | Inl e \<Rightarrow> if isinstance e CValueError then Inr dflt else Inl e))"

text \<open>The configured reporter, if any, and whether a missing token was warned about.\<close>

definition fleet_from_env :: "(string \<Rightarrow> string option) \<Rightarrow> (fleet_config option \<times> bool) res" where
  "fleet_from_env env =
     (let url = env_get env ''THREEVN_FLEET_URL''; token = env_get env ''THREEVN_FLEET_TOKEN'' in
      if url = [] then Inr (None, False)
      else if token = [] then Inr (None, True)
      else rbind (env_interval env ''THREEVN_FLEET_INTERVAL'' 10) (\<lambda>interval.
             Inr (Some \<lparr>fc_url = url, fc_token = token, fc_interval = interval\<rparr>, False)))"

definition build_report :: "json res \<Rightarrow> json res \<Rightarrow> (string \<times> json) list res" where
  "build_report state_fn version_fn =
     rbind state_fn (\<lambda>st0. rbind version_fn (\<lambda>ver0.
     let state = or_empty st0; version = or_empty ver0; unknown = JStr ''unknown'' in
     rbind (jget version ''robot_id'' unknown) (\<lambda>robot_id.
     rbind (jget version ''software_version'' unknown) (\<lambda>software_version.
     rbind (jget version ''firmware_version'' unknown) (\<lambda>firmware_version.
     rbind (jget version ''git_commit'' unknown) (\<lambda>git_commit.
     rbind (jget version ''robot_model'' unknown) (\<lambda>robot_model.
     rbind (jget version ''hardware_target'' unknown) (\<lambda>hardware_target.
     rbind (jget state ''ready'' (JBool False)) (\<lambda>ready.
     rbind (rbind (jget state ''uptime_seconds'' (JNum 0)) py_float) (\<lambda>uptime.
     rbind (rbind (jget state ''joint_messages'' (JInt 0)) py_int) (\<lambda>messages.
     rbind (rbind (jget state ''reasons'' (JArr [])) jiter) (\<lambda>reasons.
       Inr [(''robot_id'', robot_id), (''software_version'', software_version),
            (''firmware_version'', firmware_version), (''git_commit'', git_commit),
            (''robot_model'', robot_model), (''hardware_target'', hardware_target),
            (''ready'', JBool (truthy ready)), (''uptime_seconds'', JNum uptime),
            (''joint_messages'', JInt messages), (''reasons'', JArr (take 8 reasons))]))))))))))))"

definition send_once :: "bool \<Rightarrow> push \<Rightarrow> push_io \<Rightarrow> bool res \<times> nat \<times> push" where
  "send_once logger s io =
     settle 30 logger s
       (rbind (build_report (io_state io) (io_version io)) (\<lambda>report.
        rbind (io_opener io) (\<lambda>st. Inr (status_ok st))))"

interpretation fleet: pusher "send_once logger" ps_sent ps_failed 30 for logger
  unfolding send_once_def by (rule settle_pusher) simp

subsection \<open>\<open>OtlpMetricsExporter\<close>\<close>

datatype otlp_value = BoolValue bool | IntValue int | DoubleValue real | StringValue json

record otlp_attr =
  at_key :: string
  at_value :: otlp_value

datatype otlp_data = Gauge real | Sum int int

record otlp_metric =
  om_name :: string
  om_unit :: string
  om_description :: string
  om_data :: otlp_data
  om_time :: int
  om_attributes :: "otlp_attr list"

text \<open>\<open>StringValue j\<close> is \<open>str(j)\<close>. The caller never passes \<open>attributes\<close>.\<close>

definition otlp_attr_of :: "string \<Rightarrow> json \<Rightarrow> otlp_attr" where
  "otlp_attr_of key v =
     \<lparr>at_key = key,
      at_value = (case v of JBool b \<Rightarrow> BoolValue b | JInt n \<Rightarrow> IntValue n | JNum x \<Rightarrow> DoubleValue x
                  | _ \<Rightarrow> StringValue v)\<rparr>"

definition gauge :: "int \<Rightarrow> string \<Rightarrow> json \<Rightarrow> string \<Rightarrow> string \<Rightarrow> otlp_metric res" where
  "gauge now name v unit description =
     rbind (py_float v) (\<lambda>x.
       Inr \<lparr>om_name = name, om_unit = unit, om_description = description, om_data = Gauge x, om_time = now,
            om_attributes = []\<rparr>)"

definition counter :: "int \<Rightarrow> string \<Rightarrow> json \<Rightarrow> int \<Rightarrow> string \<Rightarrow> string \<Rightarrow> otlp_metric res" where
  "counter now name v start_ns unit description =
     rbind (py_int v) (\<lambda>n.
       Inr \<lparr>om_name = name, om_unit = unit, om_description = description, om_data = Sum n start_ns, om_time = now,
            om_attributes = []\<rparr>)"

definition resource_attributes :: "json res \<Rightarrow> otlp_attr list res" where
  "resource_attributes version_fn =
     rbind version_fn (\<lambda>ver0.
     let version = or_empty ver0; unknown = JStr ''unknown'' in
     rbind (rmap (\<lambda>(key, field). rbind (jget version field unknown) (\<lambda>v. Inr (otlp_attr_of key v)))
       [(''service.version'', ''software_version''), (''robot.id'', ''robot_id''),
        (''robot.model'', ''robot_model''), (''robot.hardware_target'', ''hardware_target''),
        (''robot.firmware_version'', ''firmware_version''), (''git.commit'', ''git_commit'')])
     (\<lambda>attrs. Inr (otlp_attr_of ''service.name'' (JStr ''threevn_robot'') # attrs)))"

text \<open>\<open>sum(1 for c in xs if c.get('state') == 'active')\<close> over \<open>state.get(key) or []\<close>.\<close>

definition count_active :: "json \<Rightarrow> string \<Rightarrow> nat res" where
  "count_active state key =
     rbind (jget state key JNull) (\<lambda>xs.
     rbind (jiter (if truthy xs then xs else JArr [])) (\<lambda>cs.
     rbind (rmap (\<lambda>c. jget c ''state'' JNull) cs) (\<lambda>sts.
       Inr (length (filter (\<lambda>st. st = JStr ''active'') sts)))))"

text \<open>Each flag with the name of its metric, and \<open>key.replace('_', ' ')\<close>.\<close>

definition fresh_flags :: "(string \<times> string) list" where
  "fresh_flags = [(''joints_fresh'', ''threevn.joint_states.fresh''),
                  (''controllers_fresh'', ''threevn.controllers.fresh''),
                  (''hardware_fresh'', ''threevn.hardware.fresh'')]"

definition spaced :: "string \<Rightarrow> string" where
  "spaced key = map (\<lambda>c. if c = CHR ''_'' then CHR '' '' else c) key"

definition build_metrics ::
  "(nat \<Rightarrow> int) \<Rightarrow> int \<Rightarrow> nat \<Rightarrow> json res \<Rightarrow> otlp_metric list res" where
  "build_metrics clk start_ns failed state_fn =
     rbind state_fn (\<lambda>st0.
     let state = or_empty st0; one = \<lambda>b. JInt (if b then 1 else 0) in
     rbind (count_active state ''controllers'') (\<lambda>active.
     rbind (count_active state ''hardware'') (\<lambda>hardware_active.
     rbind (jget state ''joint_state_age_seconds'' JNull) (\<lambda>age.
     rbind (jget state ''ready'' JNull) (\<lambda>ready.
     rbind (gauge (clk 0) ''threevn.robot.ready'' (one (truthy ready)) ''1''
              ''1 when the robot is usable, 0 otherwise'') (\<lambda>m0.
     rbind (rbind (jget state ''uptime_seconds'' (JNum 0)) (\<lambda>u.
              gauge (clk 1) ''threevn.robot.uptime'' u ''s'' ''dashboard uptime'')) (\<lambda>m1.
     rbind (gauge (clk 2) ''threevn.controllers.active'' (JInt (int active)) ''{controller}''
              ''controllers reporting active'') (\<lambda>m2.
     rbind (gauge (clk 3) ''threevn.hardware.active'' (JInt (int hardware_active)) ''{component}''
              ''hardware components reporting active'') (\<lambda>m3.
     rbind (rbind (jget state ''joint_messages'' (JInt 0)) (\<lambda>n.
              counter (clk 4) ''threevn.joint_states.received'' n start_ns ''1''
                ''joint state messages received since start'')) (\<lambda>m4.
     rbind (if age = JNull then Inr []
            else rbind (gauge (clk 5) ''threevn.joint_states.age'' age ''s'' ''seconds since the last joint state'')
                   (\<lambda>m. Inr [m])) (\<lambda>m5.
     rbind (rmap (\<lambda>(i, key, name).
              rbind (jin key state) (\<lambda>present.
                if present
                then rbind (jitem state key) (\<lambda>v.
                     rbind (gauge (clk (6 + i)) name (one (truthy v)) ''1'' (''1 when '' @ spaced key)) (\<lambda>m. Inr [m]))
                else Inr [])) (enumerate 0 fresh_flags)) (\<lambda>flags.
     rbind (counter (clk 9) ''threevn.otlp.export.failures'' (JInt (int failed)) start_ns ''1''
              ''failed metric exports; a robot reporting this is still healthy, the pipeline is not'') (\<lambda>m9.
       Inr ([m0, m1, m2, m3, m4] @ m5 @ concat flags @ [m9]))))))))))))))"

subsection \<open>The OTLP envelope\<close>

text \<open>\<open>CUMULATIVE\<close>, and the documents of attributes and metrics; \<open>str\<close> is Python's \<open>str()\<close>.\<close>

definition CUMULATIVE :: int where
  "CUMULATIVE = 2"

definition attr_doc :: "(json \<Rightarrow> string) \<Rightarrow> otlp_attr \<Rightarrow> json" where
  "attr_doc str a =
     JObj [(''key'', JStr (at_key a)),
           (''value'', JObj [case at_value a of
                BoolValue b \<Rightarrow> (''boolValue'', JBool b)
              | IntValue n \<Rightarrow> (''intValue'', JStr (str (JInt n)))
              | DoubleValue x \<Rightarrow> (''doubleValue'', JNum x)
              | StringValue v \<Rightarrow> (''stringValue'', JStr (str v))])]"

definition metric_doc :: "(json \<Rightarrow> string) \<Rightarrow> otlp_metric \<Rightarrow> json" where
  "metric_doc str m =
     (let attributes = (''attributes'', JArr (map (attr_doc str) (om_attributes m)));
          time = (''timeUnixNano'', JStr (str (JInt (om_time m))))
      in JObj [(''name'', JStr (om_name m)), (''unit'', JStr (om_unit m)), (''description'', JStr (om_description m)),
           case om_data m of
             Gauge x \<Rightarrow> (''gauge'', JObj [(''dataPoints'', JArr [JObj [(''asDouble'', JNum x), time, attributes]])])
           | Sum n start_ns \<Rightarrow>
               (''sum'', JObj [(''aggregationTemporality'', JInt CUMULATIVE), (''isMonotonic'', JBool True),
                  (''dataPoints'', JArr [JObj [(''asInt'', JStr (str (JInt n))),
                     (''startTimeUnixNano'', JStr (str (JInt start_ns))), time, attributes]])])])"

definition build_payload :: "(json \<Rightarrow> string) \<Rightarrow> otlp_attr list \<Rightarrow> otlp_metric list \<Rightarrow> json" where
  "build_payload str attributes metrics =
     JObj [(''resourceMetrics'', JArr [JObj
       [(''resource'', JObj [(''attributes'', JArr (map (attr_doc str) attributes))]),
        (''scopeMetrics'', JArr [JObj
          [(''scope'', JObj [(''name'', JStr ''threevn_dashboard'')]),
           (''metrics'', JArr (map (metric_doc str) metrics))]])]])]"

definition export_once ::
  "(nat \<Rightarrow> int) \<Rightarrow> int \<Rightarrow> bool \<Rightarrow> push \<Rightarrow> push_io \<Rightarrow> bool res \<times> nat \<times> push" where
  "export_once clk start_ns logger s io =
     settle 20 logger s
       (rbind (resource_attributes (io_version io)) (\<lambda>attrs.
        rbind (build_metrics clk start_ns (ps_failed s) (io_state io)) (\<lambda>ms.
        rbind (io_opener io) (\<lambda>st. Inr (status_ok st)))))"

interpretation otlp: pusher "export_once clk start_ns logger" ps_sent ps_failed 20
  for clk start_ns logger
  unfolding export_once_def by (rule settle_pusher) simp

record otlp_config =
  oc_endpoint :: string
  oc_authorization :: "string option"
  oc_interval :: real

definition otlp_from_env :: "(string \<Rightarrow> string option) \<Rightarrow> otlp_config option res" where
  "otlp_from_env env =
     (let endpoint = env_get env ''THREEVN_OTLP_ENDPOINT''; token = env_get env ''THREEVN_OTLP_TOKEN'' in
      if endpoint = [] then Inr None
      else rbind (env_interval env ''THREEVN_OTLP_INTERVAL'' 15) (\<lambda>interval.
             Inr (Some \<lparr>oc_endpoint = endpoint,
                        oc_authorization = (if token = [] then None else Some (''Bearer '' @ token)),
                        oc_interval = interval\<rparr>)))"

text \<open>The requests: URL, headers and the document of the body.\<close>

definition fleet_request :: "fleet_config \<Rightarrow> (string \<times> json) list \<Rightarrow> string \<times> (string \<times> string) list \<times> json" where
  "fleet_request c report =
     (fc_url c, [(''Content-Type'', ''application/json''), (''Authorization'', ''Bearer '' @ fc_token c)], JObj report)"

definition otlp_headers :: "otlp_config \<Rightarrow> (string \<times> string) list" where
  "otlp_headers c = (case oc_authorization c of None \<Rightarrow> [] | Some v \<Rightarrow> [(''Authorization'', v)])"

definition otlp_request ::
  "(json \<Rightarrow> string) \<Rightarrow> otlp_config \<Rightarrow> otlp_attr list \<Rightarrow> otlp_metric list \<Rightarrow> string \<times> (string \<times> string) list \<times> json" where
  "otlp_request str c attributes metrics =
     (oc_endpoint c, (''Content-Type'', ''application/json'') # otlp_headers c, build_payload str attributes metrics)"

subsection \<open>Lemmas: documents of the dashboard\<close>

lemma jget_fleet_state:
  "jget (fleet_state msg clk s) key d = Inr (case map_of
     (snapshot_items (snapshot_of (clk 0) (clk 1) (clk 2) (clk 3) s)
      @ [(''reasons'', JArr (map (JStr \<circ> msg) (snd (readiness_detail (clk 4) (clk 5) (clk 6) (clk 7) s))))])
     key of None \<Rightarrow> d | Some v \<Rightarrow> v)"
  by (simp add: fleet_state_def Let_def del: map_of_append)

lemma truthy_fleet_state: "or_empty (fleet_state msg clk s) = fleet_state msg clk s"
  by (simp add: or_empty_def fleet_state_def Let_def)

lemma count_active_pairs:
  assumes "jget state key JNull = Inr (pairs_doc ps)"
  shows "count_active state key = Inr (length (filter (\<lambda>(n, st). st = ''active'') ps))"
proof -
  have it: "jiter (if truthy (pairs_doc ps) then pairs_doc ps else JArr [])
      = Inr (map (\<lambda>(n, st). JObj [(''name'', JStr n), (''state'', JStr st)]) ps)"
    by (simp add: pairs_doc_def)
  have st: "rmap (\<lambda>c. jget c ''state'' JNull)
      (map (\<lambda>(n, st). JObj [(''name'', JStr n), (''state'', JStr st)]) qs) = Inr (map (JStr \<circ> snd) qs)" for qs
    by (induction qs) auto
  have "length (filter (\<lambda>st. st = JStr ''active'') (map (JStr \<circ> snd) ps))
      = length (filter (\<lambda>(n, st). st = ''active'') ps)"
    by (induction ps) auto
  then show ?thesis by (simp add: count_active_def assms it st)
qed

subsection \<open>Properties\<close>

text \<open>The exporters' books balance. For any sequence of outcomes, both threads count every attempt
  that returned exactly once, as sent or as failed; while the thread is alive that is every attempt; and
  an unreachable server costs at most one warning per 30 (fleet) or 20 (metrics) failures.\<close>

theorem push_threads_account:
  assumes "push_thread (send_once logger) push_new ios = (n, alive, l, s)"
    and "push_thread (export_once clk start_ns logger) push_new ios = (n', alive', l', s')"
  shows "ps_sent s + ps_failed s = n \<and> (alive \<longrightarrow> n = length ios) \<and> l \<le> (ps_failed s + 29) div 30
         \<and> ps_sent s' + ps_failed s' = n' \<and> (alive' \<longrightarrow> n' = length ios) \<and> l' \<le> (ps_failed s' + 19) div 20"
  using fleet.thread_counts [OF assms(1)] fleet.thread_warnings [OF assms(1)]
    otlp.thread_counts [OF assms(2)] otlp.thread_warnings [OF assms(2)]
  by (simp add: push_new_def fleet.paid_def otlp.paid_def add.commute)

definition offline :: push_io where
  "offline = \<lparr>io_state = Inr JNull, io_version = Inr JNull, io_opener = Inl URLError\<rparr>"

theorem push_threads_account_witness:
  "\<exists>n alive l s n' alive' l' s'.
     push_thread (send_once True) push_new [offline, offline] = (n, alive, l, s)
     \<and> push_thread (export_once (\<lambda>_. 0) 0 True) push_new [offline, offline] = (n', alive', l', s')
     \<and> ps_sent s + ps_failed s = n \<and> l \<le> (ps_failed s + 29) div 30"
proof -
  obtain n alive l s where a: "push_thread (send_once True) push_new [offline, offline] = (n, alive, l, s)"
    by (metis surj_pair)
  obtain n' alive' l' s' where
    b: "push_thread (export_once (\<lambda>_. 0) 0 True) push_new [offline, offline] = (n', alive', l', s')"
    by (metis surj_pair)
  from push_threads_account [OF a b] a b show ?thesis by blast
qed

text \<open>\<open>never raises\<close> holds for five exception classes only. \<open>send_once\<close> lets exactly those
  exceptions of its request escape that are none of \<open>URLError\<close>, \<open>HTTPError\<close>, \<open>OSError\<close>, \<open>ValueError\<close>,
  \<open>TypeError\<close>; then the counters stay as they were and the reporting thread is over. A server that
  drops the connection mid-reply (\<open>http.client.HTTPException\<close>) does that.\<close>

theorem send_once_escapes_iff:
  fixes io :: push_io
  defines "request \<equiv> rbind (build_report (io_state io) (io_version io)) (\<lambda>_. io_opener io)"
  shows "(fst (send_once logger s io) = Inl e \<longleftrightarrow> request = Inl e \<and> \<not> caught e push_caught)
         \<and> (fst (send_once logger s io) = Inl e \<longrightarrow>
              push_thread (send_once logger) s (io # ios) = (0, False, 0, s))
         \<and> (request = Inl HTTPException \<longrightarrow>
              push_thread (send_once logger) s (io # ios) = (0, False, 0, s))"
proof -
  have "rbind (build_report (io_state io) (io_version io))
          (\<lambda>report. rbind (io_opener io) (\<lambda>st. Inr (status_ok st)))
        = rbind request (\<lambda>st. Inr (status_ok st))"
    by (simp add: request_def rbind_assoc)
  then have s: "send_once logger s io = settle 30 logger s (rbind request (\<lambda>st. Inr (status_ok st)))"
    by (simp add: send_once_def)
  have "\<not> caught HTTPException push_caught" by (simp add: caught_def push_caught_def)
  with s show ?thesis
    by (cases request) (auto simp: settle_def Let_def split: if_splits)
qed

theorem send_once_escapes_iff_witness:
  "push_thread (send_once True) push_new
     [\<lparr>io_state = Inr JNull, io_version = Inr JNull, io_opener = Inl HTTPException\<rparr>, offline]
   = (0, False, 0, push_new)"
  using send_once_escapes_iff
    [where io = "\<lparr>io_state = Inr JNull, io_version = Inr JNull, io_opener = Inl HTTPException\<rparr>"
       and logger = True and s = push_new and e = HTTPException and ios = "[offline]"]
  by (simp add: build_report_def or_empty_def Let_def)

text \<open>What crosses the wire. From any dashboard state and any version dictionary the report is
  built without raising; it has exactly ten fields, none of them a joint value, carries the
  snapshot's readiness and message count, and at most eight reasons.\<close>

theorem report_of_dashboard:
  "\<exists>vs reasons. build_report (Inr (fleet_state msg clk s)) (Inr (JObj ver)) = Inr
     (zip [''robot_id'', ''software_version'', ''firmware_version'', ''git_commit'', ''robot_model'',
           ''hardware_target''] vs
      @ [(''ready'', JBool (is_ready (clk 0) (clk 1) (clk 2) (clk 3) s)),
         (''uptime_seconds'', JNum (py_round_to 1 (clk 3 - rs_started s))),
         (''joint_messages'', JInt (int (rs_joint_messages s))),
         (''reasons'', JArr reasons)])
     \<and> length vs = 6 \<and> length reasons \<le> 8"
proof -
  have ver: "or_empty (JObj ver) = JObj ver" by (simp add: or_empty_def)
  have "sn_uptime_seconds (snapshot_of (clk 0) (clk 1) (clk 2) (clk 3) s)
        = py_round_to 1 (clk 3 - rs_started s)"
    "sn_joint_messages (snapshot_of (clk 0) (clk 1) (clk 2) (clk 3) s) = rs_joint_messages s"
    by (simp_all add: snapshot_of_def Let_def)
  then show ?thesis
    by (simp add: build_report_def Let_def truthy_fleet_state ver jget_fleet_state snapshot_items_def
        is_ready_def)
      (rule exI [of _ "[_, _, _, _, _, _]"], simp)
qed

lemma jin_fleet_state:
  "jin key (fleet_state msg clk s) = Inr (key \<in> set (map fst (snapshot_items (snapshot_of (clk 0) (clk 1) (clk 2) (clk 3) s)))
     \<or> key = ''reasons'')"
  by (auto simp: fleet_state_def Let_def)

lemma jitem_fleet_state:
  "map_of (snapshot_items (snapshot_of (clk 0) (clk 1) (clk 2) (clk 3) s)) key = Some v \<Longrightarrow>
     jitem (fleet_state msg clk s) key = Inr v"
  by (simp add: fleet_state_def Let_def)

lemma count_active_fleet_state:
  fixes clk s
  defines "sn \<equiv> snapshot_of (clk 0) (clk 1) (clk 2) (clk 3) s"
  shows "count_active (fleet_state msg clk s) ''controllers'' =
           Inr (length (filter (\<lambda>(n, st). st = ''active'') (sn_controllers sn)))"
    and "count_active (fleet_state msg clk s) ''hardware'' =
           Inr (length (filter (\<lambda>(n, st). st = ''active'') (sn_hardware sn)))"
  unfolding sn_def by (rule count_active_pairs, simp add: jget_fleet_state snapshot_items_def)+

text \<open>C25: what the metrics say. From any state of the dashboard and any version dictionary, the metrics and
  the resource are built without raising. The metrics are exactly those of the snapshot: readiness as 1
  or 0, the numbers of active controllers and components, the message count, one flag per source, the
  failures so far; the age of the joint state is left out exactly while there has been none. The
  resource names the robot by seven attributes.\<close>

theorem metrics_of_dashboard:
  fixes clk :: "nat \<Rightarrow> real" and s :: robot_state
  defines "sn \<equiv> snapshot_of (clk 0) (clk 1) (clk 2) (clk 3) s"
  shows "(\<exists>ms. build_metrics ns start_ns failed (Inr (fleet_state msg clk s)) = Inr ms
     \<and> map (\<lambda>m. (om_name m, om_unit m, om_data m)) ms =
        [(''threevn.robot.ready'', ''1'', Gauge (of_bool (is_ready (clk 0) (clk 1) (clk 2) (clk 3) s))),
         (''threevn.robot.uptime'', ''s'', Gauge (py_round_to 1 (clk 3 - rs_started s))),
         (''threevn.controllers.active'', ''{controller}'',
            Gauge (real (length (filter (\<lambda>(n, st). st = ''active'') (sn_controllers sn))))),
         (''threevn.hardware.active'', ''{component}'',
            Gauge (real (length (filter (\<lambda>(n, st). st = ''active'') (sn_hardware sn))))),
         (''threevn.joint_states.received'', ''1'', Sum (int (rs_joint_messages s)) start_ns)]
        @ (case sn_joint_state_age sn of None \<Rightarrow> [] | Some a \<Rightarrow> [(''threevn.joint_states.age'', ''s'', Gauge a)])
        @ [(''threevn.joint_states.fresh'', ''1'', Gauge (of_bool (sn_joints_fresh sn))),
           (''threevn.controllers.fresh'', ''1'', Gauge (of_bool (sn_controllers_fresh sn))),
           (''threevn.hardware.fresh'', ''1'', Gauge (of_bool (sn_hardware_fresh sn))),
           (''threevn.otlp.export.failures'', ''1'', Sum (int failed) start_ns)])
   \<and> (\<exists>attrs. resource_attributes (Inr (JObj ver)) = Inr attrs \<and> map at_key attrs =
        [''service.name'', ''service.version'', ''robot.id'', ''robot.model'', ''robot.hardware_target'',
         ''robot.firmware_version'', ''git.commit''])"
proof -
  have sn: "sn_uptime_seconds sn = py_round_to 1 (clk 3 - rs_started s)" "sn_joint_messages sn = rs_joint_messages s"
    "sn_ready sn = is_ready (clk 0) (clk 1) (clk 2) (clk 3) s"
    by (simp_all add: sn_def snapshot_of_def is_ready_def Let_def)
  have "or_empty (JObj ver) = JObj ver" by (simp add: or_empty_def)
  then have "\<exists>attrs. resource_attributes (Inr (JObj ver)) = Inr attrs \<and> map at_key attrs =
        [''service.name'', ''service.version'', ''robot.id'', ''robot.model'', ''robot.hardware_target'',
         ''robot.firmware_version'', ''git.commit'']"
    by (simp add: resource_attributes_def Let_def otlp_attr_of_def)
  moreover have "\<exists>ms. build_metrics ns start_ns failed (Inr (fleet_state msg clk s)) = Inr ms
     \<and> map (\<lambda>m. (om_name m, om_unit m, om_data m)) ms =
        [(''threevn.robot.ready'', ''1'', Gauge (of_bool (sn_ready sn))),
         (''threevn.robot.uptime'', ''s'', Gauge (sn_uptime_seconds sn)),
         (''threevn.controllers.active'', ''{controller}'',
            Gauge (real (length (filter (\<lambda>(n, st). st = ''active'') (sn_controllers sn))))),
         (''threevn.hardware.active'', ''{component}'',
            Gauge (real (length (filter (\<lambda>(n, st). st = ''active'') (sn_hardware sn))))),
         (''threevn.joint_states.received'', ''1'', Sum (int (sn_joint_messages sn)) start_ns)]
        @ (case sn_joint_state_age sn of None \<Rightarrow> [] | Some a \<Rightarrow> [(''threevn.joint_states.age'', ''s'', Gauge a)])
        @ [(''threevn.joint_states.fresh'', ''1'', Gauge (of_bool (sn_joints_fresh sn))),
           (''threevn.controllers.fresh'', ''1'', Gauge (of_bool (sn_controllers_fresh sn))),
           (''threevn.hardware.fresh'', ''1'', Gauge (of_bool (sn_hardware_fresh sn))),
           (''threevn.otlp.export.failures'', ''1'', Sum (int failed) start_ns)]"
    by (cases "sn_joint_state_age sn")
      (simp_all add: build_metrics_def Let_def truthy_fleet_state count_active_fleet_state jget_fleet_state jin_fleet_state
        jitem_fleet_state snapshot_items_def gauge_def counter_def opt_num_def fresh_flags_def sn_def)
  ultimately show ?thesis unfolding sn by blast
qed

end
