(* ===== verification/Dashboard.thy ===== *)
theory Dashboard
  imports Push
begin

section \<open>The dashboard (\<open>dashboard_node.py\<close>, \<open>http_server.py\<close>, \<open>version.py\<close>)\<close>

text \<open>
  The node's callbacks on the shared state, the HTTP routes, the event stream and the version block.
  The environment, the host name, the clock, the controller manager's answers and the static
  directory are arguments. A route gives a status and a body, and \<open>respond\<close> the bytes and headers sent for
  them; \<open>dumps\<close> is \<open>json.dumps\<close> (with \<open>indent=2\<close> where the source has it), \<open>guess\<close> \<open>mimetypes.guess_type\<close>. The
  event stream is the list of frames written in the iterations before the browser goes away.
\<close>

subsection \<open>\<open>DashboardNode\<close>\<close>

text \<open>The answer of a service call: the list, or the exception \<open>future.result()\<close> raises.\<close>

type_synonym reply = "(string \<times> string) list res"

definition on_joint_state ::
  "real \<Rightarrow> string list \<Rightarrow> real list \<Rightarrow> real list \<Rightarrow> robot_state \<Rightarrow> robot_state" where
  "on_joint_state now name position velocity s = update_joints now name position velocity s"

definition on_controllers :: "real \<Rightarrow> reply \<Rightarrow> robot_state \<Rightarrow> robot_state" where
  "on_controllers now r s = (case r of Inl e \<Rightarrow> s | Inr cs \<Rightarrow> update_controllers now cs s)"

definition on_hardware :: "real \<Rightarrow> reply \<Rightarrow> robot_state \<Rightarrow> robot_state" where
  "on_hardware now r s = (case r of Inl e \<Rightarrow> s | Inr hs \<Rightarrow> update_hardware now hs s)"

text \<open>One poll: which services report themselves ready; the requests it sends (controllers,
  hardware) are answered later, or never.\<close>

definition poll :: "real \<Rightarrow> real \<Rightarrow> bool \<Rightarrow> bool \<Rightarrow> robot_state \<Rightarrow> bool \<times> bool \<times> robot_state" where
  "poll t1 t2 controllers_ready hardware_ready s =
     (let s1 = (if controllers_ready then s else update_controllers t1 [] s);
          s2 = (if hardware_ready then s1 else update_hardware t2 [] s1)
      in (controllers_ready, hardware_ready, s2))"

datatype dash_event =
    JointMsg real "string list" "real list" "real list"
  | PollTick real real bool bool
  | ControllersReply real reply
  | HardwareReply real reply

fun dash_step :: "robot_state \<Rightarrow> dash_event \<Rightarrow> robot_state" where
  "dash_step s (JointMsg t ns ps vs) = on_joint_state t ns ps vs s"
| "dash_step s (PollTick t1 t2 c h) = snd (snd (poll t1 t2 c h s))"
| "dash_step s (ControllersReply t r) = on_controllers t r s"
| "dash_step s (HardwareReply t r) = on_hardware t r s"

text \<open>The updates a sequence of node events makes.\<close>

fun updates_of :: "dash_event \<Rightarrow> rs_event list" where
  "updates_of (JointMsg t ns ps vs) = [Joints t ns ps vs]"
| "updates_of (PollTick t1 t2 c h) =
     (if c then [] else [Controllers t1 []]) @ (if h then [] else [Hardware t2 []])"
| "updates_of (ControllersReply t r) = (case r of Inl e \<Rightarrow> [] | Inr cs \<Rightarrow> [Controllers t cs])"
| "updates_of (HardwareReply t r) = (case r of Inl e \<Rightarrow> [] | Inr hs \<Rightarrow> [Hardware t hs])"

subsection \<open>HTTP routes\<close>

datatype body =
    NotFoundBody "string option"
  | HealthBody
  | ReadyBody bool "why list"
  | VersionBody "(string \<times> string) list"
  | StateBody snapshot
  | FileBody string
  | StreamBody

text \<open>\<open>_send_static\<close>: \<open>resolve\<close> is the path \<open>(STATIC_DIR / name).resolve()\<close> as text, \<open>base\<close> the resolved
  static directory.\<close>

definition send_static :: "(string \<Rightarrow> string) \<Rightarrow> string \<Rightarrow> (string \<Rightarrow> bool) \<Rightarrow> string \<Rightarrow> nat \<times> body" where
  "send_static resolve base is_file name =
     (let path = resolve name in
      if \<not> prefix base path \<or> \<not> is_file path then (404, NotFoundBody None) else (200, FileBody path))"

definition route_of :: "string \<Rightarrow> string" where
  "route_of path =
     (let r = rev (dropWhile (\<lambda>c. c = CHR ''/'') (rev (takeWhile (\<lambda>c. c \<noteq> CHR ''?'') path)))
      in if r = [] then ''/'' else r)"

record site =
  si_resolve :: "string \<Rightarrow> string"
  si_root :: string
  si_is_file :: "string \<Rightarrow> bool"
  si_version :: "(string \<times> string) list"

definition do_GET :: "site \<Rightarrow> real \<Rightarrow> real \<Rightarrow> real \<Rightarrow> real \<Rightarrow> robot_state \<Rightarrow> string \<Rightarrow> nat \<times> body" where
  "do_GET site tj tc th tu s path =
     (let route = route_of path in
      if route = ''/'' then send_static (si_resolve site) (si_root site) (si_is_file site) ''index.html''
      else if route = ''/healthz'' then (200, HealthBody)
      else if route = ''/readyz''
      then (let (ready, reasons) = readiness_detail tj tc th tu s
            in (if ready then 200 else 503, ReadyBody ready reasons))
      else if route = ''/api/version'' then (200, VersionBody (si_version site))
      else if route = ''/api/state'' then (200, StateBody (snapshot_of tj tc th tu s))
      else if route = ''/api/stream'' then (200, StreamBody)
      else (404, NotFoundBody (Some route)))"

subsection \<open>Responses\<close>

record response =
  hr_status :: nat
  hr_headers :: "(string \<times> string) list"
  hr_body :: string

definition send_json :: "(json \<Rightarrow> string) \<Rightarrow> json \<Rightarrow> nat \<Rightarrow> response" where
  "send_json dumps payload status =
     (let body = dumps payload
      in \<lparr>hr_status = status,
          hr_headers = [(''Content-Type'', ''application/json''), (''Content-Length'', show_nat (length body)),
                        (''Cache-Control'', ''no-store'')],
          hr_body = body\<rparr>)"

definition send_bytes :: "string \<Rightarrow> string \<Rightarrow> nat \<Rightarrow> response" where
  "send_bytes body content_type status =
     \<lparr>hr_status = status,
      hr_headers = [(''Content-Type'', content_type), (''Content-Length'', show_nat (length body))],
      hr_body = body\<rparr>"

definition stream_head :: response where
  "stream_head =
     \<lparr>hr_status = 200,
      hr_headers = [(''Content-Type'', ''text/event-stream''), (''Cache-Control'', ''no-store''),
                    (''Connection'', ''keep-alive''), (''X-Accel-Buffering'', ''no'')],
      hr_body = []\<rparr>"

text \<open>The document of a body that is JSON.\<close>

definition body_doc :: "(why \<Rightarrow> string) \<Rightarrow> body \<Rightarrow> json" where
  "body_doc msg b =
     (case b of
        NotFoundBody None \<Rightarrow> JObj [(''error'', JStr ''not found'')]
      | NotFoundBody (Some route) \<Rightarrow> JObj [(''error'', JStr ''not found''), (''path'', JStr route)]
      | HealthBody \<Rightarrow> JObj [(''status'', JStr ''ok''), (''check'', JStr ''liveness'')]
      | ReadyBody ready reasons \<Rightarrow>
          JObj [(''ready'', JBool ready), (''check'', JStr ''readiness''), (''reasons'', JArr (map (JStr \<circ> msg) reasons))]
      | VersionBody v \<Rightarrow> JObj (map (\<lambda>(k, x). (k, JStr x)) v)
      | StateBody snap \<Rightarrow> JObj (snapshot_items snap)
      | _ \<Rightarrow> JNull)"

definition respond ::
  "(json \<Rightarrow> string) \<Rightarrow> (why \<Rightarrow> string) \<Rightarrow> (string \<Rightarrow> string) \<Rightarrow> (string \<Rightarrow> string option) \<Rightarrow> nat \<times> body \<Rightarrow> response" where
  "respond dumps msg read_bytes guess r =
     (case snd r of
        FileBody path \<Rightarrow>
          send_bytes (read_bytes path)
            (case guess path of None \<Rightarrow> ''application/octet-stream'' | Some t \<Rightarrow> if t = [] then ''application/octet-stream'' else t)
            (fst r)
      | StreamBody \<Rightarrow> stream_head
      | b \<Rightarrow> send_json dumps (body_doc msg b) (fst r))"

subsection \<open>The event stream\<close>

datatype frame = Data snapshot | Keepalive

definition KEEPALIVE_INTERVAL :: real where
  "KEEPALIVE_INTERVAL = 15"

text \<open>The iterations of \<open>_stream\<close>, each with the snapshot it sends and the reading after it.\<close>

fun stream :: "real \<Rightarrow> (snapshot \<times> real) list \<Rightarrow> frame list" where
  "stream last_keepalive [] = []"
| "stream last_keepalive ((snap, now) # its) =
     Data snap #
       (if KEEPALIVE_INTERVAL \<le> now - last_keepalive then Keepalive # stream now its
        else stream last_keepalive its)"

text \<open>What a frame looks like on the wire.\<close>

definition newline :: char where
  "newline = CHR 0x0A"

fun frame_text :: "(json \<Rightarrow> string) \<Rightarrow> frame \<Rightarrow> string" where
  "frame_text dumps (Data snap) = ''data: '' @ dumps (JObj (snapshot_items snap)) @ [newline, newline]"
| "frame_text dumps Keepalive = '': keepalive'' @ [newline, newline]"

subsection \<open>Version block\<close>

definition UNKNOWN :: string where
  "UNKNOWN = ''unknown''"

definition SOFTWARE_VERSION :: string where
  "SOFTWARE_VERSION = ''0.20.0''"

definition env_or :: "(string \<Rightarrow> string option) \<Rightarrow> string \<Rightarrow> string \<Rightarrow> string" where
  "env_or env name dflt = (let v = env_get env name in if v = [] then dflt else v)"

definition version_info :: "(string \<Rightarrow> string option) \<Rightarrow> string \<Rightarrow> string \<Rightarrow> (string \<times> string) list" where
  "version_info env hostname now =
     [(''robot_id'', env_or env ''THREEVN_ROBOT_ID'' hostname),
      (''software_version'', SOFTWARE_VERSION),
      (''git_commit'', env_or env ''THREEVN_GIT_COMMIT'' UNKNOWN),
      (''git_branch'', env_or env ''THREEVN_GIT_BRANCH'' UNKNOWN),
      (''firmware_version'', env_or env ''THREEVN_FIRMWARE_VERSION'' UNKNOWN),
      (''robot_model'', env_or env ''THREEVN_ROBOT_MODEL'' ''threevn_arm_v1''),
      (''config_profile'', env_or env ''THREEVN_PROFILE'' ''threevn_arm_v1''),
      (''hardware_target'', env_or env ''THREEVN_TARGET'' UNKNOWN),
      (''deployed_at'', env_or env ''THREEVN_DEPLOYED_AT'' UNKNOWN),
      (''reported_at'', now)]"

definition missing_fields :: "(string \<Rightarrow> string option) \<Rightarrow> string \<Rightarrow> string \<Rightarrow> string list" where
  "missing_fields env hostname now =
     sort (map fst (filter (\<lambda>(k, v). v = UNKNOWN) (version_info env hostname now)))"

subsection \<open>Lemmas\<close>

lemma dash_step_updates: "dash_step s e = foldl rs_apply s (updates_of e)"
  by (cases e) (auto simp: on_joint_state_def poll_def on_controllers_def on_hardware_def Let_def
      split: sum.splits)

lemma dash_run_updates: "foldl dash_step s es = foldl rs_apply s (concat (map updates_of es))"
  by (induction es arbitrary: s) (simp_all add: dash_step_updates)

lemma stream_keepalives:
  "real (length (filter (\<lambda>f. f = Keepalive) (stream t0 its))) * 15 \<le> last (t0 # map snd its) - t0"
  if "sorted (t0 # map snd its)"
  using that
proof (induction t0 its rule: stream.induct)
  case (2 t0 snap now its)
  have "last (t0 # map snd ((snap, now) # its)) = last (now # map snd its)" by simp
  moreover have "now \<le> last (now # map snd its)"
    using 2(3) by (cases "map snd its") auto
  moreover have "sorted (t0 # map snd its)" "sorted (now # map snd its)" "t0 \<le> now" using 2(3) by auto
  moreover have "last (t0 # map snd its) \<le> last (now # map snd its)"
    using calculation by (cases its) auto
  ultimately show ?case
    using 2(1,2) by (auto simp: KEEPALIVE_INTERVAL_def algebra_simps)
qed simp

subsection \<open>Properties\<close>

text \<open>C9: the readiness endpoint tells the truth about the robot. After any sequence of joint messages,
  polls and service replies, in any order and with any of them failing, \<open>GET /readyz\<close> answers 200
  exactly when the last joint message is at most 1 second old and the last controller list received or
  cleared is at most 6 seconds old with both required controllers active, and 503 with at least one
  reason otherwise; \<open>GET /healthz\<close> answers 200 whatever the robot does.\<close>

theorem readyz_after_any_events:
  fixes es :: "dash_event list" and t0 :: real
  defines "s \<equiv> foldl dash_step (rs_init t0) es"
  shows "(\<exists>reasons. do_GET site tj tc th tu s ''/readyz'' =
            (if ready_spec (concat (map updates_of es)) tj tc then (200, ReadyBody True [])
             else (503, ReadyBody False reasons)) \<and> reasons \<noteq> [])
         \<and> do_GET site tj tc th tu s ''/healthz'' = (200, HealthBody)"
proof -
  have s: "s = foldl rs_apply (rs_init t0) (concat (map updates_of es))"
    by (simp add: s_def dash_run_updates)
  have ready: "sn_ready (snapshot_of tj tc th tu s) = ready_spec (concat (map updates_of es)) tj tc"
    unfolding s snapshot_ready rs_stamps ready_spec_def
    by (auto simp: fresh_def age_def split: option.splits)
  have routes: "route_of ''/readyz'' = ''/readyz''" "route_of ''/healthz'' = ''/healthz''"
    by (simp_all add: route_of_def)
  obtain ok reasons where d: "readiness_detail tj tc th tu s = (ok, reasons)" by fastforce
  then have "ok = sn_ready (snapshot_of tj tc th tu s)"
    by (auto simp: readiness_detail_def Let_def)
  moreover have "reasons = [] \<longleftrightarrow> ok"
    using readiness_reasons [of tj tc th tu s] d calculation by simp
  ultimately show ?thesis
    using ready by (simp add: do_GET_def routes d Let_def) (metis (full_types) list.distinct(1))
qed

text \<open>The fleet summary can contradict itself. \<open>_fleet_state\<close> takes the snapshot and the reasons
  from two separate readings of the clock, so there are readings, in order, at which it reports a
  ready robot together with a reason why it is not ready.\<close>

theorem fleet_state_can_contradict:
  "\<exists>clk s. mono clk
     \<and> is_ready (clk 0) (clk 1) (clk 2) (clk 3) s
     \<and> jget (fleet_state msg clk s) ''ready'' JNull = Inr (JBool True)
     \<and> jget (fleet_state msg clk s) ''reasons'' JNull \<noteq> Inr (JArr [])"
proof -
  define s where "s = update_joints 0 [] [] []
     (update_controllers 0 [(''joint_state_broadcaster'', ''active''), (''arm_controller'', ''active'')]
       (rs_init 0))"
  define clk :: "nat \<Rightarrow> real" where "clk i = (if i < 4 then 1 else 2)" for i
  have ready: "is_ready 1 1 1 1 s"
    by (simp add: is_ready_def snapshot_ready s_def update_joints_def update_controllers_def fresh_def age_def)
  have "snd (readiness_detail 2 2 2 2 s) \<noteq> []"
    using readiness_reasons [of 2 2 2 2 s]
    by (simp add: snapshot_ready s_def update_joints_def update_controllers_def fresh_def age_def)
  with ready have "jget (fleet_state msg clk s) ''ready'' JNull = Inr (JBool True)"
    "jget (fleet_state msg clk s) ''reasons'' JNull \<noteq> Inr (JArr [])"
    by (simp_all add: jget_fleet_state snapshot_items_def clk_def is_ready_def)
  moreover have "mono clk" by (simp add: clk_def mono_def)
  moreover have "is_ready (clk 0) (clk 1) (clk 2) (clk 3) s" using ready by (simp add: clk_def)
  ultimately show ?thesis by blast
qed

text \<open>An event stream sends every snapshot, in order, and keeps quiet connections alive without
  flooding them: with a clock that does not run backwards, at most one keepalive is sent per 15
  seconds.\<close>

theorem stream_frames:
  assumes "sorted (t0 # map snd its)"
  shows "filter (\<lambda>f. f \<noteq> Keepalive) (stream t0 its) = map (Data \<circ> fst) its
         \<and> real (length (filter (\<lambda>f. f = Keepalive) (stream t0 its))) * 15 \<le> last (t0 # map snd its) - t0"
proof -
  have "filter (\<lambda>f. f \<noteq> Keepalive) (stream t0 its) = map (Data \<circ> fst) its"
    by (induction t0 its rule: stream.induct) auto
  with stream_keepalives [OF assms] show ?thesis by simp
qed

theorem stream_frames_witness:
  "real (length (filter (\<lambda>f. f = Keepalive)
     (stream 0 [(snapshot_of 0 0 0 0 (rs_init 0), 10), (snapshot_of 0 0 0 0 (rs_init 0), 20)]))) * 15 \<le> 20"
  using stream_frames
    [of 0 "[(snapshot_of 0 0 0 0 (rs_init 0), 10), (snapshot_of 0 0 0 0 (rs_init 0), 20)]"] by simp

subsection \<open>What a browser reads from the stream\<close>

text \<open>The event stream format as the receiving side defines it: the text is cut into lines, a line of data
  is collected, a line that starts with a colon is a comment, and an empty line ends an event, which is
  dropped if it has no data.\<close>

fun text_lines :: "string \<Rightarrow> string \<Rightarrow> string list" where
  "text_lines acc [] = []"
| "text_lines acc (c # cs) = (if c = newline then rev acc # text_lines [] cs else text_lines (c # acc) cs)"

fun sse_events :: "string list \<Rightarrow> string list \<Rightarrow> string list" where
  "sse_events buffer [] = []"
| "sse_events buffer (l # ls) =
     (if l = [] then (if buffer = [] then sse_events [] ls else py_join [newline] buffer # sse_events [] ls)
      else if prefix ''data: '' l then sse_events (buffer @ [drop 6 l]) ls
      else sse_events buffer ls)"

lemma text_lines_line:
  "newline \<notin> set l \<Longrightarrow> text_lines acc (l @ newline # rest) = (rev acc @ l) # text_lines [] rest"
  by (induction l arbitrary: acc) auto

lemma sse_frame:
  assumes "\<And>d. newline \<notin> set (dumps d)"
  shows "sse_events [] (text_lines [] (frame_text dumps f @ rest)) =
     (case f of Data snap \<Rightarrow> [dumps (JObj (snapshot_items snap))] | Keepalive \<Rightarrow> [])
     @ sse_events [] (text_lines [] rest)"
proof (cases f)
  case (Data snap)
  let ?d = "''data: '' @ dumps (JObj (snapshot_items snap))"
  have "newline \<notin> set ?d" using assms by (auto simp: newline_def)
  from text_lines_line [OF this, of "[]" "newline # rest"] show ?thesis by (simp add: Data)
next
  case Keepalive
  have "newline \<notin> set '': keepalive''" by (simp add: newline_def)
  from text_lines_line [OF this, of "[]" "newline # rest"] show ?thesis by (simp add: Keepalive)
qed

text \<open>C32: what the dashboard streams is what the browser reads. Whenever the encoder puts a document on one
  line (as \<open>json.dumps\<close> without an indent does), the text written by the event stream, read by the rules
  of the format, is exactly the snapshots in their order, whatever keepalives are in between.\<close>

theorem stream_roundtrip:
  assumes "\<And>d. newline \<notin> set (dumps d)"
  shows "sse_events [] (text_lines [] (concat (map (frame_text dumps) (stream t0 its)))) =
         map (\<lambda>(snap, now). dumps (JObj (snapshot_items snap))) its"
proof (induction t0 its rule: stream.induct)
  case (2 t0 snap now its)
  then show ?case by (simp add: sse_frame [OF assms] del: frame_text.simps)
qed simp

theorem stream_roundtrip_witness:
  "sse_events [] (text_lines [] (concat (map (frame_text (\<lambda>d. ''{}'')) (stream 0 [(snapshot_of 0 0 0 0 (rs_init 0), 20)]))))
   = [''{}'']"
  using stream_roundtrip [of "\<lambda>d. ''{}''" 0 "[(snapshot_of 0 0 0 0 (rs_init 0), 20)]"] by (simp add: newline_def)

text \<open>Every response but the stream tells how long it is, so the connection can be kept; no JSON may be
  cached; and only a robot that is not ready is answered with 503.\<close>

theorem responses_are_framed:
  fixes tj tc th tu :: real and site :: site and s :: robot_state and path :: string
    and dumps :: "json \<Rightarrow> string" and msg :: "why \<Rightarrow> string" and read_bytes :: "string \<Rightarrow> string"
    and guess :: "string \<Rightarrow> string option"
  defines "get \<equiv> do_GET site tj tc th tu s path"
  defines "r \<equiv> respond dumps msg read_bytes guess get"
  shows "(snd get = StreamBody \<or> map_of (hr_headers r) ''Content-Length'' = Some (show_nat (length (hr_body r))))
         \<and> ((\<exists>p. snd get = FileBody p) \<or> map_of (hr_headers r) ''Cache-Control'' = Some ''no-store'')
         \<and> hr_status r \<in> {200, 404, 503}
         \<and> (hr_status r = 503 \<longleftrightarrow> route_of path = ''/readyz'' \<and> \<not> is_ready tj tc th tu s)"
proof -
  have ready: "fst (readiness_detail tj tc th tu s) = is_ready tj tc th tu s"
    by (auto simp: readiness_detail_def is_ready_def Let_def)
  have st: "hr_status r = (if snd get = StreamBody then 200 else fst get)"
    by (auto simp: r_def respond_def stream_head_def send_json_def send_bytes_def Let_def split: body.splits)
  have "fst get \<in> {200, 404, 503} \<and> (fst get = 503 \<longleftrightarrow> route_of path = ''/readyz'' \<and> \<not> is_ready tj tc th tu s)
      \<and> (snd get = StreamBody \<longrightarrow> fst get = 200)"
    using ready by (auto simp: get_def do_GET_def send_static_def Let_def split: prod.splits)
  with st show ?thesis
    by (cases "snd get") (auto simp: r_def respond_def stream_head_def send_json_def send_bytes_def Let_def)
qed

end
