(* ===== verification/Workers.thy ===== *)
theory Workers
  imports Push
begin

section \<open>The life of an exporter (\<open>start\<close>, \<open>stop\<close> and \<open>_run\<close> of \<open>fleet_reporter.py\<close>, \<open>otlp_metrics.py\<close>)\<close>

text \<open>
  Both exporters are driven the same way: the thread that owns the object calls \<open>start\<close> and \<open>stop\<close>, and
  every thread \<open>start\<close> created runs the loop of \<open>_run\<close> beside it. A worker is the state they share: the
  event \<open>_stop\<close>, the attribute \<open>_thread\<close>, the counters, and the place in the loop of each thread ever
  started. \<open>wstep\<close> interleaves the owner, the threads and the clock one step at a time, each step a
  function translated from the code; \<open>wrun\<close> is a run of it. \<open>stop\<close> is two steps, since other threads run
  while it joins. The theorems hold for every interleaving.
\<close>

subsection \<open>State\<close>

text \<open>Where a thread is in \<open>while not stop.is_set(): attempt(); stop.wait(interval)\<close>; a waiting one with
  the time at which its wait runs out.\<close>

datatype phase = Checking | Attempting | Waiting real | Ended

record 's worker =
  wk_set :: bool
  wk_thread :: "nat option"
  wk_joining :: "real option"
  wk_phases :: "phase list"
  wk_counters :: 's
  wk_now :: real

definition worker_new :: "'s \<Rightarrow> real \<Rightarrow> 's worker" where
  "worker_new s t = \<lparr>wk_set = False, wk_thread = None, wk_joining = None, wk_phases = [], wk_counters = s, wk_now = t\<rparr>"

subsection \<open>The owner's calls\<close>

text \<open>\<open>start\<close>, and whether it started anything (only then it logs).\<close>

definition worker_start :: "'s worker \<Rightarrow> bool \<times> 's worker" where
  "worker_start w =
     (if wk_thread w \<noteq> None then (False, w)
      else (True, w\<lparr>wk_thread := Some (length (wk_phases w)), wk_phases := wk_phases w @ [Checking]\<rparr>))"

text \<open>\<open>stop\<close> up to \<open>join(timeout=2.0)\<close>, and from its return on.\<close>

definition JOIN_TIMEOUT :: real where
  "JOIN_TIMEOUT = 2"

definition stop_request :: "'s worker \<Rightarrow> 's worker" where
  "stop_request w =
     w\<lparr>wk_set := True,
       wk_joining := (case wk_thread w of None \<Rightarrow> None | Some i \<Rightarrow> Some (wk_now w + JOIN_TIMEOUT))\<rparr>"

definition join_returns :: "'s worker \<Rightarrow> bool" where
  "join_returns w =
     (case (wk_joining w, wk_thread w) of
        (Some d, Some i) \<Rightarrow> wk_phases w ! i = Ended \<or> d \<le> wk_now w
      | _ \<Rightarrow> False)"

definition stop_return :: "'s worker \<Rightarrow> 's worker" where
  "stop_return w = w\<lparr>wk_thread := None, wk_joining := None\<rparr>"

subsection \<open>The loop of a thread\<close>

definition set_phase :: "nat \<Rightarrow> phase \<Rightarrow> 's worker \<Rightarrow> 's worker" where
  "set_phase i p w = w\<lparr>wk_phases := (wk_phases w)[i := p]\<rparr>"

definition loop_check :: "nat \<Rightarrow> 's worker \<Rightarrow> 's worker" where
  "loop_check i w = set_phase i (if wk_set w then Ended else Attempting) w"

text \<open>The attempt comes back: an exception that escapes it ends the thread, and so does a wait longer than
  \<open>threading.TIMEOUT_MAX\<close> (\<open>OverflowError\<close>, unless the event is set already). A wait that is not positive
  is over at once.\<close>

definition TIMEOUT_MAX :: real where
  "TIMEOUT_MAX = 9223372036"

definition loop_attempt ::
  "('s \<Rightarrow> 'o \<Rightarrow> bool res \<times> nat \<times> 's) \<Rightarrow> real \<Rightarrow> nat \<Rightarrow> 'o \<Rightarrow> 's worker \<Rightarrow> 's worker" where
  "loop_attempt attempt interval i x w =
     (case attempt (wk_counters w) x of
        (Inl e, l, s) \<Rightarrow> set_phase i Ended (w\<lparr>wk_counters := s\<rparr>)
      | (Inr ok, l, s) \<Rightarrow>
          set_phase i (if \<not> wk_set w \<and> TIMEOUT_MAX < interval then Ended
                       else Waiting (wk_now w + max 0 interval)) (w\<lparr>wk_counters := s\<rparr>))"

definition wait_returns :: "nat \<Rightarrow> 's worker \<Rightarrow> bool" where
  "wait_returns i w = (case wk_phases w ! i of Waiting d \<Rightarrow> wk_set w \<or> d \<le> wk_now w | _ \<Rightarrow> False)"

definition loop_wake :: "nat \<Rightarrow> 's worker \<Rightarrow> 's worker" where
  "loop_wake i w = set_phase i Checking w"

subsection \<open>Interleaved runs\<close>

datatype 'o wevent = Start | StopSet | StopJoin | Check nat | Attempt nat 'o | Wake nat | Pass real

inductive wstep ::
  "('s \<Rightarrow> 'o \<Rightarrow> bool res \<times> nat \<times> 's) \<Rightarrow> real \<Rightarrow> 's worker \<Rightarrow> 'o wevent \<Rightarrow> 's worker \<Rightarrow> bool"
  for attempt :: "'s \<Rightarrow> 'o \<Rightarrow> bool res \<times> nat \<times> 's" and interval :: real where
  Start: "wk_joining w = None \<Longrightarrow> wstep attempt interval w Start (snd (worker_start w))"
| StopSet: "wk_joining w = None \<Longrightarrow> wstep attempt interval w StopSet (stop_request w)"
| StopJoin: "join_returns w \<Longrightarrow> wstep attempt interval w StopJoin (stop_return w)"
| Check: "i < length (wk_phases w) \<Longrightarrow> wk_phases w ! i = Checking \<Longrightarrow>
    wstep attempt interval w (Check i) (loop_check i w)"
| Attempt: "i < length (wk_phases w) \<Longrightarrow> wk_phases w ! i = Attempting \<Longrightarrow>
    wstep attempt interval w (Attempt i x) (loop_attempt attempt interval i x w)"
| Wake: "i < length (wk_phases w) \<Longrightarrow> wait_returns i w \<Longrightarrow> wstep attempt interval w (Wake i) (loop_wake i w)"
| Pass: "0 \<le> d \<Longrightarrow> wstep attempt interval w (Pass d) (w\<lparr>wk_now := wk_now w + d\<rparr>)"

inductive_cases wstep_cases [elim]: "wstep attempt interval w e w'"

inductive wrun ::
  "('s \<Rightarrow> 'o \<Rightarrow> bool res \<times> nat \<times> 's) \<Rightarrow> real \<Rightarrow> 's worker \<Rightarrow> 'o wevent list \<Rightarrow> 's worker \<Rightarrow> bool"
  for attempt :: "'s \<Rightarrow> 'o \<Rightarrow> bool res \<times> nat \<times> 's" and interval :: real where
  wrun_nil: "wrun attempt interval w [] w"
| wrun_snoc: "wrun attempt interval w es w1 \<Longrightarrow> wstep attempt interval w1 e w2 \<Longrightarrow>
    wrun attempt interval w (es @ [e]) w2"

inductive_cases wrun_nilE [elim!]: "wrun attempt interval w [] w'"
inductive_cases wrun_snocE [elim]: "wrun attempt interval w (es @ [e]) w'"

text \<open>What a run did: the outcomes of its attempts, the steps thread \<open>i\<close> took, the time that passed.\<close>

fun outcomes :: "'o wevent list \<Rightarrow> 'o list" where
  "outcomes [] = []"
| "outcomes (Attempt i x # es) = x # outcomes es"
| "outcomes (_ # es) = outcomes es"

definition own_step :: "nat \<Rightarrow> 'o wevent \<Rightarrow> bool" where
  "own_step i e = (case e of Check j \<Rightarrow> i = j | Attempt j x \<Rightarrow> i = j | Wake j \<Rightarrow> i = j | _ \<Rightarrow> False)"

definition in_flight :: "'s worker \<Rightarrow> nat" where
  "in_flight w = count_list (wk_phases w) Attempting"

subsection \<open>The invariant\<close>

text \<open>Only the first thread ever gets past its check: a second one can only be started after \<open>stop\<close> has
  forgotten the first, and then the event is set for good.\<close>

definition worker_inv :: "'s worker \<Rightarrow> bool" where
  "worker_inv w \<longleftrightarrow>
     (\<forall>p \<in> set (tl (wk_phases w)). p \<in> {Checking, Ended})
     \<and> (\<not> wk_set w \<longrightarrow> wk_joining w = None \<and> (wk_phases w = [] \<and> wk_thread w = None
                          \<or> (\<exists>p. wk_phases w = [p]) \<and> wk_thread w = Some 0))"

lemmas worker_defs = worker_start_def stop_request_def stop_return_def set_phase_def loop_check_def
  loop_attempt_def loop_wake_def

lemma worker_inv_new: "worker_inv (worker_new s t)"
  by (simp add: worker_inv_def worker_new_def)

lemma later_threads:
  assumes "worker_inv w" "i < length (wk_phases w)" "wk_phases w ! i \<notin> {Checking, Ended}"
  shows "i = 0" "wk_phases w = wk_phases w ! 0 # tl (wk_phases w)"
proof -
  show "i = 0"
    using assms by (cases "wk_phases w"; cases i) (auto simp: worker_inv_def)
  show "wk_phases w = wk_phases w ! 0 # tl (wk_phases w)"
    using assms(2) by (cases "wk_phases w") auto
qed

lemma loop_attempt_shape:
  "\<exists>p s. p \<in> {Ended, Waiting (wk_now w + max 0 interval)}
     \<and> loop_attempt attempt interval i x w = w\<lparr>wk_counters := s, wk_phases := (wk_phases w)[i := p]\<rparr>
     \<and> snd (snd (attempt (wk_counters w) x)) = s"
  by (auto simp: loop_attempt_def set_phase_def split: prod.splits sum.splits)

lemma worker_inv_step:
  assumes "wstep attempt interval w e w'" "worker_inv w"
  shows "worker_inv w'"
  using assms
proof cases
  case (Check i)
  with assms(2) show ?thesis
    by (cases "wk_phases w"; cases i) (auto simp: worker_inv_def worker_defs dest!: set_update_subset_insert [THEN subsetD])
next
  case (Attempt i x)
  have i: "i = 0" and ph: "wk_phases w = wk_phases w ! 0 # tl (wk_phases w)"
    using later_threads [OF assms(2), of i] Attempt by simp_all
  obtain p s where "w' = w\<lparr>wk_counters := s, wk_phases := (wk_phases w)[i := p]\<rparr>"
    using loop_attempt_shape [of w interval attempt i x] Attempt(2) by blast
  with assms(2) i ph show ?thesis
    by (cases "wk_phases w") (auto simp: worker_inv_def)
next
  case (Wake i)
  then have "wk_phases w ! i \<notin> {Checking, Ended}" by (auto simp: wait_returns_def)
  with later_threads [OF assms(2), of i] Wake assms(2) show ?thesis
    by (cases "wk_phases w") (auto simp: worker_inv_def worker_defs)
qed (auto simp: worker_inv_def worker_defs join_returns_def tl_append split: option.splits list.splits if_splits)

lemma worker_inv_run: "wrun attempt interval w es w' \<Longrightarrow> worker_inv w \<Longrightarrow> worker_inv w'"
  by (induction rule: wrun.induct) (auto intro: worker_inv_step)

subsection \<open>Lemmas on runs\<close>

lemma outcomes_append [simp]: "outcomes (es @ fs) = outcomes es @ outcomes fs"
  by (induction es rule: outcomes.induct) auto

lemma wk_set_step: "wstep attempt interval w e w' \<Longrightarrow> wk_set w \<Longrightarrow> wk_set w'"
  by (erule wstep_cases) (auto simp: worker_defs split: sum.splits prod.splits)

lemma wk_set_run: "wrun attempt interval w es w' \<Longrightarrow> wk_set w \<Longrightarrow> wk_set w'"
  by (induction rule: wrun.induct) (auto intro: wk_set_step)

lemma wrun_trans:
  assumes "wrun attempt interval w es w1" "wrun attempt interval w1 fs w2"
  shows "wrun attempt interval w (es @ fs) w2"
  using assms(2,1) by (induction rule: wrun.induct) (auto simp flip: append_assoc intro: wrun_snoc)

lemma phases_step:
  assumes "wstep attempt interval w e w'" "i < length (wk_phases w)"
  shows "i < length (wk_phases w') \<and> (wk_phases w ! i = Ended \<longrightarrow> wk_phases w' ! i = Ended)"
  using assms
proof cases
  case (Attempt j x)
  with assms(2) show ?thesis using loop_attempt_shape [of w interval attempt j x]
    by (auto simp: nth_list_update)
qed (auto simp: worker_defs wait_returns_def nth_list_update nth_append)

lemma in_flight_inv:
  assumes "worker_inv w"
  shows "in_flight w = of_bool (wk_phases w \<noteq> [] \<and> wk_phases w ! 0 = Attempting)"
proof (cases "wk_phases w")
  case (Cons p ps)
  with assms have "Attempting \<notin> set ps" by (auto simp: worker_inv_def)
  with Cons show ?thesis by (simp add: in_flight_def count_list_0_iff)
qed (simp add: in_flight_def)

lemma in_flight_step:
  assumes st: "wstep attempt interval w e w'" and inv: "worker_inv w" and set: "wk_set w"
  shows "length (outcomes [e]) + in_flight w' = in_flight w"
proof -
  note fl = in_flight_inv [OF inv] in_flight_inv [OF worker_inv_step [OF st inv]]
  show ?thesis unfolding fl using st
  proof cases
    case (Attempt i x)
    then have "i = 0" using later_threads(1) [OF inv, of i] by simp
    moreover obtain p s where "p \<noteq> Attempting" "w' = w\<lparr>wk_counters := s, wk_phases := (wk_phases w)[i := p]\<rparr>"
      using loop_attempt_shape [of w interval attempt i x] Attempt(2) by blast
    ultimately show "length (outcomes [e]) + of_bool (wk_phases w' \<noteq> [] \<and> wk_phases w' ! 0 = Attempting)
        = of_bool (wk_phases w \<noteq> [] \<and> wk_phases w ! 0 = Attempting)"
      using Attempt by auto
  qed (use set in \<open>auto simp: worker_defs nth_append nth_list_update wait_returns_def\<close>)
qed

lemma in_flight_run:
  "wrun attempt interval w es w' \<Longrightarrow> worker_inv w \<Longrightarrow> wk_set w \<Longrightarrow>
     length (outcomes es) + in_flight w' = in_flight w"
proof (induction rule: wrun.induct)
  case (wrun_snoc w es w1 e w2)
  have "length (outcomes [e]) + in_flight w2 = in_flight w1"
    using in_flight_step [OF wrun_snoc(2)] worker_inv_run [OF wrun_snoc(1,4)] wk_set_run [OF wrun_snoc(1,5)] by blast
  with wrun_snoc show ?case by simp
qed simp

text \<open>How many steps of its own a thread has left once the event is set.\<close>

fun rank :: "phase \<Rightarrow> nat" where
  "rank Ended = 0"
| "rank Checking = 1"
| "rank (Waiting d) = 2"
| "rank Attempting = 3"

lemma rank_step:
  assumes "wstep attempt interval w e w'" "wk_set w" "i < length (wk_phases w)"
  shows "of_bool (own_step i e) + rank (wk_phases w' ! i) \<le> rank (wk_phases w ! i)"
  using assms
proof cases
  case (Attempt j x)
  obtain p s where p: "p \<in> {Ended, Waiting (wk_now w + max 0 interval)}"
    and w': "w' = w\<lparr>wk_counters := s, wk_phases := (wk_phases w)[j := p]\<rparr>"
    using loop_attempt_shape [of w interval attempt j x] Attempt(2) by blast
  from p Attempt(1,3,4) assms(3) show ?thesis unfolding w' by (auto simp: own_step_def nth_list_update)
qed (auto simp: own_step_def worker_defs wait_returns_def nth_list_update nth_append split: phase.splits)

lemma rank_run:
  "wrun attempt interval w es w' \<Longrightarrow> wk_set w \<Longrightarrow> i < length (wk_phases w) \<Longrightarrow>
     i < length (wk_phases w') \<and> length (filter (own_step i) es) + rank (wk_phases w' ! i) \<le> rank (wk_phases w ! i)"
proof (induction rule: wrun.induct)
  case (wrun_snoc w es w1 e w2)
  then have ih: "i < length (wk_phases w1)"
    "length (filter (own_step i) es) + rank (wk_phases w1 ! i) \<le> rank (wk_phases w ! i)" by blast+
  have "of_bool (own_step i e) + rank (wk_phases w2 ! i) \<le> rank (wk_phases w1 ! i)"
    by (rule rank_step [OF wrun_snoc(2) wk_set_run [OF wrun_snoc(1,4)] ih(1)])
  with ih phases_step [OF wrun_snoc(2) ih(1)] show ?case by (cases "own_step i e") simp_all
qed simp

text \<open>A thread that has not ended is never blocked once the event is set: whatever its attempt comes back
  with, it can step without any time passing.\<close>

lemma not_blocked:
  assumes "wk_set w" "i < length (wk_phases w)" "wk_phases w ! i \<noteq> Ended"
  shows "\<exists>e w'. own_step i e \<and> wstep attempt interval w e w'"
proof (cases "wk_phases w ! i")
  case Checking
  with assms show ?thesis by (intro exI [of _ "Check i"]) (auto simp: own_step_def intro: wstep.Check)
next
  case Attempting
  with assms show ?thesis by (intro exI [of _ "Attempt i x" for x]) (auto simp: own_step_def intro: wstep.Attempt)
next
  case Waiting
  with assms show ?thesis
    by (intro exI [of _ "Wake i"] exI [of _ "loop_wake i w"]) (simp add: own_step_def wait_returns_def wstep.Wake)
qed (use assms in simp)

lemma push_thread_snoc:
  "push_thread attempt s xs = (n, True, l, s1) \<Longrightarrow> push_thread attempt s (xs @ [x]) =
     (case attempt s1 x of (Inl e, l', s') \<Rightarrow> (n, False, l + l', s')
      | (Inr b, l', s') \<Rightarrow> (n + 1, True, l + l', s'))"
  by (induction xs arbitrary: s n l) (auto split: prod.splits sum.splits)

lemma counters_step:
  "wstep attempt interval w e w' \<Longrightarrow> outcomes [e] = [] \<Longrightarrow> wk_counters w' = wk_counters w"
  by (erule wstep_cases) (auto simp: worker_defs)

text \<open>Whatever the interleaving, the counters are those of the sequential loop over the outcomes of the
  attempts, and once an exception has ended the loop there are no more attempts.\<close>

lemma worker_refines_loop:
  assumes "wrun attempt interval (worker_new s t) es w"
  shows "\<exists>n alive l. push_thread attempt s (outcomes es) = (n, alive, l, wk_counters w)
     \<and> (\<not> alive \<longrightarrow> wk_phases w \<noteq> [] \<and> wk_phases w ! 0 = Ended)"
  using assms
proof (induction "worker_new s t" es w rule: wrun.induct)
  case (wrun_snoc es w e w')
  then obtain n alive l where ih: "push_thread attempt s (outcomes es) = (n, alive, l, wk_counters w)"
    "\<not> alive \<longrightarrow> wk_phases w \<noteq> [] \<and> wk_phases w ! 0 = Ended" by blast
  have inv: "worker_inv w" by (rule worker_inv_run [OF wrun_snoc(1) worker_inv_new])
  show ?case
  proof (cases "outcomes [e]")
    case Nil
    with ih counters_step [OF wrun_snoc(3)] phases_step [OF wrun_snoc(3), of 0] show ?thesis by fastforce
  next
    case (Cons x xs)
    then obtain i where e: "e = Attempt i x" "xs = []" by (cases e) auto
    with wrun_snoc(3) have at0: "i < length (wk_phases w)" "wk_phases w ! i = Attempting"
      "w' = loop_attempt attempt interval i x w" by auto
    then have i: "i = 0" using later_threads(1) [OF inv, of i] by simp
    have alive: "alive" using ih(2) at0 i by fastforce
    obtain r l' s' where a: "attempt (wk_counters w) x = (r, l', s')" by (metis surj_pair)
    have ph: "wk_phases w \<noteq> []" using at0(1) by auto
    show ?thesis
      using push_thread_snoc [OF ih(1) [unfolded alive [THEN Eq_TrueI]], of x] at0(3) ph
      by (cases r) (auto simp: e a i loop_attempt_def set_phase_def)
  qed
qed (auto simp: worker_new_def intro: exI [of _ True])

text \<open>Between two attempts a worker waits: after \<open>k\<close> attempts, at least \<open>k - 1\<close> intervals are over.\<close>

definition paced :: "real \<Rightarrow> real \<Rightarrow> nat \<Rightarrow> 's worker \<Rightarrow> bool" where
  "paced interval t k w \<longleftrightarrow>
     (real k - 1) * interval \<le> wk_now w - t \<and> (wk_phases w = [] \<longrightarrow> k = 0) \<and> 0 \<le> wk_now w - t
     \<and> (wk_phases w \<noteq> [] \<longrightarrow>
          (wk_phases w ! 0 = Checking \<longrightarrow> wk_set w \<or> real k * interval \<le> wk_now w - t)
          \<and> (wk_phases w ! 0 = Attempting \<longrightarrow> real k * interval \<le> wk_now w - t)
          \<and> (\<forall>d. wk_phases w ! 0 = Waiting d \<longrightarrow> real k * interval \<le> d - t))"

lemma paced_attempt:
  assumes "worker_inv w" "wk_phases w ! i = Attempting" "i < length (wk_phases w)" "0 \<le> interval"
    "paced interval t k w"
  shows "paced interval t (Suc k) (loop_attempt attempt interval i x w)"
proof -
  have i: "i = 0" using later_threads(1) [OF assms(1)] assms(2,3) by simp
  obtain p s where p: "p \<in> {Ended, Waiting (wk_now w + max 0 interval)}"
    and w': "loop_attempt attempt interval i x w = w\<lparr>wk_counters := s, wk_phases := (wk_phases w)[i := p]\<rparr>"
    using loop_attempt_shape [of w interval attempt i x] by blast
  have "real k * interval \<le> wk_now w - t" "wk_phases w \<noteq> []" "0 \<le> wk_now w - t"
    using assms(2,3,5) i by (auto simp: paced_def)
  with p assms(4) show ?thesis unfolding w' by (auto simp: paced_def i algebra_simps)
qed

lemma paced_step:
  assumes st: "wstep attempt interval w e w'" and inv: "worker_inv w" and nn: "0 \<le> interval"
    and pc: "paced interval t k w"
  shows "paced interval t (k + length (outcomes [e])) w'"
  using st
proof cases
  case Attempt
  with paced_attempt [OF inv _ _ nn pc] show ?thesis by simp
next
  case (Check i)
  with pc show ?thesis by (cases i) (auto simp: paced_def worker_defs)
next
  case (Wake i)
  then have "wk_phases w ! i \<notin> {Checking, Ended}" by (auto simp: wait_returns_def)
  with Wake have "i = 0" using later_threads(1) [OF inv, of i] by simp
  with Wake pc show ?thesis by (auto simp: paced_def worker_defs wait_returns_def split: phase.splits)
next
  case (Pass d)
  with pc show ?thesis by (auto simp: paced_def split: phase.splits)
qed (use pc in \<open>auto simp: paced_def worker_defs nth_append\<close>)

lemma paced_run:
  assumes "wrun attempt interval (worker_new s t) es w" "0 \<le> interval"
  shows "paced interval t (length (outcomes es)) w"
  using assms
proof (induction "worker_new s t" es w rule: wrun.induct)
  case (wrun_snoc es w e w')
  with paced_step [OF wrun_snoc(3) worker_inv_run [OF wrun_snoc(1) worker_inv_new]] show ?case by simp
qed (simp add: worker_new_def paced_def)

context pusher
begin

lemma worker_counts:
  assumes "wrun attempt interval (worker_new s t) es w"
  shows "\<exists>n \<le> length (outcomes es). sent (wk_counters w) + failed (wk_counters w) = sent s + failed s + n"
proof -
  obtain n alive l where p: "push_thread attempt s (outcomes es) = (n, alive, l, wk_counters w)"
    using worker_refines_loop [OF assms] by blast
  have "n \<le> length xs" if "push_thread attempt s' xs = (n, alive, l, s'')" for s' xs n alive l s''
    using that by (induction xs arbitrary: s' n l) (fastforce split: prod.splits sum.splits)+
  with p thread_counts [OF p] show ?thesis by blast
qed

end

subsection \<open>Properties\<close>

lemma stop_set_step:
  assumes "wrun attempt interval (worker_new s t) es w" "wstep attempt interval w StopSet w1"
  shows "worker_inv w" "worker_inv w1" "wk_set w1" "in_flight w1 = in_flight w" "wk_phases w1 = wk_phases w"
proof -
  show inv: "worker_inv w" by (rule worker_inv_run [OF assms(1) worker_inv_new])
  show "worker_inv w1" by (rule worker_inv_step [OF assms(2) inv])
  from assms(2) show "wk_set w1" "in_flight w1 = in_flight w" "wk_phases w1 = wk_phases w"
    by (auto simp: stop_request_def in_flight_def)
qed

text \<open>\<open>stop\<close> stops. Whatever an exporter did before and whatever happens afterwards, renewed calls of
  \<open>start\<close> included, from the moment \<open>stop\<close> sets the event no attempt begins: the only one that can still
  come back is the one in flight at that moment, and there is at most one.\<close>

lemma stop_silences:
  assumes "wrun attempt interval (worker_new s t) es w" "wstep attempt interval w StopSet w1"
    "wrun attempt interval w1 fs w2"
  shows "length (outcomes fs) + in_flight w2 = in_flight w \<and> in_flight w \<le> 1"
proof -
  note st = stop_set_step [OF assms(1,2)]
  have "in_flight w \<le> 1" using in_flight_inv [OF st(1)] by simp
  with in_flight_run [OF assms(3) st(2,3)] st(4) show ?thesis by simp
qed

text \<open>A run used by the witnesses: started, one attempt begun, stopped while it is in flight, and back.\<close>

definition busy :: "push worker" where
  "busy = \<lparr>wk_set = False, wk_thread = Some 0, wk_joining = None, wk_phases = [Attempting],
           wk_counters = push_new, wk_now = 0\<rparr>"

lemma check_started: "wstep attempt interval (snd (worker_start (worker_new push_new 0))) (Check 0) busy"
  using wstep.Check [of 0 "snd (worker_start (worker_new push_new 0))" attempt interval]
  by (simp add: busy_def worker_defs worker_new_def)

lemma run_to_busy: "wrun attempt interval (worker_new push_new 0) [Start, Check 0] busy"
  using wrun_snoc [OF wrun_snoc [OF wrun_nil wstep.Start] check_started] by (simp add: worker_new_def)

definition stopping :: "push worker" where
  "stopping = busy\<lparr>wk_set := True, wk_joining := Some 2\<rparr>"

lemma stop_busy: "wstep attempt interval busy StopSet stopping"
  using wstep.StopSet [of busy attempt interval]
  by (simp add: stopping_def busy_def stop_request_def JOIN_TIMEOUT_def)

lemma stopping_attempt:
  "wrun (send_once True) 10 stopping [Attempt 0 offline] (loop_attempt (send_once True) 10 0 offline stopping)"
  using wrun_snoc [OF wrun_nil wstep.Attempt [of 0 stopping "send_once True" 10 offline]]
  by (simp add: stopping_def busy_def)

text \<open>A run with two attempts, ten seconds apart, both against a server that is not there.\<close>

definition paced_events :: "push_io wevent list" where
  "paced_events = [Start, Check 0, Attempt 0 offline, Pass 10, Wake 0, Check 0, Attempt 0 offline]"

lemma offline_attempt:
  "\<exists>l. send_once True s offline = (Inr False, l, s\<lparr>ps_failed := ps_failed s + 1, ps_last_error := Some (Some URLError)\<rparr>)"
proof -
  obtain r where "build_report (Inr JNull) (Inr JNull) = Inr r" by (simp add: build_report_def Let_def or_empty_def)
  then show ?thesis by (simp add: send_once_def settle_def offline_def caught_def push_caught_def Let_def)
qed

lemma paced_events_run:
  "\<exists>w. wrun (send_once True) 10 (worker_new push_new 0) paced_events w
     \<and> wk_now w = 10 \<and> ps_sent (wk_counters w) = 0 \<and> ps_failed (wk_counters w) = 2"
proof -
  let ?s = "push_new\<lparr>ps_failed := 1, ps_last_error := Some (Some URLError)\<rparr>"
  define w2 w3 w4 w5 where "w2 = busy\<lparr>wk_phases := [Waiting 10], wk_counters := ?s\<rparr>" and "w3 = w2\<lparr>wk_now := 10\<rparr>"
    and "w4 = w3\<lparr>wk_phases := [Checking]\<rparr>" and "w5 = w3\<lparr>wk_phases := [Attempting]\<rparr>"
  have "loop_attempt (send_once True) 10 0 offline busy = w2"
    using offline_attempt [of push_new] by (auto simp: w2_def busy_def worker_defs TIMEOUT_MAX_def push_new_def)
  then have "wstep (send_once True) 10 busy (Attempt 0 offline) w2"
    using wstep.Attempt [of 0 busy "send_once True" 10 offline] by (simp add: busy_def)
  moreover have "wstep (send_once True) 10 w2 (Pass 10) w3"
    using wstep.Pass [of 10 "send_once True" 10 w2] by (simp add: w2_def w3_def busy_def)
  moreover have "wstep (send_once True) 10 w3 (Wake 0) w4"
    using wstep.Wake [of 0 w3 "send_once True" 10] by (simp add: w2_def w3_def w4_def wait_returns_def worker_defs)
  moreover have "wstep (send_once True) 10 w4 (Check 0) w5"
    using wstep.Check [of 0 w4 "send_once True" 10] by (simp add: w2_def w3_def w4_def w5_def busy_def worker_defs)
  moreover have "wstep (send_once True) 10 w5 (Attempt 0 offline) (loop_attempt (send_once True) 10 0 offline w5)"
    using wstep.Attempt [of 0 w5 "send_once True" 10 offline] by (simp add: w5_def)
  ultimately have "wrun (send_once True) 10 (worker_new push_new 0)
      ((((([Start, Check 0] @ [Attempt 0 offline]) @ [Pass 10]) @ [Wake 0]) @ [Check 0]) @ [Attempt 0 offline])
      (loop_attempt (send_once True) 10 0 offline w5)"
    by (intro wrun_snoc [OF wrun_snoc [OF wrun_snoc [OF wrun_snoc [OF wrun_snoc [OF run_to_busy]]]]])
  then have "wrun (send_once True) 10 (worker_new push_new 0) paced_events (loop_attempt (send_once True) 10 0 offline w5)"
    by (simp add: paced_events_def)
  moreover have "wk_now (loop_attempt (send_once True) 10 0 offline w5) = 10"
    "wk_counters (loop_attempt (send_once True) 10 0 offline w5) = ?s\<lparr>ps_failed := 2\<rparr>"
    using offline_attempt [of ?s] by (auto simp: w5_def w3_def w2_def worker_defs push_new_def)
  ultimately show ?thesis by (auto simp: push_new_def)
qed

text \<open>C20: a stopped exporter is soon over. Once the event is set, every thread takes at most three more
  steps, and until it has ended none of them waits for the interval: the wait returns, the check comes back, and
  only an attempt in flight lasts as long as its HTTP request does (up to the request's own timeout). \<open>join\<close> waits at
  most two seconds.\<close>

theorem stopped_threads_end:
  assumes "wrun attempt interval (worker_new s t) es w" "wstep attempt interval w StopSet w1"
    "wrun attempt interval w1 fs w2" "i < length (wk_phases w)"
  shows "length (filter (own_step i) fs) \<le> 3
         \<and> (wk_phases w2 ! i = Ended \<or> (\<exists>e w3. own_step i e \<and> wstep attempt interval w2 e w3))
         \<and> (\<forall>d. wk_joining w1 = Some d \<longrightarrow> d = wk_now w1 + 2)"
proof -
  note st = stop_set_step [OF assms(1,2)]
  have "rank p \<le> 3" for p by (cases p) simp_all
  with rank_run [OF assms(3) st(3), of i] assms(4) st(5)
  have "length (filter (own_step i) fs) \<le> 3" "i < length (wk_phases w2)"
    by (auto intro: order_trans dest: add_leD1)
  moreover have "\<forall>d. wk_joining w1 = Some d \<longrightarrow> d = wk_now w1 + 2"
    using assms(2) by (auto simp: stop_request_def JOIN_TIMEOUT_def split: option.splits)
  moreover have "wk_set w2" by (rule wk_set_run [OF assms(3) st(3)])
  ultimately show ?thesis using not_blocked by blast
qed

theorem stopped_threads_end_witness:
  "length (filter (own_step 0) [Attempt 0 offline]) \<le> 3"
  using stopped_threads_end [OF run_to_busy stop_busy stopping_attempt, of 0] by (simp add: busy_def)

text \<open>C26: an exporter keeps its pace. With an interval that is not negative, \<open>k\<close> attempts take at least
  \<open>k - 1\<close> intervals, for any run of the object, stopped and started again or not.\<close>

theorem attempts_are_paced:
  assumes "wrun attempt interval (worker_new s t) es w" "0 \<le> interval"
  shows "(real (length (outcomes es)) - 1) * interval \<le> wk_now w - t"
  using paced_run [OF assms] by (simp add: paced_def)

theorem attempts_are_paced_witness:
  "\<exists>w. wrun (send_once True) 10 (worker_new push_new 0) paced_events w
     \<and> (real (length (outcomes paced_events)) - 1) * 10 \<le> wk_now w - 0 \<and> length (outcomes paced_events) = 2 \<and> wk_now w = 10"
proof -
  obtain w where w: "wrun (send_once True) 10 (worker_new push_new 0) paced_events w" and "wk_now w = 10"
    using paced_events_run by blast
  moreover have "(real (length (outcomes paced_events)) - 1) * 10 \<le> wk_now w - 0"
    by (rule attempts_are_paced [OF w]) simp
  moreover have "length (outcomes paced_events) = 2" by (simp add: paced_events_def)
  ultimately show ?thesis by blast
qed

text \<open>C12: the threads implement the sequential loop. In every interleaved run of the fleet reporter and of
  the metrics exporter, the counters are those of \<open>push_thread\<close> over the outcomes of the attempts in
  their order: every attempt that returned is counted exactly once, as sent or as failed, that is every
  attempt unless an exception escaped one, and an unreachable server costs at most one warning per 30 or 20
  failures.\<close>

theorem workers_refine_loop:
  assumes "wrun (send_once logger) i (worker_new push_new t) es w"
    and "wrun (export_once clk start_ns logger) j (worker_new push_new t) fs w'"
  shows "(\<exists>n alive l. push_thread (send_once logger) push_new (outcomes es) = (n, alive, l, wk_counters w)
            \<and> ps_sent (wk_counters w) + ps_failed (wk_counters w) = n \<and> (alive \<longrightarrow> n = length (outcomes es))
            \<and> l \<le> (ps_failed (wk_counters w) + 29) div 30)
         \<and> (\<exists>n alive l. push_thread (export_once clk start_ns logger) push_new (outcomes fs) = (n, alive, l, wk_counters w')
            \<and> ps_sent (wk_counters w') + ps_failed (wk_counters w') = n \<and> (alive \<longrightarrow> n = length (outcomes fs))
            \<and> l \<le> (ps_failed (wk_counters w') + 19) div 20)"
proof -
  obtain n alive l where a: "push_thread (send_once logger) push_new (outcomes es) = (n, alive, l, wk_counters w)"
    using worker_refines_loop [OF assms(1)] by blast
  obtain m alive' l' where b:
    "push_thread (export_once clk start_ns logger) push_new (outcomes fs) = (m, alive', l', wk_counters w')"
    using worker_refines_loop [OF assms(2)] by blast
  from fleet.thread_counts [OF a] fleet.thread_warnings [OF a] otlp.thread_counts [OF b] otlp.thread_warnings [OF b] a b
  show ?thesis by (simp add: push_new_def fleet.paid_def otlp.paid_def add.commute)
qed

theorem workers_refine_loop_witness:
  "\<exists>w n alive l. wrun (send_once True) 10 (worker_new push_new 0) paced_events w
     \<and> push_thread (send_once True) push_new (outcomes paced_events) = (n, alive, l, wk_counters w)
     \<and> ps_sent (wk_counters w) + ps_failed (wk_counters w) = n \<and> n = 2"
proof -
  obtain w where w: "wrun (send_once True) 10 (worker_new push_new 0) paced_events w"
    and two: "ps_sent (wk_counters w) = 0" "ps_failed (wk_counters w) = 2"
    using paced_events_run by blast
  from workers_refine_loop [OF w run_to_busy [of "export_once (\<lambda>_. 0) 0 True" 15]]
  obtain n alive l where "push_thread (send_once True) push_new (outcomes paced_events) = (n, alive, l, wk_counters w)"
    "ps_sent (wk_counters w) + ps_failed (wk_counters w) = n" by blast
  with w two show ?thesis by auto
qed

text \<open>An exporter cannot be started twice. \<open>_stop\<close> is never cleared, so a \<open>start\<close> after \<open>stop\<close> creates a
  thread and logs that it reports, and the thread ends at its first check: no attempt follows, however
  long one waits and however often \<open>start\<close> is called.\<close>

theorem restart_sends_nothing:
  assumes "wrun attempt interval (worker_new s t) es w" "wk_set w" "wk_thread w = None" "in_flight w = 0"
    "wrun attempt interval (snd (worker_start w)) fs w'"
  shows "fst (worker_start w) \<and> length (wk_phases (snd (worker_start w))) = length (wk_phases w) + 1
         \<and> outcomes fs = []"
proof -
  have inv: "worker_inv w" by (rule worker_inv_run [OF assms(1) worker_inv_new])
  let ?w = "snd (worker_start w)"
  have "worker_inv ?w" "wk_set ?w" "in_flight ?w = 0"
    using inv assms(2-4)
    by (auto simp: worker_inv_def worker_start_def in_flight_def tl_append split: list.splits if_splits)
  from in_flight_run [OF assms(5) this(1,2)] this(3) show ?thesis
    using assms(3) by (simp add: worker_start_def)
qed

theorem restart_sends_nothing_witness:
  "fst (worker_start ((worker_new push_new 0)\<lparr>wk_set := True\<rparr>))"
proof -
  have "wrun (send_once True) 10 (worker_new push_new 0) [StopSet] ((worker_new push_new 0)\<lparr>wk_set := True\<rparr>)"
    using wrun_snoc [OF wrun_nil wstep.StopSet [of "worker_new push_new 0" "send_once True" 10]]
    by (simp add: worker_new_def stop_request_def)
  from restart_sends_nothing [OF this _ _ _ wrun_nil] show ?thesis
    by (simp add: worker_new_def in_flight_def)
qed

end
