(* ===== verification/Dashboard_Node.thy ===== *)
theory Dashboard_Node
  imports Dashboard Workers
begin

section \<open>The dashboard process (\<open>DashboardNode.__init__\<close>, \<open>shutdown\<close> and \<open>main\<close>, \<open>make_server\<close>)\<close>

text \<open>
  Construction, life and end of the dashboard: the HTTP server that is bound and served from a thread, the
  fleet reporter and the metrics exporter the environment asks for, the log lines, and what \<open>main\<close> releases.
  \<open>node_step\<close> interleaves the node's callbacks, its two exporters (each a worker of \<open>Workers\<close>) and the
  shutdown of the server; a run of the node projects to a run of each exporter, so what holds of every worker
  holds here. Subscriptions, clients and timers are the events of \<open>dash_event\<close>; the sockets are an argument.
\<close>

subsection \<open>The HTTP server\<close>

datatype server_phase = Bound | Serving | ShutDown | Closed

record http_server =
  hs_host :: string
  hs_port :: int
  hs_daemon_threads :: bool
  hs_phase :: server_phase

text \<open>\<open>bind\<close> is the constructor of \<open>ThreadingHTTPServer\<close>: it raises when the address is taken.\<close>

definition make_server :: "(string \<Rightarrow> int \<Rightarrow> unit res) \<Rightarrow> string \<Rightarrow> int \<Rightarrow> http_server res" where
  "make_server bind host port =
     rbind (bind host port) (\<lambda>u.
       Inr \<lparr>hs_host = host, hs_port = port, hs_daemon_threads = True, hs_phase = Bound\<rparr>)"

definition serve_in_background :: "http_server \<Rightarrow> http_server" where
  "serve_in_background srv = srv\<lparr>hs_phase := Serving\<rparr>"

subsection \<open>Construction\<close>

datatype log_line = Info string | Warn string

definition reporter_start :: "fleet_config \<Rightarrow> push worker \<Rightarrow> log_line list \<times> push worker" where
  "reporter_start c w =
     (let (started, w') = worker_start w
      in (if started
          then [Info (''reporting to '' @ fc_url c @ '' every '' @ py_fixed 0 (fc_interval c) @ ''s'')] else [], w'))"

definition exporter_start :: "otlp_config \<Rightarrow> push worker \<Rightarrow> log_line list \<times> push worker" where
  "exporter_start c w =
     (let (started, w') = worker_start w
      in (if started
          then [Info (''exporting metrics to '' @ oc_endpoint c @ '' every '' @ py_fixed 0 (oc_interval c) @ ''s'')]
          else [], w'))"

record dash_node =
  dn_state :: robot_state
  dn_server :: http_server
  dn_reporter :: "(fleet_config \<times> push worker) option"
  dn_metrics :: "(otlp_config \<times> push worker) option"

record node_params =
  np_host :: string
  np_port :: int

text \<open>The declared parameters when nothing overrides them.\<close>

definition default_params :: node_params where
  "default_params = \<lparr>np_host = ''0.0.0.0'', np_port = 8107\<rparr>"

definition no_token :: log_line where
  "no_token = Warn (''THREEVN_FLEET_URL is set but THREEVN_FLEET_TOKEN is not; ''
     @ ''the server will reject every report, so not starting'')"

text \<open>\<open>__init__\<close> at time \<open>t\<close>: the node and what it logged, or the exception that escapes.\<close>

definition node_init ::
  "(string \<Rightarrow> int \<Rightarrow> unit res) \<Rightarrow> (string \<Rightarrow> string option) \<Rightarrow> string \<Rightarrow> string \<Rightarrow> real \<Rightarrow> node_params \<Rightarrow>
     (dash_node \<times> log_line list) res" where
  "node_init bind env hostname stamp t p =
     rbind (make_server bind (np_host p) (np_port p)) (\<lambda>srv.
     rbind (fleet_from_env env) (\<lambda>(fc, warned).
     rbind (otlp_from_env env) (\<lambda>oc.
       let (l2, reporter) =
             (case fc of None \<Rightarrow> ([], None)
              | Some c \<Rightarrow> (case reporter_start c (worker_new push_new t) of (l, w) \<Rightarrow> (l, Some (c, w))));
           (l3, metrics) =
             (case oc of None \<Rightarrow> ([], None)
              | Some c \<Rightarrow> (case exporter_start c (worker_new push_new t) of (l, w) \<Rightarrow> (l, Some (c, w))));
           absent = missing_fields env hostname stamp
       in Inr (\<lparr>dn_state = rs_init t, dn_server = serve_in_background srv, dn_reporter = reporter, dn_metrics = metrics\<rparr>,
               Info (''dashboard on http://'' @ np_host p @ '':'' @ show_int (np_port p) @ ''/'')
               # (if warned then [no_token] else []) @ l2 @ l3
               @ (if absent = [] then []
                  else [Warn (''version fields not set: '' @ py_join '', '' absent
                              @ '' -- set THREEVN_GIT_COMMIT etc. at build/deploy time'')])))))"

subsection \<open>Life and shutdown\<close>

datatype node_event =
    Robot dash_event
  | Reporter "push_io wevent"
  | Metrics "push_io wevent"
  | ServerShutdown
  | ServerClose

text \<open>What one attempt reads: \<open>_fleet_state\<close> of the state it finds, at some readings of the clock, and
  \<open>version_info\<close>.\<close>

definition reads_node :: "(why \<Rightarrow> string) \<Rightarrow> json \<Rightarrow> dash_node \<Rightarrow> push_io wevent \<Rightarrow> bool" where
  "reads_node msg ver n e =
     (case e of
        Attempt i io \<Rightarrow> (\<exists>clk. io_state io = Inr (fleet_state msg clk (dn_state n))) \<and> io_version io = Inr ver
      | _ \<Rightarrow> True)"

inductive node_step ::
  "(why \<Rightarrow> string) \<Rightarrow> json \<Rightarrow> (nat \<Rightarrow> int) \<Rightarrow> int \<Rightarrow> dash_node \<Rightarrow> node_event \<Rightarrow> dash_node \<Rightarrow> bool"
  for msg ver ns start_ns where
  Robot: "node_step msg ver ns start_ns n (Robot e) (n\<lparr>dn_state := dash_step (dn_state n) e\<rparr>)"
| Reporter: "dn_reporter n = Some (c, w) \<Longrightarrow> reads_node msg ver n e \<Longrightarrow>
    wstep (send_once True) (fc_interval c) w e w' \<Longrightarrow>
    node_step msg ver ns start_ns n (Reporter e) (n\<lparr>dn_reporter := Some (c, w')\<rparr>)"
| Metrics: "dn_metrics n = Some (c, w) \<Longrightarrow> reads_node msg ver n e \<Longrightarrow>
    wstep (export_once ns start_ns True) (oc_interval c) w e w' \<Longrightarrow>
    node_step msg ver ns start_ns n (Metrics e) (n\<lparr>dn_metrics := Some (c, w')\<rparr>)"
| ServerShutdown: "hs_phase (dn_server n) = Serving \<Longrightarrow>
    node_step msg ver ns start_ns n ServerShutdown (n\<lparr>dn_server := (dn_server n)\<lparr>hs_phase := ShutDown\<rparr>\<rparr>)"
| ServerClose: "hs_phase (dn_server n) = ShutDown \<Longrightarrow>
    node_step msg ver ns start_ns n ServerClose (n\<lparr>dn_server := (dn_server n)\<lparr>hs_phase := Closed\<rparr>\<rparr>)"

inductive_cases node_stepE [elim]: "node_step msg ver ns start_ns n e n'"

text \<open>A run of a labelled relation, and a part of its state that is a worker: only the events addressed to
  the part change it, each by a step of the worker.\<close>

inductive lts_run :: "('n \<Rightarrow> 'e \<Rightarrow> 'n \<Rightarrow> bool) \<Rightarrow> 'n \<Rightarrow> 'e list \<Rightarrow> 'n \<Rightarrow> bool" for step where
  lts_nil: "lts_run step n [] n"
| lts_snoc: "lts_run step n es n1 \<Longrightarrow> step n1 e n2 \<Longrightarrow> lts_run step n (es @ [e]) n2"

lemma map_filter_append: "List.map_filter f (xs @ ys) = List.map_filter f xs @ List.map_filter f ys"
  by (simp add: List.map_filter_def)

inductive_cases lts_nilE [elim!]: "lts_run step n [] n'"
inductive_cases lts_snocE [elim]: "lts_run step n (es @ [e]) n'"

lemma lts_run_append:
  "lts_run step n (es @ fs) n' \<Longrightarrow> \<exists>m. lts_run step n es m \<and> lts_run step m fs n'"
proof (induction fs arbitrary: n' rule: rev_induct)
  case Nil
  then show ?case by (auto intro: lts_nil)
next
  case (snoc f fs)
  from snoc.prems obtain n1 where "lts_run step n (es @ fs) n1" "step n1 f n'"
    by (metis append_assoc lts_snocE)
  with snoc.IH show ?case by (blast intro: lts_snoc)
qed

lemma lts_run_single: "lts_run step n [e] n' \<Longrightarrow> step n e n'"
  using lts_snocE [of step n "[]" e n'] by auto

lemma lts_run_trans: "lts_run step m fs n' \<Longrightarrow> lts_run step n es m \<Longrightarrow> lts_run step n (es @ fs) n'"
  by (induction rule: lts_run.induct) (auto simp flip: append_assoc intro: lts_snoc)

lemma lts_snoc2:
  "lts_run step n es n1 \<Longrightarrow> step n1 e n2 \<Longrightarrow> step n2 f n3 \<Longrightarrow> lts_run step n (es @ [e] @ [f]) n3"
  using lts_snoc [of step n es n1 e n2] lts_snoc [of step n "es @ [e]" n2 f n3] by simp

text \<open>Around any event of a run.\<close>

lemma lts_run_at:
  assumes "lts_run step n fs n'" "e \<in> set fs"
  obtains as m m' bs where "fs = as @ e # bs" "lts_run step n as m" "step m e m'" "lts_run step m' bs n'"
proof -
  obtain as bs where fs: "fs = as @ [e] @ bs" using assms(2) by (metis append_Cons append_Nil split_list)
  with assms(1) lts_run_append [of step n as "[e] @ bs" n'] obtain m where m: "lts_run step n as m" "lts_run step m ([e] @ bs) n'"
    by blast
  from lts_run_append [OF m(2)] obtain m' where "lts_run step m [e] m'" "lts_run step m' bs n'" by blast
  with lts_run_single that fs m(1) show thesis by fastforce
qed

locale hosted_worker =
  fixes step :: "'n \<Rightarrow> 'e \<Rightarrow> 'n \<Rightarrow> bool" and part :: "'n \<Rightarrow> ('c \<times> 's worker) option"
    and event :: "'e \<Rightarrow> 'o wevent option" and attempt :: "'s \<Rightarrow> 'o \<Rightarrow> bool res \<times> nat \<times> 's" and interval :: "'c \<Rightarrow> real"
  assumes part_step: "step n e n' \<Longrightarrow> part n = Some (c, w) \<Longrightarrow>
      (case event e of None \<Rightarrow> part n' = Some (c, w)
       | Some x \<Rightarrow> \<exists>w'. wstep attempt (interval c) w x w' \<and> part n' = Some (c, w'))"
    and absent_step: "step n e n' \<Longrightarrow> part n = None \<Longrightarrow> event e = None \<and> part n' = None"
begin

lemma part_run:
  "lts_run step n es n' \<Longrightarrow> part n = Some (c, w) \<Longrightarrow>
     \<exists>w'. part n' = Some (c, w') \<and> wrun attempt (interval c) w (List.map_filter event es) w'"
proof (induction rule: lts_run.induct)
  case (lts_snoc n es n1 e n2)
  then obtain w1 where w1: "part n1 = Some (c, w1)" "wrun attempt (interval c) w (List.map_filter event es) w1"
    by blast
  from part_step [OF lts_snoc(2) w1(1)] w1 show ?case
    by (auto simp: map_filter_append map_filter_simps split: option.splits intro: wrun_snoc)
qed (auto simp: map_filter_simps intro: wrun_nil)

lemma absent_run:
  "lts_run step n es n' \<Longrightarrow> part n = None \<Longrightarrow> part n' = None \<and> List.map_filter event es = []"
proof (induction rule: lts_run.induct)
  case (lts_snoc n es n1 e n2)
  with absent_step [OF lts_snoc(2)] show ?case by (simp add: map_filter_append map_filter_simps)
qed (simp add: map_filter_simps)

text \<open>From the moment the part is stopped, at most the attempt in flight comes back.\<close>

lemma silent_after_stop:
  assumes init: "part n = None \<or> (\<exists>c s t. part n = Some (c, snd (worker_start (worker_new s t))))"
    and run: "lts_run step n es n1" "step n1 e n2" "event e = Some StopSet" "lts_run step n2 fs n3"
  shows "length (outcomes (List.map_filter event fs)) \<le> 1"
proof (cases "part n")
  case None
  with absent_run [OF run(1)] absent_step [OF run(2)] run(3) show ?thesis by simp
next
  case (Some p)
  with init obtain c s t where p: "part n = Some (c, snd (worker_start (worker_new s t)))" by auto
  have "wrun attempt (interval c) (worker_new s t) [Start] (snd (worker_start (worker_new s t)))"
    using wrun_snoc [OF wrun_nil wstep.Start [of "worker_new s t"]] by (simp add: worker_new_def)
  moreover obtain w1 where w1: "part n1 = Some (c, w1)"
    "wrun attempt (interval c) (snd (worker_start (worker_new s t))) (List.map_filter event es) w1"
    using part_run [OF run(1) p] by blast
  ultimately have r: "wrun attempt (interval c) (worker_new s t) ([Start] @ List.map_filter event es) w1"
    using wrun_trans by blast
  obtain w2 where w2: "wstep attempt (interval c) w1 StopSet w2" "part n2 = Some (c, w2)"
    using part_step [OF run(2) w1(1)] run(3) by auto
  obtain w3 where "wrun attempt (interval c) w2 (List.map_filter event fs) w3"
    using part_run [OF run(4) w2(2)] by blast
  from stop_silences [OF r w2(1) this] show ?thesis by simp
qed

lemma silent_after:
  assumes init: "part n = None \<or> (\<exists>c s t. part n = Some (c, snd (worker_start (worker_new s t))))"
    and run: "lts_run step n es n1" "lts_run step n1 fs n2" "lts_run step n2 gs n3"
    and stops: "part n \<noteq> None \<Longrightarrow> \<exists>e \<in> set fs. event e = Some StopSet"
  shows "length (outcomes (List.map_filter event gs)) \<le> 1"
proof (cases "part n")
  case None
  have "lts_run step n (es @ fs @ gs) n3" using run lts_run_trans by metis
  from absent_run [OF this None] show ?thesis by (simp add: map_filter_append)
next
  case Some
  then obtain e where e: "e \<in> set fs" "event e = Some StopSet" using stops by auto
  obtain as m m' bs where x: "lts_run step n1 as m" "step m e m'" "lts_run step m' bs n2"
    by (rule lts_run_at [OF run(2) e(1)])
  from silent_after_stop [OF init lts_run_trans [OF x(1) run(1)] x(2) e(2) lts_run_trans [OF run(3) x(3)]]
  show ?thesis by (simp add: map_filter_append)
qed

end

fun reporter_event :: "node_event \<Rightarrow> push_io wevent option" where
  "reporter_event (Reporter e) = Some e"
| "reporter_event _ = None"

fun metrics_event :: "node_event \<Rightarrow> push_io wevent option" where
  "metrics_event (Metrics e) = Some e"
| "metrics_event _ = None"

interpretation reporter: hosted_worker "node_step msg ver ns start_ns" dn_reporter reporter_event
    "send_once True" fc_interval for msg ver ns start_ns
  by unfold_locales (erule node_stepE; auto)+

interpretation metrics: hosted_worker "node_step msg ver ns start_ns" dn_metrics metrics_event
    "export_once ns start_ns True" oc_interval for msg ver ns start_ns
  by unfold_locales (erule node_stepE; auto)+

text \<open>\<open>shutdown\<close>: the calls it makes, in order. The steps of \<open>stop\<close> are those of the exporter.\<close>

definition shutdown_calls :: "dash_node \<Rightarrow> node_event list" where
  "shutdown_calls n =
     (if dn_reporter n \<noteq> None then [Reporter StopSet, Reporter StopJoin] else [])
     @ (if dn_metrics n \<noteq> None then [Metrics StopSet, Metrics StopJoin] else [])
     @ [ServerShutdown, ServerClose]"

subsection \<open>\<open>main\<close>\<close>

datatype spin_end = SpinReturned | KeyboardInterrupt | SpinRaised exn

datatype main_action = RclInit | MakeNode | Spin | NodeShutdown | DestroyNode | RclShutdown

text \<open>What a \<open>main\<close> does that constructs a node, spins it and releases it in \<open>finally\<close>, given how the
  constructor and \<open>spin\<close> end and what \<open>rclpy.ok()\<close> says afterwards; and its exit code or the exception that
  escapes.\<close>

definition ros_main :: "main_action list \<Rightarrow> 'n res \<Rightarrow> spin_end \<Rightarrow> bool \<Rightarrow> main_action list \<times> int res" where
  "ros_main release made spun rcl_ok =
     (case made of
        Inl e \<Rightarrow> ([RclInit, MakeNode], Inl e)
      | Inr n \<Rightarrow>
          ([RclInit, MakeNode, Spin] @ release @ (if rcl_ok then [RclShutdown] else []),
           case spun of SpinRaised e \<Rightarrow> Inl e | _ \<Rightarrow> Inr 0))"

definition dashboard_main :: "'n res \<Rightarrow> spin_end \<Rightarrow> bool \<Rightarrow> main_action list \<times> int res" where
  "dashboard_main made spun rcl_ok = ros_main [NodeShutdown, DestroyNode] made spun rcl_ok"

subsection \<open>Lemmas\<close>

lemma closed_run:
  "lts_run (node_step msg ver ns start_ns) n es n' \<Longrightarrow> hs_phase (dn_server n) = Closed \<Longrightarrow> hs_phase (dn_server n') = Closed"
  by (induction rule: lts_run.induct) auto

lemma env_interval_ok: "\<exists>x. env_interval env name dflt = Inr x"
proof -
  show ?thesis by (auto simp: env_interval_def split: option.splits sum.splits dest: py_float_str_error)
qed

lemma from_env_ok:
  "\<exists>c. fleet_from_env env = Inr c
     \<and> (fst c = None \<longleftrightarrow> env_get env ''THREEVN_FLEET_URL'' = [] \<or> env_get env ''THREEVN_FLEET_TOKEN'' = [])
     \<and> (\<forall>d. fst c = Some d \<longrightarrow> fc_url d = env_get env ''THREEVN_FLEET_URL'' \<and> fc_token d = env_get env ''THREEVN_FLEET_TOKEN'')"
  "\<exists>c. otlp_from_env env = Inr c \<and> (c = None \<longleftrightarrow> env_get env ''THREEVN_OTLP_ENDPOINT'' = [])
     \<and> (\<forall>d. c = Some d \<longrightarrow> oc_endpoint d = env_get env ''THREEVN_OTLP_ENDPOINT'')"
  using env_interval_ok [of env "''THREEVN_FLEET_INTERVAL''" 10] env_interval_ok [of env "''THREEVN_OTLP_INTERVAL''" 15]
  by (auto simp: fleet_from_env_def otlp_from_env_def Let_def)

definition started :: "real \<Rightarrow> push worker" where
  "started t = snd (worker_start (worker_new push_new t))"

lemma node_init_cases:
  obtains e where "bind (np_host p) (np_port p) = Inl e" "node_init bind env hostname stamp t p = Inl e"
  | fc warned oc logs where "bind (np_host p) (np_port p) = Inr ()" "fleet_from_env env = Inr (fc, warned)"
      "otlp_from_env env = Inr oc"
      "node_init bind env hostname stamp t p = Inr
         (\<lparr>dn_state = rs_init t,
           dn_server = \<lparr>hs_host = np_host p, hs_port = np_port p, hs_daemon_threads = True, hs_phase = Serving\<rparr>,
           dn_reporter = map_option (\<lambda>c. (c, started t)) fc, dn_metrics = map_option (\<lambda>c. (c, started t)) oc\<rparr>, logs)"
proof (cases "bind (np_host p) (np_port p)")
  case (Inl e)
  then show thesis by (rule that(1)) (simp add: node_init_def make_server_def Inl)
next
  case (Inr u)
  obtain fc warned oc where c: "fleet_from_env env = Inr (fc, warned)" "otlp_from_env env = Inr oc"
    using from_env_ok [of env] by fastforce
  have "\<exists>logs. node_init bind env hostname stamp t p = Inr
         (\<lparr>dn_state = rs_init t,
           dn_server = \<lparr>hs_host = np_host p, hs_port = np_port p, hs_daemon_threads = True, hs_phase = Serving\<rparr>,
           dn_reporter = map_option (\<lambda>c. (c, started t)) fc, dn_metrics = map_option (\<lambda>c. (c, started t)) oc\<rparr>, logs)"
    by (cases fc; cases oc)
      (simp_all add: node_init_def make_server_def Inr c serve_in_background_def reporter_start_def exporter_start_def
        started_def Let_def split_beta)
  with that(2) Inr c show thesis by auto
qed

lemma node_parts:
  assumes "node_init bind env hostname stamp t p = Inr (n, logs)"
  shows "dn_reporter n = None \<or> (\<exists>c. dn_reporter n = Some (c, started t))"
    and "dn_metrics n = None \<or> (\<exists>c. dn_metrics n = Some (c, started t))"
  by (rule node_init_cases [of bind p env hostname stamp t]; use assms in auto)+

subsection \<open>Properties\<close>

definition present :: "(string \<Rightarrow> string option) \<Rightarrow> string \<Rightarrow> bool" where
  "present env name \<longleftrightarrow> env_get env name \<noteq> []"

text \<open>C33: the dashboard starts as it is configured. Its constructor raises exactly what binding the address
  raises; otherwise the server serves at the requested address, the fleet reporter runs exactly if both
  \<open>THREEVN_FLEET_URL\<close> and \<open>THREEVN_FLEET_TOKEN\<close> are set, the metrics exporter exactly if
  \<open>THREEVN_OTLP_ENDPOINT\<close> is, each with one thread, about to make its first check.\<close>

theorem node_starts_as_configured:
  "case node_init bind env hostname stamp t p of
     Inl e \<Rightarrow> bind (np_host p) (np_port p) = Inl e
   | Inr (n, logs) \<Rightarrow>
       bind (np_host p) (np_port p) = Inr ()
       \<and> dn_server n = \<lparr>hs_host = np_host p, hs_port = np_port p, hs_daemon_threads = True, hs_phase = Serving\<rparr>
       \<and> (\<exists>c d. dn_reporter n = (if present env ''THREEVN_FLEET_URL'' \<and> present env ''THREEVN_FLEET_TOKEN''
                                then Some (c, started t) else None)
                \<and> dn_metrics n = (if present env ''THREEVN_OTLP_ENDPOINT'' then Some (d, started t) else None))
       \<and> wk_phases (started t) = [Checking] \<and> \<not> wk_set (started t)"
proof (rule node_init_cases [of bind p env hostname stamp t])
  fix fc warned oc logs
  assume b: "bind (np_host p) (np_port p) = Inr ()" and c: "fleet_from_env env = Inr (fc, warned)" "otlp_from_env env = Inr oc"
    and n: "node_init bind env hostname stamp t p = Inr
         (\<lparr>dn_state = rs_init t,
           dn_server = \<lparr>hs_host = np_host p, hs_port = np_port p, hs_daemon_threads = True, hs_phase = Serving\<rparr>,
           dn_reporter = map_option (\<lambda>c. (c, started t)) fc, dn_metrics = map_option (\<lambda>c. (c, started t)) oc\<rparr>, logs)"
  have "fc = None \<longleftrightarrow> \<not> (present env ''THREEVN_FLEET_URL'' \<and> present env ''THREEVN_FLEET_TOKEN'')"
    "oc = None \<longleftrightarrow> \<not> present env ''THREEVN_OTLP_ENDPOINT''"
    using from_env_ok [of env] c by (auto simp: present_def)
  then show ?thesis unfolding n using b
    by (cases fc; cases oc) (auto simp: started_def worker_start_def worker_new_def)
qed simp

text \<open>Where nothing is configured nothing is sent: without an endpoint no run of the node, whatever its
  callbacks do, contains an attempt.\<close>

theorem unconfigured_is_quiet:
  assumes "node_init bind env hostname stamp t p = Inr (n, logs)" "lts_run (node_step msg ver ns start_ns) n es n'"
  shows "(\<not> (present env ''THREEVN_FLEET_URL'' \<and> present env ''THREEVN_FLEET_TOKEN'') \<longrightarrow>
            outcomes (List.map_filter reporter_event es) = [])
         \<and> (\<not> present env ''THREEVN_OTLP_ENDPOINT'' \<longrightarrow> outcomes (List.map_filter metrics_event es) = [])"
proof (rule node_init_cases [of bind p env hostname stamp t])
  fix fc warned oc lg
  assume c: "fleet_from_env env = Inr (fc, warned)" "otlp_from_env env = Inr oc"
    and n: "node_init bind env hostname stamp t p = Inr
         (\<lparr>dn_state = rs_init t,
           dn_server = \<lparr>hs_host = np_host p, hs_port = np_port p, hs_daemon_threads = True, hs_phase = Serving\<rparr>,
           dn_reporter = map_option (\<lambda>c. (c, started t)) fc, dn_metrics = map_option (\<lambda>c. (c, started t)) oc\<rparr>, lg)"
  have "fc = None \<longleftrightarrow> \<not> (present env ''THREEVN_FLEET_URL'' \<and> present env ''THREEVN_FLEET_TOKEN'')"
    "oc = None \<longleftrightarrow> \<not> present env ''THREEVN_OTLP_ENDPOINT''"
    using from_env_ok [of env] c by (auto simp: present_def)
  with n assms(1) reporter.absent_run [OF assms(2)] metrics.absent_run [OF assms(2)] show ?thesis by auto
qed (use assms(1) in simp)

text \<open>C10: shutting down silences the robot. Once the calls of \<open>shutdown\<close> have been made, interleaved in any
  way with the callbacks and threads of a dashboard that ran for any time, the HTTP server is closed for
  good and of each exporter at most the one attempt that was in flight can still come back.\<close>

theorem shutdown_silences:
  assumes init: "node_init bind env hostname stamp t p = Inr (n, logs)"
    and run: "lts_run (node_step msg ver ns start_ns) n es n1"
    and down: "lts_run (node_step msg ver ns start_ns) n1 fs n2" "subseq (shutdown_calls n) fs"
    and later: "lts_run (node_step msg ver ns start_ns) n2 gs n3"
  shows "hs_phase (dn_server n3) = Closed
         \<and> length (outcomes (List.map_filter reporter_event gs)) \<le> 1
         \<and> length (outcomes (List.map_filter metrics_event gs)) \<le> 1"
proof -
  let ?step = "node_step msg ver ns start_ns"
  have sub: "set (shutdown_calls n) \<subseteq> set fs" using list_emb_set [OF down(2)] by auto
  have parts: "dn_reporter n = None \<or> (\<exists>c s t. dn_reporter n = Some (c, snd (worker_start (worker_new s t))))"
    "dn_metrics n = None \<or> (\<exists>c s t. dn_metrics n = Some (c, snd (worker_start (worker_new s t))))"
    using node_parts [OF init] unfolding started_def by blast+
  have closed: "hs_phase (dn_server n3) = Closed"
  proof -
    have "ServerClose \<in> set fs" using sub by (auto simp: shutdown_calls_def)
    then obtain as m m' bs where at: "?step m ServerClose m'" "lts_run ?step m' bs n2"
      by (rule lts_run_at [OF down(1)])
    from at(1) have "hs_phase (dn_server m') = Closed" by auto
    from closed_run [OF later closed_run [OF at(2) this]] show ?thesis .
  qed
  have "length (outcomes (List.map_filter reporter_event gs)) \<le> 1"
    by (rule reporter.silent_after [OF parts(1) run down(1) later], rule bexI [of _ "Reporter StopSet"])
      (use sub in \<open>auto simp: shutdown_calls_def\<close>)
  moreover have "length (outcomes (List.map_filter metrics_event gs)) \<le> 1"
    by (rule metrics.silent_after [OF parts(2) run down(1) later], rule bexI [of _ "Metrics StopSet"])
      (use sub in \<open>auto simp: shutdown_calls_def\<close>)
  ultimately show ?thesis using closed by blast
qed

text \<open>An address that is taken leaves ROS initialised: the constructor is outside the \<open>try\<close> of \<open>main\<close>, so
  when binding raises, nothing is shut down, \<open>rclpy\<close> included.\<close>

theorem port_taken_leaks:
  assumes "bind (np_host p) (np_port p) = Inl e"
  shows "dashboard_main (node_init bind env hostname stamp t p) spun rcl_ok = ([RclInit, MakeNode], Inl e)"
  by (rule node_init_cases [of bind p env hostname stamp t]) (use assms in \<open>simp_all add: dashboard_main_def ros_main_def\<close>)

theorem port_taken_leaks_witness:
  "dashboard_main (node_init (\<lambda>h q. Inl OSError) (\<lambda>k. None) ''bench'' ''now'' 0 default_params) SpinReturned True
   = ([RclInit, MakeNode], Inl OSError)"
  by (rule port_taken_leaks) simp

subsection \<open>A dashboard that is shut down during a report\<close>

lemma reporter_lift:
  "wrun (send_once True) (fc_interval c) w es w' \<Longrightarrow> dn_reporter n = Some (c, w) \<Longrightarrow>
     \<forall>e \<in> set es. reads_node msg ver n e \<Longrightarrow>
     lts_run (node_step msg ver ns start_ns) n (map Reporter es) (n\<lparr>dn_reporter := Some (c, w')\<rparr>)"
proof (induction rule: wrun.induct)
  case (wrun_nil w)
  then have "n\<lparr>dn_reporter := Some (c, w)\<rparr> = n" by simp
  then show ?case by (simp add: lts_nil)
next
  case (wrun_snoc w es w1 e w2)
  let ?m = "n\<lparr>dn_reporter := Some (c, w1)\<rparr>"
  have "lts_run (node_step msg ver ns start_ns) n (map Reporter es) ?m" using wrun_snoc by simp
  moreover have "reads_node msg ver ?m e" using wrun_snoc.prems by (auto simp: reads_node_def split: wevent.splits)
  then have "node_step msg ver ns start_ns ?m (Reporter e) (?m\<lparr>dn_reporter := Some (c, w2)\<rparr>)"
    using wrun_snoc by (intro node_step.Reporter) auto
  ultimately show ?case using lts_snoc by fastforce
qed

definition demo_env :: "string \<Rightarrow> string option" where
  "demo_env k = (if k = ''THREEVN_FLEET_URL'' then Some ''u'' else if k = ''THREEVN_FLEET_TOKEN'' then Some ''t'' else None)"

definition demo_node :: dash_node where
  "demo_node = \<lparr>dn_state = rs_init 0,
     dn_server = \<lparr>hs_host = ''0.0.0.0'', hs_port = 8107, hs_daemon_threads = True, hs_phase = Serving\<rparr>,
     dn_reporter = Some (\<lparr>fc_url = ''u'', fc_token = ''t'', fc_interval = 10\<rparr>, started 0), dn_metrics = None\<rparr>"

lemma demo_node_init:
  "\<exists>logs. node_init (\<lambda>h q. Inr ()) demo_env ''bench'' ''now'' 0 default_params = Inr (demo_node, logs)"
proof -
  have c: "fleet_from_env demo_env = Inr (Some \<lparr>fc_url = ''u'', fc_token = ''t'', fc_interval = 10\<rparr>, False)"
    "otlp_from_env demo_env = Inr None"
    by (simp_all add: fleet_from_env_def otlp_from_env_def env_get_def env_interval_def demo_env_def py_strip_def is_space_def)
  show ?thesis
    by (rule node_init_cases [of "\<lambda>h q. Inr ()" default_params demo_env "''bench''" "''now''" 0])
      (auto simp: c demo_node_def default_params_def)
qed

definition demo_down :: "push worker" where
  "demo_down = busy\<lparr>wk_set := True, wk_thread := None, wk_now := 2\<rparr>"

lemma demo_stop: "wrun (send_once True) 10 busy [StopSet, Pass 2, StopJoin] demo_down"
proof -
  have "wstep (send_once True) 10 stopping (Pass 2) (stopping\<lparr>wk_now := 2\<rparr>)"
    using wstep.Pass [of 2 "send_once True" 10 stopping] by (simp add: stopping_def busy_def)
  moreover have "wstep (send_once True) 10 (stopping\<lparr>wk_now := 2\<rparr>) StopJoin demo_down"
    using wstep.StopJoin [of "stopping\<lparr>wk_now := 2\<rparr>" "send_once True" 10]
    by (simp add: stopping_def busy_def demo_down_def join_returns_def stop_return_def)
  ultimately show ?thesis
    using wrun_snoc [OF wrun_snoc [OF wrun_snoc [OF wrun_nil stop_busy]]] by fastforce
qed

definition demo_io :: push_io where
  "demo_io = \<lparr>io_state = Inr (fleet_state (\<lambda>_. []) (\<lambda>_. 0) (rs_init 0)), io_version = Inr (JObj []), io_opener = Inl URLError\<rparr>"

theorem shutdown_silences_witness:
  "\<exists>n logs n1 fs n2 n3. node_init (\<lambda>h q. Inr ()) demo_env ''bench'' ''now'' 0 default_params = Inr (n, logs)
     \<and> lts_run (node_step (\<lambda>_. []) (JObj []) (\<lambda>_. 0) 0) n1 fs n2 \<and> subseq (shutdown_calls n) fs
     \<and> lts_run (node_step (\<lambda>_. []) (JObj []) (\<lambda>_. 0) 0) n2 [Reporter (Attempt 0 demo_io)] n3
     \<and> hs_phase (dn_server n3) = Closed"
proof -
  let ?step = "node_step (\<lambda>_. []) (JObj []) (\<lambda>_. 0) 0"
  let ?c = "\<lparr>fc_url = ''u'', fc_token = ''t'', fc_interval = 10\<rparr>"
  let ?n1 = "demo_node\<lparr>dn_reporter := Some (?c, busy)\<rparr>"
  let ?m = "demo_node\<lparr>dn_reporter := Some (?c, demo_down)\<rparr>"
  let ?n2 = "?m\<lparr>dn_server := (dn_server ?m)\<lparr>hs_phase := Closed\<rparr>\<rparr>"
  let ?fs = "map Reporter [StopSet, Pass 2, StopJoin] @ [ServerShutdown] @ [ServerClose]"
  have es: "lts_run ?step demo_node (map Reporter [Check 0]) ?n1"
  proof -
    have "wrun (send_once True) (fc_interval ?c) (started 0) ([] @ [Check 0]) busy"
      unfolding started_def by (rule wrun_snoc [OF wrun_nil check_started])
    from reporter_lift [OF this, of demo_node] show ?thesis by (simp add: demo_node_def reads_node_def)
  qed
  have "lts_run ?step ?n1 (map Reporter [StopSet, Pass 2, StopJoin]) ?m"
    using reporter_lift [of ?c busy "[StopSet, Pass 2, StopJoin]" demo_down ?n1] demo_stop
    by (simp add: reads_node_def del: map_eq_Cons_conv)
  moreover have "?step ?m ServerShutdown (?m\<lparr>dn_server := (dn_server ?m)\<lparr>hs_phase := ShutDown\<rparr>\<rparr>)"
    by (rule node_step.ServerShutdown) (simp add: demo_node_def)
  moreover have "?step (?m\<lparr>dn_server := (dn_server ?m)\<lparr>hs_phase := ShutDown\<rparr>\<rparr>) ServerClose ?n2"
    using node_step.ServerClose [of "?m\<lparr>dn_server := (dn_server ?m)\<lparr>hs_phase := ShutDown\<rparr>\<rparr>"] by simp
  ultimately have fs: "lts_run ?step ?n1 ?fs ?n2"
    by (rule lts_snoc2)
  have sub: "subseq (shutdown_calls demo_node) ?fs" by (simp add: shutdown_calls_def demo_node_def)
  have "wstep (send_once True) 10 demo_down (Attempt 0 demo_io) (loop_attempt (send_once True) 10 0 demo_io demo_down)"
    by (rule wstep.Attempt) (simp_all add: demo_down_def busy_def)
  then have "wrun (send_once True) (fc_interval ?c) demo_down ([] @ [Attempt 0 demo_io])
      (loop_attempt (send_once True) 10 0 demo_io demo_down)"
    using wrun_snoc [OF wrun_nil] by simp
  from reporter_lift [OF this, of ?n2 "\<lambda>_. []" "JObj []"]
  obtain n3 where gs: "lts_run ?step ?n2 [Reporter (Attempt 0 demo_io)] n3"
    by (auto simp: reads_node_def demo_io_def demo_node_def)
  obtain logs where init: "node_init (\<lambda>h q. Inr ()) demo_env ''bench'' ''now'' 0 default_params = Inr (demo_node, logs)"
    using demo_node_init by blast
  from shutdown_silences [OF init es fs sub gs] init fs sub gs show ?thesis by blast
qed

theorem unconfigured_is_quiet_witness:
  "outcomes (List.map_filter reporter_event [Robot (PollTick 1 1 True True)]) = []"
proof -
  obtain n logs where n: "node_init (\<lambda>h q. Inr ()) (\<lambda>k. None) ''bench'' ''now'' 0 default_params = Inr (n, logs)"
    by (rule node_init_cases [of "\<lambda>h q. Inr ()" default_params "\<lambda>k. None" "''bench''" "''now''" 0]) auto
  have "lts_run (node_step (\<lambda>_. []) (JObj []) (\<lambda>_. 0) 0) n ([] @ [Robot (PollTick 1 1 True True)])
      (n\<lparr>dn_state := dash_step (dn_state n) (PollTick 1 1 True True)\<rparr>)"
    by (rule lts_snoc [where e = "Robot (PollTick 1 1 True True)", OF lts_nil]) (rule node_step.Robot)
  from unconfigured_is_quiet [OF n this] show ?thesis by (simp add: present_def env_get_def py_strip_def)
qed

end
