(* ===== verification/Detector.thy ===== *)
theory Detector
  imports Prelude "HOL-Library.Word"
begin

section \<open>The colour detector (\<open>threevn_perception/detector.py\<close>)\<close>

text \<open>
  The image pipeline of the perception node: a raw buffer becomes an array (\<open>as_rgb\<close>), the array a
  mask (\<open>colour_mask\<close>), the mask its largest connected region (\<open>largest_blob\<close>), and the region a
  position in the camera's optical frame. Pixels are bytes (\<open>8 word\<close>), widened to the signed
  16-bit integers numpy computes with; an array is its shape and its elements in row-major
  order; the array \<open>seen\<close> of the flood fill is the set of its true positions. The flood fill is
  specified by the connected components of the mask (\<open>component\<close>).
\<close>

subsection \<open>Data\<close>

record blob =
  b_u :: real
  b_v :: real
  b_width :: int
  b_height :: int
  b_area :: nat

record intrinsics =
  in_fx :: real
  in_fy :: real
  in_cx :: real
  in_cy :: real

type_synonym byte = "8 word"

record 'a ndarray =
  nd_shape :: "nat list"
  nd_data :: "'a list"

record mask =
  mk_height :: nat
  mk_width :: nat
  mk_bits :: "bool list"

type_synonym px = "int \<times> int"

subsection \<open>Intrinsics\<close>

definition intrinsics_from_camera_info :: "real list \<Rightarrow> intrinsics res" where
  "intrinsics_from_camera_info k =
     rbind (py_index k 0) (\<lambda>fx. rbind (py_index k 4) (\<lambda>fy.
     rbind (py_index k 2) (\<lambda>cx. rbind (py_index k 5) (\<lambda>cy.
       Inr \<lparr>in_fx = fx, in_fy = fy, in_cx = cx, in_cy = cy\<rparr>))))"

definition radians :: "real \<Rightarrow> real" where
  "radians d = d * pi / 180"

definition intrinsics_from_fov :: "real \<Rightarrow> real \<Rightarrow> real \<Rightarrow> intrinsics res" where
  "intrinsics_from_fov width height hfov_deg =
     rbind (py_div (width / 2) (tan (radians hfov_deg / 2))) (\<lambda>fx.
       Inr \<lparr>in_fx = fx, in_fy = fx, in_cx = width / 2, in_cy = height / 2\<rparr>)"

subsection \<open>Images\<close>

text \<open>\<open>np.frombuffer(buffer, dtype=uint8).reshape(height, width, 3)\<close>: the sizes must agree.\<close>

definition reshape3 :: "byte list \<Rightarrow> nat \<Rightarrow> nat \<Rightarrow> byte ndarray res" where
  "reshape3 buffer height width =
     (if length buffer = height * width * 3
      then Inr \<lparr>nd_shape = [height, width, 3], nd_data = buffer\<rparr>
      else Inl ValueError)"

text \<open>\<open>array[:, :, ::-1]\<close>: every group of three elements reversed.\<close>

fun swap_channels :: "'a list \<Rightarrow> 'a list" where
  "swap_channels (a # b # c # xs) = c # b # a # swap_channels xs"
| "swap_channels _ = []"

definition as_rgb :: "byte list \<Rightarrow> nat \<Rightarrow> nat \<Rightarrow> string \<Rightarrow> byte ndarray res" where
  "as_rgb buffer height width encoding =
     rbind (reshape3 buffer height width) (\<lambda>array.
       if encoding = ''rgb8'' then Inr array
       else if encoding = ''bgr8'' then Inr (array\<lparr>nd_data := swap_channels (nd_data array)\<rparr>)
       else Inl ValueError)"

text \<open>\<open>image[:, :, channel]\<close> of one pixel; a channel outside the three is an \<open>IndexError\<close>.\<close>

fun pixels3 :: "'a list \<Rightarrow> ('a \<times> 'a \<times> 'a) list" where
  "pixels3 (a # b # c # xs) = (a, b, c) # pixels3 xs"
| "pixels3 _ = []"

definition chan :: "'a \<times> 'a \<times> 'a \<Rightarrow> 'a list" where
  "chan p = (case p of (a, b, c) \<Rightarrow> [a, b, c])"

definition widen :: "byte \<Rightarrow> 16 word" where
  "widen b = ucast b"

definition pixel_dominates :: "int \<Rightarrow> int \<Rightarrow> int \<Rightarrow> byte \<times> byte \<times> byte \<Rightarrow> bool res" where
  "pixel_dominates channel minimum dominance p =
     rbind (py_index (map widen (chan p)) channel) (\<lambda>target.
       Inr (sint target > minimum
            \<and> list_all (\<lambda>i. sint (target - map widen (chan p) ! i) > dominance)
                       (filter (\<lambda>i. int i \<noteq> channel) [0, 1, 2])))"

definition colour_mask :: "byte ndarray \<Rightarrow> int \<Rightarrow> int \<Rightarrow> int \<Rightarrow> mask res" where
  "colour_mask rgb channel minimum dominance =
     (case nd_shape rgb of
        [h, w, d] \<Rightarrow>
          if d \<noteq> 3 then Inl ValueError
          else if channel < - 3 \<or> 3 \<le> channel then Inl IndexError
          else rbind (rmap (pixel_dominates channel minimum dominance) (pixels3 (nd_data rgb)))
                 (\<lambda>bits. Inr \<lparr>mk_height = h, mk_width = w, mk_bits = bits\<rparr>)
      | _ \<Rightarrow> Inl ValueError)"

subsection \<open>The largest connected region\<close>

definition masked :: "mask \<Rightarrow> px \<Rightarrow> bool" where
  "masked m p =
     (case p of (y, x) \<Rightarrow>
        0 \<le> y \<and> y < int (mk_height m) \<and> 0 \<le> x \<and> x < int (mk_width m)
        \<and> mk_bits m ! (nat y * mk_width m + nat x))"

text \<open>\<open>zip(*np.nonzero(mask))\<close>: the true positions, row by row.\<close>

definition nonzero :: "mask \<Rightarrow> px list" where
  "nonzero m = filter (masked m)
     (concat (map (\<lambda>y. map (\<lambda>x. (int y, int x)) [0..<mk_width m]) [0..<mk_height m]))"

definition neighbours :: "px \<Rightarrow> px list" where
  "neighbours p = (case p of (y, x) \<Rightarrow> [(y + 1, x), (y - 1, x), (y, x + 1), (y, x - 1)])"

text \<open>The inner \<open>for\<close> loop: mark and push each neighbour that is in the mask and not seen. The
  stack's top is the head of the list.\<close>

fun push_neighbours :: "mask \<Rightarrow> px list \<Rightarrow> px set \<Rightarrow> px list \<Rightarrow> px set \<times> px list" where
  "push_neighbours m [] seen stack = (seen, stack)"
| "push_neighbours m (n # ns) seen stack =
     (if masked m n \<and> n \<notin> seen then push_neighbours m ns (insert n seen) (n # stack)
      else push_neighbours m ns seen stack)"

definition on :: "mask \<Rightarrow> px set" where
  "on m = {p. masked m p}"

lemma finite_on [simp]: "finite (on m)"
proof (rule finite_subset)
  show "on m \<subseteq> {0..<int (mk_height m)} \<times> {0..<int (mk_width m)}"
    by (auto simp: on_def masked_def)
qed simp

lemma push_neighbours_measure:
  "push_neighbours m ns seen stack = (seen', stack') \<Longrightarrow>
     2 * card (on m - seen') + length stack' \<le> 2 * card (on m - seen) + length stack"
proof (induction m ns seen stack rule: push_neighbours.induct)
  case (2 m n ns seen stack)
  show ?case
  proof (cases "masked m n \<and> n \<notin> seen")
    case True
    then have "n \<in> on m - seen" by (simp add: on_def)
    then have "card (on m - insert n seen) < card (on m - seen)"
      by (intro psubset_card_mono) auto
    with 2 True show ?thesis by simp
  qed (use 2 in auto)
qed simp

text \<open>The \<open>while stack\<close> loop. Every iteration pops one pixel, and a pixel is pushed at most once
  because it is marked when it is pushed, so the loop ends.\<close>

function flood :: "mask \<Rightarrow> px set \<Rightarrow> px list \<Rightarrow> px list \<Rightarrow> px set \<times> px list" where
  "flood m seen [] pixels = (seen, pixels)"
| "flood m seen (p # stack) pixels =
     (case push_neighbours m (neighbours p) seen stack of
        (seen', stack') \<Rightarrow> flood m seen' stack' (pixels @ [p]))"
  by pat_completeness auto
termination
  by (relation "measure (\<lambda>(m, seen, stack, pixels). 2 * card (on m - seen) + length stack)")
    (auto dest!: sym [of "(_, _)"] push_neighbours_measure)

fun scan :: "mask \<Rightarrow> px list \<Rightarrow> px set \<Rightarrow> px list option \<Rightarrow> px list option" where
  "scan m [] seen best = best"
| "scan m (p # ps) seen best =
     (if p \<in> seen then scan m ps seen best
      else case flood m (insert p seen) [p] [] of
             (seen', pixels) \<Rightarrow>
               scan m ps seen'
                 (case best of
                    None \<Rightarrow> Some pixels
                  | Some b \<Rightarrow> if length b < length pixels then Some pixels else best))"

definition mean :: "int list \<Rightarrow> real" where
  "mean xs = real_of_int (sum_list xs) / real (length xs)"

definition blob_of :: "px list \<Rightarrow> blob" where
  "blob_of ps =
     (let ys = map fst ps; xs = map snd ps in
      \<lparr>b_u = mean xs, b_v = mean ys,
       b_width = Max (set xs) - Min (set xs) + 1, b_height = Max (set ys) - Min (set ys) + 1,
       b_area = length ps\<rparr>)"

definition largest_blob :: "mask \<Rightarrow> nat \<Rightarrow> blob option" where
  "largest_blob m min_area =
     (if nonzero m = [] then None
      else case scan m (nonzero m) {} None of
             None \<Rightarrow> None
           | Some best \<Rightarrow> if length best < min_area then None else Some (blob_of best))"

subsection \<open>Position\<close>

definition range_from_apparent_size :: "real \<Rightarrow> real \<Rightarrow> real \<Rightarrow> real res" where
  "range_from_apparent_size pixel_width real_width fx =
     (if pixel_width \<le> 0 then Inl ValueError else Inr (fx * real_width / pixel_width))"

definition position_in_optical_frame ::
  "blob \<Rightarrow> intrinsics \<Rightarrow> real \<Rightarrow> (real \<times> real \<times> real) res" where
  "position_in_optical_frame b i real_width =
     rbind (range_from_apparent_size (real_of_int (b_width b)) real_width (in_fx i)) (\<lambda>distance.
     rbind (py_div ((b_u b - in_cx i) * distance) (in_fx i)) (\<lambda>x.
     rbind (py_div ((b_v b - in_cy i) * distance) (in_fy i)) (\<lambda>y.
       Inr (x, y, distance))))"

definition detect ::
  "byte ndarray \<Rightarrow> intrinsics \<Rightarrow> real \<Rightarrow> int \<Rightarrow> int \<Rightarrow> int
     \<Rightarrow> (blob \<times> real \<times> real \<times> real) option res" where
  "detect rgb i real_width channel minimum dominance =
     rbind (colour_mask rgb channel minimum dominance) (\<lambda>m.
       case largest_blob m 40 of
         None \<Rightarrow> Inr None
       | Some b \<Rightarrow> rbind (position_in_optical_frame b i real_width) (\<lambda>pos. Inr (Some (b, pos))))"

subsection \<open>Connected components\<close>

definition adj :: "mask \<Rightarrow> (px \<times> px) set" where
  "adj m = {(p, q). p \<in> on m \<and> q \<in> on m \<and> q \<in> set (neighbours p)}"

definition component :: "mask \<Rightarrow> px \<Rightarrow> px set" where
  "component m p = {q. (p, q) \<in> (adj m)\<^sup>*}"

lemma neighbours_sym: "q \<in> set (neighbours p) \<Longrightarrow> p \<in> set (neighbours q)"
  by (auto simp: neighbours_def split: prod.splits)

lemma sym_adj: "sym (adj m)"
  by (auto simp: sym_def adj_def neighbours_sym)

lemma component_sym: "q \<in> component m p \<Longrightarrow> p \<in> component m q"
  using sym_rtrancl [OF sym_adj [of m]] by (auto simp: component_def dest: symD)

lemma component_eq: "q \<in> component m p \<Longrightarrow> component m q = component m p"
  using component_sym [of q m p] by (auto simp: component_def)

lemma component_refl [simp, intro]: "p \<in> component m p"
  by (simp add: component_def)

lemma component_on: "p \<in> on m \<Longrightarrow> component m p \<subseteq> on m"
proof
  fix q assume "p \<in> on m" and "q \<in> component m p"
  then have "(p, q) \<in> (adj m)\<^sup>*" by (simp add: component_def)
  then show "q \<in> on m" using \<open>p \<in> on m\<close> by (induction) (auto simp: adj_def)
qed

lemma finite_component: "p \<in> on m \<Longrightarrow> finite (component m p)"
  by (rule finite_subset [OF component_on finite_on])

text \<open>A set closed under adjacency is a union of components.\<close>

definition closed :: "mask \<Rightarrow> px set \<Rightarrow> bool" where
  "closed m S \<longleftrightarrow> (\<forall>p \<in> S. component m p \<subseteq> S)"

lemma closed_empty: "closed m {}"
  by (simp add: closed_def)

lemma closed_Un_component: "closed m S \<Longrightarrow> closed m (S \<union> component m p)"
  unfolding closed_def using component_eq [of _ m p] by blast

lemma closed_disjoint: "closed m S \<Longrightarrow> p \<notin> S \<Longrightarrow> component m p \<inter> S = {}"
  unfolding closed_def using component_sym [of _ m p] by blast

subsection \<open>The flood fill finds a component\<close>

lemma push_neighbours_spec:
  "push_neighbours m ns seen stack = (seen', stack') \<Longrightarrow>
     \<exists>new. stack' = new @ stack \<and> distinct new \<and> set new = set ns \<inter> on m - seen
           \<and> seen' = seen \<union> set new"
proof (induction m ns seen stack arbitrary: seen' stack' rule: push_neighbours.induct)
  case (2 m n ns seen stack)
  show ?case
  proof (cases "masked m n \<and> n \<notin> seen")
    case True
    with 2 obtain new where new: "stack' = new @ n # stack" "distinct new"
      "set new = set ns \<inter> on m - insert n seen" "seen' = insert n seen \<union> set new"
      by auto
    with True show ?thesis by (intro exI [of _ "new @ [n]"]) (auto simp: on_def)
  next
    case False
    with 2 obtain new where "stack' = new @ stack" "distinct new"
      "set new = set ns \<inter> on m - seen" "seen' = seen \<union> set new"
      by auto
    with False show ?thesis by (intro exI [of _ new]) (auto simp: on_def)
  qed
qed simp

text \<open>The loop's invariant, for a fill started at \<open>p\<close> with \<open>old\<close> already seen: what is new is on the
  stack or in \<open>pixels\<close>, each once and connected to \<open>p\<close>, and the neighbours of every pixel
  taken off the stack have been seen.\<close>

definition flood_inv :: "mask \<Rightarrow> px \<Rightarrow> px set \<Rightarrow> px set \<Rightarrow> px list \<Rightarrow> px list \<Rightarrow> bool" where
  "flood_inv m p old seen stack pixels \<longleftrightarrow>
     old \<subseteq> seen \<and> set stack \<union> set pixels = seen - old \<and> distinct (pixels @ stack)
     \<and> p \<in> seen - old \<and> seen - old \<subseteq> component m p
     \<and> (\<forall>q \<in> set pixels. set (neighbours q) \<inter> on m \<subseteq> seen)"

lemma flood_inv_step:
  assumes inv: "flood_inv m p old seen (q # stack) pixels" and on: "p \<in> on m"
    and push: "push_neighbours m (neighbours q) seen stack = (seen', stack')"
  shows "flood_inv m p old seen' stack' (pixels @ [q])"
proof -
  obtain new where new: "stack' = new @ stack" "distinct new"
    "set new = set (neighbours q) \<inter> on m - seen" "seen' = seen \<union> set new"
    using push_neighbours_spec [OF push] by blast
  have q: "q \<in> component m p" and "q \<in> seen"
    using inv by (auto simp: flood_inv_def)
  then have "q \<in> on m" using component_on [OF on] by blast
  have "set new \<subseteq> component m p"
  proof
    fix r assume "r \<in> set new"
    then have "(q, r) \<in> adj m" using new(3) \<open>q \<in> on m\<close> by (auto simp: adj_def)
    with q show "r \<in> component m p" by (auto simp: component_def intro: rtrancl_into_rtrancl)
  qed
  moreover have "set new \<inter> seen = {}" using new(3) by auto
  ultimately show ?thesis
    using inv new by (auto simp: flood_inv_def)
qed

lemma flood_inv_end:
  assumes inv: "flood_inv m p old seen [] pixels" and on: "p \<in> on m" and cl: "closed m old"
  shows "set pixels = component m p \<and> distinct pixels \<and> seen = old \<union> component m p"
proof -
  have px: "set pixels = seen - old" and sub: "seen - old \<subseteq> component m p"
    and p: "p \<in> set pixels" and nb: "\<And>q. q \<in> set pixels \<Longrightarrow> set (neighbours q) \<inter> on m \<subseteq> seen"
    using inv by (auto simp: flood_inv_def)
  have "q \<in> set pixels" if "(p, q) \<in> (adj m)\<^sup>*" for q
    using that
  proof (induction)
    case (step q r)
    then have "r \<in> seen" using nb [of q] by (auto simp: adj_def)
    have "r \<in> component m p" using step.hyps by (auto simp: component_def)
    then have "r \<notin> old"
      using closed_disjoint [OF cl, of p] p px by auto
    with \<open>r \<in> seen\<close> px show ?case by simp
  qed (rule p)
  then have "component m p \<subseteq> set pixels" by (auto simp: component_def)
  then show ?thesis using px sub inv by (auto simp: flood_inv_def)
qed

lemma flood_from_inv:
  assumes "flood_inv m p old seen stack pixels" and "p \<in> on m" and "closed m old"
    and "flood m seen stack pixels = (seen', pixels')"
  shows "set pixels' = component m p \<and> distinct pixels' \<and> seen' = old \<union> component m p"
  using assms
proof (induction m seen stack pixels rule: flood.induct)
  case (1 m seen pixels)
  then show ?case using flood_inv_end by simp
next
  case (2 m seen q stack pixels)
  obtain s1 st1 where push: "push_neighbours m (neighbours q) seen stack = (s1, st1)"
    by (cases "push_neighbours m (neighbours q) seen stack")
  have "flood_inv m p old s1 st1 (pixels @ [q])"
    using flood_inv_step [OF 2(2,3) push] .
  then show ?case using 2 push by simp
qed

lemma flood_component:
  assumes "p \<in> on m" and "closed m old" and "p \<notin> old"
    and "flood m (insert p old) [p] [] = (seen', pixels)"
  shows "set pixels = component m p \<and> distinct pixels \<and> seen' = old \<union> component m p"
proof (rule flood_from_inv [OF _ assms(1,2,4)])
  show "flood_inv m p old (insert p old) [p] []"
    using assms(3) by (auto simp: flood_inv_def)
qed

subsection \<open>The scan keeps the largest component\<close>

definition best_of :: "mask \<Rightarrow> px set \<Rightarrow> px list option \<Rightarrow> bool" where
  "best_of m seen best \<longleftrightarrow>
     (case best of
        None \<Rightarrow> seen = {}
      | Some b \<Rightarrow> distinct b \<and> (\<exists>p \<in> on m. set b = component m p)
                  \<and> (\<forall>q \<in> seen. card (component m q) \<le> length b))"

lemma best_of_step:
  assumes best: "best_of m seen best" and on: "p \<in> on m"
    and px: "set pixels = component m p" "distinct pixels"
  shows "best_of m (seen \<union> component m p)
           (case best of None \<Rightarrow> Some pixels
            | Some b \<Rightarrow> if length b < length pixels then Some pixels else best)"
proof -
  have len: "length pixels = card (component m q)" if "q \<in> component m p" for q
    using component_eq [OF that] px by (simp flip: distinct_card)
  show ?thesis
    using best on px len by (auto simp: best_of_def split: option.splits)
qed

lemma scan_best:
  assumes "set ps \<subseteq> on m" and "closed m seen" and "best_of m seen best"
  shows "best_of m (seen \<union> set ps) (scan m ps seen best)"
  using assms
proof (induction ps arbitrary: seen best)
  case (Cons p ps)
  show ?case
  proof (cases "p \<in> seen")
    case True
    with Cons.prems Cons.IH [of seen best] show ?thesis by (simp add: insert_absorb)
  next
    case False
    obtain seen' pixels where fl: "flood m (insert p seen) [p] [] = (seen', pixels)"
      by (cases "flood m (insert p seen) [p] []")
    have px: "set pixels = component m p" "distinct pixels" "seen' = seen \<union> component m p"
      using flood_component [OF _ Cons.prems(2) False fl] Cons.prems(1) by auto
    let ?best = "case best of None \<Rightarrow> Some pixels
                 | Some b \<Rightarrow> if length b < length pixels then Some pixels else best"
    have "best_of m (seen' \<union> set ps) (scan m ps seen' ?best)"
      using Cons.prems px
      by (intro Cons.IH) (simp_all add: closed_Un_component best_of_step)
    moreover have "best_of m (seen \<union> set (p # ps)) B" if "best_of m (seen' \<union> set ps) B" for B
      using that px(3) by (auto simp: best_of_def split: option.splits)
    ultimately show ?thesis using False fl by simp
  qed
qed simp

lemma set_nonzero: "set (nonzero m) = on m"
proof -
  have "(y, x) \<in> set (nonzero m)" if "masked m (y, x)" for y x
  proof -
    have "0 \<le> y" "0 \<le> x" using that by (auto simp: masked_def)
    then obtain i j where "y = int i" "x = int j" by (meson nonneg_int_cases)
    with that show ?thesis by (auto simp: nonzero_def masked_def intro!: bexI [of _ i])
  qed
  then show ?thesis by (auto simp: on_def nonzero_def)
qed

lemma scan_nonzero:
  "best_of m (on m) (scan m (nonzero m) {} None)"
  using scan_best [of "nonzero m" m "{}" None] by (simp add: set_nonzero closed_empty best_of_def)

lemma on_empty_iff: "nonzero m = [] \<longleftrightarrow> on m = {}"
  by (simp flip: set_nonzero)

lemma sum_list_component:
  "distinct ps \<Longrightarrow> sum_list (map f ps) = sum f (set ps)"
  by (simp add: sum_list_distinct_conv_sum_set)

lemma blob_of_component:
  assumes "distinct ps" and "set ps = C"
  shows "b_area (blob_of ps) = card C"
    and "b_u (blob_of ps) = real_of_int (sum snd C) / real (card C)"
    and "b_v (blob_of ps) = real_of_int (sum fst C) / real (card C)"
    and "b_width (blob_of ps) = Max (snd ` C) - Min (snd ` C) + 1"
    and "b_height (blob_of ps) = Max (fst ` C) - Min (fst ` C) + 1"
  using assms distinct_card [of ps]
  by (auto simp: blob_of_def Let_def mean_def sum_list_component)

lemma blob_of_width_pos: "ps \<noteq> [] \<Longrightarrow> 0 < b_width (blob_of ps)"
proof -
  assume "ps \<noteq> []"
  then have "Min (snd ` set ps) \<le> Max (snd ` set ps)"
    by (meson List.finite_set Max_in Min_le finite_imageI image_is_empty set_empty)
  then show ?thesis by (simp add: blob_of_def Let_def)
qed

lemma largest_blob_Some:
  assumes "largest_blob m a = Some b"
  obtains ps p where "b = blob_of ps" "distinct ps" "p \<in> on m" "set ps = component m p"
    "a \<le> length ps" "\<And>q. q \<in> on m \<Longrightarrow> card (component m q) \<le> length ps"
proof -
  obtain ps where scan: "scan m (nonzero m) {} None = Some ps" and b: "b = blob_of ps"
    and a: "a \<le> length ps"
    using assms by (auto simp: largest_blob_def split: if_splits option.splits)
  have best: "best_of m (on m) (Some ps)"
    using scan_nonzero [of m] scan by simp
  then obtain p where "p \<in> on m" "set ps = component m p" by (auto simp: best_of_def)
  with best a b show thesis by (intro that [of ps p]) (auto simp: best_of_def)
qed

lemma largest_blob_None:
  assumes "largest_blob m a = None" and "p \<in> on m"
  shows "card (component m p) < a"
proof -
  have "nonzero m \<noteq> []" using assms(2) by (auto simp: on_empty_iff)
  moreover have "scan m (nonzero m) {} None \<noteq> None"
    using scan_nonzero [of m] assms(2) by (auto simp: best_of_def split: option.splits)
  ultimately obtain ps where scan: "scan m (nonzero m) {} None = Some ps" and "length ps < a"
    using assms(1) by (auto simp: largest_blob_def split: if_splits option.splits)
  moreover have "card (component m p) \<le> length ps"
    using scan_nonzero [of m] scan assms(2) by (simp add: best_of_def)
  ultimately show ?thesis by simp
qed

lemma largest_blob_width_pos:
  assumes "largest_blob m a = Some b"
  shows "0 < b_width b"
proof -
  obtain ps p where "b = blob_of ps" "set ps = component m p"
    using largest_blob_Some [OF assms] by metis
  moreover have "ps \<noteq> []" using component_refl [of p m] calculation by auto
  ultimately show ?thesis by (simp add: blob_of_width_pos)
qed

subsection \<open>Lemmas: images\<close>

lemma uint_byte_bounds: "0 \<le> uint (b :: byte)" "uint (b :: byte) < 256"
  using uint_lt2p [of b] by simp_all

lemma widen_of_int: "widen b = word_of_int (uint b)"
  unfolding widen_def by (rule ucast_eq)

lemma sint_int16: "- 32768 \<le> k \<Longrightarrow> k < 32768 \<Longrightarrow> sint (word_of_int k :: 16 word) = k"
  by (simp add: sint_sbintrunc' signed_take_bit_int_eq_self)

lemma sint_widen: "sint (widen b) = uint b"
  unfolding widen_of_int using uint_byte_bounds [of b] by (intro sint_int16) linarith+

text \<open>The reason for \<open>astype(np.int16)\<close>: at that width the difference of two bytes does not wrap.\<close>

lemma sint_widen_diff: "sint (widen a - widen b) = uint a - uint b"
proof -
  have "widen a - widen b = word_of_int (uint a - uint b)"
    by (simp add: widen_of_int)
  moreover have "sint (word_of_int (uint a - uint b) :: 16 word) = uint a - uint b"
    using uint_byte_bounds [of a] uint_byte_bounds [of b] by (intro sint_int16) linarith+
  ultimately show ?thesis by simp
qed

text \<open>What a pixel has to satisfy, over the integers.\<close>

definition dominates :: "nat \<Rightarrow> int \<Rightarrow> int \<Rightarrow> byte \<times> byte \<times> byte \<Rightarrow> bool" where
  "dominates c minimum dominance p \<longleftrightarrow>
     minimum < uint (chan p ! c)
     \<and> (\<forall>i \<in> {0, 1, 2} - {c}. dominance < uint (chan p ! c) - uint (chan p ! i))"

lemma length_chan [simp]: "length (chan p) = 3"
  by (simp add: chan_def split: prod.splits)

lemma pixel_dominates_eq:
  assumes "c < 3"
  shows "pixel_dominates (int c) minimum dominance p = Inr (dominates c minimum dominance p)"
proof -
  have ix: "py_index (map widen (chan p)) (int c) = Inr (widen (chan p ! c))"
    using assms by (simp add: py_index_def Let_def)
  have "map widen (chan p) ! i = widen (chan p ! i)" if "i < 3" for i
    using that by simp
  then show ?thesis
    by (auto simp: pixel_dominates_def ix dominates_def sint_widen sint_widen_diff)
qed

lemma length_pixels3: "length xs = 3 * n \<Longrightarrow> length (pixels3 xs) = n"
proof (induction n arbitrary: xs)
  case (Suc n)
  then obtain a b c ys where "xs = a # b # c # ys"
    by (metis length_Suc_conv mult_Suc_right numeral_3_eq_3 add_Suc add_0)
  with Suc show ?case by simp
qed simp

lemma pixels3_swap: "pixels3 (swap_channels xs) = map (\<lambda>(a, b, c). (c, b, a)) (pixels3 xs)"
  by (induction xs rule: swap_channels.induct) auto

lemma length_swap_channels: "length xs = 3 * n \<Longrightarrow> length (swap_channels xs) = 3 * n"
proof (induction n arbitrary: xs)
  case (Suc n)
  then obtain a b c ys where "xs = a # b # c # ys"
    by (metis length_Suc_conv mult_Suc_right numeral_3_eq_3 add_Suc add_0)
  with Suc show ?case by simp
qed simp

lemma as_rgb_eq_Inr:
  "as_rgb buffer h w encoding = Inr a \<longleftrightarrow>
     length buffer = h * w * 3
     \<and> (encoding = ''rgb8'' \<and> a = \<lparr>nd_shape = [h, w, 3], nd_data = buffer\<rparr>
        \<or> encoding = ''bgr8'' \<and> a = \<lparr>nd_shape = [h, w, 3], nd_data = swap_channels buffer\<rparr>)"
  by (auto simp: as_rgb_def reshape3_def)

lemma colour_mask_ok:
  assumes "c < 3"
  shows "colour_mask \<lparr>nd_shape = [h, w, 3], nd_data = xs\<rparr> (int c) minimum dominance
         = Inr \<lparr>mk_height = h, mk_width = w,
                mk_bits = map (dominates c minimum dominance) (pixels3 xs)\<rparr>"
  using assms by (simp add: colour_mask_def rmap_ok [OF pixel_dominates_eq [OF assms]])

lemma position_ok:
  assumes "0 < b_width b" "in_fx i \<noteq> 0" "in_fy i \<noteq> 0"
  shows "position_in_optical_frame b i W =
     (let z = in_fx i * W / real_of_int (b_width b) in
      Inr ((b_u b - in_cx i) * z / in_fx i, (b_v b - in_cy i) * z / in_fy i, z))"
  using assms by (simp add: position_in_optical_frame_def range_from_apparent_size_def Let_def)

subsection \<open>Properties\<close>

text \<open>C3: the flood fill labels connected regions and the answer is the largest one. When
  \<open>largest_blob\<close> returns a blob, it is one connected component of the mask, of at least
  \<open>min_area\<close> pixels and at least as large as every other component; its centre is the mean of that
  component's coordinates and its size the component's bounding box. When it returns nothing,
  every component has fewer than \<open>min_area\<close> pixels.\<close>

theorem largest_blob_correct:
  "case largest_blob m a of
     None \<Rightarrow> (\<forall>p \<in> on m. card (component m p) < a)
   | Some b \<Rightarrow> (\<exists>p \<in> on m. let C = component m p in
        a \<le> card C \<and> (\<forall>q \<in> on m. card (component m q) \<le> card C)
        \<and> b_area b = card C
        \<and> b_u b = real_of_int (sum snd C) / real (card C)
        \<and> b_v b = real_of_int (sum fst C) / real (card C)
        \<and> b_width b = Max (snd ` C) - Min (snd ` C) + 1
        \<and> b_height b = Max (fst ` C) - Min (fst ` C) + 1)"
proof (cases "largest_blob m a")
  case None
  then show ?thesis using largest_blob_None by simp
next
  case (Some b)
  obtain ps p where ps: "b = blob_of ps" "distinct ps" "p \<in> on m" "set ps = component m p"
    "a \<le> length ps" "\<And>q. q \<in> on m \<Longrightarrow> card (component m q) \<le> length ps"
    using largest_blob_Some [OF Some] by metis
  have "length ps = card (component m p)" using distinct_card [OF ps(2)] ps(4) by simp
  with ps blob_of_component [OF ps(2,4)] Some show ?thesis
    by (auto simp: Let_def)
qed

definition demo_mask :: mask where
  "demo_mask = \<lparr>mk_height = 2, mk_width = 4,
     mk_bits = [True, False, True, True, False, False, True, False]\<rparr>"

lemma demo_mask_blob:
  "largest_blob demo_mask 2
   = Some \<lparr>b_u = 7 / 3, b_v = 1 / 3, b_width = 2, b_height = 2, b_area = 3\<rparr>"
  by (simp add: largest_blob_def nonzero_def demo_mask_def masked_def neighbours_def blob_of_def
      mean_def Let_def upt_rec)

theorem largest_blob_correct_witness:
  "\<exists>p \<in> on demo_mask. card (component demo_mask p) = 3
     \<and> (\<forall>q \<in> on demo_mask. card (component demo_mask q) \<le> 3)"
  using largest_blob_correct [of demo_mask 2] by (simp add: demo_mask_blob Let_def) metis

text \<open>The detector looks at true colour differences. On an image \<open>as_rgb\<close> accepted, and for
  each of the three channels, the mask marks exactly the pixels whose channel exceeds
  \<open>minimum\<close> and exceeds both others by more than \<open>dominance\<close> as integers: no subtraction
  wraps. A \<open>bgr8\<close> buffer gives the mask the same pixels would give as \<open>rgb8\<close>.\<close>

theorem colour_mask_of_buffer:
  assumes "as_rgb buffer h w encoding = Inr a" and "c < 3"
  shows "colour_mask a (int c) minimum dominance =
     Inr \<lparr>mk_height = h, mk_width = w,
          mk_bits = map (dominates c minimum dominance)
            (map (if encoding = ''bgr8'' then (\<lambda>(b, g, r). (r, g, b)) else id) (pixels3 buffer))\<rparr>
     \<and> length (pixels3 buffer) = h * w"
proof -
  have "length (pixels3 buffer) = h * w"
    using assms(1) by (intro length_pixels3) (simp add: as_rgb_eq_Inr mult.commute)
  moreover have "pixels3 (nd_data a) =
      map (if encoding = ''bgr8'' then (\<lambda>(b, g, r). (r, g, b)) else id) (pixels3 buffer)"
    using assms(1) by (auto simp: as_rgb_eq_Inr pixels3_swap)
  moreover have "a = \<lparr>nd_shape = [h, w, 3], nd_data = nd_data a\<rparr>"
    using assms(1) by (auto simp: as_rgb_eq_Inr)
  ultimately show ?thesis
    using colour_mask_ok [OF assms(2), of h w "nd_data a"] by simp
qed

theorem colour_mask_of_buffer_witness:
  "colour_mask \<lparr>nd_shape = [1, 1, 3], nd_data = [5, 200, 250]\<rparr> 1 60 30 =
     Inr \<lparr>mk_height = 1, mk_width = 1, mk_bits = [False]\<rparr>"
proof -
  have "as_rgb [250, 200, 5] 1 1 ''bgr8'' = Inr \<lparr>nd_shape = [1, 1, 3], nd_data = [5, 200, 250]\<rparr>"
    by (simp add: as_rgb_eq_Inr)
  from colour_mask_of_buffer [OF this, of 1 60 30] show ?thesis
    by (simp add: dominates_def chan_def bex_Un insert_Diff_if)
qed

text \<open>Deprojection inverts the pinhole projection. If a target of true width \<open>W\<close> at
  \<open>(X, Y, Z)\<close> in front of the camera is seen at its projected centre and its projected width is
  the blob's (whole) pixel width, the computed position is \<open>(X, Y, Z)\<close>, sign conventions
  included.\<close>

theorem position_inverts_projection:
  assumes "0 < Z" "0 < W" "0 < in_fx i" "in_fy i \<noteq> 0"
    and "b_u b = in_cx i + in_fx i * X / Z" and "b_v b = in_cy i + in_fy i * Y / Z"
    and "real_of_int (b_width b) = in_fx i * W / Z"
  shows "position_in_optical_frame b i W = Inr (X, Y, Z)"
proof -
  have "0 < real_of_int (b_width b)" using assms by simp
  then have "0 < b_width b" by simp
  then show ?thesis
    using assms by (simp add: position_ok Let_def)
qed

theorem position_inverts_projection_witness:
  "position_in_optical_frame \<lparr>b_u = 420, b_v = 190, b_width = 25, b_height = 25, b_area = 625\<rparr>
     \<lparr>in_fx = 500, in_fy = 500, in_cx = 320, in_cy = 240\<rparr> (1 / 20) = Inr (1 / 5, - 1 / 10, 1)"
  by (rule position_inverts_projection) simp_all

text \<open>The pipeline never raises on an accepted frame. For an image \<open>as_rgb\<close> returned, a channel
  index of the image and nonzero focal lengths, \<open>detect\<close> returns a detection or nothing, and the
  range it reports is positive whenever the target width and the focal length are.\<close>

theorem detect_total:
  assumes "as_rgb buffer h w encoding = Inr a" and "c < 3" and "in_fx i \<noteq> 0" "in_fy i \<noteq> 0"
  shows "\<exists>r. detect a i W (int c) minimum dominance = Inr r
             \<and> (\<forall>b x y z. r = Some (b, x, y, z) \<and> 0 < W \<and> 0 < in_fx i \<longrightarrow> 0 < z)"
proof -
  obtain m where m: "colour_mask a (int c) minimum dominance = Inr m"
    using assms(1) colour_mask_ok [OF assms(2)] by (auto simp: as_rgb_eq_Inr)
  show ?thesis
  proof (cases "largest_blob m 40")
    case (Some b)
    then have "0 < b_width b" by (rule largest_blob_width_pos)
    with m Some assms(3,4) show ?thesis by (simp add: detect_def position_ok Let_def)
  qed (simp add: detect_def m)
qed

theorem detect_total_witness:
  "\<exists>r. detect \<lparr>nd_shape = [1, 1, 3], nd_data = [5, 200, 5]\<rparr>
     \<lparr>in_fx = 500, in_fy = 500, in_cx = 320, in_cy = 240\<rparr> (1 / 20) (int 1) 60 30 = Inr r"
  using detect_total [of "[5, 200, 5]" 1 1 "''rgb8''" "\<lparr>nd_shape = [1, 1, 3], nd_data = [5, 200, 5]\<rparr>" 1
      "\<lparr>in_fx = 500, in_fy = 500, in_cx = 320, in_cy = 240\<rparr>" "1 / 20" 60 30]
  by (auto simp: as_rgb_eq_Inr)

end
