(* ===== verification/Find_Target.thy ===== *)
theory Find_Target
  imports Detector
begin

section \<open>The perception node (\<open>threevn_perception/find_target.py\<close>)\<close>

text \<open>
  The node's callbacks as steps on its state. A callback returns the exception that escapes it, if
  any, what it published or logged, in order, and the new state. \<open>tf_buffer.transform\<close> is the
  argument \<open>transform\<close>: it returns the transformed pose or raises. The locale \<open>camera_node\<close> is what
  this node and the serving node have in common: the intrinsics are latched from the first
  \<open>CameraInfo\<close>, and images that arrive before it are ignored.
\<close>

subsection \<open>Messages\<close>

record header =
  hd_frame_id :: string
  hd_stamp :: nat

record image_msg =
  im_header :: header
  im_height :: nat
  im_width :: nat
  im_encoding :: string
  im_data :: "byte list"

record pose_stamped =
  ps_header :: header
  ps_position :: "real \<times> real \<times> real"
  ps_orientation_w :: real

subsection \<open>Nodes that latch the camera's intrinsics\<close>

locale camera_node =
  fixes on_info :: "'s \<Rightarrow> real list \<Rightarrow> 's" and on_image :: "'s \<Rightarrow> image_msg \<Rightarrow> 's"
    and cam :: "'s \<Rightarrow> intrinsics option"
  assumes info_once: "cam s \<noteq> None \<Longrightarrow> on_info s k = s"
    and image_cam: "cam (on_image s m) = cam s"
    and image_waits: "cam s = None \<Longrightarrow> on_image s m = s"
begin

definition event :: "'s \<Rightarrow> real list + image_msg \<Rightarrow> 's" where
  "event s e = (case e of Inl k \<Rightarrow> on_info s k | Inr m \<Rightarrow> on_image s m)"

lemma latched: "cam s = Some i \<Longrightarrow> cam (foldl event s es) = Some i"
  by (induction es arbitrary: s) (auto simp: event_def info_once image_cam split: sum.splits)

lemma images_before_info: "cam s = None \<Longrightarrow> foldl event s (map Inr ms) = s"
  by (induction ms) (auto simp: event_def image_waits)

end

subsection \<open>State and outputs\<close>

record find_target =
  ft_target_width :: real
  ft_reference_frame :: string
  ft_channel :: int
  ft_minimum :: int
  ft_dominance :: int
  ft_intrinsics :: "intrinsics option"
  ft_warned :: bool

datatype ft_out =
    FtIntrinsics intrinsics
  | FtError
  | FtCannotTransform
  | TargetPose pose_stamped
  | TargetInBase pose_stamped

definition ft_init :: "real \<Rightarrow> string \<Rightarrow> int \<Rightarrow> int \<Rightarrow> int \<Rightarrow> find_target" where
  "ft_init width frame channel minimum dominance =
     \<lparr>ft_target_width = width, ft_reference_frame = frame, ft_channel = channel,
      ft_minimum = minimum, ft_dominance = dominance, ft_intrinsics = None, ft_warned = False\<rparr>"

subsection \<open>Callbacks\<close>

definition ft_on_info :: "find_target \<Rightarrow> real list \<Rightarrow> unit res \<times> ft_out list \<times> find_target" where
  "ft_on_info s k =
     (case ft_intrinsics s of
        Some _ \<Rightarrow> (Inr (), [], s)
      | None \<Rightarrow>
          (case intrinsics_from_camera_info k of
             Inl e \<Rightarrow> (Inl e, [], s)
           | Inr i \<Rightarrow> (Inr (), [FtIntrinsics i], s\<lparr>ft_intrinsics := Some i\<rparr>)))"

definition ft_on_image ::
  "(pose_stamped \<Rightarrow> string \<Rightarrow> pose_stamped res) \<Rightarrow> find_target \<Rightarrow> image_msg
     \<Rightarrow> unit res \<times> ft_out list \<times> find_target" where
  "ft_on_image transform s msg =
     (case ft_intrinsics s of
        None \<Rightarrow> (Inr (), [], s)
      | Some i \<Rightarrow>
          (case as_rgb (im_data msg) (im_height msg) (im_width msg) (im_encoding msg) of
             Inl e \<Rightarrow>
               if isinstance e CValueError
               then if ft_warned s then (Inr (), [], s)
                    else (Inr (), [FtError], s\<lparr>ft_warned := True\<rparr>)
               else (Inl e, [], s)
           | Inr rgb \<Rightarrow>
               (case detect rgb i (ft_target_width s) (ft_channel s) (ft_minimum s) (ft_dominance s) of
                  Inl e \<Rightarrow> (Inl e, [], s)
                | Inr None \<Rightarrow> (Inr (), [], s)
                | Inr (Some (_, pos)) \<Rightarrow>
                    let pose = \<lparr>ps_header = im_header msg, ps_position = pos, ps_orientation_w = 1\<rparr> in
                    (case transform pose (ft_reference_frame s) of
                       Inl e \<Rightarrow>
                         if isinstance e CTransformException
                         then (Inr (), [TargetPose pose, FtCannotTransform], s)
                         else (Inl e, [TargetPose pose], s)
                     | Inr in_base \<Rightarrow> (Inr (), [TargetPose pose, TargetInBase in_base], s)))))"

text \<open>A run of the node: every callback's outputs, whatever escaped it.\<close>

definition ft_step ::
  "(pose_stamped \<Rightarrow> string \<Rightarrow> pose_stamped res) \<Rightarrow> find_target \<Rightarrow> real list + image_msg
     \<Rightarrow> ft_out list \<times> find_target" where
  "ft_step transform s e =
     (case e of Inl k \<Rightarrow> snd (ft_on_info s k) | Inr m \<Rightarrow> snd (ft_on_image transform s m))"

fun ft_run ::
  "(pose_stamped \<Rightarrow> string \<Rightarrow> pose_stamped res) \<Rightarrow> find_target \<Rightarrow> (real list + image_msg) list
     \<Rightarrow> ft_out list \<times> find_target" where
  "ft_run transform s [] = ([], s)"
| "ft_run transform s (e # es) =
     (case ft_step transform s e of
        (out, s') \<Rightarrow> (case ft_run transform s' es of (outs, s'') \<Rightarrow> (out @ outs, s'')))"

subsection \<open>Lemmas\<close>

lemma ft_image_state:
  "snd (snd (ft_on_image transform s m)) \<in> {s, s\<lparr>ft_warned := True\<rparr>}"
  by (auto simp: ft_on_image_def Let_def split: option.splits sum.splits prod.splits)

lemma ft_info_state:
  "ft_warned (snd (snd (ft_on_info s k))) = ft_warned s"
  by (auto simp: ft_on_info_def split: option.splits sum.splits)

interpretation ft: camera_node
  "\<lambda>s k. snd (snd (ft_on_info s k))" "\<lambda>s m. snd (snd (ft_on_image transform s m))" ft_intrinsics
  for transform
proof unfold_locales
  show "ft_intrinsics s \<noteq> None \<Longrightarrow> snd (snd (ft_on_info s k)) = s" for s k
    by (auto simp: ft_on_info_def)
  show "ft_intrinsics (snd (snd (ft_on_image transform s m))) = ft_intrinsics s" for s m
    using ft_image_state [of transform s m] by auto
  show "ft_intrinsics s = None \<Longrightarrow> snd (snd (ft_on_image transform s m)) = s" for s m
    by (simp add: ft_on_image_def)
qed

lemma ft_run_state: "snd (ft_run transform s es) = foldl (ft.event transform) s es"
proof (induction es arbitrary: s)
  case (Cons e es)
  have "snd (ft_step transform s e) = ft.event transform s e"
    by (simp add: ft_step_def ft.event_def split: sum.splits)
  with Cons.IH [of "ft.event transform s e"] show ?case by (auto split: prod.splits)
qed simp

lemma ft_step_errors:
  "ft_step transform s e = (out, s') \<Longrightarrow>
     count_list out FtError = (if ft_warned s' \<and> \<not> ft_warned s then 1 else 0)
     \<and> (ft_warned s \<longrightarrow> ft_warned s')"
  by (auto simp: ft_step_def ft_on_info_def ft_on_image_def Let_def
      split: option.splits sum.splits prod.splits if_splits)

lemma ft_run_errors:
  "ft_run transform s es = (outs, s') \<Longrightarrow> count_list outs FtError + of_bool (ft_warned s) \<le> 1"
proof (induction es arbitrary: s outs)
  case (Cons e es)
  obtain out s1 where st: "ft_step transform s e = (out, s1)" by fastforce
  obtain outs1 where r: "ft_run transform s1 es = (outs1, s')" and o: "outs = out @ outs1"
    using Cons.prems st by (auto split: prod.splits)
  from Cons.IH [OF r] ft_step_errors [OF st] show ?case
    by (auto simp: o of_bool_def split: if_splits)
qed simp

definition base_follows_pose :: "ft_out list \<Rightarrow> bool" where
  "base_follows_pose outs \<longleftrightarrow>
     (\<forall>i < length outs. \<forall>b. outs ! i = TargetInBase b \<longrightarrow>
        0 < i \<and> (\<exists>p. outs ! (i - 1) = TargetPose p))"

lemma base_follows_pose_append:
  assumes "base_follows_pose xs" "base_follows_pose ys"
  shows "base_follows_pose (xs @ ys)"
  unfolding base_follows_pose_def
proof (intro allI impI)
  fix i b
  assume i: "i < length (xs @ ys)" and at: "(xs @ ys) ! i = TargetInBase b"
  show "0 < i \<and> (\<exists>p. (xs @ ys) ! (i - 1) = TargetPose p)"
  proof (cases "i < length xs")
    case True
    with assms(1) at show ?thesis by (auto simp: base_follows_pose_def nth_append)
  next
    case False
    let ?j = "i - length xs"
    have "0 < ?j \<and> (\<exists>p. ys ! (?j - 1) = TargetPose p)"
      using assms(2) [unfolded base_follows_pose_def, rule_format, of ?j b] False i at
      by (simp add: nth_append)
    moreover have "\<not> i - 1 < length xs" "i - 1 - length xs = ?j - 1" using calculation by auto
    ultimately show ?thesis by (auto simp: nth_append)
  qed
qed

lemma base_follows_pose_step: "base_follows_pose (fst (ft_step transform s e))"
  by (auto simp: ft_step_def ft_on_info_def ft_on_image_def base_follows_pose_def Let_def
      less_Suc_eq nth_Cons' split: option.splits sum.splits prod.splits if_splits)

lemma base_follows_pose_run: "base_follows_pose (fst (ft_run transform s es))"
proof (induction es arbitrary: s)
  case (Cons e es)
  show ?case
    using base_follows_pose_step [of transform s e] Cons.IH
    by (auto split: prod.splits intro!: base_follows_pose_append) (metis fst_conv)+
qed (simp add: base_follows_pose_def)

subsection \<open>Properties\<close>

text \<open>A run of the perception node. For any sequence of camera infos and images and whatever the
  transform does: the unsupported-encoding error is logged at most once, a pose in the reference
  frame is only published directly after the camera-frame pose it was made from, and the intrinsics,
  once latched, never change.\<close>

theorem ft_run_behaves:
  assumes "ft_run transform (ft_init w frame ch mn dmn) es = (outs, s')"
    and "ft_run transform s' es' = (outs', s'')"
  shows "count_list (outs @ outs') FtError \<le> 1 \<and> base_follows_pose (outs @ outs')
         \<and> (\<forall>i. ft_intrinsics s' = Some i \<longrightarrow> ft_intrinsics s'' = Some i)"
proof -
  have "ft_run transform (ft_init w frame ch mn dmn) (es @ es') = (outs @ outs', s'')"
  proof -
    have "ft_run transform s (es @ es') = (case ft_run transform s es of (o1, s1) \<Rightarrow>
        (case ft_run transform s1 es' of (o2, s2) \<Rightarrow> (o1 @ o2, s2)))" for s
      by (induction es arbitrary: s) (auto split: prod.splits)
    with assms show ?thesis by simp
  qed
  then have "count_list (outs @ outs') FtError \<le> 1" "base_follows_pose (outs @ outs')"
    using ft_run_errors base_follows_pose_run by (fastforce, metis fst_conv)
  moreover have "ft_intrinsics s'' = Some i" if "ft_intrinsics s' = Some i" for i
    using ft.latched [OF that] ft_run_state [of transform s' es'] assms(2) by (metis snd_conv)
  ultimately show ?thesis by blast
qed

definition blank_frame :: image_msg where
  "blank_frame = \<lparr>im_header = \<lparr>hd_frame_id = ''camera'', hd_stamp = 0\<rparr>, im_height = 1, im_width = 1,
     im_encoding = ''mono8'', im_data = [0]\<rparr>"

theorem ft_run_behaves_witness:
  "\<exists>outs s' outs' s''.
     ft_run (\<lambda>p f. Inr p) (ft_init (1 / 20) ''base_link'' 1 60 30)
       [Inr blank_frame, Inl [500, 0, 320, 0, 500, 240, 0, 0, 1], Inr blank_frame] = (outs, s')
     \<and> ft_run (\<lambda>p f. Inr p) s' [Inr blank_frame] = (outs', s'')
     \<and> FtError \<in> set outs \<and> count_list (outs @ outs') FtError \<le> 1"
proof -
  obtain outs s' where r: "ft_run (\<lambda>p f. Inr p) (ft_init (1 / 20) ''base_link'' 1 60 30)
       [Inr blank_frame, Inl [500, 0, 320, 0, 500, 240, 0, 0, 1], Inr blank_frame] = (outs, s')"
    by fastforce
  obtain outs' s'' where r': "ft_run (\<lambda>p f. Inr p) s' [Inr blank_frame] = (outs', s'')"
    by fastforce
  have "FtError \<in> set outs"
    using r by (auto simp: ft_init_def ft_step_def ft_on_image_def ft_on_info_def blank_frame_def
        intrinsics_from_camera_info_def py_index_def as_rgb_def reshape3_def)
  then show ?thesis using ft_run_behaves [OF r r'] r r' by blast
qed

end
