(* ===== verification/Fusion.thy ===== *)
theory Fusion
  imports Prelude
begin

section \<open>Odometry fusion (\<open>threevn_navigation/fusion.py\<close>, \<open>fused_odom.py\<close>)\<close>

text \<open>
  Heading from the gyro with a stationary bias estimate (\<open>YawFuser\<close>), position from wheel distance along
  that heading (\<open>FusedPose\<close>), and the node that feeds them from \<open>/base_controller/odom\<close> and \<open>/imu\<close>.
  A callback returns what it publishes or logs and the new state; frame names and the constant
  covariances are left out of the published message.
\<close>

subsection \<open>\<open>wrap\<close> and \<open>YawFuser\<close>\<close>

definition wrap :: "real \<Rightarrow> real" where
  "wrap angle = py_mod (angle + pi) (2 * pi) - pi"

record yaw_fuser =
  yf_yaw :: real
  yf_bias :: real
  yf_still_rate :: real
  yf_bias_samples :: nat
  yf_bias_total :: real
  yf_bias_count :: nat
  yf_last_stamp :: "real option"

definition yf_new :: "nat \<Rightarrow> real \<Rightarrow> yaw_fuser" where
  "yf_new bias_samples still_rate =
     \<lparr>yf_yaw = 0, yf_bias = 0, yf_still_rate = still_rate, yf_bias_samples = bias_samples,
      yf_bias_total = 0, yf_bias_count = 0, yf_last_stamp = None\<rparr>"

definition calibrated :: "yaw_fuser \<Rightarrow> bool" where
  "calibrated f = (yf_bias_count f \<ge> yf_bias_samples f)"

definition calibrate :: "real \<Rightarrow> bool \<Rightarrow> yaw_fuser \<Rightarrow> yaw_fuser" where
  "calibrate rate moving f =
     (if \<not> moving \<and> \<bar>rate\<bar> < yf_still_rate f \<and> \<not> calibrated f
      then let total = yf_bias_total f + rate; count = yf_bias_count f + 1
           in f\<lparr>yf_bias_total := total, yf_bias_count := count, yf_bias := total / real count\<rparr>
      else f)"

definition observe :: "real \<Rightarrow> real \<Rightarrow> bool \<Rightarrow> yaw_fuser \<Rightarrow> yaw_fuser" where
  "observe rate stamp moving f =
     (let f1 = calibrate rate moving f;
          f2 = (case yf_last_stamp f1 of
                  None \<Rightarrow> f1
                | Some prev \<Rightarrow>
                    let dt = stamp - prev in
                    if 0 < dt \<and> dt < 1 / 2 then f1\<lparr>yf_yaw := wrap (yf_yaw f1 + (rate - yf_bias f1) * dt)\<rparr>
                    else f1)
      in f2\<lparr>yf_last_stamp := Some stamp\<rparr>)"

definition reset :: "real \<Rightarrow> yaw_fuser \<Rightarrow> yaw_fuser" where
  "reset yaw f = f\<lparr>yf_yaw := wrap yaw, yf_last_stamp := None\<rparr>"

subsection \<open>\<open>FusedPose\<close>\<close>

record fused_pose =
  fp_x :: real
  fp_y :: real
  fp_last_distance :: "real option"

definition fp_new :: fused_pose where
  "fp_new = \<lparr>fp_x = 0, fp_y = 0, fp_last_distance = None\<rparr>"

definition advance :: "real \<Rightarrow> real \<Rightarrow> fused_pose \<Rightarrow> fused_pose" where
  "advance wheel_distance yaw p =
     (case fp_last_distance p of
        None \<Rightarrow> p\<lparr>fp_last_distance := Some wheel_distance\<rparr>
      | Some prev \<Rightarrow>
          let s = wheel_distance - prev in
          p\<lparr>fp_x := fp_x p + s * cos yaw, fp_y := fp_y p + s * sin yaw,
            fp_last_distance := Some wheel_distance\<rparr>)"

subsection \<open>\<open>FusedOdom\<close>\<close>

record odom_msg =
  od_x :: real
  od_y :: real
  od_linear_x :: real
  od_angular_z :: real

record imu_msg =
  iu_sec :: int
  iu_nanosec :: int
  iu_angular_velocity_z :: real

record fused_odom =
  fo_publish_tf :: bool
  fo_moving_threshold :: real
  fo_fuser :: yaw_fuser
  fo_pose :: fused_pose
  fo_wheel_distance :: real
  fo_moving :: bool
  fo_last_wheel :: "(real \<times> real) option"
  fo_warned_calibrating :: bool

record odometry =
  oy_x :: real
  oy_y :: real
  oy_qz :: real
  oy_qw :: real
  oy_angular_z :: real

datatype fo_out = Calibrating | Odometry odometry | Transform odometry

definition fo_new :: "bool \<Rightarrow> real \<Rightarrow> fused_odom" where
  "fo_new publish_tf moving_threshold =
     \<lparr>fo_publish_tf = publish_tf, fo_moving_threshold = moving_threshold, fo_fuser = yf_new 100 (2 / 100),
      fo_pose = fp_new, fo_wheel_distance = 0, fo_moving = False, fo_last_wheel = None,
      fo_warned_calibrating = False\<rparr>"

text \<open>\<open>math.dist\<close> of two points.\<close>

definition dist2 :: "real \<times> real \<Rightarrow> real \<times> real \<Rightarrow> real" where
  "dist2 p q = sqrt ((fst p - fst q)\<^sup>2 + (snd p - snd q)\<^sup>2)"

definition on_odom :: "odom_msg \<Rightarrow> fused_odom \<Rightarrow> fused_odom" where
  "on_odom msg s =
     (let current = (od_x msg, od_y msg);
          s1 = (case fo_last_wheel s of
                  None \<Rightarrow> s
                | Some prev \<Rightarrow> s\<lparr>fo_wheel_distance := fo_wheel_distance s + dist2 current prev\<rparr>);
          speed = \<bar>od_linear_x msg\<bar> + \<bar>od_angular_z msg\<bar>
      in s1\<lparr>fo_last_wheel := Some current, fo_moving := (speed > fo_moving_threshold s1)\<rparr>)"

definition stamp_of :: "imu_msg \<Rightarrow> real" where
  "stamp_of msg = real_of_int (iu_sec msg) + real_of_int (iu_nanosec msg) / 10 ^ 9"

definition on_imu :: "imu_msg \<Rightarrow> fused_odom \<Rightarrow> fo_out list \<times> fused_odom" where
  "on_imu msg s =
     (let f = observe (iu_angular_velocity_z msg) (stamp_of msg) (fo_moving s) (fo_fuser s);
          s1 = s\<lparr>fo_fuser := f\<rparr>
      in if \<not> calibrated f
         then (if fo_warned_calibrating s then ([], s1)
               else ([Calibrating], s1\<lparr>fo_warned_calibrating := True\<rparr>))
         else
           let p = advance (fo_wheel_distance s1) (yf_yaw f) (fo_pose s1);
               out = \<lparr>oy_x = fp_x p, oy_y = fp_y p, oy_qz = sin (yf_yaw f / 2), oy_qw = cos (yf_yaw f / 2),
                      oy_angular_z = iu_angular_velocity_z msg - yf_bias f\<rparr>
           in (Odometry out # (if fo_publish_tf s then [Transform out] else []), s1\<lparr>fo_pose := p\<rparr>))"

definition heading_degrees :: "fused_odom \<Rightarrow> real" where
  "heading_degrees s = wrap (yf_yaw (fo_fuser s)) * 180 / pi"

subsection \<open>Lemmas: \<open>wrap\<close>\<close>

lemma wrap_bounds: "- pi \<le> wrap a" "wrap a < pi"
  using py_mod_bounds [of "2 * pi" "a + pi"] by (simp_all add: wrap_def)

lemma wrap_cong: "\<exists>k :: int. wrap a = a - 2 * pi * real_of_int k"
  using py_mod_cong [of "a + pi" "2 * pi"] by (auto simp: wrap_def)

lemma wrap_id: "- pi \<le> a \<Longrightarrow> a < pi \<Longrightarrow> wrap a = a"
  by (simp add: wrap_def py_mod_id)

lemma cos_sin_wrap [simp]: "cos (wrap a) = cos a" "sin (wrap a) = sin a"
proof -
  obtain k :: int where "wrap a = a - 2 * pi * real_of_int k" using wrap_cong by blast
  moreover have "cos (a - 2 * pi * real_of_int k) = cos a" "sin (a - 2 * pi * real_of_int k) = sin a"
    using cos_int_2pin [of k] sin_int_2pin [of k] by (simp_all add: cos_diff sin_diff mult.commute)
  ultimately show "cos (wrap a) = cos a" "sin (wrap a) = sin a" by simp_all
qed

lemma wrap_floor: "wrap x = x - 2 * pi * real_of_int \<lfloor>(x + pi) / (2 * pi)\<rfloor>"
  by (simp add: wrap_def py_mod_def)

lemma wrap_shift: "wrap (x - 2 * pi * real_of_int k) = wrap x"
proof -
  have "(x - 2 * pi * real_of_int k + pi) / (2 * pi) = (x + pi) / (2 * pi) - real_of_int k"
    by (simp add: field_simps)
  then have "\<lfloor>(x - 2 * pi * real_of_int k + pi) / (2 * pi)\<rfloor> = \<lfloor>(x + pi) / (2 * pi)\<rfloor> - k" by simp
  then show ?thesis by (simp only: wrap_floor of_int_diff right_diff_distrib)
qed

lemma wrap_add_wrap: "wrap (wrap a + b) = wrap (a + b)"
proof -
  obtain k :: int where "wrap a = a - 2 * pi * real_of_int k" using wrap_cong by blast
  then have "wrap a + b = a + b - 2 * pi * real_of_int k" by simp
  then show ?thesis by (simp only: wrap_shift)
qed

subsection \<open>The fuser's invariant\<close>

definition fuser_inv :: "yaw_fuser \<Rightarrow> bool" where
  "fuser_inv f \<longleftrightarrow>
     - pi \<le> yf_yaw f \<and> yf_yaw f < pi \<and> yf_bias_count f \<le> yf_bias_samples f
     \<and> yf_bias f * real (yf_bias_count f) = yf_bias_total f
     \<and> (yf_bias_count f = 0 \<longrightarrow> yf_bias f = 0)
     \<and> (0 < yf_bias_count f \<longrightarrow> \<bar>yf_bias_total f\<bar> < yf_still_rate f * real (yf_bias_count f))"

lemma fuser_inv_new: "fuser_inv (yf_new n r)"
  by (simp add: fuser_inv_def yf_new_def)

lemma fuser_inv_calibrate: "fuser_inv f \<Longrightarrow> fuser_inv (calibrate rate moving f)"
proof -
  assume inv: "fuser_inv f"
  have mean: "t / (1 + real n) + t / (1 + real n) * real n = t" for t n
  proof -
    have "t / (1 + real n) + t / (1 + real n) * real n = t / (1 + real n) * (1 + real n)"
      by (simp only: distrib_left mult_1_right)
    also have "\<dots> = t" by simp
    finally show ?thesis .
  qed
  show ?thesis
    using inv by (cases "yf_bias_count f = 0")
      (auto simp: fuser_inv_def calibrate_def calibrated_def Let_def mean distrib_left [of _ 1]
        simp del: times_divide_eq_left divide_eq_eq_numeral1)
qed

lemma calibrate_yaw [simp]: "yf_yaw (calibrate r m f) = yf_yaw f" "yf_last_stamp (calibrate r m f) = yf_last_stamp f"
  by (simp_all add: calibrate_def Let_def)

lemma fuser_inv_observe: "fuser_inv f \<Longrightarrow> fuser_inv (observe rate stamp moving f)"
proof -
  assume "fuser_inv f"
  then have "fuser_inv (calibrate rate moving f)" by (rule fuser_inv_calibrate)
  then show ?thesis
    by (auto simp: observe_def Let_def fuser_inv_def wrap_bounds split: option.splits)
qed

datatype fuser_op = Observe real real bool | Reset real

fun fuser_apply :: "yaw_fuser \<Rightarrow> fuser_op \<Rightarrow> yaw_fuser" where
  "fuser_apply f (Observe rate stamp moving) = observe rate stamp moving f"
| "fuser_apply f (Reset yaw) = reset yaw f"

interpretation fuser: inv_system fuser_apply fuser_inv
proof
  show "fuser_inv f \<Longrightarrow> fuser_inv (fuser_apply f e)" for f e
    by (cases e) (auto simp: fuser_inv_observe reset_def, simp add: fuser_inv_def wrap_bounds)
qed

lemma fuser_params:
  "yf_bias_samples (foldl fuser_apply f es) = yf_bias_samples f
   \<and> yf_still_rate (foldl fuser_apply f es) = yf_still_rate f"
proof (induction es arbitrary: f)
  case (Cons e es)
  have "yf_bias_samples (fuser_apply f e) = yf_bias_samples f \<and> yf_still_rate (fuser_apply f e) = yf_still_rate f"
    by (cases e) (auto simp: observe_def calibrate_def reset_def Let_def split: option.splits)
  with Cons.IH show ?case by simp
qed simp

subsection \<open>Lemmas: integration\<close>

text \<open>The rotation a sequence of readings contributes once the bias is frozen, from the last stamp on.\<close>

fun integral :: "real \<Rightarrow> real option \<Rightarrow> (real \<times> real) list \<Rightarrow> real" where
  "integral b prev [] = 0"
| "integral b prev ((rate, stamp) # rs) =
     (case prev of
        None \<Rightarrow> 0
      | Some t \<Rightarrow> if 0 < stamp - t \<and> stamp - t < 1 / 2 then (rate - b) * (stamp - t) else 0)
     + integral b (Some stamp) rs"

lemma observe_calibrated:
  assumes "calibrated f"
  shows "observe rate stamp moving f =
    f\<lparr>yf_yaw := (case yf_last_stamp f of
         None \<Rightarrow> yf_yaw f
       | Some t \<Rightarrow> if 0 < stamp - t \<and> stamp - t < 1 / 2
                   then wrap (yf_yaw f + (rate - yf_bias f) * (stamp - t)) else yf_yaw f),
      yf_last_stamp := Some stamp\<rparr>"
  using assms by (simp add: observe_def calibrate_def Let_def split: option.splits)

lemma integrate_run:
  assumes "calibrated f" and "- pi \<le> yf_yaw f" and "yf_yaw f < pi"
  shows "let f' = foldl (\<lambda>f (rate, stamp). observe rate stamp (mv stamp) f) f rs in
         yf_yaw f' = wrap (yf_yaw f + integral (yf_bias f) (yf_last_stamp f) rs)
         \<and> yf_bias f' = yf_bias f \<and> calibrated f'"
  using assms
proof (induction rs arbitrary: f)
  case Nil
  then show ?case by (simp add: wrap_id)
next
  case (Cons r rs)
  obtain rate stamp where r: "r = (rate, stamp)" by (cases r)
  let ?g = "observe rate stamp (mv stamp) f"
  note g = observe_calibrated [OF Cons.prems(1), of rate stamp "mv stamp"]
  have cal: "calibrated ?g" using Cons.prems(1) by (simp add: g calibrated_def)
  have bnd: "- pi \<le> yf_yaw ?g" "yf_yaw ?g < pi"
    using Cons.prems by (auto simp: g wrap_bounds split: option.splits)
  have "wrap (yf_yaw ?g + integral (yf_bias f) (Some stamp) rs)
      = wrap (yf_yaw f + integral (yf_bias f) (yf_last_stamp f) (r # rs))"
    by (auto simp: g r wrap_add_wrap add.assoc split: option.splits)
  with Cons.IH [OF cal bnd] show ?case by (simp add: r g Let_def)
qed

lemma advance_run:
  assumes "fp_last_distance p = Some d0"
  shows "let p' = foldl (\<lambda>p d. advance d yaw p) p ds in
         fp_last_distance p' = Some (last (d0 # ds))
         \<and> fp_x p' = fp_x p + (last (d0 # ds) - d0) * cos yaw
         \<and> fp_y p' = fp_y p + (last (d0 # ds) - d0) * sin yaw"
  using assms
proof (induction ds arbitrary: p d0)
  case (Cons d ds)
  have "fp_last_distance (advance d yaw p) = Some d" using Cons.prems by (simp add: advance_def Let_def)
  from Cons.IH [OF this] Cons.prems show ?case by (simp add: advance_def Let_def algebra_simps)
qed simp

lemma dist2_nonneg: "0 \<le> dist2 p q"
  by (simp add: dist2_def)

lemma wheel_distance_mono: "fo_wheel_distance s \<le> fo_wheel_distance (on_odom m s)"
  by (auto simp: on_odom_def Let_def dist2_nonneg split: option.splits)

subsection \<open>Properties\<close>

text \<open>C27: the fuser's state is always meaningful. Whatever readings, stamps and resets it gets, the
  heading stays in \<open>[-pi, pi)\<close>, no more than the configured number of samples enters the bias, and the
  bias is the mean of those samples and strictly smaller than the still rate.\<close>

theorem fuser_state_bounds:
  fixes ops :: "fuser_op list" and n :: nat
  assumes "0 < still_rate"
  defines "f \<equiv> foldl fuser_apply (yf_new n still_rate) ops"
  shows "- pi \<le> yf_yaw f \<and> yf_yaw f < pi \<and> yf_bias_count f \<le> n
         \<and> yf_bias f * real (yf_bias_count f) = yf_bias_total f \<and> \<bar>yf_bias f\<bar> < still_rate"
proof -
  have inv: "fuser_inv f" unfolding f_def by (rule fuser.inv_run [OF fuser_inv_new])
  have par: "yf_bias_samples f = n" "yf_still_rate f = still_rate"
    using fuser_params [of "yf_new n still_rate" ops] by (simp_all add: f_def yf_new_def)
  have "\<bar>yf_bias f\<bar> < still_rate"
  proof (cases "yf_bias_count f = 0")
    case True
    with inv assms(1) show ?thesis by (simp add: fuser_inv_def)
  next
    case False
    then have "0 < real (yf_bias_count f)" by simp
    moreover have "\<bar>yf_bias f\<bar> * real (yf_bias_count f) = \<bar>yf_bias_total f\<bar>"
      using inv by (metis abs_mult abs_of_nat fuser_inv_def)
    moreover have "\<bar>yf_bias_total f\<bar> < still_rate * real (yf_bias_count f)"
      using inv False par by (simp add: fuser_inv_def mult.commute)
    ultimately show ?thesis by (metis mult_less_cancel_right_pos)
  qed
  with inv par show ?thesis by (simp add: fuser_inv_def)
qed

theorem fuser_state_bounds_witness:
  "\<bar>yf_bias (foldl fuser_apply (yf_new 2 (1 / 50)) [Observe (1 / 100) 0 False, Observe 3 (1 / 10) True])\<bar> < 1 / 50"
  using fuser_state_bounds [of "1 / 50" 2 "[Observe (1 / 100) 0 False, Observe 3 (1 / 10) True]"] by simp

text \<open>After calibration the heading is the integral of the bias-corrected rate. From any calibrated
  state in range, over any readings, the heading is the initial one plus the sum of \<open>(rate - bias) * dt\<close>
  over the gaps between 0 and 0.5 seconds, modulo a full turn; gaps outside contribute nothing, and the
  bias no longer changes, moving or not.\<close>

theorem heading_is_integral:
  assumes "calibrated f" and "- pi \<le> yf_yaw f" and "yf_yaw f < pi"
  shows "let f' = foldl (\<lambda>f (rate, stamp). observe rate stamp (mv stamp) f) f rs in
         yf_yaw f' = wrap (yf_yaw f + integral (yf_bias f) (yf_last_stamp f) rs)
         \<and> yf_bias f' = yf_bias f"
  using integrate_run [OF assms, of mv rs] by (simp add: Let_def)

theorem heading_is_integral_witness:
  "yf_yaw (foldl (\<lambda>f (rate, stamp). observe rate stamp True f)
      ((yf_new 0 1)\<lparr>yf_last_stamp := Some 0\<rparr>) [(1, 1 / 4), (1, 2), (1, 9 / 4)]) = wrap (1 / 2)"
  using heading_is_integral
    [of "(yf_new 0 1)\<lparr>yf_last_stamp := Some 0\<rparr>" "\<lambda>_. True" "[(1, 1 / 4), (1, 2), (1, 9 / 4)]"]
  by (simp add: calibrated_def yf_new_def Let_def)

text \<open>Reversing is recorded as driving forward. The node accumulates the length of each wheel odometry
  step, which has no sign. On any two odometry messages and a calibrated heading along x, a robot that
  reversed by \<open>d\<close> is published \<open>d\<close> ahead of where it was, not behind.\<close>

theorem reverse_moves_forward:
  assumes cal: "calibrated (fo_fuser s)" and still: "yf_yaw (fo_fuser s) = 0" "yf_bias (fo_fuser s) = 0"
    and pos: "fo_last_wheel s = Some (x0, 0)" "fp_last_distance (fo_pose s) = Some (fo_wheel_distance s)"
    and behind: "0 \<le> d" "od_x msg = x0 - d" "od_y msg = 0"
    and imu: "iu_angular_velocity_z imu = 0"
  shows "fp_x (fo_pose (snd (on_imu imu (on_odom msg s)))) = fp_x (fo_pose s) + d"
proof -
  let ?s1 = "on_odom msg s"
  have d: "fo_wheel_distance ?s1 = fo_wheel_distance s + d"
    using pos behind by (simp add: on_odom_def Let_def dist2_def)
  have f: "fo_fuser ?s1 = fo_fuser s" "fo_pose ?s1 = fo_pose s"
    using pos by (simp_all add: on_odom_def Let_def)
  have w0: "wrap 0 = 0" using pi_gt_zero by (intro wrap_id) linarith+
  let ?f = "observe 0 (stamp_of imu) (fo_moving ?s1) (fo_fuser s)"
  have "yf_yaw ?f = 0" "calibrated ?f"
    using cal still w0 by (auto simp: observe_calibrated calibrated_def split: option.splits)
  then show ?thesis
    using pos d f imu by (simp add: on_imu_def Let_def advance_def)
qed

theorem reverse_moves_forward_witness:
  "\<exists>s. fo_last_wheel s = Some (0, 0) \<and>
     fp_x (fo_pose (snd (on_imu \<lparr>iu_sec = 1, iu_nanosec = 0, iu_angular_velocity_z = 0\<rparr>
       (on_odom \<lparr>od_x = - 1, od_y = 0, od_linear_x = - 1, od_angular_z = 0\<rparr> s)))) = fp_x (fo_pose s) + 1"
proof -
  let ?s = "(fo_new False (1 / 100))\<lparr>fo_fuser := yf_new 0 1, fo_last_wheel := Some (0, 0),
      fo_pose := fp_new\<lparr>fp_last_distance := Some 0\<rparr>\<rparr>"
  have "fp_x (fo_pose (snd (on_imu \<lparr>iu_sec = 1, iu_nanosec = 0, iu_angular_velocity_z = 0\<rparr>
       (on_odom \<lparr>od_x = - 1, od_y = 0, od_linear_x = - 1, od_angular_z = 0\<rparr> ?s)))) = fp_x (fo_pose ?s) + 1"
    by (rule reverse_moves_forward [of ?s 0 1])
      (simp_all add: fo_new_def yf_new_def fp_new_def calibrated_def)
  then show ?thesis by (intro exI [of _ ?s]) simp
qed

end
