(* ===== verification/Gates.thy ===== *)
theory Gates
  imports Prelude
begin

section \<open>Promotion gates (\<open>threevn_mlops/gates.py\<close>)\<close>

text \<open>
  The conditions an artifact has to meet before it is promoted. An artifact is the document
  \<open>json.loads\<close> returns, so every access may raise; a gate returns the list of its reasons, as
  values of \<open>reason\<close> carrying what the message interpolates. \<open>check_all\<close> evaluates the gates in
  the order of the source's dictionary display: an exception in one of them is the exception of
  the whole call.
\<close>

subsection \<open>Data\<close>

datatype gate = Validates | Provenance | FeatureContract | BeatsBaseline | NoRegression

datatype reason =
    MissingKeys "string list"
  | BadSchemaVersion json
  | NoSplitMetrics string string
  | NoMedian string string
  | NoFeatureNames
  | SelectedNotNamed
  | NoBaselineMetrics
  | DoesNotBeat real real
  | CannotCompare
  | WorseThanProduction real real real
  | FeatureOrderDiffers "json list" "string list"
  | FeatureMismatch "json list" "string list"
  | NoTrainingCommit
  | NoDatasetCommit
  | NoFrameCount

definition REQUIRED_KEYS :: "string list" where
  "REQUIRED_KEYS =
     [''schema_version'', ''model'', ''selected'', ''features'', ''metrics'', ''dataset'',
      ''code'', ''feature_stats'']"

definition REGRESSION_TOLERANCE :: real where
  "REGRESSION_TOLERANCE = 105 / 100"

subsection \<open>Operations\<close>

definition sole_key :: "json \<Rightarrow> json option res" where
  "sole_key metrics =
     rbind (jiter metrics) (\<lambda>ks.
       let keys = filter (\<lambda>k. k \<noteq> JStr ''geometric'') ks
       in Inr (if length keys = 1 then Some (hd keys) else None))"

definition selected_key :: "json \<Rightarrow> json option res" where
  "selected_key a =
     (case a of
        JObj kvs \<Rightarrow>
          (case map_of kvs ''metrics'' of
             Some metrics \<Rightarrow>
               rbind (jget a ''selected'' JNull) (\<lambda>selected.
                 if truthy selected
                 then rbind (jmember selected metrics) (\<lambda>hit.
                        if hit then Inr (Some selected) else sole_key metrics)
                 else sole_key metrics)
           | None \<Rightarrow> sole_key a)
      | _ \<Rightarrow> sole_key a)"

text \<open>\<open>metrics[key]['test']['median_mm']\<close>, and the number in it where it is one.\<close>

definition median_doc :: "json \<Rightarrow> json \<Rightarrow> json res" where
  "median_doc metrics key =
     rbind (jsub metrics key) (\<lambda>e.
     rbind (jitem e ''test'') (\<lambda>t. jitem t ''median_mm''))"

definition median_at :: "json \<Rightarrow> json \<Rightarrow> real res" where
  "median_at metrics key = rbind (median_doc metrics key) jnum"

definition validate_entry :: "string \<Rightarrow> string \<times> json \<Rightarrow> reason list res" where
  "validate_entry split = (\<lambda>(name, metrics).
     rbind (jin split metrics) (\<lambda>present.
       if \<not> present then Inr [NoSplitMetrics name split]
       else rbind (jitem metrics split) (\<lambda>m.
            rbind (jin ''median_mm'' m) (\<lambda>has.
              Inr (if has then [] else [NoMedian name split])))))"

definition validates :: "json \<Rightarrow> reason list res" where
  "validates artifact =
     rbind (rmap (\<lambda>key. rbind (jin key artifact) (\<lambda>b. Inr (key, b))) REQUIRED_KEYS) (\<lambda>tests.
       let missing = map fst (filter (\<lambda>(k, b). \<not> b) tests) in
       if missing \<noteq> [] then Inr [MissingKeys (sort missing)]
       else
         rbind (jitem artifact ''schema_version'') (\<lambda>v.
         let schema = (if jeq_int v 1 then [] else [BadSchemaVersion v]) in
         rbind (rmap (\<lambda>split.
             rbind (jitem artifact ''metrics'') (\<lambda>ms.
             rbind (jitems ms) (\<lambda>items.
             rbind (rmap (validate_entry split) items) (\<lambda>rs. Inr (concat rs)))))
           [''train'', ''test'']) (\<lambda>splits.
         rbind (jitem artifact ''features'') (\<lambda>features.
           Inr (schema @ concat splits @ (if truthy features then [] else [NoFeatureNames]))))))"

definition beats_baseline :: "json \<Rightarrow> reason list res" where
  "beats_baseline artifact =
     rbind (jitem artifact ''metrics'') (\<lambda>metrics.
     rbind (selected_key artifact) (\<lambda>key.
       case key of
         None \<Rightarrow> Inr [SelectedNotNamed]
       | Some model_key \<Rightarrow>
           rbind (jin ''geometric'' metrics) (\<lambda>has.
             if \<not> has then Inr [NoBaselineMetrics]
             else rbind (median_doc metrics model_key) (\<lambda>model.
                  rbind (median_doc metrics (JStr ''geometric'')) (\<lambda>baseline.
                  rbind (py_ge model baseline) (\<lambda>worse.
                    if worse then rbind (fmt_f model) (\<lambda>m. rbind (fmt_f baseline) (\<lambda>b. Inr [DoesNotBeat m b]))
                    else Inr []))))))"

definition no_regression :: "json \<Rightarrow> json option \<Rightarrow> real \<Rightarrow> reason list res" where
  "no_regression artifact incumbent tolerance =
     (case incumbent of
        None \<Rightarrow> Inr []
      | Some inc \<Rightarrow>
          rbind (selected_key artifact) (\<lambda>new.
          rbind (selected_key inc) (\<lambda>old.
            case (new, old) of
              (Some n, Some k) \<Rightarrow>
                rbind (jitem artifact ''metrics'') (\<lambda>nm.
                rbind (median_doc nm n) (\<lambda>new_doc.
                rbind (jitem inc ''metrics'') (\<lambda>om.
                rbind (median_doc om k) (\<lambda>old_doc.
                rbind (jnum old_doc) (\<lambda>old_score.
                rbind (jnum new_doc) (\<lambda>new_score.
                  Inr (if old_score * tolerance < new_score
                       then [WorseThanProduction new_score old_score tolerance] else [])))))))
            | _ \<Rightarrow> Inr [CannotCompare])))"

definition feature_contract :: "json \<Rightarrow> string list \<Rightarrow> reason list res" where
  "feature_contract artifact served =
     rbind (jitem artifact ''features'') (\<lambda>features.
     rbind (jiter features) (\<lambda>recorded.
       if recorded = map JStr served then Inr []
       else rbind (py_sorted recorded) (\<lambda>sr.
            rbind (py_sorted (map JStr served)) (\<lambda>ss.
              Inr (if sr = ss then [FeatureOrderDiffers recorded served]
                   else [FeatureMismatch recorded served])))))"

definition provenance :: "json \<Rightarrow> reason list res" where
  "provenance artifact =
     rbind (jget artifact ''code'' (JObj [])) (\<lambda>code.
     rbind (jget code ''commit'' JNull) (\<lambda>commit.
     rbind (jget artifact ''dataset'' (JObj [])) (\<lambda>dataset.
     rbind (jget dataset ''code'' (JObj [])) (\<lambda>dcode.
     rbind (jget dcode ''commit'' JNull) (\<lambda>dcommit.
     rbind (jget dataset ''frames'' JNull) (\<lambda>frames.
     rbind (jget dataset ''labels'' (JObj [])) (\<lambda>labels.
     rbind (jget labels ''source'' JNull) (\<lambda>source.
       Inr ((if truthy commit then [] else [NoTrainingCommit])
            @ (if truthy dcommit then [] else [NoDatasetCommit])
            @ (if truthy frames then [] else [NoFrameCount])))))))))) "

definition check_all ::
  "json \<Rightarrow> string list \<Rightarrow> json option \<Rightarrow> real option \<Rightarrow> (gate \<times> reason list) list res" where
  "check_all artifact served incumbent tolerance =
     rbind (validates artifact) (\<lambda>r1.
     rbind (provenance artifact) (\<lambda>r2.
     rbind (feature_contract artifact served) (\<lambda>r3.
     rbind (beats_baseline artifact) (\<lambda>r4.
     rbind (no_regression artifact incumbent
              (case tolerance of Some t \<Rightarrow> t | None \<Rightarrow> REGRESSION_TOLERANCE)) (\<lambda>r5.
       Inr (filter (\<lambda>(g, rs). rs \<noteq> [])
              [(Validates, r1), (Provenance, r2), (FeatureContract, r3), (BeatsBaseline, r4),
               (NoRegression, r5)]))))))"


subsection \<open>The order of the gates\<close>

text \<open>Gates are ordered as \<open>check_all\<close> lists them.\<close>

fun gate_rank :: "gate \<Rightarrow> nat" where
  "gate_rank Validates = 0"
| "gate_rank Provenance = 1"
| "gate_rank FeatureContract = 2"
| "gate_rank BeatsBaseline = 3"
| "gate_rank NoRegression = 4"

lemma gate_rank_inject: "gate_rank g = gate_rank h \<Longrightarrow> g = h"
  by (cases g; cases h) auto

instantiation gate :: linorder
begin

definition less_eq_gate :: "gate \<Rightarrow> gate \<Rightarrow> bool" where
  "less_eq_gate g h = (gate_rank g \<le> gate_rank h)"

definition less_gate :: "gate \<Rightarrow> gate \<Rightarrow> bool" where
  "less_gate g h = (gate_rank g < gate_rank h)"

instance
  by standard (auto simp: less_eq_gate_def less_gate_def intro: gate_rank_inject)

end

subsection \<open>What promotion means: an abstract model card\<close>

text \<open>
  The specification the gates implement, over a typed summary of an artifact: which metrics entry
  the stored model is, every entry's train and test medians, the feature order, and where model
  and data came from. \<open>card_doc\<close> is the document \<open>train.py\<close> writes for it, with the fields no
  gate reads left empty.
\<close>

record card =
  c_schema :: int
  c_selected :: string
  c_features :: "string list"
  c_scores :: "(string \<times> real \<times> real) list"
  c_commit :: string
  c_dataset_commit :: string
  c_frames :: int

definition score_doc :: "string \<times> real \<times> real \<Rightarrow> string \<times> json" where
  "score_doc = (\<lambda>(name, train, test).
     (name, JObj [(''train'', JObj [(''median_mm'', JNum train)]),
                  (''test'', JObj [(''median_mm'', JNum test)])]))"

definition card_doc :: "card \<Rightarrow> json" where
  "card_doc c = JObj
     [(''schema_version'', JInt (c_schema c)),
      (''model'', JObj []),
      (''selected'', JStr (c_selected c)),
      (''features'', JArr (map JStr (c_features c))),
      (''metrics'', JObj (map score_doc (c_scores c))),
      (''feature_stats'', JObj []),
      (''dataset'', JObj [(''frames'', JInt (c_frames c)),
                          (''code'', JObj [(''commit'', JStr (c_dataset_commit c))])]),
      (''code'', JObj [(''commit'', JStr (c_commit c))])]"

definition test_score :: "card \<Rightarrow> string \<Rightarrow> real option" where
  "test_score c name = map_option snd (map_of (c_scores c) name)"

definition card_ok :: "card \<Rightarrow> bool" where
  "card_ok c \<longleftrightarrow> c_selected c \<noteq> [] \<and> test_score c (c_selected c) \<noteq> None
                   \<and> test_score c ''geometric'' \<noteq> None"

definition admissible :: "card \<Rightarrow> string list \<Rightarrow> card option \<Rightarrow> real \<Rightarrow> bool" where
  "admissible c served inc tol \<longleftrightarrow>
     c_schema c = 1 \<and> c_features c = served \<and> served \<noteq> []
     \<and> c_commit c \<noteq> [] \<and> c_dataset_commit c \<noteq> [] \<and> c_frames c \<noteq> 0
     \<and> the (test_score c (c_selected c)) < the (test_score c ''geometric'')
     \<and> (case inc of
          None \<Rightarrow> True
        | Some i \<Rightarrow> the (test_score c (c_selected c)) \<le> the (test_score i (c_selected i)) * tol)"

subsection \<open>Lemmas: the gates on a model card\<close>

lemma map_of_score_doc:
  "map_of (map score_doc ss) name =
     map_option (\<lambda>(tr, te). JObj [(''train'', JObj [(''median_mm'', JNum tr)]),
                                   (''test'', JObj [(''median_mm'', JNum te)])]) (map_of ss name)"
  by (induction ss) (auto simp: score_doc_def)

lemma median_at_scores:
  "test_score c name = Some m \<Longrightarrow> median_at (JObj (map score_doc (c_scores c))) (JStr name) = Inr m"
  by (auto simp: median_at_def median_doc_def test_score_def map_of_score_doc split: prod.splits)

lemma median_atD: "median_at ms k = Inr m \<Longrightarrow> \<exists>d. median_doc ms k = Inr d \<and> jnum d = Inr m"
  by (auto simp: median_at_def rbind_eq_Inr)

text \<open>The two comparisons, when both medians are numbers.\<close>

lemma beats_baseline_eq:
  assumes "jitem a ''metrics'' = Inr ms" "selected_key a = Inr (Some key)" "jin ''geometric'' ms = Inr True"
    and "median_at ms key = Inr m" "median_at ms (JStr ''geometric'') = Inr b"
  shows "beats_baseline a = Inr (if b \<le> m then [DoesNotBeat m b] else [])"
proof -
  from assms(4,5) obtain d e where "median_doc ms key = Inr d" "jnum d = Inr m"
    "median_doc ms (JStr ''geometric'') = Inr e" "jnum e = Inr b" by (blast dest: median_atD)
  with assms(1-3) show ?thesis by (simp add: beats_baseline_def py_ge_num fmt_f_num)
qed

lemma no_regression_eq:
  assumes "selected_key a = Inr (Some n)" "selected_key i = Inr (Some k)"
    and "jitem a ''metrics'' = Inr nm" "jitem i ''metrics'' = Inr om" "median_at nm n = Inr x" "median_at om k = Inr y"
  shows "no_regression a (Some i) t = Inr (if y * t < x then [WorseThanProduction x y t] else [])"
proof -
  from assms(5,6) obtain d e where "median_doc nm n = Inr d" "jnum d = Inr x" "median_doc om k = Inr e" "jnum e = Inr y"
    by (blast dest: median_atD)
  with assms(1-4) show ?thesis by (simp add: no_regression_def)
qed

lemma fst_score_docs: "fst ` score_doc ` set ss = fst ` set ss"
  by (force simp: score_doc_def)

lemma scored_name: "test_score c name \<noteq> None \<Longrightarrow> name \<in> fst ` set (c_scores c)"
  by (auto simp: test_score_def dest!: map_of_SomeD intro: rev_image_eqI)

lemma selected_key_card: "card_ok c \<Longrightarrow> selected_key (card_doc c) = Inr (Some (JStr (c_selected c)))"
  using scored_name [of c "c_selected c"]
  by (simp add: selected_key_def card_doc_def card_ok_def fst_score_docs)

lemma validate_entry_score: "validate_entry split (score_doc s) =
    Inr (if split = ''train'' \<or> split = ''test'' then [] else [NoSplitMetrics (fst s) split])"
  by (cases s) (auto simp: validate_entry_def score_doc_def)

lemma rmap_validate_scores:
  "split = ''train'' \<or> split = ''test'' \<Longrightarrow>
   rmap (validate_entry split) (map score_doc ss) = Inr (map (\<lambda>_. []) ss)"
  by (induction ss) (auto simp: validate_entry_score)

lemma concat_map_Nil: "concat (map (\<lambda>_. []) xs) = []"
  by (induction xs) auto

lemma validates_card:
  "validates (card_doc c) =
     Inr ((if c_schema c = 1 then [] else [BadSchemaVersion (JInt (c_schema c))])
          @ (if c_features c = [] then [NoFeatureNames] else []))"
  by (simp add: validates_def card_doc_def REQUIRED_KEYS_def rmap_validate_scores concat_map_Nil
                jeq_int_def)

lemma provenance_card:
  "provenance (card_doc c) =
     Inr ((if c_commit c = [] then [NoTrainingCommit] else [])
          @ (if c_dataset_commit c = [] then [NoDatasetCommit] else [])
          @ (if c_frames c = 0 then [NoFrameCount] else []))"
  by (simp add: provenance_def card_doc_def)

lemma feature_contract_card:
  "\<exists>rs. feature_contract (card_doc c) served = Inr rs \<and> (rs = [] \<longleftrightarrow> c_features c = served)"
  by (simp add: feature_contract_def card_doc_def py_sorted_strings)

lemma beats_baseline_card:
  assumes "card_ok c"
  shows "\<exists>rs. beats_baseline (card_doc c) = Inr rs \<and>
           (rs = [] \<longleftrightarrow> the (test_score c (c_selected c)) < the (test_score c ''geometric''))"
proof -
  from assms obtain m b where m: "test_score c (c_selected c) = Some m"
    and b: "test_score c ''geometric'' = Some b"
    by (auto simp: card_ok_def)
  from b have g: "''geometric'' \<in> fst ` set (map score_doc (c_scores c))"
    using scored_name [of c "''geometric''"] by (simp add: fst_score_docs)
  have met: "jitem (card_doc c) ''metrics'' = Inr (JObj (map score_doc (c_scores c)))"
    by (simp add: card_doc_def)
  show ?thesis
    using beats_baseline_eq [OF met selected_key_card [OF assms] _ median_at_scores [OF m] median_at_scores [OF b]] g m b
    by simp
qed

lemma no_regression_card:
  assumes "card_ok c" and "\<And>i. inc = Some i \<Longrightarrow> card_ok i"
  shows "\<exists>rs. no_regression (card_doc c) (map_option card_doc inc) tol = Inr rs \<and>
           (rs = [] \<longleftrightarrow> (case inc of None \<Rightarrow> True
              | Some i \<Rightarrow> the (test_score c (c_selected c)) \<le> the (test_score i (c_selected i)) * tol))"
proof (cases inc)
  case None
  then show ?thesis by (simp add: no_regression_def)
next
  case (Some i)
  with assms have i: "card_ok i" by simp
  from assms(1) i obtain m k where m: "test_score c (c_selected c) = Some m"
    and k: "test_score i (c_selected i) = Some k"
    by (auto simp: card_ok_def)
  have met: "jitem (card_doc d) ''metrics'' = Inr (JObj (map score_doc (c_scores d)))" for d
    by (simp add: card_doc_def)
  show ?thesis
    using no_regression_eq [OF selected_key_card [OF assms(1)] selected_key_card [OF i] met met
        median_at_scores [OF m] median_at_scores [OF k], of tol] Some m k by (simp add: not_less)
qed

lemma check_all_card:
  assumes "card_ok c" and "\<And>i. inc = Some i \<Longrightarrow> card_ok i"
  shows "\<exists>fs. check_all (card_doc c) served (map_option card_doc inc) None = Inr fs
              \<and> (fs = [] \<longleftrightarrow> admissible c served inc REGRESSION_TOLERANCE)"
proof -
  obtain r3 where r3: "feature_contract (card_doc c) served = Inr r3"
    "r3 = [] \<longleftrightarrow> c_features c = served"
    using feature_contract_card by blast
  obtain r4 where r4: "beats_baseline (card_doc c) = Inr r4"
    "r4 = [] \<longleftrightarrow> the (test_score c (c_selected c)) < the (test_score c ''geometric'')"
    using beats_baseline_card [OF assms(1)] by blast
  obtain r5 where r5: "no_regression (card_doc c) (map_option card_doc inc) REGRESSION_TOLERANCE = Inr r5"
    "r5 = [] \<longleftrightarrow> (case inc of None \<Rightarrow> True
       | Some i \<Rightarrow> the (test_score c (c_selected c))
                   \<le> the (test_score i (c_selected i)) * REGRESSION_TOLERANCE)"
    using no_regression_card [OF assms] by blast
  show ?thesis
    by (auto simp: check_all_def validates_card provenance_card r3 r4 r5 admissible_def)
qed

subsection \<open>Lemmas: what an empty answer shows of any document\<close>

lemma check_all_okD:
  assumes "check_all a served inc tol = Inr []"
  shows "validates a = Inr [] \<and> provenance a = Inr [] \<and> feature_contract a served = Inr []
         \<and> beats_baseline a = Inr []
         \<and> no_regression a inc (case tol of Some t \<Rightarrow> t | None \<Rightarrow> REGRESSION_TOLERANCE) = Inr []"
  using assms by (auto simp: check_all_def rbind_eq_Inr split: if_splits)

lemma feature_contract_okD:
  "feature_contract a served = Inr [] \<Longrightarrow>
   \<exists>f. jitem a ''features'' = Inr f \<and> jiter f = Inr (map JStr served)"
  by (auto simp: feature_contract_def rbind_eq_Inr split: if_splits)

lemma beats_baseline_okD:
  "beats_baseline a = Inr [] \<Longrightarrow>
   \<exists>ms key m b. jitem a ''metrics'' = Inr ms \<and> selected_key a = Inr (Some key)
     \<and> median_doc ms key = Inr m \<and> median_doc ms (JStr ''geometric'') = Inr b \<and> py_ge m b = Inr False"
  by (fastforce simp: beats_baseline_def rbind_eq_Inr split: option.splits if_splits)

lemma no_regression_okD:
  "no_regression a (Some i) t = Inr [] \<Longrightarrow>
   \<exists>ms os key old m b. jitem a ''metrics'' = Inr ms \<and> jitem i ''metrics'' = Inr os
     \<and> selected_key a = Inr (Some key) \<and> selected_key i = Inr (Some old)
     \<and> median_at ms key = Inr m \<and> median_at os old = Inr b \<and> m \<le> b * t"
  by (fastforce simp: no_regression_def median_at_def rbind_eq_Inr split: option.splits if_splits)

lemma validates_missing:
  assumes "map_of kvs key = None" and "key \<in> set REQUIRED_KEYS"
  shows "\<exists>ks. validates (JObj kvs) = Inr [MissingKeys ks] \<and> key \<in> set ks"
proof -
  define t where "t = map (\<lambda>k. (k, k \<in> fst ` set kvs)) REQUIRED_KEYS"
  have r: "rmap (\<lambda>k. rbind (jin k (JObj kvs)) (\<lambda>b. Inr (k, b))) REQUIRED_KEYS = Inr t"
    unfolding t_def by (rule rmap_ok) simp
  have k: "key \<in> set (map fst (filter (\<lambda>(k, b). \<not> b) t))"
    using assms by (force simp: t_def map_of_eq_None_iff)
  then have "map fst (filter (\<lambda>(k, b). \<not> b) t) \<noteq> []" by (metis empty_iff list.set(1))
  then have "validates (JObj kvs) = Inr [MissingKeys (sort (map fst (filter (\<lambda>(k, b). \<not> b) t)))]"
    by (simp only: validates_def r rbind_Inr Let_def if_True simp_thms)
  with k show ?thesis by (simp only: sum.inject list.inject reason.inject) force
qed

subsection \<open>Properties\<close>

text \<open>C6: refinement. On the document of a model card whose selected and baseline entries are
  scored, and with an incumbent of the same kind, \<open>check_all\<close> never raises and lets the model
  through exactly when the card is admissible: schema 1, the feature names the serving code
  computes in the same order, traceable to two commits and a non-zero frame count, strictly better
  on test than the closed form, and not more than 5 percent worse than production.\<close>

theorem check_all_refines_admissible:
  assumes "card_ok c" and "\<And>i. inc = Some i \<Longrightarrow> card_ok i"
  shows "\<exists>fs. check_all (card_doc c) served (map_option card_doc inc) None = Inr fs
              \<and> (fs = [] \<longleftrightarrow> admissible c served inc REGRESSION_TOLERANCE)"
  using assms by (rule check_all_card)

definition good_card :: card where
  "good_card = \<lparr>c_schema = 1, c_selected = ''ridge + shape'', c_features = [''1/w''],
     c_scores = [(''geometric'', 50, 46), (''ridge + shape'', 9, 10)],
     c_commit = ''abc'', c_dataset_commit = ''def'', c_frames = 480\<rparr>"

theorem check_all_refines_admissible_witness:
  "card_ok good_card \<and>
   (\<exists>fs. check_all (card_doc good_card) [''1/w''] (Some (card_doc good_card)) None = Inr fs
         \<and> (fs = [] \<longleftrightarrow> admissible good_card [''1/w''] (Some good_card) REGRESSION_TOLERANCE))"
proof -
  have ok: "card_ok good_card" by (simp add: card_ok_def good_card_def test_score_def)
  then show ?thesis
    using check_all_refines_admissible [of good_card "Some good_card" "[''1/w'']"] by simp
qed

text \<open>Soundness of admission, for every document whatsoever. If no gate fails then the
  document names the metrics entry of its stored model, that entry's test median is not at least the closed
  form's (as Python compares them; two numbers then compare strictly), its features are the served ones in the served
  order, both commits and the frame count are recorded, and the entry is within the tolerance of the incumbent's.\<close>

theorem check_all_sound:
  assumes "check_all a served inc tol = Inr []"
  shows "\<exists>ms key m b f. jitem a ''metrics'' = Inr ms \<and> selected_key a = Inr (Some key)
           \<and> median_doc ms key = Inr m \<and> median_doc ms (JStr ''geometric'') = Inr b \<and> py_ge m b = Inr False
           \<and> jitem a ''features'' = Inr f \<and> jiter f = Inr (map JStr served)
           \<and> provenance a = Inr [] \<and> validates a = Inr []
           \<and> (\<forall>i. inc = Some i \<longrightarrow>
                 (\<exists>os old x k. jitem i ''metrics'' = Inr os \<and> selected_key i = Inr (Some old)
                    \<and> jnum m = Inr x \<and> median_at os old = Inr k
                    \<and> x \<le> k * (case tol of Some t \<Rightarrow> t | None \<Rightarrow> REGRESSION_TOLERANCE)))"
proof -
  note ok = check_all_okD [OF assms]
  from ok obtain ms key m b where b: "jitem a ''metrics'' = Inr ms" "selected_key a = Inr (Some key)"
    "median_doc ms key = Inr m" "median_doc ms (JStr ''geometric'') = Inr b" "py_ge m b = Inr False"
    using beats_baseline_okD by blast
  from ok obtain f where f: "jitem a ''features'' = Inr f" "jiter f = Inr (map JStr served)"
    using feature_contract_okD by blast
  have "\<exists>os old x k. jitem i ''metrics'' = Inr os \<and> selected_key i = Inr (Some old)
      \<and> jnum m = Inr x \<and> median_at os old = Inr k
      \<and> x \<le> k * (case tol of Some t \<Rightarrow> t | None \<Rightarrow> REGRESSION_TOLERANCE)" if "inc = Some i" for i
  proof -
    from ok that obtain ms' os key' old x k where r: "jitem a ''metrics'' = Inr ms'" "jitem i ''metrics'' = Inr os"
      "selected_key a = Inr (Some key')" "selected_key i = Inr (Some old)" "median_at ms' key' = Inr x" "median_at os old = Inr k"
      "x \<le> k * (case tol of Some t \<Rightarrow> t | None \<Rightarrow> REGRESSION_TOLERANCE)"
      using no_regression_okD [of a i] by blast
    with b have "jnum m = Inr x" by (simp add: median_at_def)
    with r show ?thesis by blast
  qed
  with ok b f show ?thesis by blast
qed

theorem check_all_sound_witness:
  "check_all (card_doc good_card) [''1/w''] None None = Inr [] \<and>
   (\<exists>ms key m b. selected_key (card_doc good_card) = Inr (Some key)
      \<and> median_doc ms key = Inr m \<and> median_doc ms (JStr ''geometric'') = Inr b \<and> py_ge m b = Inr False)"
proof -
  have v: "validates (card_doc good_card) = Inr []" and p: "provenance (card_doc good_card) = Inr []"
    by (simp_all add: validates_card provenance_card good_card_def)
  have f: "feature_contract (card_doc good_card) [''1/w''] = Inr []"
    by (simp add: feature_contract_def card_doc_def good_card_def)
  have b: "beats_baseline (card_doc good_card) = Inr []"
    by (simp add: beats_baseline_def selected_key_def median_doc_def card_doc_def good_card_def
        score_doc_def)
  have h: "check_all (card_doc good_card) [''1/w''] None None = Inr []"
    by (simp add: check_all_def v p f b no_regression_def)
  from check_all_sound [OF h] show ?thesis using h by blast
qed

text \<open>A gate that raises hides the reasons of every other gate. An artifact without its
  \<open>features\<close> key is reported by \<open>validates\<close>, but \<open>check_all\<close> goes on to the other gates and raises
  \<open>KeyError\<close>, so the promotion attempt reports nothing.\<close>

theorem check_all_raises_on_missing_features:
  assumes "map_of kvs ''features'' = None" and "provenance (JObj kvs) = Inr ps"
  shows "(\<exists>ks. validates (JObj kvs) = Inr [MissingKeys ks] \<and> ''features'' \<in> set ks)
         \<and> check_all (JObj kvs) served inc tol = Inl (KeyError ''features'')"
proof -
  have "\<exists>ks. validates (JObj kvs) = Inr [MissingKeys ks] \<and> ''features'' \<in> set ks"
    using assms(1) by (rule validates_missing) (simp add: REQUIRED_KEYS_def)
  then show ?thesis
    using assms by (auto simp: check_all_def feature_contract_def)
qed

theorem check_all_raises_on_missing_features_witness:
  "provenance (JObj []) = Inr [NoTrainingCommit, NoDatasetCommit, NoFrameCount]
   \<and> check_all (JObj []) [''1/w''] None None = Inl (KeyError ''features'')"
proof -
  have p: "provenance (JObj []) = Inr [NoTrainingCommit, NoDatasetCommit, NoFrameCount]"
    by (simp add: provenance_def)
  with check_all_raises_on_missing_features [of "[]", OF _ p] show ?thesis by simp
qed

end
