(* ===== verification/Registry.thy ===== *)
theory Registry
  imports Gates
begin

section \<open>The model registry (\<open>threevn_mlops/registry.py\<close>)\<close>

text \<open>
  The registry's directory is a \<open>store\<close>: the index file, absent until the first write, and the
  files under \<open>models/\<close>. Every operation reads the index, changes it and writes it back;
  \<open>json.dumps(..., sort_keys=True)\<close> orders the version keys in the file; a stored document is kept with its keys in the
  order they were given in, so a gate may list its reasons per entry in another order than it does on the file. An operation returns its
  result or exception together with the store it leaves behind, so that a file written before an
  exception is visible. The hash is not modelled: \<open>digest\<close> stands for
  \<open>sha256(json.dumps(artifact, sort_keys=True)).hexdigest()\<close> and is an argument of every
  operation that names a version; the times \<open>_now()\<close> returns are arguments too.
\<close>

subsection \<open>Data\<close>

type_synonym version = string

record version_row =
  vr_registered :: string
  vr_note :: string
  vr_file :: string
  vr_test_median_mm :: json
  vr_baseline_median_mm :: json
  vr_dataset_frames :: json
  vr_code :: json

datatype history_row =
    RegisterRow string version string
  | PromoteRow string version "version option" string bool

record index =
  ix_production :: "version option"
  ix_versions :: "(version \<times> version_row) list"
  ix_history :: "history_row list"

record store =
  st_index :: "index option"
  st_models :: "(version \<times> json) list"

subsection \<open>Operations\<close>

definition empty_index :: index where
  "empty_index = \<lparr>ix_production = None, ix_versions = [], ix_history = []\<rparr>"

definition read_index :: "store \<Rightarrow> index" where
  "read_index s = (case st_index s of None \<Rightarrow> empty_index | Some ix \<Rightarrow> ix)"

definition write_index :: "store \<Rightarrow> index \<Rightarrow> store" where
  "write_index s ix = s\<lparr>st_index := Some (ix\<lparr>ix_versions := sort_key fst (ix_versions ix)\<rparr>)\<rparr>"

definition version_of :: "(json \<Rightarrow> string) \<Rightarrow> json \<Rightarrow> version" where
  "version_of digest artifact = take 12 (digest artifact)"

definition score :: "json \<Rightarrow> json res" where
  "score artifact =
     rbind (selected_key artifact) (\<lambda>key.
       case key of
         None \<Rightarrow> Inr JNull
       | Some k \<Rightarrow>
           rbind (jitem artifact ''metrics'') (\<lambda>ms.
           rbind (jsub ms k) (\<lambda>e.
           rbind (jget e ''test'' (JObj [])) (\<lambda>t. jget t ''median_mm'' JNull))))"

definition baseline :: "json \<Rightarrow> json res" where
  "baseline metrics =
     rbind (jget metrics ''geometric'' (JObj [])) (\<lambda>g.
     rbind (jget g ''test'' (JObj [])) (\<lambda>t. jget t ''median_mm'' JNull))"

definition summary_row :: "string \<Rightarrow> string \<Rightarrow> version \<Rightarrow> json \<Rightarrow> version_row res" where
  "summary_row now note v artifact =
     rbind (jget artifact ''metrics'' (JObj [])) (\<lambda>metrics.
     rbind (score artifact) (\<lambda>median.
     rbind (baseline metrics) (\<lambda>base.
     rbind (jget artifact ''dataset'' (JObj [])) (\<lambda>dataset.
     rbind (jget dataset ''frames'' JNull) (\<lambda>frames.
     rbind (jget artifact ''code'' (JObj [])) (\<lambda>code.
     rbind (jget code ''commit'' JNull) (\<lambda>commit.
       Inr \<lparr>vr_registered = now, vr_note = note, vr_file = ''models/'' @ v @ ''.json'',
            vr_test_median_mm = median, vr_baseline_median_mm = base,
            vr_dataset_frames = frames, vr_code = commit\<rparr>)))))))"

definition register ::
  "(json \<Rightarrow> string) \<Rightarrow> string \<Rightarrow> string \<Rightarrow> json \<Rightarrow> string \<Rightarrow> store \<Rightarrow> version res \<times> store" where
  "register digest now1 now2 artifact note s =
     (let v = version_of digest artifact; ix = read_index s in
      if v \<in> fst ` set (ix_versions ix) then (Inr v, s)
      else
        let s1 = s\<lparr>st_models := AList.update v artifact (st_models s)\<rparr> in
        case summary_row now1 note v artifact of
          Inl e \<Rightarrow> (Inl e, s1)
        | Inr row \<Rightarrow>
            (Inr v, write_index s1
               (ix\<lparr>ix_versions := AList.update v row (ix_versions ix),
                   ix_history := ix_history ix @ [RegisterRow now2 v note]\<rparr>)))"

definition versions :: "store \<Rightarrow> (version \<times> version_row) list" where
  "versions s = rev (sort_key (vr_registered \<circ> snd) (rev (ix_versions (read_index s))))"

definition artifact_of :: "version \<Rightarrow> store \<Rightarrow> json res" where
  "artifact_of v s =
     (case map_of (st_models s) v of None \<Rightarrow> Inl FileNotFoundError | Some a \<Rightarrow> Inr a)"

definition production_version :: "store \<Rightarrow> version option" where
  "production_version s = ix_production (read_index s)"

definition production :: "store \<Rightarrow> json option res" where
  "production s =
     (case production_version s of
        None \<Rightarrow> Inr None
      | Some v \<Rightarrow> if v = [] then Inr None else rbind (artifact_of v s) (\<lambda>a. Inr (Some a)))"

definition history :: "store \<Rightarrow> history_row list" where
  "history s = ix_history (read_index s)"

definition promote ::
  "string \<Rightarrow> version \<Rightarrow> string \<Rightarrow> bool \<Rightarrow> store \<Rightarrow> version option res \<times> store" where
  "promote now v reason forced s =
     (let ix = read_index s in
      if v \<notin> fst ` set (ix_versions ix) then (Inl (KeyError v), s)
      else
        let previous = ix_production ix in
        if previous = Some v then (Inr previous, s)
        else (Inr previous, write_index s
                (ix\<lparr>ix_production := Some v,
                    ix_history := ix_history ix @ [PromoteRow now v previous reason forced]\<rparr>)))"

fun promotions :: "history_row list \<Rightarrow> (version option \<times> version) list" where
  "promotions [] = []"
| "promotions (PromoteRow t v from reason forced # rows) = (from, v) # promotions rows"
| "promotions (RegisterRow t v note # rows) = promotions rows"

definition rollback :: "string \<Rightarrow> string \<Rightarrow> store \<Rightarrow> version option res \<times> store" where
  "rollback now reason s =
     (let ps = promotions (ix_history (read_index s)) in
      if ps = [] then (Inl RuntimeError, s)
      else case fst (last ps) of
             None \<Rightarrow> (Inl RuntimeError, s)
           | Some target \<Rightarrow>
               promote now target (if reason = [] then ''rollback'' else reason) False s)"

subsection \<open>Sequences of operations\<close>

datatype registry_op =
    Register string string json string
  | Promote string version string bool
  | Rollback string string

fun apply_op :: "(json \<Rightarrow> string) \<Rightarrow> store \<Rightarrow> registry_op \<Rightarrow> store" where
  "apply_op digest s (Register t1 t2 a note) = snd (register digest t1 t2 a note s)"
| "apply_op digest s (Promote t v reason forced) = snd (promote t v reason forced s)"
| "apply_op digest s (Rollback t reason) = snd (rollback t reason s)"

definition empty_store :: store where
  "empty_store = \<lparr>st_index = None, st_models = []\<rparr>"

subsection \<open>The invariant\<close>

text \<open>
  \<open>linked p ms\<close>: starting from production \<open>p\<close>, each promotion of the log starts where the
  previous one ended and changes the pointer. \<open>pointer_after\<close> replays the log.
\<close>

fun linked :: "version option \<Rightarrow> (version option \<times> version) list \<Rightarrow> bool" where
  "linked p [] = True"
| "linked p ((from, v) # ms) = (from = p \<and> p \<noteq> Some v \<and> linked (Some v) ms)"

definition pointer_after :: "(version option \<times> version) list \<Rightarrow> version option" where
  "pointer_after ms = (if ms = [] then None else Some (snd (last ms)))"

definition registry_inv :: "(json \<Rightarrow> string) \<Rightarrow> store \<Rightarrow> bool" where
  "registry_inv digest s \<longleftrightarrow>
     linked None (promotions (history s))
     \<and> production_version s = pointer_after (promotions (history s))
     \<and> snd ` set (promotions (history s)) \<subseteq> fst ` set (ix_versions (read_index s))
     \<and> distinct (map fst (ix_versions (read_index s)))
     \<and> (\<forall>v \<in> fst ` set (ix_versions (read_index s)).
          \<exists>a. map_of (st_models s) v = Some a \<and> version_of digest a = v)"

subsection \<open>Lemmas: the index file\<close>

lemma set_sort_versions: "set (sort_key fst xs) = set xs"
  by simp

lemma distinct_sort_versions: "distinct (map fst (sort_key fst xs)) \<longleftrightarrow> distinct (map fst xs)"
proof -
  have "mset (map fst (sort_key fst xs)) = mset (map fst xs)" by simp
  then show ?thesis by (rule mset_eq_imp_distinct_iff)
qed

lemma map_of_sort_versions: "distinct (map fst xs) \<Longrightarrow> map_of (sort_key fst xs) = map_of xs"
  by (subst map_of_inject_set) (auto simp: distinct_sort_versions)

lemma read_write_index [simp]:
  "read_index (write_index s ix) = ix\<lparr>ix_versions := sort_key fst (ix_versions ix)\<rparr>"
  by (simp add: read_index_def write_index_def)

lemma models_write_index [simp]: "st_models (write_index s ix) = st_models s"
  by (simp add: write_index_def)

lemma read_index_models [simp]: "read_index (s\<lparr>st_models := m\<rparr>) = read_index s"
  by (simp add: read_index_def)

lemma read_index_empty [simp]: "read_index empty_store = empty_index"
  by (simp add: read_index_def empty_store_def)

subsection \<open>Lemmas: the log\<close>

lemma promotions_append [simp]: "promotions (xs @ ys) = promotions xs @ promotions ys"
  by (induction xs rule: promotions.induct) auto

lemma linked_snoc:
  "linked p (ms @ [(from, v)]) \<longleftrightarrow>
     linked p ms \<and> from = (if ms = [] then p else Some (snd (last ms))) \<and> from \<noteq> Some v"
  by (induction p ms rule: linked.induct) auto

lemma pointer_after_snoc [simp]: "pointer_after (ms @ [(from, v)]) = Some v"
  by (simp add: pointer_after_def)

lemma linked_snoc_None:
  "linked None (ms @ [(from, v)]) \<longleftrightarrow> linked None ms \<and> from = pointer_after ms \<and> from \<noteq> Some v"
  by (auto simp: linked_snoc pointer_after_def)

text \<open>The log's last two pointers: before the last promotion production was where its \<open>from\<close>
  field says.\<close>

lemma linked_last_from:
  "linked None ms \<Longrightarrow> ms \<noteq> [] \<Longrightarrow> fst (last ms) = pointer_after (butlast ms)"
  by (cases ms rule: rev_cases) (auto simp: linked_snoc_None)

lemma linked_from_named:
  "linked None ms \<Longrightarrow> (Some u, v) \<in> set ms \<Longrightarrow> u \<in> snd ` set ms"
proof (induction ms rule: rev_induct)
  case (snoc m ms)
  obtain f w where m: "m = (f, w)" by (cases m)
  from snoc.prems m have "linked None ms" and f: "f = pointer_after ms"
    by (auto simp: linked_snoc_None)
  show ?case
  proof (cases "(Some u, v) \<in> set ms")
    case True
    with snoc.IH \<open>linked None ms\<close> show ?thesis by simp
  next
    case False
    with snoc.prems m f have "pointer_after ms = Some u" by auto
    then have "ms \<noteq> []" and "u = snd (last ms)" by (auto simp: pointer_after_def split: if_splits)
    then show ?thesis by simp
  qed
qed simp

subsection \<open>Lemmas: each operation\<close>

lemma register_cases:
  "register digest t1 t2 a note s = r \<Longrightarrow>
   (version_of digest a \<in> fst ` set (ix_versions (read_index s)) \<Longrightarrow>
      r = (Inr (version_of digest a), s) \<Longrightarrow> P) \<Longrightarrow>
   (\<And>e. version_of digest a \<notin> fst ` set (ix_versions (read_index s)) \<Longrightarrow>
      summary_row t1 note (version_of digest a) a = Inl e \<Longrightarrow>
      r = (Inl e, s\<lparr>st_models := AList.update (version_of digest a) a (st_models s)\<rparr>) \<Longrightarrow> P) \<Longrightarrow>
   (\<And>row. version_of digest a \<notin> fst ` set (ix_versions (read_index s)) \<Longrightarrow>
      summary_row t1 note (version_of digest a) a = Inr row \<Longrightarrow>
      r = (Inr (version_of digest a),
           write_index (s\<lparr>st_models := AList.update (version_of digest a) a (st_models s)\<rparr>)
             ((read_index s)\<lparr>
                ix_versions := AList.update (version_of digest a) row (ix_versions (read_index s)),
                ix_history := ix_history (read_index s)
                              @ [RegisterRow t2 (version_of digest a) note]\<rparr>)) \<Longrightarrow> P) \<Longrightarrow> P"
  by (auto simp: register_def Let_def split: sum.splits if_splits)

lemma promote_cases:
  "promote t v reason forced s = r \<Longrightarrow>
   (v \<notin> fst ` set (ix_versions (read_index s)) \<Longrightarrow> r = (Inl (KeyError v), s) \<Longrightarrow> P) \<Longrightarrow>
   (v \<in> fst ` set (ix_versions (read_index s)) \<Longrightarrow> production_version s = Some v \<Longrightarrow>
      r = (Inr (Some v), s) \<Longrightarrow> P) \<Longrightarrow>
   (v \<in> fst ` set (ix_versions (read_index s)) \<Longrightarrow> production_version s \<noteq> Some v \<Longrightarrow>
      r = (Inr (production_version s), write_index s
             ((read_index s)\<lparr>ix_production := Some v,
                 ix_history := ix_history (read_index s)
                    @ [PromoteRow t v (production_version s) reason forced]\<rparr>)) \<Longrightarrow> P) \<Longrightarrow> P"
  by (auto simp: promote_def production_version_def Let_def split: if_splits)

lemma registry_inv_register:
  assumes inv: "registry_inv digest s"
  shows "registry_inv digest (snd (register digest t1 t2 a note s))"
proof (rule register_cases [OF refl [of "register digest t1 t2 a note s"]])
  assume "register digest t1 t2 a note s = (Inr (version_of digest a), s)"
  with inv show ?thesis by simp
next
  fix e
  assume "register digest t1 t2 a note s
      = (Inl e, s\<lparr>st_models := AList.update (version_of digest a) a (st_models s)\<rparr>)"
  with inv show ?thesis
    by (auto simp: registry_inv_def history_def production_version_def)
next
  fix row
  assume "register digest t1 t2 a note s =
     (Inr (version_of digest a),
      write_index (s\<lparr>st_models := AList.update (version_of digest a) a (st_models s)\<rparr>)
        ((read_index s)\<lparr>
           ix_versions := AList.update (version_of digest a) row (ix_versions (read_index s)),
           ix_history := ix_history (read_index s)
                         @ [RegisterRow t2 (version_of digest a) note]\<rparr>))"
  with inv show ?thesis
    by (auto simp: registry_inv_def history_def production_version_def distinct_sort_versions
        fst_set_update distinct_keys_update)
qed

lemma registry_inv_promote:
  assumes inv: "registry_inv digest s"
  shows "registry_inv digest (snd (promote t v reason forced s))"
proof (rule promote_cases [OF refl [of "promote t v reason forced s"]])
  assume "v \<in> fst ` set (ix_versions (read_index s))" and "production_version s \<noteq> Some v"
    and "promote t v reason forced s =
      (Inr (production_version s), write_index s
         ((read_index s)\<lparr>ix_production := Some v,
             ix_history := ix_history (read_index s)
                @ [PromoteRow t v (production_version s) reason forced]\<rparr>))"
  with inv show ?thesis
    by (auto simp: registry_inv_def history_def production_version_def distinct_sort_versions
        linked_snoc_None)
qed (simp_all add: inv)

lemma registry_inv_rollback:
  "registry_inv digest s \<Longrightarrow> registry_inv digest (snd (rollback t reason s))"
  by (auto simp: rollback_def Let_def registry_inv_promote split: option.splits)

lemma registry_inv_op: "registry_inv digest s \<Longrightarrow> registry_inv digest (apply_op digest s ops)"
  by (cases ops) (auto simp: registry_inv_register registry_inv_promote registry_inv_rollback)

lemma registry_inv_empty: "registry_inv digest empty_store"
  by (simp add: registry_inv_def history_def production_version_def empty_index_def pointer_after_def)

lemma history_promote: "prefix (history s) (history (snd (promote t v reason forced s)))"
  by (auto simp: promote_def history_def Let_def)

lemma history_op: "prefix (history s) (history (apply_op digest s ops))"
proof (cases ops)
  case (Register t1 t2 a nt)
  then show ?thesis by (auto simp: register_def history_def Let_def split: sum.splits)
next
  case (Rollback t reason)
  then show ?thesis by (auto simp: rollback_def Let_def history_promote split: option.splits)
qed (simp add: history_promote)

text \<open>What is on record for a registered version: its index row and its artifact file.\<close>

definition entry :: "store \<Rightarrow> version \<Rightarrow> (version_row \<times> json option) option" where
  "entry s v = map_option (\<lambda>row. (row, map_of (st_models s) v))
                          (map_of (ix_versions (read_index s)) v)"

lemma entry_promote:
  "registry_inv digest s \<Longrightarrow> entry (snd (promote t v reason forced s)) w = entry s w"
  by (auto simp: promote_def entry_def Let_def registry_inv_def map_of_sort_versions)

lemma entry_register:
  assumes "registry_inv digest s" and "entry s w = Some x"
  shows "entry (snd (register digest t1 t2 a note s)) w = Some x"
proof (rule register_cases [OF refl [of "register digest t1 t2 a note s"]])
  fix e
  assume "version_of digest a \<notin> fst ` set (ix_versions (read_index s))"
    and "register digest t1 t2 a note s
      = (Inl e, s\<lparr>st_models := AList.update (version_of digest a) a (st_models s)\<rparr>)"
  with assms(2) show ?thesis
    by (auto simp: entry_def dest: map_of_SomeD intro: rev_image_eqI)
next
  fix row
  assume new: "version_of digest a \<notin> fst ` set (ix_versions (read_index s))"
    and "register digest t1 t2 a note s =
     (Inr (version_of digest a),
      write_index (s\<lparr>st_models := AList.update (version_of digest a) a (st_models s)\<rparr>)
        ((read_index s)\<lparr>
           ix_versions := AList.update (version_of digest a) row (ix_versions (read_index s)),
           ix_history := ix_history (read_index s)
                         @ [RegisterRow t2 (version_of digest a) note]\<rparr>))"
  moreover have "w \<noteq> version_of digest a"
    using new assms(2) by (auto simp: entry_def dest: map_of_SomeD intro: rev_image_eqI)
  ultimately show ?thesis
    using assms by (auto simp: entry_def registry_inv_def map_of_sort_versions distinct_keys_update)
qed (simp_all add: assms)

lemma entry_op:
  assumes "registry_inv digest s" and "entry s w = Some x"
  shows "entry (apply_op digest s ops) w = Some x"
proof (cases ops)
  case (Register t1 t2 a nt)
  with assms show ?thesis by (simp add: entry_register)
next
  case (Promote t v reason forced)
  with assms show ?thesis by (simp add: entry_promote)
next
  case (Rollback t reason)
  with assms show ?thesis
    by (auto simp: rollback_def Let_def entry_promote split: option.splits)
qed

lemma rollback_of_promotion:
  assumes inv: "registry_inv digest s" and reg: "v \<in> fst ` set (ix_versions (read_index s))"
    and prod: "production_version s = Some p" and ne: "p \<noteq> v"
  shows "\<exists>s'. rollback t' reason' (snd (promote t v reason forced s)) = (Inr (Some v), s')
              \<and> production_version s' = Some p
              \<and> promotions (history s')
                = promotions (history s) @ [(Some p, v), (Some v, p)]"
proof -
  have "pointer_after (promotions (history s)) = Some p"
    using inv prod by (simp add: registry_inv_def)
  then have "p \<in> snd ` set (promotions (history s))"
    by (auto simp: pointer_after_def split: if_splits)
  then have "p \<in> fst ` set (ix_versions (read_index s))"
    using inv by (auto simp: registry_inv_def)
  with reg prod ne show ?thesis
    by (auto simp: promote_def rollback_def Let_def production_version_def history_def)
qed

subsection \<open>The registry as a system of operations\<close>

interpretation reg: write_once "apply_op digest" "registry_inv digest" entry
  for digest :: "json \<Rightarrow> string"
  by unfold_locales (auto intro: registry_inv_op entry_op)

interpretation reglog: log_system "apply_op digest" history
  for digest :: "json \<Rightarrow> string"
  by unfold_locales (rule history_op)

subsection \<open>Properties\<close>

text \<open>C2: after any sequence of registrations, promotions and rollbacks on an empty registry
  (whatever exceptions they raised), production is exactly what replaying the promotions of the
  log gives, consecutive promotions in the log are linked and each moves the pointer, every
  version that was ever promoted is registered, and every registered version has an artifact file
  whose content hashes to its name.\<close>

theorem registry_reachable:
  fixes digest :: "json \<Rightarrow> string" and ops :: "registry_op list"
  defines "s \<equiv> foldl (apply_op digest) empty_store ops"
  shows "production_version s = pointer_after (promotions (history s))
         \<and> linked None (promotions (history s))
         \<and> snd ` set (promotions (history s)) \<subseteq> fst ` set (ix_versions (read_index s))
         \<and> fst ` set (ix_versions (read_index s))
             \<subseteq> {v. \<exists>a. artifact_of v s = Inr a \<and> version_of digest a = v}"
proof -
  have "registry_inv digest s"
    unfolding s_def by (rule reg.inv_run) (rule registry_inv_empty)
  then have inv: "linked None (promotions (history s))"
      "production_version s = pointer_after (promotions (history s))"
      "snd ` set (promotions (history s)) \<subseteq> fst ` set (ix_versions (read_index s))"
    and files: "\<And>v. v \<in> fst ` set (ix_versions (read_index s)) \<Longrightarrow>
          \<exists>a. map_of (st_models s) v = Some a \<and> version_of digest a = v"
    unfolding registry_inv_def by blast+
  have "fst ` set (ix_versions (read_index s))
          \<subseteq> {v. \<exists>a. artifact_of v s = Inr a \<and> version_of digest a = v}"
    by (rule subsetI) (use files in \<open>fastforce simp: artifact_of_def\<close>)
  with inv show ?thesis by simp
qed

text \<open>C16: rollback undoes a promotion. From any state the operations can reach, promoting a
  registered version over production \<open>p\<close> and then rolling back succeeds, returns the version
  rolled back from, and production is \<open>p\<close> again; the log keeps both moves. Rolling back once more
  is the promotion again: the log is read from its end, so two rollbacks cancel instead of going
  two versions back.\<close>

theorem rollback_undoes_promotion:
  assumes "s = foldl (apply_op digest) empty_store ops"
    and "v \<in> fst ` set (ix_versions (read_index s))"
    and "production_version s = Some p" and "p \<noteq> v"
  shows "\<exists>s1 s2. rollback t1 r1 (snd (promote t v reason forced s)) = (Inr (Some v), s1)
            \<and> production_version s1 = Some p
            \<and> rollback t2 r2 s1 = (Inr (Some p), s2) \<and> production_version s2 = Some v"
proof -
  have inv: "registry_inv digest s"
    unfolding assms(1) by (rule reg.inv_run) (rule registry_inv_empty)
  obtain s1 where s1: "rollback t1 r1 (snd (promote t v reason forced s)) = (Inr (Some v), s1)"
    "production_version s1 = Some p"
    "promotions (history s1) = promotions (history s) @ [(Some p, v), (Some v, p)]"
    using rollback_of_promotion [OF inv assms(2,3,4)] by blast
  have inv1: "registry_inv digest s1"
    using registry_inv_rollback [OF registry_inv_promote [OF inv]] s1(1) by (metis snd_conv)
  then have "v \<in> fst ` set (ix_versions (read_index s1))"
    using s1(3) by (auto simp: registry_inv_def)
  with s1 assms(4) show ?thesis
    by (auto simp: rollback_def promote_def Let_def history_def production_version_def)
qed

definition demo_digest :: "json \<Rightarrow> string" where
  "demo_digest j = (if truthy j then ''aaaaaaaaaaaabb'' else ''cccccccccccc'')"

definition demo_store :: store where
  "demo_store = foldl (apply_op demo_digest) empty_store
     [Register ''t0'' ''t1'' (JObj []) '''', Register ''t2'' ''t3'' (JObj [(''metrics'', JObj [])]) '''',
      Promote ''t4'' ''cccccccccccc'' '''' False]"

lemma demo_store_eval:
  "production_version demo_store = Some ''cccccccccccc''
   \<and> ''aaaaaaaaaaaa'' \<in> fst ` set (ix_versions (read_index demo_store))"
  by (simp add: demo_store_def register_def promote_def version_of_def demo_digest_def summary_row_def
      score_def baseline_def selected_key_def sole_key_def empty_index_def production_version_def Let_def)

theorem rollback_undoes_promotion_witness:
  "\<exists>s1 s2. rollback ''t6'' '''' (snd (promote ''t5'' ''aaaaaaaaaaaa'' '''' False demo_store))
             = (Inr (Some ''aaaaaaaaaaaa''), s1)
      \<and> production_version s1 = Some ''cccccccccccc''
      \<and> rollback ''t7'' '''' s1 = (Inr (Some ''cccccccccccc''), s2)
      \<and> production_version s2 = Some ''aaaaaaaaaaaa''"
  by (rule rollback_undoes_promotion [OF demo_store_def]) (simp_all add: demo_store_eval)

text \<open>C38: nothing that was recorded changes. Whatever operations follow, the index row and the
  artifact file of a registered version stay as they are, and the log only grows.\<close>

theorem registered_versions_immutable:
  assumes "entry (foldl (apply_op digest) empty_store ops) v = Some x"
  shows "entry (foldl (apply_op digest) empty_store (ops @ ops')) v = Some x
         \<and> prefix (history (foldl (apply_op digest) empty_store ops))
                  (history (foldl (apply_op digest) empty_store (ops @ ops')))"
proof -
  have "registry_inv digest (foldl (apply_op digest) empty_store ops)"
    by (rule reg.inv_run) (rule registry_inv_empty)
  then have "entry (foldl (apply_op digest) (foldl (apply_op digest) empty_store ops) ops') v = Some x"
    using assms by (rule reg.look_run)
  then show ?thesis by (simp add: reglog.log_run)
qed

theorem registered_versions_immutable_witness:
  "\<exists>x. entry (foldl (apply_op demo_digest) empty_store [Register ''t'' ''t'' (JObj []) '''']) ''cccccccccccc''
          = Some x
       \<and> entry (foldl (apply_op demo_digest) empty_store
            ([Register ''t'' ''t'' (JObj []) ''''] @ [Rollback ''t'' ''''])) ''cccccccccccc'' = Some x"
proof -
  have "\<exists>x. entry (foldl (apply_op demo_digest) empty_store [Register ''t'' ''t'' (JObj []) ''''])
              ''cccccccccccc'' = Some x"
    by (simp add: entry_def register_def version_of_def demo_digest_def summary_row_def score_def
        baseline_def selected_key_def sole_key_def empty_index_def Let_def)
  then obtain x where x: "entry (foldl (apply_op demo_digest) empty_store
      [Register ''t'' ''t'' (JObj []) '''']) ''cccccccccccc'' = Some x" ..
  from registered_versions_immutable [OF x, of "[Rollback ''t'' '''']"] x show ?thesis by blast
qed

text \<open>Registering is idempotent. If registering an artifact succeeded, registering it again
  (at any later time and with any note) returns the same version and leaves the whole store,
  log included, as it was.\<close>

theorem register_idempotent:
  assumes "register digest t1 t2 a nt s = (Inr v, s')"
  shows "register digest t3 t4 a nt' s' = (Inr v, s')"
  using assms
  by (auto simp: register_def Let_def fst_set_update split: sum.splits if_splits)

theorem register_idempotent_witness:
  "\<exists>s'. register demo_digest ''t'' ''t'' (JObj []) '''' empty_store = (Inr ''cccccccccccc'', s')
       \<and> register demo_digest ''u'' ''u'' (JObj []) ''again'' s' = (Inr ''cccccccccccc'', s')"
proof -
  have "\<exists>s'. register demo_digest ''t'' ''t'' (JObj []) '''' empty_store = (Inr ''cccccccccccc'', s')"
    by (simp add: register_def version_of_def demo_digest_def summary_row_def score_def
        baseline_def selected_key_def sole_key_def empty_index_def Let_def)
  then show ?thesis using register_idempotent by blast
qed

text \<open>A rollback with nothing to go back to is refused and changes nothing: it fails exactly
  when fewer than two promotions were made, with \<open>RuntimeError\<close>, and otherwise succeeds and moves
  production away from the version it returns.\<close>

theorem rollback_refused_iff:
  assumes "s = foldl (apply_op digest) empty_store ops"
  shows "(case promotions (history s) of
            [] \<Rightarrow> rollback t reason s = (Inl RuntimeError, s)
          | [m] \<Rightarrow> rollback t reason s = (Inl RuntimeError, s)
          | _ \<Rightarrow> (\<exists>prev s'. rollback t reason s = (Inr (Some prev), s')
                            \<and> production_version s = Some prev \<and> production_version s' \<noteq> Some prev))"
proof -
  have inv: "registry_inv digest s"
    unfolding assms by (rule reg.inv_run) (rule registry_inv_empty)
  show ?thesis
  proof (cases "promotions (history s)" rule: rev_cases)
    case Nil
    then show ?thesis by (simp add: rollback_def history_def)
  next
    case (snoc ms m)
    obtain old v where m: "m = (old, v)" by (cases m)
    have l: "old = pointer_after ms" "old \<noteq> Some v" and pv: "production_version s = Some v"
      using inv snoc m by (auto simp: registry_inv_def linked_snoc_None)
    show ?thesis
    proof (cases ms)
      case Nil
      with l snoc m show ?thesis by (simp add: rollback_def history_def pointer_after_def)
    next
      case (Cons n ns)
      then obtain u where u: "old = Some u" "u \<in> snd ` set ms"
        using l(1) by (auto simp: pointer_after_def)
      then have "u \<in> fst ` set (ix_versions (read_index s))"
        using inv snoc by (auto simp: registry_inv_def)
      then have "\<exists>s'. rollback t reason s = (Inr (Some v), s') \<and> production_version s' \<noteq> Some v"
        using snoc m u(1) pv l(2)
        by (auto simp: rollback_def promote_def history_def production_version_def Let_def)
      with pv snoc Cons show ?thesis by (auto split: list.splits)
    qed
  qed
qed

theorem rollback_refused_iff_witness:
  "rollback ''t'' '''' (foldl (apply_op demo_digest) empty_store [])
     = (Inl RuntimeError, foldl (apply_op demo_digest) empty_store [])"
  using rollback_refused_iff [of "foldl (apply_op demo_digest) empty_store []" demo_digest "[]" "''t''" "''''"]
  by (simp add: history_def empty_index_def)

end
