(* ===== verification/Models.thy ===== *)
theory Models
  imports Detector
begin

section \<open>Features and predictors (\<open>threevn_ml/features.py\<close>, \<open>threevn_ml/models.py\<close>)\<close>

text \<open>
  A detected blob becomes a vector of named features (\<open>blob_features\<close>); \<open>Geometric\<close> and \<open>Ridge\<close> map
  such vectors to positions and \<open>errors\<close> judges both. A vector is a list of reals and a
  two-dimensional array the list of its rows (never empty: \<open>np.atleast_2d\<close> has at least one row).
  \<open>np.linalg.solve\<close> is the argument \<open>solve\<close> of \<open>ridge_fit\<close>.
\<close>

subsection \<open>Features\<close>

definition GEOMETRIC_FEATURES :: "string list" where
  "GEOMETRIC_FEATURES = [''(u-cx)/w'', ''(v-cy)/w'', ''1/w'']"

definition SHAPE_FEATURES :: "string list" where
  "SHAPE_FEATURES = GEOMETRIC_FEATURES @ [''h/w'', ''sqrt(area)/w'', ''(h/w)/w'', ''sqrt(area)/w^2'']"

definition FEATURE_NAMES :: "string list" where
  "FEATURE_NAMES = SHAPE_FEATURES"

definition available_features :: "blob \<Rightarrow> intrinsics \<Rightarrow> (string \<times> real) list" where
  "available_features b i =
     (let width = real_of_int (b_width b); height = real_of_int (b_height b);
          root_area = sqrt (real (b_area b)) in
      [(''(u-cx)/w'', (b_u b - in_cx i) / width),
       (''(v-cy)/w'', (b_v b - in_cy i) / width),
       (''1/w'', 1 / width),
       (''h/w'', height / width),
       (''sqrt(area)/w'', root_area / width),
       (''(h/w)/w'', height / (width * width)),
       (''sqrt(area)/w^2'', root_area / (width * width))])"

definition blob_features :: "blob \<Rightarrow> intrinsics \<Rightarrow> string list \<Rightarrow> real list res" where
  "blob_features b i names =
     (if b_width b = 0 then Inl ZeroDivisionError
      else rmap (\<lambda>name. case map_of (available_features b i) name of
                          None \<Rightarrow> Inl (KeyError name) | Some x \<Rightarrow> Inr x) names)"

definition extract_features ::
  "byte ndarray \<Rightarrow> intrinsics \<Rightarrow> string list \<Rightarrow> int \<Rightarrow> int \<Rightarrow> int \<Rightarrow> real list option res" where
  "extract_features rgb i names channel minimum dominance =
     rbind (colour_mask rgb channel minimum dominance) (\<lambda>m.
       case largest_blob m 40 of
         None \<Rightarrow> Inr None
       | Some b \<Rightarrow> rbind (blob_features b i names) (\<lambda>v. Inr (Some v)))"

text \<open>A camera entry that is not a number raises when the model reads it; the source stores it and
  raises when it is first computed with.\<close>

definition intrinsics_from_manifest :: "json \<Rightarrow> intrinsics res" where
  "intrinsics_from_manifest manifest =
     rbind (jitem manifest ''camera'') (\<lambda>camera.
     rbind (rbind (jitem camera ''fx'') jnum) (\<lambda>fx.
     rbind (rbind (jitem camera ''fy'') jnum) (\<lambda>fy.
     rbind (rbind (jitem camera ''cx'') jnum) (\<lambda>cx.
     rbind (rbind (jitem camera ''cy'') jnum) (\<lambda>cy.
       Inr \<lparr>in_fx = fx, in_fy = fy, in_cx = cx, in_cy = cy\<rparr>)))))"

subsection \<open>Arrays\<close>

type_synonym matrix = "real list list"

definition col_mean :: "matrix \<Rightarrow> nat \<Rightarrow> real" where
  "col_mean xs k = (\<Sum>i<length xs. xs ! i ! k) / real (length xs)"

definition ncols :: "matrix \<Rightarrow> nat" where
  "ncols xs = length (hd xs)"

definition mean_row :: "matrix \<Rightarrow> real list" where
  "mean_row xs = map (col_mean xs) [0..<ncols xs]"

definition sub_row :: "matrix \<Rightarrow> real list \<Rightarrow> matrix" where
  "sub_row xs r = map (\<lambda>x. map2 (-) x r) xs"

definition transpose_mul :: "matrix \<Rightarrow> matrix \<Rightarrow> matrix" where
  "transpose_mul a b =
     map (\<lambda>p. map (\<lambda>q. \<Sum>i<length a. a ! i ! p * b ! i ! q) [0..<ncols b]) [0..<ncols a]"

definition add_diag :: "real \<Rightarrow> matrix \<Rightarrow> matrix" where
  "add_diag alpha a = map (\<lambda>p. (a ! p)[p := a ! p ! p + alpha]) [0..<length a]"

definition row_mul :: "real list \<Rightarrow> matrix \<Rightarrow> real list" where
  "row_mul x w = map (\<lambda>q. \<Sum>k<length w. x ! k * w ! k ! q) [0..<ncols w]"

definition rect :: "nat \<Rightarrow> nat \<Rightarrow> matrix \<Rightarrow> bool" where
  "rect n m xs \<longleftrightarrow> length xs = n \<and> list_all (\<lambda>r. length r = m) xs"

subsection \<open>Geometric\<close>

record geometric =
  g_intrinsics :: intrinsics
  g_target_width :: real

definition geometric_scale :: "geometric \<Rightarrow> real list" where
  "geometric_scale g =
     [g_target_width g, g_target_width g, in_fx (g_intrinsics g) * g_target_width g]"

text \<open>\<open>features * scale\<close> on one row: a row of one element is broadcast.\<close>

definition geometric_row :: "geometric \<Rightarrow> real list \<Rightarrow> real list res" where
  "geometric_row g row =
     (if length row = 3 then Inr (map2 (\<lambda>a b. a * b) row (geometric_scale g))
      else if length row = 1 then Inr (map (\<lambda>b. hd row * b) (geometric_scale g))
      else Inl ValueError)"

definition geometric_predict :: "geometric \<Rightarrow> matrix \<Rightarrow> matrix res" where
  "geometric_predict g features = rmap (geometric_row g) features"

definition geometric_to_dict :: "geometric \<Rightarrow> json" where
  "geometric_to_dict g = (let i = g_intrinsics g in
     JObj [(''kind'', JStr ''geometric''), (''target_width'', JNum (g_target_width g)),
           (''fx'', JNum (in_fx i)), (''fy'', JNum (in_fy i)),
           (''cx'', JNum (in_cx i)), (''cy'', JNum (in_cy i))])"

subsection \<open>Ridge\<close>

record ridge =
  r_alpha :: real
  r_fitted :: "(matrix \<times> real list) option"

definition ridge_new :: "real \<Rightarrow> ridge" where
  "ridge_new alpha = \<lparr>r_alpha = alpha, r_fitted = None\<rparr>"

definition ridge_gram :: "real \<Rightarrow> matrix \<Rightarrow> matrix" where
  "ridge_gram alpha features =
     (let centred = sub_row features (mean_row features)
      in add_diag alpha (transpose_mul centred centred))"

definition ridge_rhs :: "matrix \<Rightarrow> matrix \<Rightarrow> matrix" where
  "ridge_rhs features targets =
     transpose_mul (sub_row features (mean_row features)) (sub_row targets (mean_row targets))"

definition ridge_fit ::
  "(matrix \<Rightarrow> matrix \<Rightarrow> matrix res) \<Rightarrow> ridge \<Rightarrow> matrix \<Rightarrow> matrix \<Rightarrow> ridge res" where
  "ridge_fit solve r features targets =
     (if length features \<noteq> length targets then Inl ValueError
      else rbind (solve (ridge_gram (r_alpha r) features) (ridge_rhs features targets)) (\<lambda>weights.
             Inr (r\<lparr>r_fitted := Some (weights,
                      map2 (-) (mean_row targets) (row_mul (mean_row features) weights))\<rparr>)))"

definition ridge_row :: "matrix \<Rightarrow> real list \<Rightarrow> real list \<Rightarrow> real list res" where
  "ridge_row weights intercept row =
     (if length row = length weights then Inr (map2 (+) (row_mul row weights) intercept)
      else Inl ValueError)"

definition ridge_predict :: "ridge \<Rightarrow> matrix \<Rightarrow> matrix res" where
  "ridge_predict r features =
     (case r_fitted r of
        None \<Rightarrow> Inl RuntimeError
      | Some (weights, intercept) \<Rightarrow> rmap (ridge_row weights intercept) features)"

definition ridge_to_dict :: "ridge \<Rightarrow> json res" where
  "ridge_to_dict r =
     (case r_fitted r of
        None \<Rightarrow> Inl AttributeError
      | Some (weights, intercept) \<Rightarrow>
          Inr (JObj [(''kind'', JStr ''ridge''), (''alpha'', JNum (r_alpha r)),
                     (''weights'', JArr (map (JArr \<circ> map JNum) weights)),
                     (''intercept'', JArr (map JNum intercept))]))"

text \<open>\<open>np.asarray(x, dtype=float)\<close> of a list of numbers, and of a list of such rows. Other shapes, and texts of
  numbers, which numpy would take too, are not numbers here.\<close>

definition jvec :: "json \<Rightarrow> real list res" where
  "jvec j = (case j of JArr xs \<Rightarrow> rmap jnum xs | _ \<Rightarrow> Inl ValueError)"

definition jmat :: "json \<Rightarrow> matrix res" where
  "jmat j = (case j of JArr rows \<Rightarrow> rmap jvec rows | _ \<Rightarrow> Inl ValueError)"

definition ridge_from_dict :: "json \<Rightarrow> ridge res" where
  "ridge_from_dict doc =
     rbind (rbind (jitem doc ''alpha'') jnum) (\<lambda>alpha.
     rbind (rbind (jitem doc ''weights'') jmat) (\<lambda>weights.
     rbind (rbind (jitem doc ''intercept'') jvec) (\<lambda>intercept.
       Inr ((ridge_new alpha)\<lparr>r_fitted := Some (weights, intercept)\<rparr>))))"

subsection \<open>Error summary\<close>

text \<open>Both arrays have the same shape, as in every call (numpy would also accept one row against
  many). The maximum of no distances raises.\<close>

record error_summary =
  es_n :: nat
  es_median_mm :: real
  es_p95_mm :: real
  es_max_mm :: real
  es_mae_x_mm :: real
  es_mae_y_mm :: real
  es_mae_z_mm :: real
  es_bias_z_mm :: real

definition np_median :: "real list \<Rightarrow> real" where
  "np_median xs =
     (let s = sort xs; n = length xs in
      if odd n then s ! (n div 2) else (s ! (n div 2 - 1) + s ! (n div 2)) / 2)"

text \<open>\<open>np.percentile(xs, q)\<close> with linear interpolation between the two closest ranks.\<close>

definition np_percentile :: "real list \<Rightarrow> real \<Rightarrow> real" where
  "np_percentile xs q =
     (let s = sort xs; rank = q / 100 * real (length xs - 1); lo = nat \<lfloor>rank\<rfloor>;
          hi = min (lo + 1) (length xs - 1) in
      s ! lo + (rank - real lo) * (s ! hi - s ! lo))"

definition np_mean :: "real list \<Rightarrow> real" where
  "np_mean xs = sum_list xs / real (length xs)"

definition norm_row :: "real list \<Rightarrow> real" where
  "norm_row r = sqrt (sum_list (map (\<lambda>x. x\<^sup>2) r))"

definition errors :: "matrix \<Rightarrow> matrix \<Rightarrow> error_summary res" where
  "errors predicted actual =
     (let delta = map2 (map2 (-)) predicted actual; distance = map norm_row delta in
      if length predicted \<noteq> length actual \<or> delta = [] then Inl ValueError
      else Inr
        \<lparr>es_n = length distance,
         es_median_mm = np_median distance * 1000,
         es_p95_mm = np_percentile distance 95 * 1000,
         es_max_mm = Max (set distance) * 1000,
         es_mae_x_mm = np_mean (map (\<lambda>d. \<bar>d ! 0\<bar>) delta) * 1000,
         es_mae_y_mm = np_mean (map (\<lambda>d. \<bar>d ! 1\<bar>) delta) * 1000,
         es_mae_z_mm = np_mean (map (\<lambda>d. \<bar>d ! 2\<bar>) delta) * 1000,
         es_bias_z_mm = np_mean (map (\<lambda>d. d ! 2) delta) * 1000\<rparr>)"

subsection \<open>The penalised least squares problem\<close>

text \<open>The objective \<open>Ridge\<close> stands for, for one output column \<open>q\<close>: weights \<open>v\<close> are penalised, the
  intercept \<open>d\<close> is not.\<close>

definition ridge_objective ::
  "real \<Rightarrow> matrix \<Rightarrow> matrix \<Rightarrow> nat \<Rightarrow> (nat \<Rightarrow> real) \<Rightarrow> real \<Rightarrow> real" where
  "ridge_objective alpha xs ts q v d =
     (\<Sum>i<length xs. ((\<Sum>k<ncols xs. xs ! i ! k * v k) + d - ts ! i ! q)\<^sup>2)
     + alpha * (\<Sum>k<ncols xs. (v k)\<^sup>2)"

text \<open>What \<open>np.linalg.solve(a, b)\<close> documents: for a square matrix with a trivial kernel it returns
  the solution of \<open>a @ x = b\<close>.\<close>

definition solve_spec :: "(matrix \<Rightarrow> matrix \<Rightarrow> matrix res) \<Rightarrow> matrix \<Rightarrow> matrix \<Rightarrow> bool" where
  "solve_spec solve a b \<longleftrightarrow>
     ((\<forall>v. (\<forall>p<length a. (\<Sum>k<length a. a ! p ! k * v k) = (0 :: real)) \<longrightarrow> (\<forall>k<length a. v k = 0))
      \<longrightarrow> (\<exists>w. solve a b = Inr w \<and> rect (length a) (ncols b) w
              \<and> (\<forall>p<length a. \<forall>q<ncols b. (\<Sum>k<length a. a ! p ! k * w ! k ! q) = b ! p ! q)))"

text \<open>The scalar core: centred data, residual \<open>r\<close> at the solution, and any other weights and
  intercept add a sum of squares.\<close>

lemma ridge_scalar:
  fixes c :: "nat \<Rightarrow> nat \<Rightarrow> real" and t w v :: "nat \<Rightarrow> real"
  assumes normal: "\<And>p. p < m \<Longrightarrow>
      (\<Sum>k<m. (\<Sum>i<n. c i p * c i k) * w k) + alpha * w p = (\<Sum>i<n. c i p * t i)"
    and c0: "\<And>k. k < m \<Longrightarrow> (\<Sum>i<n. c i k) = 0" and t0: "(\<Sum>i<n. t i) = 0" and "0 \<le> alpha"
  shows "(\<Sum>i<n. ((\<Sum>k<m. c i k * w k) - t i)\<^sup>2) + alpha * (\<Sum>k<m. (w k)\<^sup>2)
       \<le> (\<Sum>i<n. ((\<Sum>k<m. c i k * v k) - t i + d)\<^sup>2) + alpha * (\<Sum>k<m. (v k)\<^sup>2)"
proof -
  define r where "r i = (\<Sum>k<m. c i k * w k) - t i" for i
  define u where "u k = v k - w k" for k
  define e where "e i = (\<Sum>k<m. c i k * u k) + d" for i
  have v: "(\<Sum>k<m. c i k * v k) - t i + d = r i + e i" for i
    by (simp add: r_def e_def u_def algebra_simps sum_subtractf)
  have cr: "(\<Sum>i<n. c i p * r i) = - alpha * w p" if "p < m" for p
  proof -
    have "(\<Sum>i<n. c i p * (\<Sum>k<m. c i k * w k)) = (\<Sum>k<m. (\<Sum>i<n. c i p * c i k) * w k)"
      unfolding sum_distrib_left sum_distrib_right by (subst sum.swap) (simp add: mult.assoc)
    then have "(\<Sum>i<n. c i p * r i)
        = (\<Sum>k<m. (\<Sum>i<n. c i p * c i k) * w k) - (\<Sum>i<n. c i p * t i)"
      by (simp add: r_def right_diff_distrib sum_subtractf)
    with normal [OF that] show ?thesis by simp
  qed
  have "(\<Sum>i<n. \<Sum>k<m. c i k * w k) = (\<Sum>k<m. (\<Sum>i<n. c i k) * w k)"
    unfolding sum_distrib_right by (rule sum.swap)
  then have r0: "(\<Sum>i<n. r i) = 0"
    by (simp add: r_def sum_subtractf t0 c0)
  have "(\<Sum>i<n. r i * (\<Sum>k<m. c i k * u k)) = (\<Sum>k<m. (\<Sum>i<n. c i k * r i) * u k)"
    unfolding sum_distrib_left sum_distrib_right by (subst sum.swap) (simp add: mult_ac)
  also have "\<dots> = - alpha * (\<Sum>k<m. w k * u k)"
    by (simp add: cr sum_distrib_left mult.assoc)
  finally have cross: "(\<Sum>i<n. r i * e i) = - alpha * (\<Sum>k<m. w k * u k)"
    by (simp add: e_def distrib_left sum.distrib r0 flip: sum_distrib_right)
  have "(\<Sum>i<n. (r i + e i)\<^sup>2) = (\<Sum>i<n. (r i)\<^sup>2) + 2 * (\<Sum>i<n. r i * e i) + (\<Sum>i<n. (e i)\<^sup>2)"
    by (simp add: power2_sum sum.distrib sum_distrib_left mult_ac)
  moreover have "(\<Sum>k<m. (v k)\<^sup>2) = (\<Sum>k<m. (w k)\<^sup>2) + 2 * (\<Sum>k<m. w k * u k) + (\<Sum>k<m. (u k)\<^sup>2)"
  proof -
    have "(v k)\<^sup>2 = (w k)\<^sup>2 + 2 * (w k * u k) + (u k)\<^sup>2" for k
      by (simp add: u_def power2_eq_square algebra_simps)
    then show ?thesis by (simp add: sum.distrib sum_distrib_left)
  qed
  ultimately have "(\<Sum>i<n. (r i + e i)\<^sup>2) + alpha * (\<Sum>k<m. (v k)\<^sup>2)
      = (\<Sum>i<n. (r i)\<^sup>2) + alpha * (\<Sum>k<m. (w k)\<^sup>2) + ((\<Sum>i<n. (e i)\<^sup>2) + alpha * (\<Sum>k<m. (u k)\<^sup>2))"
    using cross by (simp add: algebra_simps)
  moreover have "0 \<le> (\<Sum>i<n. (e i)\<^sup>2) + alpha * (\<Sum>k<m. (u k)\<^sup>2)"
    using \<open>0 \<le> alpha\<close> by (simp add: sum_nonneg)
  ultimately show ?thesis by (simp add: v r_def)
qed

subsection \<open>Lemmas: arrays\<close>

lemma rect_nth: "rect n m xs \<Longrightarrow> i < n \<Longrightarrow> length (xs ! i) = m"
  by (simp add: rect_def list_all_length)

lemma rect_ncols: "rect n m xs \<Longrightarrow> 0 < n \<Longrightarrow> ncols xs = m"
  using rect_nth [of n m xs 0] by (cases xs) (auto simp: ncols_def rect_def)

lemma mean_row_nth: "k < ncols xs \<Longrightarrow> mean_row xs ! k = col_mean xs k"
  by (simp add: mean_row_def)

lemma length_mean_row [simp]: "length (mean_row xs) = ncols xs"
  by (simp add: mean_row_def)

lemma sub_row_nth:
  "rect n m xs \<Longrightarrow> length r = m \<Longrightarrow> i < n \<Longrightarrow> k < m \<Longrightarrow> sub_row xs r ! i ! k = xs ! i ! k - r ! k"
  using rect_nth [of n m xs i] by (simp add: sub_row_def rect_def)

lemma rect_sub_row: "rect n m xs \<Longrightarrow> length r = m \<Longrightarrow> rect n m (sub_row xs r)"
  by (auto simp: rect_def sub_row_def list_all_iff)

lemma transpose_mul_nth:
  "p < ncols a \<Longrightarrow> q < ncols b \<Longrightarrow> transpose_mul a b ! p ! q = (\<Sum>i<length a. a ! i ! p * b ! i ! q)"
  by (simp add: transpose_mul_def)

lemma rect_transpose_mul: "rect (ncols a) (ncols b) (transpose_mul a b)"
  by (simp add: rect_def transpose_mul_def list_all_iff)

lemma add_diag_nth:
  "rect m m a \<Longrightarrow> p < m \<Longrightarrow> k < m \<Longrightarrow> add_diag alpha a ! p ! k = a ! p ! k + (if p = k then alpha else 0)"
  using rect_nth [of m m a p] by (simp add: add_diag_def rect_def nth_list_update)

lemma sum_col_mean: "0 < length xs \<Longrightarrow> (\<Sum>i<length xs. xs ! i ! k - col_mean xs k) = 0"
  by (simp add: sum_subtractf col_mean_def)

text \<open>The system \<open>fit\<close> solves, in terms of the data.\<close>

lemma ridge_gram_nth:
  assumes "rect n m xs" "0 < n" "p < m" "k < m"
  shows "ridge_gram alpha xs ! p ! k =
     (\<Sum>i<n. (xs ! i ! p - col_mean xs p) * (xs ! i ! k - col_mean xs k)) + (if p = k then alpha else 0)"
proof -
  let ?c = "sub_row xs (mean_row xs)"
  have nc: "ncols xs = m" using assms by (simp add: rect_ncols)
  have rc: "rect n m ?c" using assms nc by (simp add: rect_sub_row)
  then have ncc: "ncols ?c = m" and len: "length ?c = n"
    using assms(2) by (simp_all add: rect_ncols) (simp add: rect_def)
  have at: "?c ! i ! j = xs ! i ! j - col_mean xs j" if "i < n" "j < m" for i j
    using sub_row_nth [OF assms(1) _ that] nc that by (simp add: mean_row_nth)
  have "rect m m (transpose_mul ?c ?c)" using rect_transpose_mul [of ?c ?c] ncc by simp
  with assms ncc len at show ?thesis
    by (simp add: ridge_gram_def Let_def add_diag_nth transpose_mul_nth)
qed

lemma length_ridge_gram:
  assumes "rect n m xs" "0 < n"
  shows "length (ridge_gram alpha xs) = m"
proof -
  have "rect n m (sub_row xs (mean_row xs))"
    using assms by (simp add: rect_sub_row rect_ncols)
  then show ?thesis
    using assms(2) by (simp add: ridge_gram_def Let_def add_diag_def transpose_mul_def rect_ncols)
qed

lemma ridge_rhs_nth:
  assumes "rect n m xs" "rect n l ts" "0 < n" "p < m" "q < l"
  shows "ridge_rhs xs ts ! p ! q =
     (\<Sum>i<n. (xs ! i ! p - col_mean xs p) * (ts ! i ! q - col_mean ts q))"
proof -
  let ?c = "sub_row xs (mean_row xs)" and ?t = "sub_row ts (mean_row ts)"
  have nc: "ncols xs = m" "ncols ts = l" using assms by (simp_all add: rect_ncols)
  have rc: "rect n m ?c" "rect n l ?t" using assms nc by (simp_all add: rect_sub_row)
  then have ncc: "ncols ?c = m" "ncols ?t = l" and len: "length ?c = n"
    using assms(3) by (simp_all add: rect_ncols) (simp add: rect_def)
  have "?c ! i ! p = xs ! i ! p - col_mean xs p" "?t ! i ! q = ts ! i ! q - col_mean ts q"
    if "i < n" for i
    using that assms nc sub_row_nth [OF assms(1) _ that] sub_row_nth [OF assms(2) _ that]
    by (simp_all add: mean_row_nth)
  with assms ncc len show ?thesis by (simp add: ridge_rhs_def transpose_mul_nth)
qed

lemma ncols_ridge_rhs:
  assumes "rect n m xs" "rect n l ts" "0 < n" "0 < m"
  shows "ncols (ridge_rhs xs ts) = l"
proof -
  have "rect n m (sub_row xs (mean_row xs))" "rect n l (sub_row ts (mean_row ts))"
    using assms by (simp_all add: rect_sub_row rect_ncols)
  then have "rect m l (ridge_rhs xs ts)"
    using assms(3) rect_transpose_mul [of "sub_row xs (mean_row xs)" "sub_row ts (mean_row ts)"]
    by (simp add: ridge_rhs_def rect_ncols)
  with \<open>0 < m\<close> show ?thesis by (simp add: rect_ncols)
qed

text \<open>With a positive penalty the Gram matrix has a trivial kernel.\<close>

lemma ridge_gram_kernel:
  assumes "rect n m xs" "0 < n" "0 < alpha"
    and kernel: "\<forall>p<m. (\<Sum>k<m. ridge_gram alpha xs ! p ! k * v k) = 0" and "k < m"
  shows "v k = 0"
proof -
  let ?c = "\<lambda>i k. xs ! i ! k - col_mean xs k"
  have row: "(\<Sum>k<m. ridge_gram alpha xs ! p ! k * v k)
      = (\<Sum>i<n. ?c i p * (\<Sum>k<m. ?c i k * v k)) + alpha * v p" if "p < m" for p
  proof -
    have "(\<Sum>k<m. ridge_gram alpha xs ! p ! k * v k)
        = (\<Sum>k<m. (\<Sum>i<n. ?c i p * ?c i k) * v k + (if p = k then alpha * v k else 0))"
      using assms(1,2) that by (intro sum.cong) (simp_all add: ridge_gram_nth distrib_right)
    also have "\<dots> = (\<Sum>k<m. (\<Sum>i<n. ?c i p * ?c i k) * v k) + alpha * v p"
      using that by (simp add: sum.distrib)
    also have "(\<Sum>k<m. (\<Sum>i<n. ?c i p * ?c i k) * v k) = (\<Sum>i<n. ?c i p * (\<Sum>k<m. ?c i k * v k))"
      unfolding sum_distrib_left sum_distrib_right by (subst sum.swap) (simp add: mult.assoc)
    finally show ?thesis .
  qed
  have "0 = (\<Sum>p<m. v p * ((\<Sum>i<n. ?c i p * (\<Sum>k<m. ?c i k * v k)) + alpha * v p))"
    using kernel row by simp
  also have "\<dots> = (\<Sum>p<m. \<Sum>i<n. v p * ?c i p * (\<Sum>k<m. ?c i k * v k)) + alpha * (\<Sum>p<m. (v p)\<^sup>2)"
    by (simp add: distrib_left sum.distrib sum_distrib_left power2_eq_square mult_ac)
  also have "(\<Sum>p<m. \<Sum>i<n. v p * ?c i p * (\<Sum>k<m. ?c i k * v k)) = (\<Sum>i<n. (\<Sum>k<m. ?c i k * v k)\<^sup>2)"
    by (subst sum.swap) (simp add: power2_eq_square sum_distrib_right mult.commute)
  finally have "(\<Sum>i<n. (\<Sum>k<m. ?c i k * v k)\<^sup>2) + alpha * (\<Sum>p<m. (v p)\<^sup>2) = 0" by simp
  moreover have "0 \<le> (\<Sum>i<n. (\<Sum>k<m. ?c i k * v k)\<^sup>2)" "0 \<le> (\<Sum>p<m. (v p)\<^sup>2)"
    by (simp_all add: sum_nonneg)
  ultimately have "alpha * (\<Sum>p<m. (v p)\<^sup>2) = 0"
    using \<open>0 < alpha\<close> by (simp add: add_nonneg_eq_0_iff)
  with \<open>0 < alpha\<close> have "(\<Sum>p<m. (v p)\<^sup>2) = 0" by simp
  then show ?thesis using \<open>k < m\<close> by (simp add: sum_nonneg_eq_0_iff)
qed

lemma row_mul_nth: "q < ncols w \<Longrightarrow> row_mul x w ! q = (\<Sum>k<length w. x ! k * w ! k ! q)"
  by (simp add: row_mul_def)

lemma length_row_mul [simp]: "length (row_mul x w) = ncols w"
  by (simp add: row_mul_def)

text \<open>The objective at any weights and intercept, over the centred data.\<close>

lemma ridge_objective_centred:
  assumes "rect n m xs" "0 < n"
  shows "ridge_objective alpha xs ts q v d =
     (\<Sum>i<n. ((\<Sum>k<m. (xs ! i ! k - col_mean xs k) * v k) - (ts ! i ! q - col_mean ts q)
              + (d + (\<Sum>k<m. col_mean xs k * v k) - col_mean ts q))\<^sup>2) + alpha * (\<Sum>k<m. (v k)\<^sup>2)"
proof -
  have "length xs = n" "ncols xs = m" using assms by (simp_all add: rect_def rect_ncols)
  then show ?thesis
    by (simp add: ridge_objective_def left_diff_distrib sum_subtractf algebra_simps)
qed

text \<open>Whatever solves the system is optimal.\<close>

lemma ridge_solution_optimal:
  assumes X: "rect n m xs" and T: "rect n l ts" and "0 < n" "q < l" "0 \<le> alpha"
    and sol: "\<And>p. p < m \<Longrightarrow> (\<Sum>k<m. ridge_gram alpha xs ! p ! k * w k) = ridge_rhs xs ts ! p ! q"
    and b: "b = col_mean ts q - (\<Sum>k<m. col_mean xs k * w k)"
  shows "ridge_objective alpha xs ts q w b \<le> ridge_objective alpha xs ts q v d"
proof -
  let ?c = "\<lambda>i k. xs ! i ! k - col_mean xs k" and ?t = "\<lambda>i. ts ! i ! q - col_mean ts q"
  have len: "length xs = n" "length ts = n" using X T by (simp_all add: rect_def)
  have "(\<Sum>k<m. (\<Sum>i<n. ?c i p * ?c i k) * w k) + alpha * w p = (\<Sum>i<n. ?c i p * ?t i)" if "p < m" for p
  proof -
    have "(\<Sum>k<m. ridge_gram alpha xs ! p ! k * w k)
        = (\<Sum>k<m. (\<Sum>i<n. ?c i p * ?c i k) * w k + (if p = k then alpha * w k else 0))"
      using X \<open>0 < n\<close> that by (intro sum.cong) (simp_all add: ridge_gram_nth distrib_right)
    also have "\<dots> = (\<Sum>k<m. (\<Sum>i<n. ?c i p * ?c i k) * w k) + alpha * w p"
      using that by (simp add: sum.distrib)
    finally show ?thesis using sol [OF that] ridge_rhs_nth [OF X T \<open>0 < n\<close> that \<open>q < l\<close>] by simp
  qed
  moreover have "(\<Sum>i<n. ?c i k) = 0" "(\<Sum>i<n. ?t i) = 0" for k
    using sum_col_mean [of xs k] sum_col_mean [of ts q] len \<open>0 < n\<close> by simp_all
  ultimately have "(\<Sum>i<n. ((\<Sum>k<m. ?c i k * w k) - ?t i)\<^sup>2) + alpha * (\<Sum>k<m. (w k)\<^sup>2)
      \<le> (\<Sum>i<n. ((\<Sum>k<m. ?c i k * v k) - ?t i + (d + (\<Sum>k<m. col_mean xs k * v k) - col_mean ts q))\<^sup>2)
        + alpha * (\<Sum>k<m. (v k)\<^sup>2)"
    by (intro ridge_scalar) (simp_all add: \<open>0 \<le> alpha\<close>)
  then show ?thesis
    by (simp add: ridge_objective_centred [OF X \<open>0 < n\<close>] b)
qed

lemma ridge_fit_solution:
  assumes X: "rect n m xs" and T: "rect n l ts" and "0 < n" "0 < m" "0 < alpha"
    and spec: "solve_spec solve (ridge_gram alpha xs) (ridge_rhs xs ts)"
  obtains w where "solve (ridge_gram alpha xs) (ridge_rhs xs ts) = Inr w" "rect m l w"
    "\<And>p q. p < m \<Longrightarrow> q < l \<Longrightarrow>
       (\<Sum>k<m. ridge_gram alpha xs ! p ! k * w ! k ! q) = ridge_rhs xs ts ! p ! q"
proof -
  have len: "length (ridge_gram alpha xs) = m" "ncols (ridge_rhs xs ts) = l"
    by (rule length_ridge_gram [OF X \<open>0 < n\<close>]) (rule ncols_ridge_rhs [OF X T \<open>0 < n\<close> \<open>0 < m\<close>])
  have "\<forall>v. (\<forall>p<m. (\<Sum>k<m. ridge_gram alpha xs ! p ! k * v k) = 0) \<longrightarrow> (\<forall>k<m. v k = 0)"
    using ridge_gram_kernel [OF X \<open>0 < n\<close> \<open>0 < alpha\<close>] by blast
  with spec obtain w where "solve (ridge_gram alpha xs) (ridge_rhs xs ts) = Inr w" "rect m l w"
    "\<forall>p<m. \<forall>q<l. (\<Sum>k<m. ridge_gram alpha xs ! p ! k * w ! k ! q) = ridge_rhs xs ts ! p ! q"
    unfolding solve_spec_def len by blast
  then show thesis by (intro that [of w]) simp_all
qed

subsection \<open>Prediction row by row\<close>

text \<open>
  What the evaluation of \<open>train.py\<close> and the serving node both rely on: a predictor treats every
  row of a batch alone, so the prediction served for one frame is the one it is judged by.
\<close>

locale rowwise_predictor =
  fixes predict :: "matrix \<Rightarrow> matrix res" and one :: "real list \<Rightarrow> real list res"
  assumes predict_rows: "xs \<noteq> [] \<Longrightarrow> predict xs = rmap one xs"
begin

lemma predict_single:
  assumes "predict xs = Inr ys" and "i < length xs"
  shows "predict [xs ! i] = Inr [ys ! i]"
proof -
  have "xs \<noteq> []" using assms(2) by auto
  with assms have "list_all2 (\<lambda>x y. one x = Inr y) xs ys"
    by (simp add: predict_rows rmap_eq_Inr_iff)
  with assms(2) show ?thesis by (simp add: predict_rows list_all2_conv_all_nth)
qed

lemma predict_length: "predict xs = Inr ys \<Longrightarrow> xs \<noteq> [] \<Longrightarrow> length ys = length xs"
  by (simp add: predict_rows rmap_length)

end

interpretation geo: rowwise_predictor "geometric_predict g" "geometric_row g" for g
  by unfold_locales (simp add: geometric_predict_def)

definition ridge_one :: "ridge \<Rightarrow> real list \<Rightarrow> real list res" where
  "ridge_one r row =
     (case r_fitted r of None \<Rightarrow> Inl RuntimeError | Some (w, b) \<Rightarrow> ridge_row w b row)"

lemma ridge_predict_rows: "xs \<noteq> [] \<Longrightarrow> ridge_predict r xs = rmap (ridge_one r) xs"
  by (cases xs) (auto simp: ridge_predict_def ridge_one_def [abs_def] split: option.splits prod.splits)

interpretation rdg: rowwise_predictor "ridge_predict r" "ridge_one r" for r
  by unfold_locales (simp add: ridge_predict_rows)

subsection \<open>Lemmas: feature vectors\<close>

lemma geometric_features:
  assumes "b_width b \<noteq> 0"
  shows "blob_features b i GEOMETRIC_FEATURES =
     Inr [(b_u b - in_cx i) / real_of_int (b_width b), (b_v b - in_cy i) / real_of_int (b_width b),
          1 / real_of_int (b_width b)]"
  using assms by (simp add: blob_features_def GEOMETRIC_FEATURES_def available_features_def Let_def)

lemma jvec_nums [simp]: "jvec (JArr (map JNum xs)) = Inr xs"
proof -
  have "rmap jnum (map JNum xs) = Inr xs" by (induction xs) auto
  then show ?thesis by (simp add: jvec_def)
qed

lemma jmat_nums [simp]: "jmat (JArr (map (JArr \<circ> map JNum) rows)) = Inr rows"
proof -
  have "rmap jvec (map (JArr \<circ> map JNum) rows) = Inr rows" by (induction rows) auto
  then show ?thesis by (simp add: jmat_def)
qed

subsection \<open>Lemmas: order statistics\<close>

lemma sort_nth_mono: "i \<le> j \<Longrightarrow> j < length xs \<Longrightarrow> sort xs ! i \<le> (sort xs ! j :: real)"
  by (simp add: sorted_nth_mono)

lemma sort_nth_le_Max: "i < length xs \<Longrightarrow> sort xs ! i \<le> (Max (set xs) :: real)"
  by (metis List.finite_set Max_ge length_sort nth_mem set_sort)

lemma np_median_bounds:
  assumes "xs \<noteq> []"
  shows "np_median xs \<le> sort xs ! (length xs div 2)"
proof -
  have "length xs div 2 < length xs" using assms by simp
  then have "sort xs ! (length xs div 2 - 1) \<le> sort xs ! (length xs div 2)"
    by (intro sort_nth_mono) simp_all
  then show ?thesis by (simp add: np_median_def Let_def)
qed

text \<open>A percentile lies between the two elements it interpolates.\<close>

lemma np_percentile_between:
  assumes "xs \<noteq> []" "0 \<le> q" "q \<le> 100"
    and "lo = nat \<lfloor>q / 100 * real (length xs - 1)\<rfloor>" and "hi = min (lo + 1) (length xs - 1)"
  shows "sort xs ! lo \<le> np_percentile xs q" and "np_percentile xs q \<le> sort xs ! hi"
    and "lo \<le> hi" and "hi < length xs"
proof -
  let ?rank = "q / 100 * real (length xs - 1)"
  have "0 \<le> ?rank" using assms by simp
  then have frac: "0 \<le> ?rank - real lo" "?rank - real lo \<le> 1"
    using assms(4) by linarith+
  have "?rank \<le> 1 * real (length xs - 1)" using assms by (intro mult_right_mono) simp_all
  then have "\<lfloor>?rank\<rfloor> \<le> int (length xs - 1)" by linarith
  then have "lo \<le> length xs - 1" using assms(4) by linarith
  moreover have "length xs - 1 < length xs" using assms(1) by simp
  ultimately show hi: "lo \<le> hi" and "hi < length xs" using assms(5) by linarith+
  then have le: "sort xs ! lo \<le> sort xs ! hi" by (rule sort_nth_mono)
  have pc: "np_percentile xs q = sort xs ! lo + (?rank - real lo) * (sort xs ! hi - sort xs ! lo)"
    using assms(4,5) by (simp add: np_percentile_def Let_def)
  show "sort xs ! lo \<le> np_percentile xs q"
    using frac le by (simp add: pc)
  show "np_percentile xs q \<le> sort xs ! hi"
    using frac le mult_right_mono [of "?rank - real lo" 1 "sort xs ! hi - sort xs ! lo"]
    by (simp add: pc)
qed

lemma median_le_p95:
  assumes "xs \<noteq> []"
  shows "np_median xs \<le> np_percentile xs 95"
proof -
  let ?lo = "nat \<lfloor>95 / 100 * real (length xs - 1)\<rfloor>"
  consider "length xs = 1" | "length xs = 2" | "3 \<le> length xs"
    using assms by (metis One_nat_def Suc_leI length_greater_0_conv less_antisym linorder_not_le
        numeral_2_eq_2 numeral_3_eq_3)
  then show ?thesis
  proof cases
    case 1
    then show ?thesis by (simp add: np_median_def np_percentile_def Let_def)
  next
    case 2
    then have "sort xs ! 0 \<le> sort xs ! 1" by (intro sort_nth_mono) simp_all
    moreover have "np_median xs = (sort xs ! 0 + sort xs ! 1) / 2"
      using 2 by (simp add: np_median_def Let_def)
    moreover have "np_percentile xs 95 = sort xs ! 0 + 95 / 100 * (sort xs ! 1 - sort xs ! 0)"
      using 2 by (simp add: np_percentile_def Let_def)
    ultimately show ?thesis by (simp add: field_simps)
  next
    case 3
    then have "real (length xs div 2) \<le> 95 / 100 * real (length xs - 1)" by linarith
    then have lo: "length xs div 2 \<le> ?lo" by linarith
    note between = np_percentile_between [OF assms _ _ refl refl, of 95]
    have "np_median xs \<le> sort xs ! (length xs div 2)" by (rule np_median_bounds [OF assms])
    also have "\<dots> \<le> sort xs ! ?lo"
      by (rule sort_nth_mono [OF lo]) (rule le_less_trans [OF between(3,4)], simp_all)
    also have "\<dots> \<le> np_percentile xs 95" by (rule between) simp_all
    finally show ?thesis .
  qed
qed

lemma percentile_le_Max:
  assumes "xs \<noteq> []" "0 \<le> q" "q \<le> 100"
  shows "np_percentile xs q \<le> Max (set xs)"
  using np_percentile_between [OF assms refl refl] sort_nth_le_Max order_trans by blast

lemma np_mean_abs_le: "(\<And>x. x \<in> set xs \<Longrightarrow> f x \<le> c) \<Longrightarrow> xs \<noteq> [] \<Longrightarrow> np_mean (map f xs) \<le> (c :: real)"
  using sum_list_mono [of xs f "\<lambda>_. c"]
  by (simp add: np_mean_def divide_le_eq sum_list_triv mult.commute)

lemma np_mean_abs: "\<bar>np_mean (map f xs)\<bar> \<le> np_mean (map (\<lambda>x. \<bar>f x\<bar>) xs)"
  using sum_list_abs [of "map f xs"] by (simp add: np_mean_def divide_right_mono comp_def)

lemma component_le_norm: "k < length r \<Longrightarrow> \<bar>r ! k\<bar> \<le> norm_row r"
proof -
  assume k: "k < length r"
  have "(r ! k)\<^sup>2 \<le> sum_list (map (\<lambda>x. x\<^sup>2) r)"
    using k by (intro member_le_sum_list) auto
  then have "sqrt ((r ! k)\<^sup>2) \<le> norm_row r"
    unfolding norm_row_def by (rule real_sqrt_le_mono)
  then show ?thesis by simp
qed

lemma axis_le_max_distance:
  assumes "d \<in> set delta" and "k < length d"
  shows "\<bar>d ! k\<bar> \<le> Max (set (map norm_row delta))"
proof -
  have "norm_row d \<le> Max (set (map norm_row delta))" using assms(1) by (intro Max_ge) simp_all
  with component_le_norm [OF assms(2)] show ?thesis by (rule order_trans)
qed

subsection \<open>Properties\<close>

text \<open>C8: \<open>Ridge.fit\<close> solves the problem it stands for. With a positive penalty, on at least one
  example and one feature, and with a solver that answers nonsingular systems, fitting always
  returns, and for every output the fitted weights and intercept minimise the sum of squared errors
  plus the penalty on the weights over all weights and all intercepts. The intercept is not
  penalised.\<close>

theorem ridge_fit_optimal:
  assumes X: "rect n m xs" and T: "rect n l ts" and "0 < n" "0 < m" and alpha: "0 < r_alpha r"
    and spec: "solve_spec solve (ridge_gram (r_alpha r) xs) (ridge_rhs xs ts)"
  shows "\<exists>w b. ridge_fit solve r xs ts = Inr (r\<lparr>r_fitted := Some (w, b)\<rparr>) \<and> rect m l w
     \<and> (\<forall>q<l. \<forall>v d. ridge_objective (r_alpha r) xs ts q (\<lambda>k. w ! k ! q) (b ! q)
                     \<le> ridge_objective (r_alpha r) xs ts q v d)"
proof -
  obtain w where w: "solve (ridge_gram (r_alpha r) xs) (ridge_rhs xs ts) = Inr w" "rect m l w"
    "\<And>p q. p < m \<Longrightarrow> q < l \<Longrightarrow>
       (\<Sum>k<m. ridge_gram (r_alpha r) xs ! p ! k * w ! k ! q) = ridge_rhs xs ts ! p ! q"
    using ridge_fit_solution [OF X T \<open>0 < n\<close> \<open>0 < m\<close> alpha spec] by metis
  let ?b = "map2 (-) (mean_row ts) (row_mul (mean_row xs) w)"
  have nc: "ncols xs = m" "ncols ts = l" "ncols w = l" "length w = m"
    using X T w(2) \<open>0 < n\<close> \<open>0 < m\<close> by (simp_all add: rect_ncols) (simp add: rect_def)
  have "?b ! q = col_mean ts q - (\<Sum>k<m. col_mean xs k * w ! k ! q)" if "q < l" for q
    using that nc by (simp add: row_mul_nth mean_row_nth)
  then have "ridge_objective (r_alpha r) xs ts q (\<lambda>k. w ! k ! q) (?b ! q)
             \<le> ridge_objective (r_alpha r) xs ts q v d" if "q < l" for q v d
    using that w(3) alpha by (intro ridge_solution_optimal [OF X T \<open>0 < n\<close>]) simp_all
  moreover have "ridge_fit solve r xs ts = Inr (r\<lparr>r_fitted := Some (w, ?b)\<rparr>)"
    using X T w(1) by (simp add: ridge_fit_def rect_def)
  ultimately show ?thesis using w(2) by blast
qed

definition solve1 :: "matrix \<Rightarrow> matrix \<Rightarrow> matrix res" where
  "solve1 a b =
     (case a of [[x]] \<Rightarrow> if x = 0 then Inl ValueError else Inr [map (\<lambda>y. y / x) (hd b)]
      | _ \<Rightarrow> Inl ValueError)"

lemma solve1_spec: "solve_spec solve1 [[x]] [ys]"
proof -
  have "x \<noteq> 0" if "\<forall>v. x * v 0 = 0 \<longrightarrow> v 0 = (0 :: real)" for x :: real
    using that [rule_format, of "\<lambda>_. 1"] by auto
  then show ?thesis
    by (auto simp: solve_spec_def solve1_def rect_def ncols_def)
qed

theorem ridge_fit_optimal_witness:
  "\<exists>w b. ridge_fit solve1 (ridge_new 1) [[0], [2]] [[1], [5]] =
           Inr ((ridge_new 1)\<lparr>r_fitted := Some (w, b)\<rparr>) \<and> rect 1 1 w
     \<and> (\<forall>q<1. \<forall>v d. ridge_objective 1 [[0], [2]] [[1], [5]] q (\<lambda>k. w ! k ! q) (b ! q)
                     \<le> ridge_objective 1 [[0], [2]] [[1], [5]] q v d)"
proof -
  have sys: "ridge_gram 1 [[0], [2]] = [[3]]" "ridge_rhs [[0], [2]] [[1], [5]] = [[4]]"
    by (simp_all add: ridge_gram_def ridge_rhs_def sub_row_def mean_row_def col_mean_def ncols_def
        transpose_mul_def add_diag_def Let_def lessThan_Suc numeral_2_eq_2)
  show ?thesis
    using ridge_fit_optimal [of 2 1 "[[0], [2]]" 1 "[[1], [5]]" "ridge_new 1" solve1]
    by (simp add: ridge_new_def sys solve1_spec rect_def)
qed

text \<open>The baseline is the detector's geometry exactly when the pixels are square. On the
  features of a blob, \<open>Geometric.predict\<close> gives the range and the lateral position
  \<open>position_in_optical_frame\<close> gives; the vertical position agrees if and only if the two focal
  lengths are equal (or the target is on the axis).\<close>

theorem geometric_matches_detector:
  assumes "0 < b_width b" "in_fx i \<noteq> 0" "in_fy i \<noteq> 0" "W \<noteq> 0"
  shows "\<exists>x y y' z.
     rbind (blob_features b i GEOMETRIC_FEATURES)
       (\<lambda>f. geometric_predict \<lparr>g_intrinsics = i, g_target_width = W\<rparr> [f]) = Inr [[x, y, z]]
     \<and> position_in_optical_frame b i W = Inr (x, y', z)
     \<and> (y = y' \<longleftrightarrow> in_fx i = in_fy i \<or> b_v b = in_cy i)"
proof -
  let ?w = "real_of_int (b_width b)"
  let ?y = "(b_v b - in_cy i) / ?w * W"
  let ?z = "in_fx i * W / ?w"
  let ?y' = "(b_v b - in_cy i) * ?z / in_fy i"
  have "?y' = ?y * (in_fx i / in_fy i)" by simp
  moreover have "?y = ?y * (in_fx i / in_fy i) \<longleftrightarrow> ?y = 0 \<or> in_fx i / in_fy i = 1"
    by (metis mult_cancel_left mult.right_neutral)
  ultimately have "?y = ?y' \<longleftrightarrow> in_fx i = in_fy i \<or> b_v b = in_cy i"
    using assms by (auto simp del: times_divide_eq_right)
  moreover have "(b_u b - in_cx i) * ?z / in_fx i = (b_u b - in_cx i) / ?w * W"
    using assms by simp
  moreover have "1 / ?w * (in_fx i * W) = ?z" by simp
  ultimately show ?thesis
    using assms by (auto simp: geometric_features position_ok Let_def geometric_predict_def
        geometric_row_def geometric_scale_def)
qed

theorem geometric_matches_detector_witness:
  "\<exists>x y y' z.
     rbind (blob_features \<lparr>b_u = 420, b_v = 190, b_width = 25, b_height = 25, b_area = 625\<rparr>
              \<lparr>in_fx = 500, in_fy = 400, in_cx = 320, in_cy = 240\<rparr> GEOMETRIC_FEATURES)
       (\<lambda>f. geometric_predict
         \<lparr>g_intrinsics = \<lparr>in_fx = 500, in_fy = 400, in_cx = 320, in_cy = 240\<rparr>, g_target_width = 1 / 20\<rparr>
         [f]) = Inr [[x, y, z]]
     \<and> position_in_optical_frame \<lparr>b_u = 420, b_v = 190, b_width = 25, b_height = 25, b_area = 625\<rparr>
         \<lparr>in_fx = 500, in_fy = 400, in_cx = 320, in_cy = 240\<rparr> (1 / 20) = Inr (x, y', z)
     \<and> y \<noteq> y'"
  using geometric_matches_detector
    [of "\<lparr>b_u = 420, b_v = 190, b_width = 25, b_height = 25, b_area = 625\<rparr>"
        "\<lparr>in_fx = 500, in_fy = 400, in_cx = 320, in_cy = 240\<rparr>" "1 / 20"] by simp

text \<open>A stored model is the model that was fitted: rebuilding from the dictionary gives back
  the penalty, weights and intercept, so its predictions are the same. An unfitted model can
  neither be stored nor asked.\<close>

theorem ridge_dict_roundtrip:
  "case ridge_to_dict r of
     Inl e \<Rightarrow> e = AttributeError \<and> r_fitted r = None \<and> ridge_predict r xs = Inl RuntimeError
   | Inr doc \<Rightarrow> ridge_from_dict doc = Inr r"
  by (cases "r_fitted r")
    (auto simp: ridge_to_dict_def ridge_from_dict_def ridge_new_def ridge_predict_def)

text \<open>The error summary is consistent. For arrays of positions of equal length the median is
  at most the 95th percentile, which is at most the maximum; every mean axis error is at most the
  maximum distance, and the range bias is at most the mean range error.\<close>

theorem errors_ordered:
  assumes "errors predicted actual = Inr e" and "rect n 3 predicted" and "rect n 3 actual"
  shows "es_n e = n \<and> es_median_mm e \<le> es_p95_mm e \<and> es_p95_mm e \<le> es_max_mm e
         \<and> es_mae_x_mm e \<le> es_max_mm e \<and> es_mae_y_mm e \<le> es_max_mm e \<and> es_mae_z_mm e \<le> es_max_mm e
         \<and> \<bar>es_bias_z_mm e\<bar> \<le> es_mae_z_mm e"
proof -
  let ?delta = "map2 (map2 (-)) predicted actual"
  let ?dist = "map norm_row ?delta"
  have ne: "?delta \<noteq> []" and n: "length ?delta = n"
    using assms by (auto simp: errors_def Let_def rect_def split: if_splits)
  have "length d = 3" if d: "d \<in> set ?delta" for d
  proof -
    obtain a b where "(a, b) \<in> set (zip predicted actual)" "d = map2 (-) a b"
      using d by auto
    then show ?thesis
      using assms(2,3) set_zip_leftD [of a b] set_zip_rightD [of a b]
      by (auto simp: rect_def list_all_iff)
  qed
  then have mae: "np_mean (map (\<lambda>d. \<bar>d ! k\<bar>) ?delta) \<le> Max (set ?dist)" if "k < 3" for k
    using that by (intro np_mean_abs_le [OF _ ne] axis_le_max_distance) metis+
  have dne: "?dist \<noteq> []" using ne by simp
  have e: "e = \<lparr>es_n = length ?dist, es_median_mm = np_median ?dist * 1000,
      es_p95_mm = np_percentile ?dist 95 * 1000, es_max_mm = Max (set ?dist) * 1000,
      es_mae_x_mm = np_mean (map (\<lambda>d. \<bar>d ! 0\<bar>) ?delta) * 1000,
      es_mae_y_mm = np_mean (map (\<lambda>d. \<bar>d ! 1\<bar>) ?delta) * 1000,
      es_mae_z_mm = np_mean (map (\<lambda>d. \<bar>d ! 2\<bar>) ?delta) * 1000,
      es_bias_z_mm = np_mean (map (\<lambda>d. d ! 2) ?delta) * 1000\<rparr>"
    using assms(1) unfolding errors_def Let_def by (simp only: split: if_splits) simp_all
  show ?thesis
    using median_le_p95 [OF dne] percentile_le_Max [OF dne, of 95] mae [of 0] mae [of 1] mae [of 2]
      np_mean_abs [of "\<lambda>d. d ! 2" ?delta] n
    unfolding e by (simp del: map_map)
qed

theorem errors_ordered_witness:
  "\<exists>e. errors [[3, 4, 0], [0, 0, 0]] [[0, 0, 0], [0, 0, 1]] = Inr e
       \<and> es_n e = 2 \<and> es_median_mm e \<le> es_p95_mm e \<and> es_p95_mm e \<le> es_max_mm e"
proof -
  have "\<exists>e. errors [[3, 4, 0], [0, 0, 0]] [[0, 0, 0], [0, 0, 1]] = Inr e"
    by (simp add: errors_def Let_def)
  then show ?thesis
    using errors_ordered [of "[[3, 4, 0], [0, 0, 0]]" "[[0, 0, 0], [0, 0, 1]]" _ 2]
    by (auto simp: rect_def)
qed

text \<open>The pose served for a frame is the prediction the model is judged by. For both
  predictors, predicting one row alone gives the row the whole batch gives.\<close>

theorem predict_row_of_batch:
  assumes "i < length xs"
  shows "(ridge_predict r xs = Inr ys \<longrightarrow> ridge_predict r [xs ! i] = Inr [ys ! i])
         \<and> (geometric_predict g xs = Inr zs \<longrightarrow> geometric_predict g [xs ! i] = Inr [zs ! i])"
  using assms rdg.predict_single geo.predict_single by blast

theorem predict_row_of_batch_witness:
  "ridge_predict \<lparr>r_alpha = 1, r_fitted = Some ([[2]], [1])\<rparr> [[3], [5]] = Inr [[7], [11]]
   \<and> ridge_predict \<lparr>r_alpha = 1, r_fitted = Some ([[2]], [1])\<rparr> [[5]] = Inr [[11]]"
proof -
  have "ridge_predict \<lparr>r_alpha = 1, r_fitted = Some ([[2]], [1])\<rparr> [[3], [5]] = Inr [[7], [11]]"
    by (simp add: ridge_predict_def ridge_row_def row_mul_def ncols_def)
  then show ?thesis using predict_row_of_batch [of 1 "[[3], [5]]"] by simp
qed

end
