(* ===== verification/Registry_Cli.thy ===== *)
theory Registry_Cli
  imports Registry Models
begin

section \<open>The registry's command line (\<open>threevn_mlops/cli.py\<close>)\<close>

text \<open>
  One command per run, against the registry's store. \<open>argparse\<close> is not modelled: a \<open>cli_command\<close> is
  the namespace it returns. A run yields the exit code or the exception that escapes \<open>main\<close>, what
  it printed, and the store it leaves. The document \<open>register\<close> reads is an argument, since reading
  the file may raise.
\<close>

subsection \<open>Data\<close>

datatype cell = Dash | Fixed1 real

record status_row =
  sr_production :: bool
  sr_version :: version
  sr_score :: cell
  sr_base :: cell
  sr_frames :: "json option"
  sr_registered :: string

datatype cli_line =
    Empty
  | StatusRow status_row
  | ProductionIs version
  | NothingPromoted
  | HistoryLine string string version "string" bool
  | Registered version
  | CannotRollBack
  | RolledBack "version option" "version option"
  | NothingToPromote
  | GateFail gate "reason list"
  | GateOk gate
  | NotPromoted version
  | Promoted version bool "version option"

datatype cli_command =
    CStatus
  | CRegister "json res" string
  | CRollback string
  | CPromote "version option" string bool

subsection \<open>\<open>_status\<close>\<close>

definition fmt_cell :: "json \<Rightarrow> cell res" where
  "fmt_cell j = (if j = JNull then Inr Dash else rbind (fmt_f j) (\<lambda>x. Inr (Fixed1 x)))"

definition format_row :: "version option \<Rightarrow> version \<times> version_row \<Rightarrow> cli_line res" where
  "format_row live vr =
     (case vr of (v, row) \<Rightarrow>
        rbind (fmt_cell (vr_test_median_mm row)) (\<lambda>sc.
        rbind (fmt_cell (vr_baseline_median_mm row)) (\<lambda>bc.
          Inr (StatusRow \<lparr>sr_production = (live = Some v), sr_version = v, sr_score = sc, sr_base = bc,
             sr_frames = (if truthy (vr_dataset_frames row) then Some (vr_dataset_frames row) else None),
             sr_registered = take 19 (vr_registered row)\<rparr>))))"

fun format_history :: "history_row \<Rightarrow> cli_line" where
  "format_history (RegisterRow t v nt) = HistoryLine (take 19 t) ''register'' v [] False"
| "format_history (PromoteRow t v old reason forced) =
     HistoryLine (take 19 t) ''promote'' v
       (case old of None \<Rightarrow> ''nothing'' | Some u \<Rightarrow> if u = [] then ''nothing'' else u) forced"

definition last_n :: "nat \<Rightarrow> 'a list \<Rightarrow> 'a list" where
  "last_n n xs = drop (length xs - n) xs"

definition status :: "store \<Rightarrow> cli_line list res" where
  "status s =
     (let live = production_version s in
      if versions s = [] then Inr [Empty]
      else rbind (rmap (format_row live) (versions s)) (\<lambda>rows.
        Inr (rows
             @ [case live of None \<Rightarrow> NothingPromoted
                | Some v \<Rightarrow> if v = [] then NothingPromoted else ProductionIs v]
             @ map format_history (last_n 5 (history s)))))"

subsection \<open>\<open>main\<close>\<close>

definition gate_order :: "gate list" where
  "gate_order = [Validates, Provenance, FeatureContract, BeatsBaseline, NoRegression]"

definition gate_lines :: "(gate \<times> reason list) list \<Rightarrow> cli_line list" where
  "gate_lines failures =
     map (\<lambda>g. case map_of failures g of None \<Rightarrow> GateOk g | Some rs \<Rightarrow> GateFail g rs) gate_order"

definition chosen_version :: "version option \<Rightarrow> store \<Rightarrow> version option" where
  "chosen_version arg s =
     (case arg of
        Some v \<Rightarrow> if v = [] then (case versions s of [] \<Rightarrow> None | (w, _) # _ \<Rightarrow> Some w) else Some v
      | None \<Rightarrow> (case versions s of [] \<Rightarrow> None | (w, _) # _ \<Rightarrow> Some w))"

definition gate_failures :: "version \<Rightarrow> store \<Rightarrow> (gate \<times> reason list) list res" where
  "gate_failures v s =
     rbind (artifact_of v s) (\<lambda>artifact.
     rbind (production s) (\<lambda>incumbent.
       check_all artifact FEATURE_NAMES incumbent None))"

definition cli_promote ::
  "string \<Rightarrow> version option \<Rightarrow> string \<Rightarrow> bool \<Rightarrow> store \<Rightarrow> int res \<times> cli_line list \<times> store" where
  "cli_promote now arg reason force s =
     (case chosen_version arg s of
        None \<Rightarrow> (Inr 1, [NothingToPromote], s)
      | Some v \<Rightarrow>
          (case gate_failures v s of
             Inl e \<Rightarrow> (Inl e, [], s)
           | Inr failures \<Rightarrow>
               if failures \<noteq> [] \<and> \<not> force
               then (Inr 1, gate_lines failures @ [NotPromoted v], s)
               else (case promote now v reason (failures \<noteq> []) s of
                       (Inl e, s') \<Rightarrow> (Inl e, gate_lines failures, s')
                     | (Inr previous, s') \<Rightarrow>
                         (Inr 0, gate_lines failures @ [Promoted v (failures \<noteq> []) previous], s'))))"

definition cli_main ::
  "(json \<Rightarrow> string) \<Rightarrow> string \<Rightarrow> string \<Rightarrow> cli_command \<Rightarrow> store \<Rightarrow> int res \<times> cli_line list \<times> store" where
  "cli_main digest now1 now2 cmd s =
     (case cmd of
        CStatus \<Rightarrow>
          (case status s of Inl e \<Rightarrow> (Inl e, [], s) | Inr ls \<Rightarrow> (Inr 0, ls, s))
      | CRegister doc nt \<Rightarrow>
          (case doc of
             Inl e \<Rightarrow> (Inl e, [], s)
           | Inr artifact \<Rightarrow>
               (case register digest now1 now2 artifact nt s of
                  (Inl e, s') \<Rightarrow> (Inl e, [], s')
                | (Inr v, s') \<Rightarrow> (Inr 0, [Registered v], s')))
      | CRollback reason \<Rightarrow>
          (case rollback now1 reason s of
             (Inl e, s') \<Rightarrow> if isinstance e CRuntimeError then (Inr 1, [CannotRollBack], s')
                            else (Inl e, [], s')
           | (Inr previous, s') \<Rightarrow> (Inr 0, [RolledBack (production_version s') previous], s'))
      | CPromote arg reason force \<Rightarrow> cli_promote now1 arg reason force s)"

definition cli_store :: "(json \<Rightarrow> string) \<Rightarrow> store \<Rightarrow> string \<times> string \<times> cli_command \<Rightarrow> store" where
  "cli_store digest s c = (case c of (t1, t2, cmd) \<Rightarrow> snd (snd (cli_main digest t1 t2 cmd s)))"

subsection \<open>Lemmas: a run is registry operations\<close>

lemma cli_promote_cases:
  assumes "cli_promote now arg reason force s = (r, out, s')"
  obtains "s' = s" "r \<noteq> Inr 0"
  | v failures where "chosen_version arg s = Some v" "gate_failures v s = Inr failures"
      "failures = [] \<or> force" "s' = snd (promote now v reason (failures \<noteq> []) s)"
      "r = (case fst (promote now v reason (failures \<noteq> []) s) of Inl e \<Rightarrow> Inl e | Inr _ \<Rightarrow> Inr 0)"
proof (cases "chosen_version arg s")
  case None
  with assms that(1) show thesis by (auto simp: cli_promote_def)
next
  case (Some v)
  show thesis
  proof (cases "gate_failures v s")
    case (Inl e)
    with Some assms that(1) show thesis by (auto simp: cli_promote_def)
  next
    case (Inr failures)
    show thesis
    proof (cases "failures \<noteq> [] \<and> \<not> force")
      case True
      with Some Inr assms that(1) show thesis by (auto simp: cli_promote_def)
    next
      case False
      obtain x s1 where p: "promote now v reason (failures \<noteq> []) s = (x, s1)" by fastforce
      have "cli_promote now arg reason force s =
        (case (x, s1) of (Inl e, s') \<Rightarrow> (Inl e, gate_lines failures, s')
         | (Inr previous, s') \<Rightarrow>
             (Inr 0, gate_lines failures @ [Promoted v (failures \<noteq> []) previous], s'))"
        using False by (simp only: cli_promote_def Some Inr option.case sum.case if_False p)
      then have "s' = s1" "r = (case x of Inl e \<Rightarrow> Inl e | Inr _ \<Rightarrow> Inr 0)"
        using assms by (auto split: sum.splits)
      with Some Inr False p that(2) show thesis by auto
    qed
  qed
qed

lemma cli_store_op:
  "cli_store digest s c = s \<or> (\<exists>ops. cli_store digest s c = apply_op digest s ops)"
proof -
  obtain t1 t2 cmd where c: "c = (t1, t2, cmd)" by (cases c)
  show ?thesis
  proof (cases cmd)
    case CStatus
    then show ?thesis by (auto simp: c cli_store_def cli_main_def split: sum.splits)
  next
    case (CRegister doc nt)
    show ?thesis
    proof (cases doc)
      case (Inr a)
      with CRegister have "cli_store digest s c = apply_op digest s (Register t1 t2 a nt)"
        by (auto simp: c cli_store_def cli_main_def split: sum.splits prod.splits)
      then show ?thesis by blast
    qed (simp add: c cli_store_def cli_main_def CRegister)
  next
    case (CRollback reason)
    then have "cli_store digest s c = apply_op digest s (Rollback t1 reason)"
      by (auto simp: c cli_store_def cli_main_def split: sum.splits prod.splits)
    then show ?thesis by blast
  next
    case (CPromote arg reason force)
    obtain r out s' where run: "cli_promote t1 arg reason force s = (r, out, s')" by (metis surj_pair)
    then have "cli_store digest s c = s'" by (simp add: c cli_store_def cli_main_def CPromote)
    with run show ?thesis
      by (elim cli_promote_cases) (simp, metis apply_op.simps(2))
  qed
qed

interpretation cli: write_once "cli_store digest" "registry_inv digest" entry
  for digest :: "json \<Rightarrow> string"
proof unfold_locales
  show "registry_inv digest s \<Longrightarrow> registry_inv digest (cli_store digest s c)" for s c
    using cli_store_op [of digest s c] registry_inv_op by metis
  show "registry_inv digest s \<Longrightarrow> entry s k = Some v \<Longrightarrow> entry (cli_store digest s c) k = Some v" for s c k v
    using cli_store_op [of digest s c] entry_op by metis
qed

lemma chosen_version_nonempty:
  "versions s \<noteq> [] \<Longrightarrow> \<exists>v. chosen_version arg s = Some v"
  by (auto simp: chosen_version_def neq_Nil_conv split: option.splits)

subsection \<open>Properties\<close>

text \<open>C1: no model reaches production past a failing gate unless the log says so. If a
  \<open>promote\<close> run changes production, the version that is now in production had its gates evaluated
  against the one it replaces, and either none failed or \<open>--force\<close> was given; the log gained exactly
  one row, whose \<open>forced\<close> field tells which.\<close>

theorem cli_promote_gated:
  assumes run: "cli_promote now arg reason force s = (r, out, s')"
    and changed: "production_version s' \<noteq> production_version s"
  shows "\<exists>v failures. chosen_version arg s = Some v \<and> production_version s' = Some v
           \<and> gate_failures v s = Inr failures \<and> (failures = [] \<or> force)
           \<and> history s' = history s
               @ [PromoteRow now v (production_version s) reason (failures \<noteq> [])]
           \<and> r = Inr 0"
  using run
proof (cases rule: cli_promote_cases)
  case 1
  with changed show ?thesis by simp
next
  case (2 v failures)
  let ?p = "promote now v reason (failures \<noteq> []) s"
  have "?p = (Inr (production_version s), write_index s
         ((read_index s)\<lparr>ix_production := Some v,
             ix_history := ix_history (read_index s)
               @ [PromoteRow now v (production_version s) reason (failures \<noteq> [])]\<rparr>))"
  proof (rule promote_cases [OF refl [of ?p]])
    assume "?p = (Inl (KeyError v), s)"
    with changed 2 show ?thesis by simp
  next
    assume "?p = (Inr (Some v), s)"
    with changed 2 show ?thesis by simp
  qed
  with 2 show ?thesis by (simp add: production_version_def history_def)
qed

definition served_card :: card where
  "served_card = good_card\<lparr>c_features := FEATURE_NAMES\<rparr>"

definition served_store :: store where
  "served_store =
     \<lparr>st_index = Some \<lparr>ix_production = None,
        ix_versions = [(''v1'', \<lparr>vr_registered = ''t0'', vr_note = '''', vr_file = ''models/v1.json'',
          vr_test_median_mm = JNum 10, vr_baseline_median_mm = JNum 46,
          vr_dataset_frames = JInt 480, vr_code = JStr ''abc''\<rparr>)],
        ix_history = [RegisterRow ''t0'' ''v1'' '''']\<rparr>,
      st_models = [(''v1'', card_doc served_card)]\<rparr>"

lemma served_card_gates: "check_all (card_doc served_card) FEATURE_NAMES None None = Inr []"
proof -
  have "card_ok served_card" "admissible served_card FEATURE_NAMES None REGRESSION_TOLERANCE"
    by (simp_all add: card_ok_def admissible_def served_card_def good_card_def test_score_def
        FEATURE_NAMES_def SHAPE_FEATURES_def)
  with check_all_card [of served_card None FEATURE_NAMES] show ?thesis by simp
qed

lemma served_store_run:
  "gate_failures ''v1'' served_store = Inr []"
  "production_version (snd (snd (cli_promote ''t1'' None '''' False served_store))) = Some ''v1''"
  "production_version served_store = None"
proof -
  show g: "gate_failures ''v1'' served_store = Inr []"
    by (simp add: gate_failures_def artifact_of_def production_def production_version_def
        read_index_def served_store_def served_card_gates)
  have "chosen_version None served_store = Some ''v1''"
    by (simp add: chosen_version_def versions_def read_index_def served_store_def)
  then show "production_version (snd (snd (cli_promote ''t1'' None '''' False served_store))) = Some ''v1''"
    using g by (simp add: cli_promote_def promote_def production_version_def read_index_def
        write_index_def served_store_def Let_def)
  show "production_version served_store = None"
    by (simp add: production_version_def read_index_def served_store_def)
qed

theorem cli_promote_gated_witness:
  "\<exists>r out s'. cli_promote ''t1'' None '''' False served_store = (r, out, s')
     \<and> production_version s' = Some ''v1'' \<and> r = Inr 0
     \<and> history s' = history served_store @ [PromoteRow ''t1'' ''v1'' None '''' False]"
proof -
  obtain r out s' where run: "cli_promote ''t1'' None '''' False served_store = (r, out, s')"
    by (metis surj_pair)
  with served_store_run have "production_version s' = Some ''v1''" by simp
  then show ?thesis
    using cli_promote_gated [OF run] run served_store_run by fastforce
qed

text \<open>The command line keeps the registry's promise. After any sequence of runs on an empty
  registry, whatever commands they were and whether they succeeded, the registry's invariant holds:
  production is what the log says, and every version on record still has its artifact.\<close>

theorem cli_runs_keep_registry:
  "registry_inv digest (foldl (cli_store digest) empty_store cmds)"
  by (rule cli.inv_run) (rule registry_inv_empty)

end
