(* ===== verification/Drift.thy ===== *)
theory Drift
  imports Models
begin

section \<open>Drift monitor (\<open>threevn_mlops/drift.py\<close>)\<close>

text \<open>
  \<open>DriftMonitor\<close> compares each feature vector with the training distribution the artifact records
  and counts. The statistics are vectors; \<open>check\<close> raises \<open>ValueError\<close> on a vector of another
  length. Statistics of unequal lengths, which no artifact \<open>train.py\<close> writes has, raise where numpy
  would reject or stretch them: \<open>IndexError\<close> for the spread, \<open>ValueError\<close> for the range. The
  counters are updated before the feature's name is looked up.
\<close>

subsection \<open>Data\<close>

record drift =
  dm_names :: "json list"
  dm_mean :: "real list"
  dm_std :: "real list"
  dm_low :: "real list"
  dm_high :: "real list"
  dm_z_threshold :: real
  dm_seen :: nat
  dm_out_of_range :: nat
  dm_beyond_threshold :: nat

record verdict =
  vd_drifting :: bool
  vd_max_z :: real
  vd_worst_feature :: "json option"
  vd_outside :: "json list"

record drift_summary =
  ds_frames :: nat
  ds_fraction_drifting :: real
  ds_fraction_outside :: real

subsection \<open>Operations\<close>

definition drift_new :: "json \<Rightarrow> real \<Rightarrow> drift res" where
  "drift_new feature_stats z_threshold =
     rbind (rbind (jitem feature_stats ''names'') jiter) (\<lambda>names.
     rbind (rbind (jitem feature_stats ''mean'') jvec) (\<lambda>mean.
     rbind (rbind (jitem feature_stats ''std'') jvec) (\<lambda>std.
     rbind (rbind (jitem feature_stats ''min'') jvec) (\<lambda>low.
     rbind (rbind (jitem feature_stats ''max'') jvec) (\<lambda>high.
       Inr \<lparr>dm_names = names, dm_mean = mean, dm_std = std, dm_low = low, dm_high = high,
            dm_z_threshold = z_threshold, dm_seen = 0, dm_out_of_range = 0,
            dm_beyond_threshold = 0\<rparr>)))))"

definition judgeable :: "real \<Rightarrow> bool" where
  "judgeable std = (std > 1 / 10 ^ 12)"

definition z_scores :: "drift \<Rightarrow> real list \<Rightarrow> real list" where
  "z_scores d features =
     map (\<lambda>i. if judgeable (dm_std d ! i)
              then \<bar>(features ! i - dm_mean d ! i) / dm_std d ! i\<bar> else 0) [0..<length features]"

definition outside_at :: "drift \<Rightarrow> real list \<Rightarrow> nat list" where
  "outside_at d features =
     filter (\<lambda>i. features ! i < dm_low d ! i \<or> features ! i > dm_high d ! i) [0..<length features]"

text \<open>\<open>np.argmax\<close>: the first index of the maximum.\<close>

definition argmax :: "real list \<Rightarrow> nat" where
  "argmax xs = length (takeWhile (\<lambda>x. x \<noteq> Max (set xs)) xs)"

definition check :: "drift \<Rightarrow> real list \<Rightarrow> verdict res \<times> drift" where
  "check d features =
     (if length features \<noteq> length (dm_mean d) then (Inl ValueError, d)
      else if length (dm_std d) \<noteq> length features then (Inl IndexError, d)
      else if length (dm_low d) \<noteq> length features \<or> length (dm_high d) \<noteq> length features
      then (Inl ValueError, d)
      else
        let z = z_scores d features; outside = outside_at d features;
            worst = (if z = [] then 0 else argmax z);
            drifting = (z \<noteq> [] \<and> Max (set z) > dm_z_threshold d);
            d' = d\<lparr>dm_seen := dm_seen d + 1,
                   dm_out_of_range := dm_out_of_range d + (if outside = [] then 0 else 1),
                   dm_beyond_threshold := dm_beyond_threshold d + (if drifting then 1 else 0)\<rparr>
        in (rbind (if dm_names d = [] then Inr None
                   else rbind (py_index (dm_names d) (int worst)) (\<lambda>n. Inr (Some n))) (\<lambda>name.
            rbind (rmap (\<lambda>i. py_index (dm_names d) (int i)) outside) (\<lambda>names.
              Inr \<lparr>vd_drifting = drifting, vd_max_z = (if z = [] then 0 else Max (set z)),
                   vd_worst_feature = name, vd_outside = names\<rparr>)), d'))"

definition summary :: "drift \<Rightarrow> drift_summary" where
  "summary d =
     (let seen = max (dm_seen d) 1 in
      \<lparr>ds_frames = dm_seen d,
       ds_fraction_drifting = real (dm_beyond_threshold d) / real seen,
       ds_fraction_outside = real (dm_out_of_range d) / real seen\<rparr>)"

subsection \<open>Invariant\<close>

definition counts_ok :: "drift \<Rightarrow> bool" where
  "counts_ok d \<longleftrightarrow> dm_beyond_threshold d \<le> dm_seen d \<and> dm_out_of_range d \<le> dm_seen d"

definition stats_ok :: "nat \<Rightarrow> drift \<Rightarrow> bool" where
  "stats_ok n d \<longleftrightarrow> length (dm_names d) = n \<and> length (dm_mean d) = n \<and> length (dm_std d) = n
                     \<and> length (dm_low d) = n \<and> length (dm_high d) = n"

lemma counts_ok_check: "counts_ok d \<Longrightarrow> counts_ok (snd (check d f))"
  by (auto simp: counts_ok_def check_def Let_def)

lemma stats_ok_check: "stats_ok n d \<Longrightarrow> stats_ok n (snd (check d f))"
  by (auto simp: stats_ok_def check_def Let_def)

interpretation dm: inv_system "\<lambda>d f. snd (check d f)" "\<lambda>d. counts_ok d \<and> stats_ok n d" for n
  by unfold_locales (simp add: counts_ok_check stats_ok_check)

lemma check_seen:
  "stats_ok n d \<Longrightarrow> dm_seen (snd (check d f)) = dm_seen d + (if length f = n then 1 else 0)"
  by (auto simp: stats_ok_def check_def Let_def)

lemma seen_run:
  "stats_ok n d \<Longrightarrow>
   dm_seen (foldl (\<lambda>d f. snd (check d f)) d fs) = dm_seen d + length (filter (\<lambda>f. length f = n) fs)"
  by (induction fs arbitrary: d) (simp_all add: stats_ok_check check_seen)

subsection \<open>Lemmas: the verdict\<close>

lemma argmax_less: "xs \<noteq> [] \<Longrightarrow> argmax xs < length xs"
proof -
  assume "xs \<noteq> []"
  then have "Max (set xs) \<in> set xs" by simp
  then have "takeWhile (\<lambda>x. x \<noteq> Max (set xs)) xs \<noteq> xs"
    by (metis (mono_tags, lifting) takeWhile_eq_all_conv)
  then show ?thesis unfolding argmax_def
    by (metis length_takeWhile_le nat_less_le takeWhile_eq_take take_all_iff order_refl)
qed

lemma argmax_max: "xs \<noteq> [] \<Longrightarrow> xs ! argmax xs = Max (set xs)"
  using nth_length_takeWhile [of "\<lambda>x. x \<noteq> Max (set xs)" xs] argmax_less [of xs]
  by (simp add: argmax_def)

lemma py_index_ok: "i < length xs \<Longrightarrow> py_index xs (int i) = Inr (xs ! i)"
  by (simp add: py_index_def Let_def)

lemma check_ok:
  assumes "stats_ok n d" and "length f = n" and "0 < n"
  shows "fst (check d f) = Inr
     \<lparr>vd_drifting = (Max (set (z_scores d f)) > dm_z_threshold d),
      vd_max_z = Max (set (z_scores d f)),
      vd_worst_feature = Some (dm_names d ! argmax (z_scores d f)),
      vd_outside = map (\<lambda>i. dm_names d ! i) (outside_at d f)\<rparr>"
proof -
  have z: "z_scores d f \<noteq> []" "length (z_scores d f) = n" using assms by (auto simp: z_scores_def)
  have names: "length (dm_names d) = n" "dm_names d \<noteq> []" using assms by (auto simp: stats_ok_def)
  have am: "py_index (dm_names d) (int (argmax (z_scores d f)))
            = Inr (dm_names d ! argmax (z_scores d f))"
    using argmax_less [OF z(1)] z(2) names by (intro py_index_ok) simp
  have out: "rmap (\<lambda>i. py_index (dm_names d) (int i)) (outside_at d f)
             = Inr (map (\<lambda>i. dm_names d ! i) (outside_at d f))"
    using assms names by (intro rmap_ok py_index_ok) (auto simp: outside_at_def)
  show ?thesis
    using assms z names by (simp add: check_def Let_def stats_ok_def am out)
qed

lemma Max_z_greater:
  assumes "stats_ok n d" and "length f = n" and "0 < n" and "0 \<le> t"
  shows "Max (set (z_scores d f)) > t \<longleftrightarrow>
         (\<exists>i<n. judgeable (dm_std d ! i) \<and> \<bar>f ! i - dm_mean d ! i\<bar> > t * dm_std d ! i)"
proof -
  have pos: "0 < s" if "judgeable s" for s
    using that by (simp add: judgeable_def)
  have "Max (set (z_scores d f)) > t \<longleftrightarrow> (\<exists>z \<in> set (z_scores d f). t < z)"
  proof (rule Max_gr_iff)
    have "z_scores d f \<noteq> []" using assms by (auto simp: z_scores_def)
    then show "set (z_scores d f) \<noteq> {}" by simp
  qed simp
  also have "\<dots> \<longleftrightarrow> (\<exists>i<n. judgeable (dm_std d ! i) \<and> t < \<bar>(f ! i - dm_mean d ! i) / dm_std d ! i\<bar>)"
    using assms by (auto simp: z_scores_def)
  also have "\<dots> \<longleftrightarrow> (\<exists>i<n. judgeable (dm_std d ! i) \<and> \<bar>f ! i - dm_mean d ! i\<bar> > t * dm_std d ! i)"
  proof -
    have "t < \<bar>x / s\<bar> \<longleftrightarrow> t * s < \<bar>x\<bar>" if "judgeable s" for x s
      using pos [OF that] by (simp add: abs_divide pos_less_divide_eq)
    then show ?thesis by blast
  qed
  finally show ?thesis .
qed

subsection \<open>Properties\<close>

text \<open>What the monitor reports. For statistics of \<open>n > 0\<close> features and a vector of that length
  the check returns; it calls the vector drifting exactly when some feature that varied in training
  is more than \<open>z_threshold\<close> standard deviations from its mean, it names a feature with the largest
  score, and it lists exactly the features outside the training range. A feature that never varied
  is never judged.\<close>

theorem check_verdict:
  assumes "stats_ok n d" and "length f = n" and "0 < n" and "0 \<le> dm_z_threshold d"
  shows "\<exists>v w. fst (check d f) = Inr v \<and> w < n
     \<and> (vd_drifting v \<longleftrightarrow>
          (\<exists>i<n. judgeable (dm_std d ! i)
                 \<and> \<bar>f ! i - dm_mean d ! i\<bar> > dm_z_threshold d * dm_std d ! i))
     \<and> vd_worst_feature v = Some (dm_names d ! w)
     \<and> (\<forall>i<n. z_scores d f ! i \<le> z_scores d f ! w) \<and> vd_max_z v = z_scores d f ! w
     \<and> vd_outside v = map (\<lambda>i. dm_names d ! i)
          (filter (\<lambda>i. \<not> (dm_low d ! i \<le> f ! i \<and> f ! i \<le> dm_high d ! i)) [0..<n])"
proof -
  let ?z = "z_scores d f"
  have z: "?z \<noteq> []" "length ?z = n" using assms by (auto simp: z_scores_def)
  have "?z ! i \<le> ?z ! argmax ?z" if "i < n" for i
    using that z argmax_max [OF z(1)] by simp
  moreover have "outside_at d f
      = filter (\<lambda>i. \<not> (dm_low d ! i \<le> f ! i \<and> f ! i \<le> dm_high d ! i)) [0..<n]"
    using assms(2) by (auto simp: outside_at_def intro!: filter_cong)
  ultimately show ?thesis
    using check_ok [OF assms(1,2,3)] Max_z_greater [OF assms] argmax_less [OF z(1)] z
      argmax_max [OF z(1)] by (intro exI [of _ "argmax ?z"] exI) auto
qed

definition demo_drift :: drift where
  "demo_drift = \<lparr>dm_names = [JStr ''a'', JStr ''b''], dm_mean = [0, 1], dm_std = [1, 0],
     dm_low = [- 2, 1], dm_high = [2, 1], dm_z_threshold = 4, dm_seen = 0, dm_out_of_range = 0,
     dm_beyond_threshold = 0\<rparr>"

theorem check_verdict_witness:
  "\<exists>v. fst (check demo_drift [5, 7]) = Inr v \<and> vd_drifting v"
  using check_verdict [of 2 demo_drift "[5, 7]"]
  by (force simp: stats_ok_def demo_drift_def judgeable_def)

text \<open>The rates mean what they say. After any sequence of vectors, of whatever lengths, a
  monitor created for \<open>n\<close> features has counted exactly the vectors of length \<open>n\<close>, and both
  reported fractions lie between 0 and 1.\<close>

theorem summary_fractions:
  assumes "stats_ok n d" and "dm_seen d = 0" and "dm_out_of_range d = 0" and "dm_beyond_threshold d = 0"
  shows "let s = summary (foldl (\<lambda>d f. snd (check d f)) d fs) in
         ds_frames s = length (filter (\<lambda>f. length f = n) fs)
         \<and> 0 \<le> ds_fraction_drifting s \<and> ds_fraction_drifting s \<le> 1
         \<and> 0 \<le> ds_fraction_outside s \<and> ds_fraction_outside s \<le> 1"
proof -
  let ?d = "foldl (\<lambda>d f. snd (check d f)) d fs"
  have "counts_ok ?d \<and> stats_ok n ?d"
    using assms by (intro dm.inv_run) (simp add: counts_ok_def)
  then show ?thesis
    using seen_run [OF assms(1), of fs] assms(2)
    by (auto simp: summary_def Let_def counts_ok_def divide_le_eq)
qed

theorem summary_fractions_witness:
  "let s = summary (foldl (\<lambda>d f. snd (check d f)) demo_drift [[0, 1], [3], [9, 9]]) in
   ds_frames s = 2 \<and> ds_fraction_drifting s \<le> 1"
  using summary_fractions [of 2 demo_drift "[[0, 1], [3], [9, 9]]"]
  by (simp add: Let_def stats_ok_def demo_drift_def)

end
