(* ===== verification/Serve.thy ===== *)
theory Serve
  imports Registry_Cli Drift Find_Target
begin

section \<open>The serving node (\<open>threevn_mlops/serve.py\<close>)\<close>

text \<open>
  The node that runs the production model. \<open>serve_init\<close> is the constructor, which reads the registry's
  store and raises when it refuses to start; the callbacks are steps that return what escaped,
  what was published or logged, and the new state. Every log call is an output: the throttling
  of repeated messages is the logger's.
\<close>

subsection \<open>State and outputs\<close>

record serve =
  sv_version :: version
  sv_model :: ridge
  sv_drift :: drift
  sv_intrinsics :: "intrinsics option"
  sv_width :: real
  sv_report_every :: int
  sv_frames :: nat

datatype sv_out =
    SvError
  | SvDrift "json option" real
  | SvPred pose_stamped
  | SvGeom pose_stamped
  | SvReport nat real real

subsection \<open>Construction\<close>

definition serve_banner :: "json \<Rightarrow> (real \<times> real \<times> json) res" where
  "serve_banner artifact =
     rbind (jitem artifact ''metrics'') (\<lambda>metrics.
     rbind (selected_key artifact) (\<lambda>key.
     rbind (jsub metrics (case key of None \<Rightarrow> JNull | Some k \<Rightarrow> k)) (\<lambda>e.
     rbind (jitem e ''test'') (\<lambda>test.
     rbind (rbind (jitem test ''median_mm'') fmt_f) (\<lambda>median.
     rbind (rbind (jitem test ''p95_mm'') fmt_f) (\<lambda>p95.
     rbind (jitem artifact ''dataset'') (\<lambda>dataset.
     rbind (jitem dataset ''frames'') (\<lambda>frames. Inr (median, p95, frames)))))))))"

definition serve_init :: "real \<Rightarrow> int \<Rightarrow> store \<Rightarrow> serve res" where
  "serve_init width report_every s =
     (case production_version s of
        None \<Rightarrow> Inl RuntimeError
      | Some v \<Rightarrow>
          rbind (artifact_of v s) (\<lambda>artifact.
          rbind (feature_contract artifact FEATURE_NAMES) (\<lambda>problems.
            if problems \<noteq> [] then Inl RuntimeError
            else
              rbind (rbind (jitem artifact ''model'') ridge_from_dict) (\<lambda>model.
              rbind (rbind (jitem artifact ''feature_stats'') (\<lambda>fs. drift_new fs 4)) (\<lambda>drift.
              rbind (serve_banner artifact) (\<lambda>_.
                Inr \<lparr>sv_version = v, sv_model = model, sv_drift = drift, sv_intrinsics = None,
                     sv_width = width, sv_report_every = report_every, sv_frames = 0\<rparr>))))))"

text \<open>\<open>main\<close>: only \<open>RuntimeError\<close> becomes exit code 1; anything else escapes. \<open>None\<close> is a node that
  spins.\<close>

definition serve_main :: "real \<Rightarrow> int \<Rightarrow> store \<Rightarrow> int option res" where
  "serve_main width report_every s =
     (case serve_init width report_every s of
        Inr node \<Rightarrow> Inr None
      | Inl e \<Rightarrow> if isinstance e CRuntimeError then Inr (Some 1) else Inl e)"

subsection \<open>Callbacks\<close>

definition sv_on_info :: "serve \<Rightarrow> real list \<Rightarrow> unit res \<times> serve" where
  "sv_on_info s k =
     (case sv_intrinsics s of
        Some _ \<Rightarrow> (Inr (), s)
      | None \<Rightarrow>
          (case intrinsics_from_camera_info k of
             Inl e \<Rightarrow> (Inl e, s)
           | Inr i \<Rightarrow> (Inr (), s\<lparr>sv_intrinsics := Some i\<rparr>)))"

definition pose_of :: "header \<Rightarrow> real list \<Rightarrow> pose_stamped res" where
  "pose_of h position =
     rbind (py_index position 0) (\<lambda>x. rbind (py_index position 1) (\<lambda>y.
     rbind (py_index position 2) (\<lambda>z.
       Inr \<lparr>ps_header = h, ps_position = (x, y, z), ps_orientation_w = 1\<rparr>)))"

definition first_row :: "matrix res \<Rightarrow> real list res" where
  "first_row m = rbind m (\<lambda>rows. py_index rows 0)"

text \<open>The part of \<open>_on_image\<close> after the drift check: predict and publish, then the geometric
  answer.\<close>

definition sv_predict :: "serve \<Rightarrow> intrinsics \<Rightarrow> header \<Rightarrow> blob \<Rightarrow> real list
     \<Rightarrow> (real list \<times> real list) res \<times> sv_out list" where
  "sv_predict s i h b vector =
     (case rbind (first_row (ridge_predict (sv_model s) [vector])) (\<lambda>p.
             rbind (pose_of h p) (\<lambda>pose. Inr (p, pose))) of
        Inl e \<Rightarrow> (Inl e, [])
      | Inr (predicted, pose) \<Rightarrow>
          (case rbind (blob_features b i GEOMETRIC_FEATURES) (\<lambda>f.
                rbind (first_row (geometric_predict
                         \<lparr>g_intrinsics = i, g_target_width = sv_width s\<rparr> [f])) (\<lambda>g.
                rbind (pose_of h g) (\<lambda>gpose. Inr (g, gpose)))) of
             Inl e \<Rightarrow> (Inl e, [SvPred pose])
           | Inr (geometric, gpose) \<Rightarrow> (Inr (predicted, geometric), [SvPred pose, SvGeom gpose])))"

text \<open>The report every \<open>report_every\<close> frames; the gap needs two vectors of one length.\<close>

definition sv_report :: "serve \<Rightarrow> real list \<Rightarrow> real list \<Rightarrow> sv_out list res" where
  "sv_report s predicted geometric =
     (if sv_report_every s \<noteq> 0 \<and> int (sv_frames s) mod sv_report_every s = 0
      then if length predicted \<noteq> length geometric then Inl ValueError
           else (let sm = summary (sv_drift s) in
                 Inr [SvReport (ds_frames sm) (ds_fraction_drifting sm * 100)
                        (norm_row (map2 (-) predicted geometric) * 1000)])
      else Inr [])"

definition sv_on_image :: "serve \<Rightarrow> image_msg \<Rightarrow> unit res \<times> sv_out list \<times> serve" where
  "sv_on_image s msg =
     (case sv_intrinsics s of
        None \<Rightarrow> (Inr (), [], s)
      | Some i \<Rightarrow>
          (case as_rgb (im_data msg) (im_height msg) (im_width msg) (im_encoding msg) of
             Inl e \<Rightarrow> if isinstance e CValueError then (Inr (), [SvError], s) else (Inl e, [], s)
           | Inr rgb \<Rightarrow>
               (case colour_mask rgb 1 60 30 of
                  Inl e \<Rightarrow> (Inl e, [], s)
                | Inr m \<Rightarrow>
                    (case largest_blob m 40 of
                       None \<Rightarrow> (Inr (), [], s)
                     | Some b \<Rightarrow>
                         (case blob_features b i FEATURE_NAMES of
                            Inl e \<Rightarrow> (Inl e, [], s)
                          | Inr vector \<Rightarrow>
                              (case check (sv_drift s) vector of
                                 (Inl e, d) \<Rightarrow> (Inl e, [], s\<lparr>sv_drift := d\<rparr>)
                               | (Inr v, d) \<Rightarrow>
                                   let warn = (if vd_drifting v
                                               then [SvDrift (vd_worst_feature v) (vd_max_z v)] else []);
                                       s1 = s\<lparr>sv_drift := d\<rparr> in
                                   (case sv_predict s1 i (im_header msg) b vector of
                                      (Inl e, out) \<Rightarrow> (Inl e, warn @ out, s1)
                                    | (Inr (p, g), out) \<Rightarrow>
                                        let s2 = s1\<lparr>sv_frames := sv_frames s1 + 1\<rparr>
                                        in (case sv_report s2 p g of
                                              Inl e \<Rightarrow> (Inl e, warn @ out, s2)
                                            | Inr rep \<Rightarrow> (Inr (), warn @ out @ rep, s2)))))))))"

subsection \<open>Lemmas: exceptions other than \<open>RuntimeError\<close>\<close>

text \<open>\<open>no_rt r\<close>: if \<open>r\<close> raises, \<open>except RuntimeError\<close> does not catch it.\<close>

definition no_rt :: "'a res \<Rightarrow> bool" where
  "no_rt r \<longleftrightarrow> (\<forall>e. r = Inl e \<longrightarrow> \<not> isinstance e CRuntimeError)"

named_theorems no_rt_rules \<open>computations that never raise a RuntimeError\<close>

lemma no_rt_Inr [no_rt_rules]: "no_rt (Inr x)"
  by (simp add: no_rt_def)

lemma no_rt_TypeError [no_rt_rules]: "no_rt (Inl TypeError)"
  by (simp add: no_rt_def)

lemma no_rt_rbind [no_rt_rules]: "no_rt m \<Longrightarrow> (\<And>x. no_rt (f x)) \<Longrightarrow> no_rt (rbind m f)"
  by (cases m) (auto simp: no_rt_def)

lemma no_rt_rmap [no_rt_rules]: "(\<And>x. no_rt (f x)) \<Longrightarrow> no_rt (rmap f xs)"
  by (induction xs) (auto intro!: no_rt_rules)

lemma no_rt_jitem [no_rt_rules]: "no_rt (jitem j k)"
  by (cases j) (auto simp: no_rt_def split: option.splits)

lemma no_rt_jnum [no_rt_rules]: "no_rt (jnum j)"
  by (cases j) (auto simp: no_rt_def)

lemma no_rt_fmt_f [no_rt_rules]: "no_rt (fmt_f j)"
  by (cases j) (auto simp: no_rt_def)

lemma no_rt_jiter [no_rt_rules]: "no_rt (jiter j)"
  by (cases j) (auto simp: no_rt_def)

lemma no_rt_py_index [no_rt_rules]: "no_rt (py_index xs i)"
  by (auto simp: no_rt_def py_index_def Let_def split: if_splits)

lemma no_rt_jsub [no_rt_rules]: "no_rt (jsub j k)"
proof (cases "(j, k)" rule: jsub.cases)
qed (auto simp: no_rt_def py_index_def Let_def split: if_splits option.splits elim!: jitem.elims)

lemma no_rt_jvec [no_rt_rules]: "no_rt (jvec j)"
  unfolding jvec_def by (cases j) (auto simp: no_rt_def [of "Inl ValueError"] intro!: no_rt_rules)

lemma no_rt_jmat [no_rt_rules]: "no_rt (jmat j)"
  unfolding jmat_def by (cases j) (auto simp: no_rt_def [of "Inl ValueError"] intro!: no_rt_rules)

lemma no_rt_ridge_from_dict [no_rt_rules]: "no_rt (ridge_from_dict doc)"
  unfolding ridge_from_dict_def by (intro no_rt_rules)

lemma no_rt_drift_new [no_rt_rules]: "no_rt (drift_new doc z)"
  unfolding drift_new_def by (intro no_rt_rules)

lemma no_rt_jget [no_rt_rules]: "no_rt (jget j k d)"
  by (cases j) (auto simp: no_rt_def)

lemma no_rt_jin: "no_rt (jin k j)"
  by (cases j) (auto simp: no_rt_def)

lemma no_rt_jmember [no_rt_rules]: "no_rt (jmember x j)"
  by (cases x; cases j) (auto simp: no_rt_def)

lemma no_rt_selected_key [no_rt_rules]: "no_rt (selected_key a)"
  unfolding selected_key_def sole_key_def Let_def
  by (auto intro!: no_rt_rules split: json.splits option.splits)

lemma no_rt_banner [no_rt_rules]: "no_rt (serve_banner a)"
  unfolding serve_banner_def by (intro no_rt_rules)

subsection \<open>Lemmas: starting\<close>

lemma serve_init_contract:
  assumes "production_version s = Some v" and "artifact_of v s = Inr a"
    and "feature_contract a FEATURE_NAMES = Inr []"
  shows "no_rt (serve_init w r s)"
  using assms by (auto simp: serve_init_def intro!: no_rt_rules)

lemma serve_init_okD:
  assumes "serve_init w r s = Inr node"
  obtains v a where "production_version s = Some v" "artifact_of v s = Inr a"
    "feature_contract a FEATURE_NAMES = Inr []" "sv_version node = v"
    "rbind (jitem a ''model'') ridge_from_dict = Inr (sv_model node)"
    "sv_intrinsics node = None" "sv_frames node = 0" "dm_seen (sv_drift node) = 0"
  using assms
  by (auto simp: serve_init_def rbind_eq_Inr drift_new_def split: option.splits if_splits)

lemma promote_models: "st_models (snd (promote t v reason forced s)) = st_models s"
  by (auto simp: promote_def Let_def)

text \<open>An unforced run that exits with 0 leaves a version in production whose gates passed.\<close>

lemma cli_promote_unforced:
  assumes run: "cli_promote now arg reason False s = (Inr 0, out, s')"
  obtains v a where "production_version s' = Some v" "artifact_of v s' = Inr a"
    "feature_contract a FEATURE_NAMES = Inr []"
  using run
proof (cases rule: cli_promote_cases)
  case (2 v failures)
  let ?p = "promote now v reason (failures \<noteq> []) s"
  have fs: "gate_failures v s = Inr []" using 2 by simp
  then obtain a inc where a: "artifact_of v s = Inr a" "check_all a FEATURE_NAMES inc None = Inr []"
    by (auto simp: gate_failures_def rbind_eq_Inr)
  have "artifact_of v s' = Inr a" using a(1) 2(4) promote_models by (simp add: artifact_of_def)
  moreover have "production_version s' = Some v"
  proof (rule promote_cases [OF refl [of ?p]])
    assume "?p = (Inl (KeyError v), s)"
    with 2(5) show ?thesis by simp
  next
    assume "production_version s = Some v" "?p = (Inr (Some v), s)"
    with 2(4) show ?thesis by simp
  next
    assume "?p = (Inr (production_version s), write_index s
             ((read_index s)\<lparr>ix_production := Some v,
                 ix_history := ix_history (read_index s)
                    @ [PromoteRow now v (production_version s) reason (failures \<noteq> [])]\<rparr>))"
    with 2(4) show ?thesis by (simp add: production_version_def)
  qed
  ultimately show thesis using that check_all_okD [OF a(2)] by blast
qed simp

subsection \<open>Lemmas: the callbacks\<close>

definition serving_inv :: "version \<Rightarrow> ridge \<Rightarrow> serve \<Rightarrow> bool" where
  "serving_inv v model s \<longleftrightarrow>
     sv_version s = v \<and> sv_model s = model \<and> sv_frames s \<le> dm_seen (sv_drift s)"

lemma check_seen_le: "dm_seen (snd (check d f)) \<le> dm_seen d + 1" "dm_seen d \<le> dm_seen (snd (check d f))"
  by (auto simp: check_def Let_def)

lemma check_Inr_seen: "check d f = (Inr v, d') \<Longrightarrow> dm_seen d' = dm_seen d + 1"
  by (auto simp: check_def Let_def split: if_splits)

lemma check_Inl_seen: "check d f = (Inl e, d') \<Longrightarrow> dm_seen d \<le> dm_seen d'"
  using check_seen_le(2) [of d f] by simp

lemma serving_inv_image:
  assumes "serving_inv v model s"
  shows "serving_inv v model (snd (snd (sv_on_image s m)))"
  using assms
  by (auto simp: serving_inv_def sv_on_image_def Let_def
      dest!: check_Inr_seen check_Inl_seen split: option.splits sum.splits prod.splits)

lemma serving_inv_info: "serving_inv v model s \<Longrightarrow> serving_inv v model (snd (sv_on_info s k))"
  by (auto simp: serving_inv_def sv_on_info_def split: option.splits sum.splits)

interpretation sv: camera_node
  "\<lambda>s k. snd (sv_on_info s k)" "\<lambda>s m. snd (snd (sv_on_image s m))" sv_intrinsics
proof unfold_locales
  show "sv_intrinsics s \<noteq> None \<Longrightarrow> snd (sv_on_info s k) = s" for s k
    by (auto simp: sv_on_info_def)
  show "sv_intrinsics (snd (snd (sv_on_image s m))) = sv_intrinsics s" for s m
    by (auto simp: sv_on_image_def Let_def split: option.splits sum.splits prod.splits)
  show "sv_intrinsics s = None \<Longrightarrow> snd (snd (sv_on_image s m)) = s" for s m
    by (simp add: sv_on_image_def)
qed

interpretation svi: inv_system sv.event "serving_inv v model" for v model
  by unfold_locales (auto simp: sv.event_def serving_inv_image serving_inv_info split: sum.splits)

text \<open>A step of the node, over both callbacks.\<close>

definition sv_step :: "serve \<Rightarrow> real list + image_msg \<Rightarrow> serve" where
  "sv_step s e = (case e of Inl k \<Rightarrow> snd (sv_on_info s k) | Inr m \<Rightarrow> snd (snd (sv_on_image s m)))"

lemma sv_step_event: "sv_step = sv.event"
  by (simp add: fun_eq_iff sv_step_def sv.event_def)

subsection \<open>Properties\<close>

text \<open>C23: the node serves the production model or nothing. If it starts, some version is in
  production, the artifact it loaded lists exactly the features this build computes, in that order,
  and the weights it uses are that artifact's. With nothing promoted it refuses with exit code 1.\<close>

theorem serve_starts_only_on_contract:
  "(case serve_init w r s of
      Inr node \<Rightarrow> (\<exists>a f. production_version s = Some (sv_version node)
         \<and> artifact_of (sv_version node) s = Inr a
         \<and> jitem a ''features'' = Inr f \<and> jiter f = Inr (map JStr FEATURE_NAMES)
         \<and> rbind (jitem a ''model'') ridge_from_dict = Inr (sv_model node))
    | Inl e \<Rightarrow> True)
   \<and> (production_version s = None \<longrightarrow> serve_main w r s = Inr (Some 1))"
proof (cases "serve_init w r s")
  case (Inr node)
  obtain v a where "production_version s = Some v" "artifact_of v s = Inr a"
    "feature_contract a FEATURE_NAMES = Inr []" "sv_version node = v"
    "rbind (jitem a ''model'') ridge_from_dict = Inr (sv_model node)"
    using serve_init_okD [OF Inr] by metis
  then show ?thesis using Inr feature_contract_okD [of a FEATURE_NAMES] by simp
next
  case (Inl e)
  then show ?thesis by (auto simp: serve_main_def serve_init_def)
qed

text \<open>A registry whose production version has weights, statistics and scores: the node starts on it.\<close>

definition live_artifact :: json where
  "live_artifact = JObj
     [(''model'', JObj [(''alpha'', JNum 1), (''weights'', JArr [JArr [JNum 2, JNum 3, JNum 4]]), (''intercept'', JArr [JNum 0, JNum 0, JNum 5])]),
      (''selected'', JStr ''ridge + shape''),
      (''features'', JArr (map JStr FEATURE_NAMES)),
      (''feature_stats'', JObj [(''names'', JArr (map JStr FEATURE_NAMES)), (''mean'', JArr [JNum 0]), (''std'', JArr [JNum 1]),
         (''min'', JArr [JNum 0]), (''max'', JArr [JNum 1])]),
      (''metrics'', JObj [(''ridge + shape'', JObj [(''test'', JObj [(''median_mm'', JNum 10), (''p95_mm'', JNum 20)])])]),
      (''dataset'', JObj [(''frames'', JInt 480)])]"

definition live_store :: store where
  "live_store = \<lparr>st_index = Some \<lparr>ix_production = Some ''v1'', ix_versions = [], ix_history = []\<rparr>, st_models = [(''v1'', live_artifact)]\<rparr>"

lemma live_store_starts: "\<exists>node. serve_init (1 / 20) 30 live_store = Inr node"
proof -
  have "feature_contract live_artifact FEATURE_NAMES = Inr []" by (simp add: feature_contract_def live_artifact_def)
  moreover have "production_version live_store = Some ''v1''" "artifact_of ''v1'' live_store = Inr live_artifact"
    by (simp_all add: production_version_def read_index_def live_store_def artifact_of_def)
  moreover have "\<exists>m. rbind (jitem live_artifact ''model'') ridge_from_dict = Inr m"
    by (simp add: live_artifact_def ridge_from_dict_def jmat_def jvec_def)
  moreover have "\<exists>d. rbind (jitem live_artifact ''feature_stats'') (\<lambda>fs. drift_new fs 4) = Inr d"
    by (simp add: live_artifact_def drift_new_def jvec_def)
  moreover have "\<exists>b. serve_banner live_artifact = Inr b"
    by (simp add: live_artifact_def serve_banner_def selected_key_def)
  ultimately show ?thesis by (auto simp: serve_init_def)
qed

theorem serve_starts_only_on_contract_witness:
  "serve_main (1 / 20) 30 empty_store = Inr (Some 1)
   \<and> (\<exists>node a. serve_init (1 / 20) 30 live_store = Inr node \<and> artifact_of (sv_version node) live_store = Inr a
        \<and> rbind (jitem a ''model'') ridge_from_dict = Inr (sv_model node))"
proof -
  obtain node where "serve_init (1 / 20) 30 live_store = Inr node" using live_store_starts by blast
  then show ?thesis
    using serve_starts_only_on_contract [where s = empty_store and w = "1 / 20" and r = 30]
      serve_starts_only_on_contract [where s = live_store and w = "1 / 20" and r = 30]
    by (auto simp: production_version_def empty_index_def)
qed

text \<open>C15: what the gates let through, the serving node does not refuse. After a \<open>promote\<close> run
  without \<open>--force\<close> that exits with 0, the node started on the same registry never stops with the
  \<open>refusing to serve\<close> exit code: the version is in production and its feature contract holds.\<close>

theorem promoted_is_not_refused:
  assumes "cli_promote now arg reason False s = (Inr 0, out, s')"
  shows "serve_main w r s' \<noteq> Inr (Some 1)"
proof -
  obtain v a where "production_version s' = Some v" "artifact_of v s' = Inr a"
    "feature_contract a FEATURE_NAMES = Inr []"
    using cli_promote_unforced [OF assms] by metis
  then have "no_rt (serve_init w r s')" by (rule serve_init_contract)
  then show ?thesis by (auto simp: serve_main_def no_rt_def split: sum.splits)
qed

lemma served_store_promoted:
  "\<exists>out s'. cli_promote ''t1'' None '''' False served_store = (Inr 0, out, s')
     \<and> production_version s' = Some ''v1'' \<and> artifact_of ''v1'' s' = Inr (card_doc served_card)"
proof -
  have "chosen_version None served_store = Some ''v1''"
    by (simp add: chosen_version_def versions_def read_index_def served_store_def)
  then have "cli_promote ''t1'' None '''' False served_store =
      (case promote ''t1'' ''v1'' '''' False served_store of
         (Inl e, s') \<Rightarrow> (Inl e, gate_lines [], s')
       | (Inr previous, s') \<Rightarrow> (Inr 0, gate_lines [] @ [Promoted ''v1'' False previous], s'))"
    by (simp add: cli_promote_def served_store_run(1) split: prod.splits sum.splits)
  then show ?thesis
    by (simp add: promote_def production_version_def read_index_def
        write_index_def served_store_def Let_def artifact_of_def)
qed

theorem promoted_is_not_refused_witness:
  "\<exists>out s'. cli_promote ''t1'' None '''' False served_store = (Inr 0, out, s')
     \<and> serve_main (1 / 20) 30 s' \<noteq> Inr (Some 1)"
  using served_store_promoted promoted_is_not_refused by blast

text \<open>Passing the gates does not mean the model can be loaded. There is a registry in which a
  version passes every gate and is promoted without force, and the serving node then dies with an
  uncaught \<open>KeyError\<close>: no gate looks inside \<open>model\<close>, \<open>feature_stats\<close> or for \<open>p95_mm\<close>.\<close>

theorem gates_do_not_cover_loading:
  "\<exists>s out s' k. cli_promote ''t1'' None '''' False s = (Inr 0, out, s')
     \<and> gate_failures ''v1'' s = Inr [] \<and> production_version s' = Some ''v1''
     \<and> serve_main w r s' = Inl (KeyError k)"
proof -
  obtain out s' where run: "cli_promote ''t1'' None '''' False served_store = (Inr 0, out, s')"
    "production_version s' = Some ''v1''" "artifact_of ''v1'' s' = Inr (card_doc served_card)"
    using served_store_promoted by blast
  have "feature_contract (card_doc served_card) FEATURE_NAMES = Inr []"
    using check_all_okD [OF served_card_gates] by simp
  moreover have "rbind (jitem (card_doc served_card) ''model'') ridge_from_dict = Inl (KeyError ''alpha'')"
    by (simp add: card_doc_def ridge_from_dict_def)
  ultimately have "serve_main w r s' = Inl (KeyError ''alpha'')"
    using run by (simp add: serve_main_def serve_init_def rbind_assoc [symmetric])
  with run served_store_run(1) show ?thesis by blast
qed

text \<open>While it runs, the node never changes model. Over any sequence of camera infos and images,
  whatever they contain, the version and the weights stay those it started with, the intrinsics stay
  the first ones received, and no more frames are counted than the drift monitor has seen.\<close>

theorem serving_keeps_model:
  assumes "serve_init w r st = Inr s0"
  shows "let s = foldl sv_step s0 es; s' = foldl sv_step s0 (es @ es') in
         sv_version s = sv_version s0 \<and> sv_model s = sv_model s0
         \<and> sv_frames s \<le> dm_seen (sv_drift s)
         \<and> (\<forall>i. sv_intrinsics s = Some i \<longrightarrow> sv_intrinsics s' = Some i)"
proof -
  have "sv_frames s0 = 0" using serve_init_okD [OF assms] by metis
  then have "serving_inv (sv_version s0) (sv_model s0) (foldl sv_step s0 es)"
    unfolding sv_step_event by (intro svi.inv_run) (simp add: serving_inv_def)
  moreover have "sv_intrinsics (foldl sv_step s0 (es @ es')) = Some i"
    if "sv_intrinsics (foldl sv_step s0 es) = Some i" for i
    using that unfolding sv_step_event by (simp add: sv.latched)
  ultimately show ?thesis by (simp add: serving_inv_def Let_def)
qed

definition loadable_doc :: json where
  "loadable_doc = JObj
     [(''features'', JArr (map JStr FEATURE_NAMES)),
      (''model'', JObj [(''alpha'', JNum 1), (''weights'', JArr []), (''intercept'', JArr [])]),
      (''feature_stats'', JObj [(''names'', JArr []), (''mean'', JArr []), (''std'', JArr []),
                                (''min'', JArr []), (''max'', JArr [])]),
      (''selected'', JStr ''r''),
      (''metrics'', JObj [(''r'', JObj [(''test'', JObj [(''median_mm'', JNum 1), (''p95_mm'', JNum 2)])])]),
      (''dataset'', JObj [(''frames'', JInt 480)])]"

definition loadable_store :: store where
  "loadable_store = \<lparr>st_index = Some \<lparr>ix_production = Some ''v'', ix_versions = [], ix_history = []\<rparr>,
     st_models = [(''v'', loadable_doc)]\<rparr>"

theorem serving_keeps_model_witness:
  "\<exists>s0. serve_init (1 / 20) 30 loadable_store = Inr s0
     \<and> (let s = foldl sv_step s0 [Inl [500, 0, 320, 0, 500, 240, 0, 0, 1], Inr blank_frame] in
        sv_version s = ''v'' \<and> sv_frames s \<le> dm_seen (sv_drift s))"
proof -
  have "\<exists>s0. serve_init (1 / 20) 30 loadable_store = Inr s0 \<and> sv_version s0 = ''v''"
    by (simp add: serve_init_def production_version_def read_index_def loadable_store_def artifact_of_def
        loadable_doc_def feature_contract_def ridge_from_dict_def drift_new_def serve_banner_def
        selected_key_def jvec_def jmat_def)
  then obtain s0 where s0: "serve_init (1 / 20) 30 loadable_store = Inr s0" "sv_version s0 = ''v''"
    by blast
  from serving_keeps_model [OF s0(1), of "[Inl [500, 0, 320, 0, 500, 240, 0, 0, 1], Inr blank_frame]"] s0
  show ?thesis by (simp add: Let_def)
qed

end
