(* ===== verification/Entry_Points.thy ===== *)
theory Entry_Points
  imports Dashboard_Node Find_Target Fusion Serve
begin

section \<open>How the processes start and end (\<open>main\<close> of the nodes, \<open>scripts/profile_entry.py\<close>)\<close>

text \<open>
  The \<open>main\<close> functions of the four nodes, as what they acquire and release in order, and the script that
  names the xacro file of a robot profile. YAML text is a document; reading it may fail in the two ways the
  script tells apart.
\<close>

subsection \<open>The nodes\<close>

definition find_target_main :: "'n res \<Rightarrow> spin_end \<Rightarrow> bool \<Rightarrow> main_action list \<times> int res" where
  "find_target_main made spun rcl_ok = ros_main [DestroyNode] made spun rcl_ok"

definition fused_odom_main :: "'n res \<Rightarrow> spin_end \<Rightarrow> bool \<Rightarrow> main_action list \<times> int res" where
  "fused_odom_main made spun rcl_ok = ros_main [DestroyNode] made spun rcl_ok"

text \<open>Only the serving node expects its constructor to refuse, with a \<open>RuntimeError\<close>.\<close>

definition serving_main :: "'n res \<Rightarrow> spin_end \<Rightarrow> bool \<Rightarrow> main_action list \<times> int res" where
  "serving_main made spun rcl_ok =
     (case made of
        Inl e \<Rightarrow> if isinstance e CRuntimeError then ([RclInit, MakeNode, RclShutdown], Inr 1)
                 else ([RclInit, MakeNode], Inl e)
      | Inr n \<Rightarrow> ros_main [DestroyNode] made spun rcl_ok)"

subsection \<open>\<open>profile_entry.py\<close>\<close>

datatype yaml_read = ReadFails exn | YamlFails | Loaded json

datatype script_end = Printed string | SysExit string

definition ENTRY_POINTS :: "(string \<times> string) list" where
  "ENTRY_POINTS = [(''arm'', ''threevn_arm.urdf.xacro''), (''base'', ''threevn_base.urdf.xacro''),
                   (''mobile_manipulator'', ''threevn_mobile_manipulator.urdf.xacro'')]"

definition USAGE :: string where
  "USAGE = ''usage: profile_entry.py <profile.yaml>''"

definition cannot_read :: "string \<Rightarrow> string" where
  "cannot_read path = path @ '': cannot read meta block''"

definition no_entry_point :: "string \<Rightarrow> string" where
  "no_entry_point path = path @ '': meta.kind has no xacro entry point''"

text \<open>\<open>main\<close>: what was printed or the message it exits with (the text of an exception and of the kind are
  left out of them), or the exception that escapes.\<close>

definition read_meta :: "yaml_read \<Rightarrow> json res" where
  "read_meta r =
     (case r of ReadFails e \<Rightarrow> Inl e | YamlFails \<Rightarrow> Inl OtherException | Loaded doc \<Rightarrow> jitem doc ''meta'')"

definition profile_entry_main :: "(string \<Rightarrow> yaml_read) \<Rightarrow> string list \<Rightarrow> script_end res" where
  "profile_entry_main load argv =
     (case argv of
        [prog, path] \<Rightarrow>
          (case read_meta (load path) of
             Inl e \<Rightarrow> if caught e [COSError, CKeyError] \<or> load path = YamlFails then Inr (SysExit (cannot_read path))
                      else Inl e
           | Inr meta \<Rightarrow>
               rbind (jget meta ''kind'' JNull) (\<lambda>kind.
               rbind (jmember kind (JObj (map (\<lambda>(k, v). (k, JStr v)) ENTRY_POINTS))) (\<lambda>known.
                 if \<not> known then Inr (SysExit (no_entry_point path))
                 else Inr (Printed (the (map_of ENTRY_POINTS (jstr_val kind)))))))
      | _ \<Rightarrow> Inr (SysExit USAGE))"

subsection \<open>Properties\<close>

text \<open>A node that was constructed is released: however \<open>spin\<close> ends, it is destroyed, ROS is shut down if it
  still runs, an interrupt is no error and any other exception is passed on. One that was not constructed
  leaves ROS initialised, but for the serving node when it refuses to serve.\<close>

theorem mains_release:
  assumes "m \<in> {dashboard_main, find_target_main, fused_odom_main, serving_main}"
  shows "DestroyNode \<in> set (fst (m (Inr n) spun rcl_ok))
         \<and> (RclShutdown \<in> set (fst (m (Inr n) spun rcl_ok)) \<longleftrightarrow> rcl_ok)
         \<and> snd (m (Inr n) spun rcl_ok) = (case spun of SpinRaised e \<Rightarrow> Inl e | _ \<Rightarrow> Inr 0)
         \<and> (RclShutdown \<in> set (fst (m (Inl e) spun rcl_ok)) \<longleftrightarrow> m = serving_main \<and> isinstance e CRuntimeError)"
proof -
  have ne: "serving_main (Inl RuntimeError :: 'a res) SpinReturned True \<noteq> m' (Inl RuntimeError) SpinReturned True"
    if "m' \<in> {dashboard_main, find_target_main, fused_odom_main}" for m' :: "'a res \<Rightarrow> spin_end \<Rightarrow> bool \<Rightarrow> main_action list \<times> int res"
    using that by (auto simp: serving_main_def dashboard_main_def find_target_main_def fused_odom_main_def ros_main_def)
  consider "m = serving_main" | "m \<noteq> serving_main" "m \<in> {dashboard_main, find_target_main, fused_odom_main}"
    using assms by blast
  then show ?thesis
  proof cases
    case 1
    show ?thesis unfolding 1 by (simp add: serving_main_def ros_main_def)
  next
    case 2
    then show ?thesis
      by (auto simp: dashboard_main_def find_target_main_def fused_odom_main_def ros_main_def)
  qed
qed

theorem mains_release_witness:
  "DestroyNode \<in> set (fst (dashboard_main (Inr ()) KeyboardInterrupt True))"
  using mains_release [of dashboard_main "()" KeyboardInterrupt True OSError] by simp

text \<open>Seen from the outside this is the \<open>serve_main\<close> of \<open>Serve\<close>: exit code 1 means refusal, and then ROS is
  shut down and nothing was spun.\<close>

theorem serving_main_refuses:
  "serve_main w r s = Inr (Some 1) \<longleftrightarrow>
     serving_main (serve_init w r s) spun rcl_ok = ([RclInit, MakeNode, RclShutdown], Inr 1)"
  by (cases "serve_init w r s") (auto simp: serve_main_def serving_main_def ros_main_def)

text \<open>The script names a file for exactly the three families; whatever else the profile says it exits with a
  message, except that a profile that is not a mapping, a \<open>meta\<close> that is not one, and a kind that is a
  list or a mapping end it with an uncaught exception.\<close>

theorem profile_entry_behaviour:
  assumes "load path = Loaded doc"
  shows "(profile_entry_main load [prog, path] = Inr (Printed f) \<longleftrightarrow>
            (\<exists>kvs ms k. doc = JObj kvs \<and> map_of kvs ''meta'' = Some (JObj ms) \<and> map_of ms ''kind'' = Some (JStr k)
               \<and> map_of ENTRY_POINTS k = Some f))
         \<and> ((\<exists>e. profile_entry_main load [prog, path] = Inl e) \<longleftrightarrow>
              (case doc of
                 JObj kvs \<Rightarrow>
                   (case map_of kvs ''meta'' of
                      None \<Rightarrow> False
                    | Some (JObj ms) \<Rightarrow> (\<exists>xs. map_of ms ''kind'' = Some (JArr xs) \<or> (\<exists>ys. map_of ms ''kind'' = Some (JObj ys)))
                    | Some m \<Rightarrow> True)
               | _ \<Rightarrow> True))"
proof (cases "\<exists>kvs ms. doc = JObj kvs \<and> map_of kvs ''meta'' = Some (JObj ms)")
  case True
  then obtain kvs ms where d: "doc = JObj kvs" "map_of kvs ''meta'' = Some (JObj ms)" by blast
  have known: "jmember (JStr k) (JObj (map (\<lambda>(k, v). (k, JStr v)) ENTRY_POINTS)) = Inr (map_of ENTRY_POINTS k \<noteq> None)" for k
    by (auto simp: ENTRY_POINTS_def)
  show ?thesis
  proof (cases "map_of ms ''kind''")
    case None
    with d assms show ?thesis by (simp add: profile_entry_main_def read_meta_def)
  next
    case (Some kind)
    with d assms known show ?thesis
      by (cases kind) (auto simp: profile_entry_main_def read_meta_def jstr_val_def simp del: jmember.simps(1))
  qed
next
  case False
  with assms show ?thesis
    by (auto simp: profile_entry_main_def read_meta_def caught_def split: json.splits option.splits)
qed

theorem profile_entry_behaviour_witness:
  "profile_entry_main (\<lambda>p. Loaded (JObj [(''meta'', JObj [(''kind'', JStr ''base'')])])) [''profile_entry.py'', ''b.yaml'']
   = Inr (Printed ''threevn_base.urdf.xacro'')"
  using profile_entry_behaviour [of "\<lambda>p. Loaded (JObj [(''meta'', JObj [(''kind'', JStr ''base'')])])" "''b.yaml''"
      "JObj [(''meta'', JObj [(''kind'', JStr ''base'')])]" "''profile_entry.py''" "''threevn_base.urdf.xacro''"]
  by (simp add: ENTRY_POINTS_def)

end
