(* ===== verification/Robot_Client.thy ===== *)
theory Robot_Client
  imports Prelude
begin

section \<open>The robot client (\<open>threevn_control/robot_client.py\<close>)\<close>

text \<open>
  The synchronous client scenarios are written against. ROS is the argument \<open>ros\<close>, a record of
  functions on an arbitrary world \<open>'w\<close>: which messages a spin delivers, how many times a waiting loop
  runs before its deadline, whether the action servers are up, how a goal is answered and how it ends, with
  the messages that arrive while the client waits for either, what TF answers. A method maps the client's state and the world to its result or exception, the new
  state and the new world; \<open>abind\<close> sequences methods and stops at an exception. \<open>cx_sent\<close> is the log of
  the goals handed to an action server, the only way this client moves anything, each with the joint
  limits known when it was sent; \<open>cx_steps\<close> is where scenarios record their steps. A position is an \<open>xfloat\<close>: a limit check has to decide infinities and
  NaN too. Parsing XML is outside the model: a description message carries the element tree, or
  nothing when the text does not parse.
\<close>

subsection \<open>Floats with infinities and NaN\<close>

datatype xfloat = Fin real | PosInf | NegInf | NaN

fun xle :: "xfloat \<Rightarrow> xfloat \<Rightarrow> bool" where
  "xle NaN _ = False"
| "xle _ NaN = False"
| "xle NegInf _ = True"
| "xle _ PosInf = True"
| "xle (Fin x) (Fin y) = (x \<le> y)"
| "xle _ _ = False"

definition lower_char :: "char \<Rightarrow> char" where
  "lower_char c = (let n = (of_char c :: nat) in if 65 \<le> n \<and> n \<le> 90 then char_of (n + 32) else c)"

text \<open>\<open>float(s)\<close>.\<close>

definition xfloat_of_string :: "string \<Rightarrow> xfloat res" where
  "xfloat_of_string s =
     (case take_sign (map lower_char (py_strip s)) of
        (sign, r) \<Rightarrow>
          if r \<in> {''inf'', ''infinity''} then Inr (if sign = 1 then PosInf else NegInf)
          else if r = ''nan'' then Inr NaN
          else rbind (py_float_str s) (\<lambda>x. Inr (Fin x)))"

subsection \<open>Data\<close>

definition ARM_JOINTS :: "string list" where
  "ARM_JOINTS = [''shoulder_pan_joint'', ''shoulder_lift_joint'', ''elbow_joint'', ''wrist_joint'']"

definition POSES :: "(string \<times> xfloat list) list" where
  "POSES = [(''home'', [Fin 0, Fin 0, Fin 0, Fin 0]),
            (''ready'', [Fin 0, Fin (5 / 10), Fin (- 4 / 10), Fin 0]),
            (''pick'', [Fin (6 / 10), Fin (9 / 10), Fin (- 7 / 10), Fin (2 / 10)]),
            (''place'', [Fin (- 6 / 10), Fin (9 / 10), Fin (- 7 / 10), Fin (2 / 10)])]"

datatype xml = Elem string "(string \<times> string) list" "xml list"

datatype goal =
    ArmGoal "(string \<times> xfloat) list" real
  | GripperGoal xfloat real

datatype server = Arm | Gripper

datatype callback =
    JointStateMsg "string list" "xfloat list"
  | DescriptionMsg "xml option"

record step_result =
  sp_name :: string
  sp_passed :: bool
  sp_detail :: "exn option"
  sp_seconds :: real

type_synonym limits = "(string \<times> xfloat \<times> xfloat) list"

record ctx =
  cx_state :: "(string list \<times> xfloat list) option"
  cx_limits :: limits
  cx_sent :: "(goal \<times> limits) list"
  cx_steps :: "step_result list"

text \<open>\<open>ro_server\<close> is \<open>wait_for_server\<close>; \<open>ro_answer\<close> and \<open>ro_result\<close> are the two \<open>spin_until_future_complete\<close> of a
  goal: the messages delivered meanwhile, and whether the goal was accepted, or the status it ended with
  (\<open>None\<close> when the timeout came first).\<close>

record 'w ros =
  ro_spin :: "'w \<Rightarrow> callback list \<times> 'w"
  ro_iterations :: "'w \<Rightarrow> nat \<times> 'w"
  ro_up :: "server \<Rightarrow> 'w \<Rightarrow> bool"
  ro_server :: "server \<Rightarrow> 'w \<Rightarrow> bool \<times> 'w"
  ro_answer :: "goal \<Rightarrow> 'w \<Rightarrow> callback list \<times> bool option \<times> 'w"
  ro_result :: "goal \<Rightarrow> 'w \<Rightarrow> callback list \<times> int option \<times> 'w"
  ro_lookup :: "string \<Rightarrow> string \<Rightarrow> 'w \<Rightarrow> (real \<times> real \<times> real) option"
  ro_clock :: "'w \<Rightarrow> real \<times> 'w"

type_synonym ('w, 'a) act = "ctx \<Rightarrow> 'w \<Rightarrow> 'a res \<times> ctx \<times> 'w"

definition areturn :: "'a \<Rightarrow> ('w, 'a) act" where
  "areturn x c w = (Inr x, c, w)"

definition araise :: "exn \<Rightarrow> ('w, 'a) act" where
  "araise e c w = (Inl e, c, w)"

definition abind :: "('w, 'a) act \<Rightarrow> ('a \<Rightarrow> ('w, 'b) act) \<Rightarrow> ('w, 'b) act" where
  "abind m f c w = (case m c w of (Inl e, c', w') \<Rightarrow> (Inl e, c', w') | (Inr x, c', w') \<Rightarrow> f x c' w')"

definition alift :: "'a res \<Rightarrow> ('w, 'a) act" where
  "alift r c w = (r, c, w)"

subsection \<open>Callbacks\<close>

fun iter_joints :: "xml \<Rightarrow> xml list" where
  "iter_joints (Elem tag attrs kids) =
     (if tag = ''joint'' then [Elem tag attrs kids] else []) @ concat (map iter_joints kids)"

fun xml_tag :: "xml \<Rightarrow> string" where
  "xml_tag (Elem tag attrs kids) = tag"

fun xml_get :: "xml \<Rightarrow> string \<Rightarrow> string option" where
  "xml_get (Elem tag attrs kids) k = map_of attrs k"

fun xml_find :: "xml \<Rightarrow> string \<Rightarrow> xml option" where
  "xml_find (Elem tag attrs kids) t = find (\<lambda>x. xml_tag x = t) kids"

text \<open>One iteration of \<open>for joint in root.iter('joint')\<close>: a limit that is not a number raises, after
  the earlier ones were stored.\<close>

fun add_limits :: "xml list \<Rightarrow> limits \<Rightarrow> unit res \<times> limits" where
  "add_limits [] ls = (Inr (), ls)"
| "add_limits (j # js) ls =
     (case (xml_find j ''limit'', xml_get j ''name'') of
        (Some limit, Some name) \<Rightarrow>
          (case (xml_get limit ''lower'', xml_get limit ''upper'') of
             (Some lo, Some up) \<Rightarrow>
               (case rbind (xfloat_of_string lo) (\<lambda>l. rbind (xfloat_of_string up) (\<lambda>u. Inr (l, u))) of
                  Inl e \<Rightarrow> (Inl e, ls)
                | Inr lu \<Rightarrow> add_limits js (AList.update name lu ls))
           | _ \<Rightarrow> add_limits js ls)
      | _ \<Rightarrow> add_limits js ls)"

fun on_callback :: "callback \<Rightarrow> ('w, unit) act" where
  "on_callback (JointStateMsg names positions) c w = (Inr (), c\<lparr>cx_state := Some (names, positions)\<rparr>, w)"
| "on_callback (DescriptionMsg None) c w = (Inr (), c, w)"
| "on_callback (DescriptionMsg (Some tree)) c w =
     (case add_limits (iter_joints tree) (cx_limits c) of (r, ls) \<Rightarrow> (r, c\<lparr>cx_limits := ls\<rparr>, w))"

fun run_callbacks :: "callback list \<Rightarrow> ('w, unit) act" where
  "run_callbacks [] = areturn ()"
| "run_callbacks (m # ms) = abind (on_callback m) (\<lambda>_. run_callbacks ms)"

definition spin_once :: "'w ros \<Rightarrow> ('w, unit) act" where
  "spin_once r c w = (case ro_spin r w of (ms, w') \<Rightarrow> run_callbacks ms c w')"

fun spin_n :: "'w ros \<Rightarrow> nat \<Rightarrow> ('w, unit) act" where
  "spin_n r 0 = areturn ()"
| "spin_n r (Suc n) = abind (spin_once r) (\<lambda>_. spin_n r n)"

text \<open>\<open>_spin\<close>: as many spins as fit before the deadline.\<close>

definition spin :: "'w ros \<Rightarrow> ('w, unit) act" where
  "spin r c w = (case ro_iterations r w of (n, w') \<Rightarrow> spin_n r n c w')"

subsection \<open>State\<close>

definition get_limits :: "string \<Rightarrow> limits \<Rightarrow> (xfloat \<times> xfloat) option" where
  "get_limits j ls = map_of ls j"

definition inside :: "limits \<Rightarrow> string \<Rightarrow> xfloat \<Rightarrow> bool" where
  "inside ls j p = (case get_limits j ls of None \<Rightarrow> True | Some (lo, up) \<Rightarrow> xle lo p \<and> xle p up)"

definition check_within_limits :: "string \<Rightarrow> xfloat \<Rightarrow> ('w, unit) act" where
  "check_within_limits j p c w = (if inside (cx_limits c) j p then Inr () else Inl LimitViolation, c, w)"

fun connect_n :: "'w ros \<Rightarrow> nat \<Rightarrow> ('w, unit) act" where
  "connect_n r 0 = araise RobotNotReady"
| "connect_n r (Suc n) =
     abind (spin_once r) (\<lambda>_ c w.
       if cx_state c \<noteq> None \<and> ro_up r Arm w \<and> ro_up r Gripper w then (Inr (), c, w)
       else connect_n r n c w)"

definition connect :: "'w ros \<Rightarrow> ('w, unit) act" where
  "connect r c w = (case ro_iterations r w of (n, w') \<Rightarrow> connect_n r n c w')"

definition get_joint_state :: "'w ros \<Rightarrow> ('w, (string \<times> xfloat) list) act" where
  "get_joint_state r =
     abind (spin r) (\<lambda>_ c w.
       case cx_state c of
         None \<Rightarrow> (Inl RobotNotReady, c, w)
       | Some (names, positions) \<Rightarrow> (Inr (dict_of (zip names positions)), c, w))"

definition dict_item :: "(string \<times> 'v) list \<Rightarrow> string \<Rightarrow> 'v res" where
  "dict_item d k = (case map_of d k of None \<Rightarrow> Inl (KeyError k) | Some v \<Rightarrow> Inr v)"

definition get_arm_pose :: "'w ros \<Rightarrow> ('w, xfloat list) act" where
  "get_arm_pose r = abind (get_joint_state r) (\<lambda>st. alift (rmap (dict_item st) ARM_JOINTS))"

fun translation_n :: "'w ros \<Rightarrow> nat \<Rightarrow> string \<Rightarrow> string \<Rightarrow> ('w, real \<times> real \<times> real) act" where
  "translation_n r 0 parent child = araise RobotNotReady"
| "translation_n r (Suc n) parent child =
     abind (spin_once r) (\<lambda>_ c w.
       case ro_lookup r parent child w of
         Some v \<Rightarrow> (Inr v, c, w)
       | None \<Rightarrow> translation_n r n parent child c w)"

definition get_translation :: "'w ros \<Rightarrow> string \<Rightarrow> string \<Rightarrow> ('w, real \<times> real \<times> real) act" where
  "get_translation r parent child c w =
     (case ro_iterations r w of (n, w') \<Rightarrow> translation_n r n parent child c w')"

text \<open>\<open>abs(a - b) <= tolerance\<close>: a difference that involves NaN, or infinities of one sign, is not a
  number and compares false.\<close>

fun xclose :: "real \<Rightarrow> xfloat \<Rightarrow> xfloat \<Rightarrow> bool" where
  "xclose tol (Fin a) (Fin b) = (\<bar>a - b\<bar> \<le> tol)"
| "xclose tol _ _ = False"

definition at_pose :: "'w ros \<Rightarrow> xfloat list \<Rightarrow> real \<Rightarrow> ('w, bool) act" where
  "at_pose r target tolerance =
     abind (get_arm_pose r) (\<lambda>pose. areturn (list_all (\<lambda>(a, b). xclose tolerance a b) (zip pose target)))"

subsection \<open>Motion\<close>

text \<open>\<open>_send\<close>. The goal is out once \<open>send_goal_async\<close> was called; the callbacks that run while the client spins may
  replace the state, add limits, or raise.\<close>

definition await_result :: "'w ros \<Rightarrow> goal \<Rightarrow> ('w, unit) act" where
  "await_result r g c w =
     (case ro_result r g w of (ms, status, w1) \<Rightarrow>
        abind (run_callbacks ms) (\<lambda>_. if status = Some 4 then areturn () else araise MotionFailed) c w1)"

definition await_answer :: "'w ros \<Rightarrow> goal \<Rightarrow> ('w, unit) act" where
  "await_answer r g c w =
     (case ro_answer r g w of (ms, accepted, w1) \<Rightarrow>
        abind (run_callbacks ms) (\<lambda>_. if accepted = Some True then await_result r g else araise MotionFailed) c w1)"

definition log_goal :: "goal \<Rightarrow> ctx \<Rightarrow> ctx" where
  "log_goal g c = c\<lparr>cx_sent := cx_sent c @ [(g, cx_limits c)]\<rparr>"

definition send :: "'w ros \<Rightarrow> server \<Rightarrow> goal \<Rightarrow> ('w, unit) act" where
  "send r srv g c w =
     (case ro_server r srv w of (up, w1) \<Rightarrow>
        if up then await_answer r g (log_goal g c) w1 else (Inl RobotNotReady, c, w1))"

fun check_all_joints :: "(string \<times> xfloat) list \<Rightarrow> ('w, unit) act" where
  "check_all_joints [] = areturn ()"
| "check_all_joints ((j, p) # jps) = abind (check_within_limits j p) (\<lambda>_. check_all_joints jps)"

definition move_joints :: "'w ros \<Rightarrow> xfloat list \<Rightarrow> real \<Rightarrow> ('w, unit) act" where
  "move_joints r positions duration =
     (if length positions \<noteq> length ARM_JOINTS then araise ValueError
      else abind (check_all_joints (zip ARM_JOINTS positions)) (\<lambda>_.
             send r Arm (ArmGoal (zip ARM_JOINTS positions) duration)))"

fun index_of :: "'a \<Rightarrow> 'a list \<Rightarrow> nat" where
  "index_of x [] = 0"
| "index_of x (y # ys) = (if x = y then 0 else Suc (index_of x ys))"

definition move_joint :: "'w ros \<Rightarrow> string \<Rightarrow> xfloat \<Rightarrow> real \<Rightarrow> ('w, unit) act" where
  "move_joint r name position duration =
     (if name \<notin> set ARM_JOINTS then araise ValueError
      else abind (get_arm_pose r) (\<lambda>target.
             move_joints r (target[index_of name ARM_JOINTS := position]) duration))"

definition move_to_named :: "'w ros \<Rightarrow> string \<Rightarrow> real \<Rightarrow> ('w, unit) act" where
  "move_to_named r name duration =
     (case map_of POSES name of None \<Rightarrow> araise ValueError | Some p \<Rightarrow> move_joints r p duration)"

definition home :: "'w ros \<Rightarrow> ('w, unit) act" where
  "home r = move_to_named r ''home'' (25 / 10)"

definition set_gripper :: "'w ros \<Rightarrow> xfloat \<Rightarrow> real \<Rightarrow> ('w, unit) act" where
  "set_gripper r position max_effort = send r Gripper (GripperGoal position max_effort)"

definition open_gripper :: "'w ros \<Rightarrow> ('w, unit) act" where
  "open_gripper r = set_gripper r (Fin (18 / 1000)) 5"

definition close_gripper :: "'w ros \<Rightarrow> ('w, unit) act" where
  "close_gripper r = set_gripper r (Fin 0) 5"

definition degrees :: "real list \<Rightarrow> real list" where
  "degrees values = map (\<lambda>v. v * pi / 180) values"

subsection \<open>Invariants of the client\<close>

definition keeps :: "(ctx \<Rightarrow> bool) \<Rightarrow> ('w, 'a) act \<Rightarrow> bool" where
  "keeps P m \<longleftrightarrow> (\<forall>c w. P c \<longrightarrow> P (fst (snd (m c w))))"

lemma keepsI: "(\<And>c w. P c \<Longrightarrow> P (fst (snd (m c w)))) \<Longrightarrow> keeps P m"
  by (simp add: keeps_def)

lemma keepsD: "keeps P m \<Longrightarrow> P c \<Longrightarrow> P (fst (snd (m c w)))"
  by (simp add: keeps_def)

lemma keeps_return: "keeps P (areturn x)"
  by (simp add: keeps_def areturn_def)

lemma keeps_raise: "keeps P (araise e)"
  by (simp add: keeps_def araise_def)

lemma keeps_lift: "keeps P (alift r)"
  by (simp add: keeps_def alift_def)

lemma keeps_bind:
  assumes "keeps P m" and "\<And>x. keeps P (f x)"
  shows "keeps P (abind m f)"
proof (rule keepsI)
  fix c w assume "P c"
  then have "P (fst (snd (m c w)))" using assms(1) by (simp add: keeps_def)
  then show "P (fst (snd (abind m f c w)))"
    using assms(2) by (auto simp: abind_def keeps_def split: prod.splits sum.splits)
qed

lemma length_ARM_JOINTS [simp]: "length ARM_JOINTS = 4"
  by (simp add: ARM_JOINTS_def)

lemma check_all_joints_eq:
  "check_all_joints jps c w =
     (if list_all (\<lambda>(j, p). inside (cx_limits c) j p) jps then Inr () else Inl LimitViolation, c, w)"
  by (induction jps)
    (auto simp: areturn_def abind_def check_within_limits_def split: prod.splits)

text \<open>
  What an invariant of the client has to allow: new state and limits from messages, gripper goals, and
  arm goals that are within the limits known at that moment. Every method then keeps it, on every
  robot.
\<close>

locale client_inv =
  fixes P :: "ctx \<Rightarrow> bool"
  assumes P_state: "P c \<Longrightarrow> P (c\<lparr>cx_state := x\<rparr>)"
    and P_limits: "P c \<Longrightarrow> P (c\<lparr>cx_limits := ls\<rparr>)"
    and P_gripper: "P c \<Longrightarrow> P (c\<lparr>cx_sent := cx_sent c @ [(GripperGoal p e, cx_limits c)]\<rparr>)"
    and P_arm: "P c \<Longrightarrow> length ps = length ARM_JOINTS \<Longrightarrow>
      list_all (\<lambda>(j, p). inside (cx_limits c) j p) (zip ARM_JOINTS ps) \<Longrightarrow>
      P (c\<lparr>cx_sent := cx_sent c @ [(ArmGoal (zip ARM_JOINTS ps) d, cx_limits c)]\<rparr>)"
begin

lemma keeps_callback: "keeps P (on_callback m)"
proof (rule keepsI)
  fix c w assume "P c"
  then show "P (fst (snd (on_callback m c w)))"
    by (cases "(m, c, w)" rule: on_callback.cases) (auto simp: P_state P_limits split: prod.splits)
qed

lemma keeps_callbacks: "keeps P (run_callbacks ms)"
  by (induction ms) (simp_all add: keeps_return keeps_bind keeps_callback)

lemma keeps_spin_once: "keeps P (spin_once r)"
  by (rule keepsI) (auto simp: spin_once_def intro: keepsD [OF keeps_callbacks] split: prod.splits)

lemma keeps_spin_n: "keeps P (spin_n r n)"
  by (induction n) (simp_all add: keeps_return keeps_bind keeps_spin_once)

lemma keeps_spin: "keeps P (spin r)"
  by (rule keepsI) (auto simp: spin_def intro: keepsD [OF keeps_spin_n] split: prod.splits)

lemma keeps_connect_n: "keeps P (connect_n r n)"
proof (induction n)
  case (Suc n)
  then have "keeps P (\<lambda>c w. if cx_state c \<noteq> None \<and> ro_up r Arm w \<and> ro_up r Gripper w
      then (Inr (), c, w) else connect_n r n c w)"
    by (simp add: keeps_def)
  then show ?case by (simp add: keeps_bind keeps_spin_once)
qed (simp add: keeps_raise)

lemma keeps_connect: "keeps P (connect r)"
  by (rule keepsI) (auto simp: connect_def intro: keepsD [OF keeps_connect_n] split: prod.splits)

lemma keeps_get_joint_state: "keeps P (get_joint_state r)"
  unfolding get_joint_state_def
  by (intro keeps_bind keeps_spin) (simp add: keeps_def split: option.splits)

lemma keeps_get_arm_pose: "keeps P (get_arm_pose r)"
  unfolding get_arm_pose_def by (intro keeps_bind keeps_get_joint_state keeps_lift)

lemma keeps_translation_n: "keeps P (translation_n r n parent child)"
proof (induction n)
  case (Suc n)
  then have "keeps P (\<lambda>c w. case ro_lookup r parent child w of
      Some v \<Rightarrow> (Inr v, c, w) | None \<Rightarrow> translation_n r n parent child c w)"
    by (simp add: keeps_def split: option.splits)
  then show ?case by (simp add: keeps_bind keeps_spin_once)
qed (simp add: keeps_raise)

lemma keeps_get_translation: "keeps P (get_translation r parent child)"
  by (rule keepsI) (auto simp: get_translation_def intro: keepsD [OF keeps_translation_n] split: prod.splits)

lemma keeps_at_pose: "keeps P (at_pose r target tol)"
  unfolding at_pose_def by (intro keeps_bind keeps_get_arm_pose keeps_return)

lemma keeps_await_result: "keeps P (await_result r g)"
  by (rule keepsI) (auto simp: await_result_def intro!: keepsD [where P = P] keeps_bind keeps_callbacks keeps_return keeps_raise
      split: prod.splits)

lemma keeps_await_answer: "keeps P (await_answer r g)"
  by (rule keepsI) (auto simp: await_answer_def intro!: keepsD [where P = P] keeps_bind keeps_callbacks keeps_await_result keeps_raise
      split: prod.splits)

lemma send_keeps: "P c \<Longrightarrow> P (log_goal g c) \<Longrightarrow> P (fst (snd (send r srv g c w)))"
  by (simp add: send_def keepsD [OF keeps_await_answer] split: prod.split)

lemma keeps_set_gripper: "keeps P (set_gripper r p e)"
  unfolding set_gripper_def by (intro keepsI send_keeps) (simp_all add: log_goal_def P_gripper)

lemma keeps_move_joints: "keeps P (move_joints r ps d)"
proof (rule keepsI)
  fix c w assume c: "P c"
  let ?ok = "length ps = 4 \<and> list_all (\<lambda>(j, p). inside (cx_limits c) j p) (zip ARM_JOINTS ps)"
  show "P (fst (snd (move_joints r ps d c w)))"
  proof (cases ?ok)
    case True
    then have "P (log_goal (ArmGoal (zip ARM_JOINTS ps) d) c)" using P_arm [OF c] by (simp add: log_goal_def)
    then show ?thesis using True send_keeps [OF c] by (simp add: move_joints_def abind_def check_all_joints_eq)
  qed (use c in \<open>auto simp: move_joints_def araise_def abind_def check_all_joints_eq\<close>)
qed

lemma keeps_move_joint: "keeps P (move_joint r name p d)"
  unfolding move_joint_def
  by (auto intro!: keeps_bind keeps_get_arm_pose keeps_move_joints keeps_raise)

lemma keeps_move_to_named: "keeps P (move_to_named r name d)"
  unfolding move_to_named_def
  by (auto intro!: keeps_move_joints keeps_raise split: option.splits)

lemmas keeps_client = keeps_connect keeps_get_joint_state keeps_get_arm_pose keeps_get_translation
  keeps_at_pose keeps_set_gripper keeps_move_joints keeps_move_joint keeps_move_to_named

end

subsection \<open>Every arm goal was within the known limits\<close>

text \<open>Stated on the goal and the limits alone, not through the client's own check.\<close>

fun goal_ok :: "goal \<times> limits \<Rightarrow> bool" where
  "goal_ok (ArmGoal jps d, ls) =
     (map fst jps = ARM_JOINTS
      \<and> list_all (\<lambda>(j, p). case map_of ls j of Some (lo, up) \<Rightarrow> xle lo p \<and> xle p up | None \<Rightarrow> True) jps)"
| "goal_ok (GripperGoal p e, ls) = True"

definition sent_ok :: "ctx \<Rightarrow> bool" where
  "sent_ok c \<longleftrightarrow> list_all goal_ok (cx_sent c)"

lemma inside_iff: "inside ls j p \<longleftrightarrow> (case map_of ls j of Some (lo, up) \<Rightarrow> xle lo p \<and> xle p up | None \<Rightarrow> True)"
  by (simp add: inside_def get_limits_def split: option.split)

interpretation sent: client_inv sent_ok
  by unfold_locales (simp_all add: sent_ok_def inside_iff)

interpretation steps: client_inv "\<lambda>c. cx_steps c = ss" for ss
  by unfold_locales simp_all

subsection \<open>What callbacks change\<close>

text \<open>What the first message that raises raises; the others are handled.\<close>

fun first_error :: "callback list \<Rightarrow> exn option" where
  "first_error [] = None"
| "first_error (DescriptionMsg (Some tree) # ms) =
     (case fst (add_limits (iter_joints tree) []) of Inl e \<Rightarrow> Some e | Inr _ \<Rightarrow> first_error ms)"
| "first_error (m # ms) = first_error ms"

lemma add_limits_result: "fst (add_limits js ls) = fst (add_limits js ls')"
proof (induction js arbitrary: ls ls')
  case (Cons j js)
  show ?case by (auto split: option.split sum.split intro: Cons.IH)
qed simp

lemma callback_eq:
  "\<exists>c'. on_callback m c w = (case first_error [m] of Some e \<Rightarrow> Inl e | None \<Rightarrow> Inr (), c', w)
     \<and> cx_sent c' = cx_sent c \<and> cx_steps c' = cx_steps c"
proof (cases "(m, c, w)" rule: on_callback.cases)
  case (3 tree c1 w1)
  obtain x ls where a: "add_limits (iter_joints tree) (cx_limits c) = (x, ls)" by fastforce
  then have "fst (add_limits (iter_joints tree) []) = x" by (metis add_limits_result fst_conv)
  then show ?thesis using 3 a by (cases x) simp_all
qed simp_all

lemma first_error_Cons: "first_error (m # ms) = (case first_error [m] of Some e \<Rightarrow> Some e | None \<Rightarrow> first_error ms)"
  by (cases m; cases "case m of DescriptionMsg t \<Rightarrow> t | _ \<Rightarrow> None") (auto split: sum.split)

lemma callbacks_eq:
  "\<exists>c'. run_callbacks ms c w = (case first_error ms of Some e \<Rightarrow> Inl e | None \<Rightarrow> Inr (), c', w)
     \<and> cx_sent c' = cx_sent c \<and> cx_steps c' = cx_steps c"
proof (induction ms arbitrary: c)
  case (Cons m ms)
  obtain c1 where m: "on_callback m c w = (case first_error [m] of Some e \<Rightarrow> Inl e | None \<Rightarrow> Inr (), c1, w)"
    "cx_sent c1 = cx_sent c" "cx_steps c1 = cx_steps c" using callback_eq [of m c w] by blast
  obtain c2 where "run_callbacks ms c1 w = (case first_error ms of Some e \<Rightarrow> Inl e | None \<Rightarrow> Inr (), c2, w)"
    "cx_sent c2 = cx_sent c1" "cx_steps c2 = cx_steps c1" using Cons.IH [of c1] by blast
  then show ?case using m by (cases "first_error [m]") (simp_all add: abind_def first_error_Cons [of m ms])
qed (simp add: areturn_def)

text \<open>The result of a goal that was sent, from the messages delivered and the answers.\<close>

definition goal_result :: "callback list \<Rightarrow> bool option \<Rightarrow> callback list \<Rightarrow> int option \<Rightarrow> unit res" where
  "goal_result ms accepted ms' status =
     (case first_error ms of Some e \<Rightarrow> Inl e | None \<Rightarrow>
      if accepted \<noteq> Some True then Inl MotionFailed
      else case first_error ms' of Some e \<Rightarrow> Inl e | None \<Rightarrow> if status = Some 4 then Inr () else Inl MotionFailed)"

lemma await_result_eq:
  assumes "ro_result r g w = (ms, status, w1)"
  shows "\<exists>c'. await_result r g c w = (case first_error ms of Some e \<Rightarrow> Inl e | None \<Rightarrow>
      if status = Some 4 then Inr () else Inl MotionFailed, c', w1) \<and> cx_sent c' = cx_sent c \<and> cx_steps c' = cx_steps c"
proof -
  obtain c' where "run_callbacks ms c w1 = (case first_error ms of Some e \<Rightarrow> Inl e | None \<Rightarrow> Inr (), c', w1)"
    "cx_sent c' = cx_sent c" "cx_steps c' = cx_steps c" using callbacks_eq [of ms c w1] by blast
  then show ?thesis
    by (cases "first_error ms"; cases "status = Some 4") (simp_all add: await_result_def assms abind_def areturn_def araise_def)
qed

lemma await_answer_eq:
  assumes "ro_answer r g w = (ms, accepted, w1)" and "ro_result r g w1 = (ms', status, w2)"
  shows "\<exists>c' w'. await_answer r g c w = (goal_result ms accepted ms' status, c', w') \<and> cx_sent c' = cx_sent c \<and> cx_steps c' = cx_steps c"
proof -
  obtain c1 where c1: "run_callbacks ms c w1 = (case first_error ms of Some e \<Rightarrow> Inl e | None \<Rightarrow> Inr (), c1, w1)"
    "cx_sent c1 = cx_sent c" "cx_steps c1 = cx_steps c" using callbacks_eq [of ms c w1] by blast
  obtain c2 where "await_result r g c1 w1 = (case first_error ms' of Some e \<Rightarrow> Inl e | None \<Rightarrow>
      if status = Some 4 then Inr () else Inl MotionFailed, c2, w2)" "cx_sent c2 = cx_sent c1" "cx_steps c2 = cx_steps c1"
    using await_result_eq [OF assms(2), of c1] by blast
  then show ?thesis using c1
    by (cases "first_error ms"; cases "accepted = Some True") (simp_all add: await_answer_def goal_result_def assms(1) abind_def araise_def)
qed

subsection \<open>Properties\<close>

text \<open>C24: a motion command, on every branch. \<open>move_joints\<close> refuses a wrong number of positions, then
  refuses, before anything is sent and with the world untouched, if any joint with a known limit is
  commanded outside it, to an infinity beyond it or to NaN. Otherwise it waits for the arm's action server: if
  that does not appear, it raises \<open>RobotNotReady\<close> and has sent nothing and changed nothing; if it does, exactly one
  goal with these positions goes out, after which the call returns only if no message raised while it waited, the
  goal was accepted and it ended with status 4; it raises what the message raised, or \<open>MotionFailed\<close>, in every other
  case.\<close>

theorem move_joints_behaviour:
  "if length ps \<noteq> 4 then move_joints r ps d c w = (Inl ValueError, c, w)
   else if \<exists>i<4. \<exists>lo up. map_of (cx_limits c) (ARM_JOINTS ! i) = Some (lo, up)
              \<and> \<not> (xle lo (ps ! i) \<and> xle (ps ! i) up)
   then move_joints r ps d c w = (Inl LimitViolation, c, w)
   else case ro_server r Arm w of
     (False, w1) \<Rightarrow> move_joints r ps d c w = (Inl RobotNotReady, c, w1)
   | (True, w1) \<Rightarrow>
       (case ro_answer r (ArmGoal (zip ARM_JOINTS ps) d) w1 of (ms, accepted, w2) \<Rightarrow>
        case ro_result r (ArmGoal (zip ARM_JOINTS ps) d) w2 of (ms', status, w3) \<Rightarrow>
          \<exists>c' w'. move_joints r ps d c w = (goal_result ms accepted ms' status, c', w')
            \<and> cx_sent c' = cx_sent c @ [(ArmGoal (zip ARM_JOINTS ps) d, cx_limits c)] \<and> cx_steps c' = cx_steps c)"
proof -
  let ?bad = "\<exists>i<4. \<exists>lo up. map_of (cx_limits c) (ARM_JOINTS ! i) = Some (lo, up) \<and> \<not> (xle lo (ps ! i) \<and> xle (ps ! i) up)"
  let ?g = "ArmGoal (zip ARM_JOINTS ps) d"
  have check: "list_all (\<lambda>(j, p). inside (cx_limits c) j p) (zip ARM_JOINTS ps) = (\<not> ?bad)" if "length ps = 4"
    using that by (auto simp: list_all_length inside_def get_limits_def ARM_JOINTS_def split: option.splits)
  have sends: "move_joints r ps d c w = send r Arm ?g c w" if "length ps = 4" "\<not> ?bad"
    using that check by (simp add: move_joints_def abind_def check_all_joints_eq del: split_paired_Ex)
  obtain up w1 where s: "ro_server r Arm w = (up, w1)" by fastforce
  obtain ms accepted w2 where a: "ro_answer r ?g w1 = (ms, accepted, w2)" by (metis prod_cases3)
  obtain ms' status w3 where b: "ro_result r ?g w2 = (ms', status, w3)" by (metis prod_cases3)
  have out: "\<exists>c' w'. send r Arm ?g c w = (goal_result ms accepted ms' status, c', w')
      \<and> cx_sent c' = cx_sent c @ [(?g, cx_limits c)] \<and> cx_steps c' = cx_steps c" if up
    using await_answer_eq [OF a b, of "log_goal ?g c"] s that by (auto simp: send_def log_goal_def)
  show ?thesis
  proof (cases "length ps = 4 \<and> \<not> ?bad")
    case True
    then show ?thesis using sends out by (simp only: s a b prod.case) (simp add: send_def s split: bool.split)
  qed (use check in \<open>auto simp: move_joints_def araise_def abind_def check_all_joints_eq\<close>)
qed

definition late_ros :: "nat ros" where
  "late_ros = \<lparr>ro_spin = \<lambda>w. ([JointStateMsg ARM_JOINTS [Fin 0, Fin 0, Fin 0, Fin 0]], w + 1),
     ro_iterations = \<lambda>w. (1, w), ro_up = \<lambda>s w. True, ro_server = \<lambda>s w. (True, w),
     ro_answer = \<lambda>g w. ([], Some True, w), ro_result = \<lambda>g w. ([], Some 4, w),
     ro_lookup = \<lambda>p c w. None, ro_clock = \<lambda>w. (real w, w)\<rparr>"

definition new_ctx :: ctx where
  "new_ctx = \<lparr>cx_state = None, cx_limits = [], cx_sent = [], cx_steps = []\<rparr>"

lemma late_send: "send late_ros srv g c w = (Inr (), log_goal g c, w)"
  by (simp add: send_def await_answer_def await_result_def abind_def areturn_def late_ros_def)

lemma limit_check_fails_open_aux:
  "connect late_ros new_ctx 0 =
     (Inr (), new_ctx\<lparr>cx_state := Some (ARM_JOINTS, [Fin 0, Fin 0, Fin 0, Fin 0])\<rparr>, 1)"
  by (simp add: connect_def late_ros_def new_ctx_def abind_def spin_once_def areturn_def)

text \<open>C39: the limit check fails open. Limits come from a message the client does not wait for: there is
  a robot on which \<open>connect\<close> succeeds while no limit is known, and then a command of NaN for every
  joint is sent to the arm and reported as a success. Commands to the gripper are never checked, even
  when its limits are known.\<close>

theorem limit_check_fails_open:
  "\<exists>(r :: nat ros) c w c1 w1 c2 w2. connect r c w = (Inr (), c1, w1) \<and> cx_limits c1 = []
     \<and> move_joints r [NaN, NaN, NaN, NaN] 2 c1 w1 = (Inr (), c2, w2)
     \<and> (\<exists>jps d. (ArmGoal jps d, []) \<in> set (cx_sent c2) \<and> map snd jps = [NaN, NaN, NaN, NaN])
     \<and> (\<forall>ls p. fst (set_gripper r p 5 (c1\<lparr>cx_limits := ls\<rparr>) w1) = Inr ())"
proof -
  let ?c1 = "new_ctx\<lparr>cx_state := Some (ARM_JOINTS, [Fin 0, Fin 0, Fin 0, Fin 0])\<rparr>"
  let ?c2 = "?c1\<lparr>cx_sent := [(ArmGoal (zip ARM_JOINTS [NaN, NaN, NaN, NaN]) 2, [])]\<rparr>"
  have "list_all (\<lambda>(j, p). inside [] j p) (zip ARM_JOINTS [NaN, NaN, NaN, NaN])"
    by (simp add: ARM_JOINTS_def inside_def get_limits_def)
  then have "move_joints late_ros [NaN, NaN, NaN, NaN] 2 ?c1 1 = (Inr (), ?c2, 1)"
    by (simp add: move_joints_def abind_def check_all_joints_eq late_send) (simp add: log_goal_def new_ctx_def)
  moreover have "map snd (zip ARM_JOINTS [NaN, NaN, NaN, NaN]) = [NaN, NaN, NaN, NaN]"
    by (simp add: ARM_JOINTS_def)
  moreover have "fst (set_gripper late_ros p 5 (?c1\<lparr>cx_limits := ls\<rparr>) 1) = Inr ()" for ls p
    by (simp add: set_gripper_def late_send)
  moreover have "cx_limits ?c1 = []" by (simp add: new_ctx_def)
  ultimately show ?thesis
    using limit_check_fails_open_aux
    by (intro exI [of _ late_ros] exI [of _ new_ctx] exI [of _ 0] exI [of _ ?c1] exI [of _ 1]
        exI [of _ ?c2]) auto
qed

end
