(* ===== verification/Scenarios.thy ===== *)
theory Scenarios
  imports Robot_Client
begin

section \<open>Scenarios and the acceptance run (\<open>scenarios/base.py\<close>, \<open>scenarios/arm.py\<close>, \<open>acceptance.py\<close>,
  \<open>run_scenario.py\<close>)\<close>

text \<open>
  A scenario's \<open>run\<close> is a sequence of client calls and \<open>step\<close>s; \<open>step\<close> catches every exception of its
  action and its check, records the outcome and raises \<open>ScenarioFailed\<close> when it failed; \<open>execute\<close> catches
  \<open>ScenarioFailed\<close> only. The time readings are the world's. The
  target a step's name shows is left out; what a report prints is in \<open>Report_Text\<close>.
\<close>

subsection \<open>The framework\<close>

definition body ::
  "'w ros \<Rightarrow> ('w, unit) act \<Rightarrow> ('w, bool) act option \<Rightarrow> real \<Rightarrow> ('w, bool) act" where
  "body r action check settle =
     abind action (\<lambda>_. abind (if settle \<noteq> 0 then spin r else areturn ()) (\<lambda>_.
       case check of None \<Rightarrow> areturn True | Some k \<Rightarrow> k))"

definition step ::
  "'w ros \<Rightarrow> string \<Rightarrow> ('w, unit) act \<Rightarrow> ('w, bool) act option \<Rightarrow> real \<Rightarrow> ('w, unit) act" where
  "step r name action check settle c w =
     (case ro_clock r w of
        (started, w1) \<Rightarrow>
          (case body r action check settle c w1 of
             (res, c2, w2) \<Rightarrow>
               (case ro_clock r w2 of
                  (ended, w3) \<Rightarrow>
                    let passed = (res = Inr True);
                        sr = \<lparr>sp_name = name, sp_passed = passed,
                              sp_detail = (case res of Inl e \<Rightarrow> Some e | Inr _ \<Rightarrow> None),
                              sp_seconds = ended - started\<rparr>;
                        c3 = c2\<lparr>cx_steps := cx_steps c2 @ [sr]\<rparr>
                    in (if passed then Inr () else Inl ScenarioFailed, c3, w3))))"

text \<open>\<open>ScenarioResult.passed\<close>.\<close>

definition all_passed :: "step_result list \<Rightarrow> bool" where
  "all_passed ss = list_all sp_passed ss"

definition total_seconds :: "step_result list \<Rightarrow> real" where
  "total_seconds ss = sum_list (map sp_seconds ss)"

text \<open>A new scenario object has an empty result; \<open>execute\<close> returns its steps.\<close>

definition execute :: "('w, unit) act \<Rightarrow> ('w, step_result list) act" where
  "execute run c w =
     (case run (c\<lparr>cx_steps := []\<rparr>) w of
        (Inr _, c', w') \<Rightarrow> (Inr (cx_steps c'), c', w')
      | (Inl e, c', w') \<Rightarrow>
          if isinstance e CScenarioFailed then (Inr (cx_steps c'), c', w') else (Inl e, c', w'))"

subsection \<open>The scenarios\<close>

definition pose :: "string \<Rightarrow> xfloat list" where
  "pose name = (case map_of POSES name of None \<Rightarrow> [] | Some p \<Rightarrow> p)"

definition at_named :: "'w ros \<Rightarrow> string \<Rightarrow> ('w, bool) act" where
  "at_named r name = at_pose r (pose name) (2 / 100)"

definition home_run :: "'w ros \<Rightarrow> ('w, unit) act" where
  "home_run r = step r ''move to home'' (home r) (Some (at_named r ''home'')) (3 / 10)"

text \<open>\<open>abs(a - t) > tol\<close>: false when the difference is NaN.\<close>

fun xfar :: "real \<Rightarrow> xfloat \<Rightarrow> real \<Rightarrow> bool" where
  "xfar tol (Fin a) t = (\<bar>a - t\<bar> > tol)"
| "xfar tol NaN t = False"
| "xfar tol _ t = True"

fun rall :: "('a \<Rightarrow> bool res) \<Rightarrow> 'a list \<Rightarrow> bool res" where
  "rall f [] = Inr True"
| "rall f (x # xs) = rbind (f x) (\<lambda>b. if b then rall f xs else Inr False)"

definition held :: "(string \<times> xfloat) list \<Rightarrow> string \<Rightarrow> real \<Rightarrow> (string \<times> xfloat) list \<Rightarrow> bool res" where
  "held expected j t st =
     rbind (dict_item st j) (\<lambda>p.
       if xfar (2 / 100) p t then Inr False
       else rall (\<lambda>o'. rbind (dict_item st o') (\<lambda>a. rbind (dict_item expected o') (\<lambda>b.
              Inr (xclose (5 / 100) a b)))) (filter (\<lambda>o'. o' \<noteq> j) ARM_JOINTS))"

fun move_joint_loop :: "'w ros \<Rightarrow> (string \<times> real) list \<Rightarrow> ('w, unit) act" where
  "move_joint_loop r [] = areturn ()"
| "move_joint_loop r ((j, t) # jts) =
     abind (get_joint_state r) (\<lambda>expected.
     abind (step r (''move '' @ j) (move_joint r j (Fin t) 2)
              (Some (abind (get_joint_state r) (\<lambda>st. alift (held expected j t st)))) (3 / 10)) (\<lambda>_.
     move_joint_loop r jts))"

definition move_joint_run :: "'w ros \<Rightarrow> ('w, unit) act" where
  "move_joint_run r =
     abind (step r ''home first'' (home r) None (3 / 10)) (\<lambda>_.
       move_joint_loop r (zip ARM_JOINTS [4 / 10, 5 / 10, - 4 / 10, 3 / 10]))"

fun visit_poses :: "'w ros \<Rightarrow> string list \<Rightarrow> ('w, unit) act" where
  "visit_poses r [] = areturn ()"
| "visit_poses r (p # ps) =
     abind (step r (''move to '' @ p) (move_to_named r p 2) (Some (at_named r p)) (3 / 10)) (\<lambda>_.
       visit_poses r ps)"

definition move_to_position_run :: "'w ros \<Rightarrow> ('w, unit) act" where
  "move_to_position_run r = visit_poses r [''home'', ''ready'', ''pick'', ''place'', ''home'']"

definition left_finger :: "(string \<times> xfloat) list \<Rightarrow> xfloat res" where
  "left_finger st = dict_item st ''gripper_left_finger_joint''"

definition fingers_mirrored :: "'w ros \<Rightarrow> ('w, bool) act" where
  "fingers_mirrored r =
     abind (get_translation r ''gripper_base_link'' ''gripper_left_finger_link'') (\<lambda>(_, ly, _).
     abind (get_translation r ''gripper_base_link'' ''gripper_right_finger_link'') (\<lambda>(_, ry, _).
       areturn (\<bar>ly + ry\<bar> \<le> 2 / 1000 \<and> \<bar>\<bar>ly\<bar> - \<bar>ry\<bar>\<bar> \<le> 2 / 1000 \<and> \<bar>ly\<bar> > 2 / 1000)))"

definition gripper_run :: "'w ros \<Rightarrow> ('w, unit) act" where
  "gripper_run r =
     abind (step r ''home first'' (home r) None (3 / 10)) (\<lambda>_.
     abind (step r ''open gripper'' (open_gripper r)
              (Some (abind (get_joint_state r) (\<lambda>st. alift (rbind (left_finger st)
                 (\<lambda>p. Inr (xclose (4 / 1000) p (Fin (18 / 1000)))))))) 1) (\<lambda>_.
     abind (step r ''both fingers moved together'' (areturn ()) (Some (fingers_mirrored r)) (2 / 10)) (\<lambda>_.
     step r ''close gripper'' (close_gripper r)
              (Some (abind (get_joint_state r) (\<lambda>st. alift (rbind (left_finger st)
                 (\<lambda>p. Inr (xle p (Fin (4 / 1000)))))))) 1)))"

definition OVERSHOOT :: real where
  "OVERSHOOT = 314159 / 100000"

definition LIMIT :: real where
  "LIMIT = 15708 / 10000"

text \<open>\<open>_expect_rejection\<close>: a \<open>LimitViolation\<close> is what it wants, silence an \<open>AssertionError\<close>.\<close>

definition expect_rejection :: "'w ros \<Rightarrow> ('w, unit) act" where
  "expect_rejection r c w =
     (case move_joint r ''shoulder_pan_joint'' (Fin OVERSHOOT) 2 c w of
        (Inl e, c', w') \<Rightarrow> if isinstance e CLimitViolation then (Inr (), c', w') else (Inl e, c', w')
      | (Inr _, c', w') \<Rightarrow> (Inl AssertionError, c', w'))"

definition pan_of :: "'w ros \<Rightarrow> ('w, xfloat) act" where
  "pan_of r = abind (get_joint_state r) (\<lambda>st. alift (dict_item st ''shoulder_pan_joint''))"

definition safety_limit_run :: "'w ros \<Rightarrow> ('w, unit) act" where
  "safety_limit_run r =
     abind (step r ''home first'' (home r) None (3 / 10)) (\<lambda>_.
     abind (pan_of r) (\<lambda>before.
     abind (step r ''out-of-limit command is rejected'' (expect_rejection r) None (5 / 10)) (\<lambda>_.
     abind (step r ''joint did not move'' (areturn ())
              (Some (abind (pan_of r) (\<lambda>p. areturn (xclose (2 / 100) p before)))) (5 / 10)) (\<lambda>_.
     step r ''joint is still inside its limit'' (areturn ())
              (Some (abind (pan_of r) (\<lambda>p. areturn (xclose (LIMIT + 2 / 100) p (Fin 0))))) (2 / 10)))))"

definition pick_and_place_run :: "'w ros \<Rightarrow> ('w, unit) act" where
  "pick_and_place_run r =
     abind (step r ''home'' (home r) (Some (at_named r ''home'')) (3 / 10)) (\<lambda>_.
     abind (step r ''open gripper'' (open_gripper r) None (8 / 10)) (\<lambda>_.
     abind (step r ''move to pick'' (move_to_named r ''pick'' (25 / 10)) (Some (at_named r ''pick'')) (3 / 10)) (\<lambda>_.
     abind (step r ''close gripper'' (close_gripper r) None 1) (\<lambda>_.
     abind (step r ''move to place'' (move_to_named r ''place'' 3) (Some (at_named r ''place'')) (3 / 10)) (\<lambda>_.
     abind (step r ''open gripper'' (open_gripper r) None (8 / 10)) (\<lambda>_.
     step r ''return home'' (home r) (Some (at_named r ''home'')) (3 / 10)))))))"

text \<open>\<open>REGISTRY\<close>, in the order the classes are registered.\<close>

definition REGISTRY :: "'w ros \<Rightarrow> (string \<times> ('w, unit) act) list" where
  "REGISTRY r =
     [(''home'', home_run r), (''move_joint'', move_joint_run r),
      (''move_to_position'', move_to_position_run r), (''gripper'', gripper_run r),
      (''safety_limit'', safety_limit_run r), (''pick_and_place'', pick_and_place_run r)]"

definition get_scenario :: "'w ros \<Rightarrow> string \<Rightarrow> ('w, unit) act res" where
  "get_scenario r name = dict_item (REGISTRY r) name"

subsection \<open>The acceptance run\<close>

definition SEQUENCE :: "string list" where
  "SEQUENCE = [''home'', ''move_joint'', ''move_to_position'', ''gripper'', ''safety_limit'',
               ''pick_and_place'']"

fun run_sequence :: "'w ros \<Rightarrow> string list \<Rightarrow> ('w, (string \<times> step_result list) list) act" where
  "run_sequence r [] = areturn []"
| "run_sequence r (name # names) =
     abind (alift (dict_item (REGISTRY r) name)) (\<lambda>run.
     abind (execute run) (\<lambda>ss.
       if all_passed ss then abind (run_sequence r names) (\<lambda>rest. areturn ((name, ss) # rest))
       else areturn [(name, ss)]))"

record report =
  rp_verdict :: bool
  rp_requested :: "string list"
  rp_run :: "string list"
  rp_skipped :: "string list"
  rp_results :: "(string \<times> bool \<times> step_result list) list"
  rp_telemetry :: json

definition build_report :: "(string \<times> step_result list) list \<Rightarrow> json \<Rightarrow> string list \<Rightarrow> report" where
  "build_report results telemetry requested =
     \<lparr>rp_verdict = (list_all (\<lambda>(n, ss). all_passed ss) results \<and> length results = length requested),
      rp_requested = requested,
      rp_run = map fst results,
      rp_skipped = drop (length results) requested,
      rp_results = map (\<lambda>(n, ss). (n, all_passed ss, ss)) results,
      rp_telemetry = telemetry\<rparr>"

definition DASHBOARD :: string where
  "DASHBOARD = ''http://127.0.0.1:8107''"

text \<open>\<open>collect_telemetry\<close>, from what the two \<open>_fetch\<close> calls returned.\<close>

definition collect_telemetry :: "json option \<Rightarrow> json option \<Rightarrow> json res" where
  "collect_telemetry version state =
     (if version = None \<and> state = None
      then Inr (JObj [(''available'', JBool False), (''note'', JStr (''dashboard not reachable at '' @ DASHBOARD))])
      else
        let v = (case version of None \<Rightarrow> JNull | Some x \<Rightarrow> x);
            s = (case state of None \<Rightarrow> JNull | Some x \<Rightarrow> x);
            vs = (if truthy v then [(''version'', v)] else [])
        in if \<not> truthy s then Inr (JObj ((''available'', JBool True) # vs))
           else
             rbind (rmap (\<lambda>k. rbind (jget s k JNull) (\<lambda>x. Inr (k, x)))
                      [''ready'', ''joints_fresh'', ''controllers_fresh'', ''hardware_fresh'',
                       ''joint_messages'', ''uptime_seconds'']) (\<lambda>readiness.
             rbind (jget s ''controllers'' (JArr [])) (\<lambda>cs.
             rbind (jget s ''hardware'' (JArr [])) (\<lambda>hs.
               Inr (JObj ((''available'', JBool True) # vs
                 @ [(''readiness'', JObj readiness), (''controllers'', cs), (''hardware'', hs)]))))))"

text \<open>\<open>main\<close> of \<open>acceptance.py\<close>: exit code and report, or the exception that escapes.\<close>

definition acceptance_main ::
  "'w ros \<Rightarrow> string list \<Rightarrow> json option \<Rightarrow> json option \<Rightarrow> ('w, int \<times> report option) act" where
  "acceptance_main r only version state c w =
     (let requested = (if only = [] then SEQUENCE else only) in
      if \<exists>n \<in> set requested. n \<notin> fst ` set (REGISTRY r) then (Inr (2, None), c, w)
      else case connect r c w of
             (Inl e, c', w') \<Rightarrow> (Inr (3, None), c', w')
           | (Inr _, c', w') \<Rightarrow>
               abind (run_sequence r requested) (\<lambda>results.
               abind (alift (collect_telemetry version state)) (\<lambda>telemetry.
                 let rep = build_report results telemetry requested
                 in areturn (if rp_verdict rep then 0 else 1, Some rep))) c' w')"

text \<open>\<open>main\<close> of \<open>run_scenario.py\<close> without \<open>--list\<close>: every requested scenario runs, failures are counted.\<close>

fun run_all :: "'w ros \<Rightarrow> string list \<Rightarrow> ('w, nat) act" where
  "run_all r [] = areturn 0"
| "run_all r (name # names) =
     abind (alift (dict_item (REGISTRY r) name)) (\<lambda>run.
     abind (execute run) (\<lambda>ss.
     abind (run_all r names) (\<lambda>n. areturn (n + (if all_passed ss then 0 else 1)))))"

definition run_scenario_main :: "'w ros \<Rightarrow> bool \<Rightarrow> string \<Rightarrow> ('w, int) act" where
  "run_scenario_main r every scenario c w =
     (let names = (if every then sort (map fst (REGISTRY r)) else [scenario]) in
      if \<exists>n \<in> set names. n \<notin> fst ` set (REGISTRY r) then (Inr 2, c, w)
      else case connect r c w of
             (Inl e, c', w') \<Rightarrow> (Inr 3, c', w')
           | (Inr _, c', w') \<Rightarrow>
               abind (run_all r names) (\<lambda>failures. areturn (if failures \<noteq> 0 then 1 else 0)) c' w')"

subsection \<open>Lemmas: what a run does to the record of steps\<close>

text \<open>
  \<open>sound m\<close>: started with only passed steps on record, \<open>m\<close> either returns with only passed steps, or
  raises \<open>ScenarioFailed\<close> with a failed step on record, or raises something else with only passed steps.
\<close>

definition ok_after :: "'a res \<Rightarrow> ctx \<Rightarrow> bool" where
  "ok_after x c \<longleftrightarrow>
     (case x of Inr _ \<Rightarrow> all_passed (cx_steps c) | Inl e \<Rightarrow> all_passed (cx_steps c) \<longleftrightarrow> e \<noteq> ScenarioFailed)"

definition sound :: "('w, 'a) act \<Rightarrow> bool" where
  "sound m \<longleftrightarrow> (\<forall>c w x c' w'. all_passed (cx_steps c) \<longrightarrow> m c w = (x, c', w') \<longrightarrow> ok_after x c')"

lemma soundI: "(\<And>c w x c' w'. all_passed (cx_steps c) \<Longrightarrow> m c w = (x, c', w') \<Longrightarrow> ok_after x c') \<Longrightarrow> sound m"
  by (simp add: sound_def)

lemma soundD: "sound m \<Longrightarrow> all_passed (cx_steps c) \<Longrightarrow> m c w = (x, c', w') \<Longrightarrow> ok_after x c'"
  unfolding sound_def by blast

lemma sound_return: "sound (areturn x)"
  by (rule soundI) (auto simp: areturn_def ok_after_def)

lemma abind_cases:
  assumes "abind m f c w = r"
  obtains e c' w' where "m c w = (Inl e, c', w')" "r = (Inl e, c', w')"
  | x c' w' where "m c w = (Inr x, c', w')" "r = f x c' w'"
  using assms unfolding abind_def by (auto split: prod.splits sum.splits)

lemma sound_bind:
  assumes m: "sound m" and f: "\<And>x. sound (f x)"
  shows "sound (abind m f)"
proof (rule soundI)
  fix c w x c' w' assume c: "all_passed (cx_steps c)" and "abind m f c w = (x, c', w')"
  from this(2) show "ok_after x c'"
  proof (cases rule: abind_cases)
    case (1 e c1 w1)
    then show ?thesis using soundD [OF m c 1(1)] by (simp add: ok_after_def)
  next
    case (2 y c1 w1)
    have "all_passed (cx_steps c1)" using soundD [OF m c 2(1)] by (simp add: ok_after_def)
    then show ?thesis using soundD [OF f _ 2(2) [symmetric]] by simp
  qed
qed

text \<open>A method that leaves the steps alone and raises no \<open>ScenarioFailed\<close> of its own is sound.\<close>

definition quiet :: "('w, 'a) act \<Rightarrow> bool" where
  "quiet m \<longleftrightarrow> (\<forall>c w. cx_steps (fst (snd (m c w))) = cx_steps c \<and> fst (m c w) \<noteq> Inl ScenarioFailed)"

lemma quietI:
  "(\<And>ss. keeps (\<lambda>c. cx_steps c = ss) m) \<Longrightarrow> (\<And>c w. fst (m c w) \<noteq> Inl ScenarioFailed) \<Longrightarrow> quiet m"
  by (simp add: quiet_def keeps_def)

lemma quietD: "quiet m \<Longrightarrow> m c w = (x, c', w') \<Longrightarrow> cx_steps c' = cx_steps c \<and> x \<noteq> Inl ScenarioFailed"
  unfolding quiet_def by (metis fst_conv snd_conv)

lemma sound_quiet: "quiet m \<Longrightarrow> sound m"
  by (rule soundI) (auto simp: ok_after_def dest: quietD split: sum.splits)

definition no_sf :: "('w, 'a) act \<Rightarrow> bool" where
  "no_sf m \<longleftrightarrow> (\<forall>c w. fst (m c w) \<noteq> Inl ScenarioFailed)"

lemma no_sfD: "no_sf m \<Longrightarrow> m c w = (x, c', w') \<Longrightarrow> x \<noteq> Inl ScenarioFailed"
  unfolding no_sf_def by (metis fst_conv)

lemma no_sfI: "(\<And>c w c' w'. m c w \<noteq> (Inl ScenarioFailed, c', w')) \<Longrightarrow> no_sf m"
  unfolding no_sf_def by (metis prod.collapse)

lemma no_sf_bind: "no_sf m \<Longrightarrow> (\<And>x. no_sf (f x)) \<Longrightarrow> no_sf (abind m f)"
proof (rule no_sfI)
  fix c w c' w'
  assume m: "no_sf m" and f: "\<And>x. no_sf (f x)"
  show "abind m f c w \<noteq> (Inl ScenarioFailed, c', w')"
  proof
    assume "abind m f c w = (Inl ScenarioFailed, c', w')"
    then show False
      using no_sfD [OF m] no_sfD [OF f] by (cases rule: abind_cases) (fastforce, metis)
  qed
qed

lemma no_sf_return: "no_sf (areturn x)"
  by (simp add: no_sf_def areturn_def)

lemma xfloat_error: "xfloat_of_string s = Inl e \<Longrightarrow> e = ValueError"
  by (auto simp: xfloat_of_string_def rbind_eq_Inl dest: py_float_str_error split: prod.splits if_splits)

lemma add_limits_error: "fst (add_limits js ls) = Inl e \<Longrightarrow> e = ValueError"
  by (induction js ls rule: add_limits.induct)
    (auto simp: rbind_eq_Inl dest: xfloat_error split: option.splits sum.splits)

lemma no_sf_callback: "no_sf (on_callback m)"
proof (rule no_sfI)
  fix c w c' w'
  show "on_callback m c w \<noteq> (Inl ScenarioFailed, c', w')"
  proof (cases "(m, c, w)" rule: on_callback.cases)
    case (3 tree c1 w1)
    then show ?thesis
      using add_limits_error [of "iter_joints tree" "cx_limits c"] by (auto split: prod.splits)
  qed auto
qed

lemma no_sf_callbacks: "no_sf (run_callbacks ms)"
  by (induction ms) (simp_all add: no_sf_return no_sf_bind no_sf_callback)

lemma no_sf_spin_once: "no_sf (spin_once r)"
  by (rule no_sfI) (auto simp: spin_once_def dest: no_sfD [OF no_sf_callbacks] split: prod.splits)

lemma no_sf_spin_n: "no_sf (spin_n r n)"
  by (induction n) (simp_all add: no_sf_return no_sf_bind no_sf_spin_once)

lemma no_sf_spin: "no_sf (spin r)"
  by (rule no_sfI) (auto simp: spin_def dest: no_sfD [OF no_sf_spin_n] split: prod.splits)

lemma no_sf_get_joint_state: "no_sf (get_joint_state r)"
  unfolding get_joint_state_def
  by (rule no_sf_bind [OF no_sf_spin]) (simp add: no_sf_def split: option.splits)

lemma quiet_get_joint_state: "quiet (get_joint_state r)"
  by (rule quietI) (auto intro: steps.keeps_get_joint_state no_sf_get_joint_state
      [unfolded no_sf_def, rule_format, THEN notE])

lemma sound_get_joint_state: "sound (get_joint_state r)"
  by (rule sound_quiet [OF quiet_get_joint_state])

lemma sound_pan_of: "sound (pan_of r)"
  unfolding pan_of_def
  by (rule sound_bind [OF sound_get_joint_state])
    (auto intro!: sound_quiet simp: quiet_def alift_def dict_item_def split: option.splits)

lemma step_outcome:
  assumes "step r name action check settle c w = (x, c', w')"
  obtains w1 res c2 w2 sr where "body r action check settle c w1 = (res, c2, w2)"
    "c' = c2\<lparr>cx_steps := cx_steps c2 @ [sr]\<rparr>" "sp_name sr = name"
    "sp_passed sr \<longleftrightarrow> res = Inr True" "x = (if sp_passed sr then Inr () else Inl ScenarioFailed)"
proof -
  obtain started w1 where t1: "ro_clock r w = (started, w1)" by fastforce
  obtain res c2 w2 where b: "body r action check settle c w1 = (res, c2, w2)" by (metis surj_pair)
  obtain ended w3 where t2: "ro_clock r w2 = (ended, w3)" by fastforce
  let ?sr = "\<lparr>sp_name = name, sp_passed = (res = Inr True),
      sp_detail = (case res of Inl e \<Rightarrow> Some e | Inr _ \<Rightarrow> None), sp_seconds = ended - started\<rparr>"
  show thesis
    by (rule that [OF b, of ?sr]) (use assms t1 b t2 in \<open>auto simp: step_def Let_def\<close>)
qed

text \<open>The bodies the scenarios use leave the record of steps alone.\<close>

definition stepless :: "('w, 'a) act \<Rightarrow> bool" where
  "stepless m \<longleftrightarrow> (\<forall>ss. keeps (\<lambda>c. cx_steps c = ss) m)"

lemma stepless_body:
  assumes "stepless action" and "\<And>k. check = Some k \<Longrightarrow> stepless k"
  shows "stepless (body r action check settle)"
  unfolding stepless_def body_def
proof (intro allI keeps_bind)
  fix ss
  show "keeps (\<lambda>c. cx_steps c = ss) action" using assms(1) by (simp add: stepless_def)
  show "keeps (\<lambda>c. cx_steps c = ss) (if settle \<noteq> 0 then spin r else areturn ())"
    by (simp add: steps.keeps_spin keeps_return)
  show "keeps (\<lambda>c. cx_steps c = ss) (case check of None \<Rightarrow> areturn True | Some k \<Rightarrow> k)"
    using assms(2) by (auto simp: stepless_def keeps_return split: option.splits)
qed

lemma sound_step:
  assumes "stepless action" and "\<And>k. check = Some k \<Longrightarrow> stepless k"
  shows "sound (step r name action check settle)"
proof (rule soundI)
  fix c w x c' w'
  assume c: "all_passed (cx_steps c)" and "step r name action check settle c w = (x, c', w')"
  then obtain w1 res c2 w2 sr where b: "body r action check settle c w1 = (res, c2, w2)"
    and c': "c' = c2\<lparr>cx_steps := cx_steps c2 @ [sr]\<rparr>"
    and x: "x = (if sp_passed sr then Inr () else Inl ScenarioFailed)"
    using step_outcome by metis
  have "cx_steps c2 = cx_steps c"
    using stepless_body [OF assms, where r = r and settle = settle] b
    unfolding stepless_def keeps_def by (metis fst_conv snd_conv)
  with c c' x show "ok_after x c'" by (auto simp: ok_after_def all_passed_def)
qed

lemma stepless_actions:
  "stepless (home r)" "stepless (open_gripper r)" "stepless (close_gripper r)"
  "stepless (move_to_named r name d)" "stepless (move_joint r name p d)" "stepless (areturn x)"
  "stepless (at_named r name)" "stepless (fingers_mirrored r)" "stepless (get_joint_state r)"
  "stepless (alift y)" "stepless (pan_of r)"
  by (auto simp: stepless_def home_def open_gripper_def close_gripper_def at_named_def
      fingers_mirrored_def pan_of_def
      intro!: steps.keeps_client keeps_return keeps_bind keeps_lift split: prod.splits)

lemma stepless_bind: "stepless m \<Longrightarrow> (\<And>x. stepless (f x)) \<Longrightarrow> stepless (abind m f)"
  by (auto simp: stepless_def intro!: keeps_bind)

lemma stepless_expect_rejection: "stepless (expect_rejection r)"
  unfolding stepless_def
proof (intro allI keepsI)
  fix ss and c :: ctx and w assume "cx_steps c = ss"
  then have "cx_steps (fst (snd (move_joint r ''shoulder_pan_joint'' (Fin OVERSHOOT) 2 c w))) = ss"
    by (rule keepsD [OF steps.keeps_move_joint])
  then show "cx_steps (fst (snd (expect_rejection r c w))) = ss"
    by (auto simp: expect_rejection_def split: prod.splits sum.splits)
qed

lemmas sound_steps = sound_step stepless_actions stepless_bind stepless_expect_rejection

lemma sound_move_joint_loop: "sound (move_joint_loop r jts)"
  by (induction r jts rule: move_joint_loop.induct)
    (auto intro!: sound_return sound_bind sound_get_joint_state sound_steps)

lemma sound_visit_poses: "sound (visit_poses r ps)"
  by (induction r ps rule: visit_poses.induct) (auto intro!: sound_return sound_bind sound_steps)

lemma sound_registry: "(name, run) \<in> set (REGISTRY r) \<Longrightarrow> sound run"
  by (auto simp: REGISTRY_def home_run_def move_joint_run_def move_to_position_run_def gripper_run_def
      safety_limit_run_def pick_and_place_run_def
      intro!: sound_return sound_bind sound_steps sound_move_joint_loop sound_visit_poses sound_pan_of
      simp del: visit_poses.simps move_joint_loop.simps)

subsection \<open>Lemmas: what a run sends\<close>

lemma keeps_step:
  assumes "keeps sent_ok action" and "\<And>k. check = Some k \<Longrightarrow> keeps sent_ok k"
  shows "keeps sent_ok (step r name action check settle)"
proof (rule keepsI)
  fix c w assume c: "sent_ok c"
  have b: "keeps sent_ok (body r action check settle)"
    unfolding body_def using assms
    by (intro keeps_bind) (auto simp: sent.keeps_spin keeps_return split: option.splits)
  obtain x c' w' where st: "step r name action check settle c w = (x, c', w')" by (metis surj_pair)
  then obtain w1 res c2 w2 sr where "body r action check settle c w1 = (res, c2, w2)"
    "c' = c2\<lparr>cx_steps := cx_steps c2 @ [sr]\<rparr>" by (rule step_outcome)
  moreover have "sent_ok c2" using keepsD [OF b c, of w1] calculation by simp
  ultimately show "sent_ok (fst (snd (step r name action check settle c w)))"
    using st by (simp add: sent_ok_def)
qed

lemma keeps_actions:
  "keeps sent_ok (home r)" "keeps sent_ok (open_gripper r)" "keeps sent_ok (close_gripper r)"
  "keeps sent_ok (at_named r name)" "keeps sent_ok (fingers_mirrored r)" "keeps sent_ok (pan_of r)"
  by (auto simp: home_def open_gripper_def close_gripper_def at_named_def fingers_mirrored_def pan_of_def
      intro!: sent.keeps_client keeps_return keeps_bind keeps_lift split: prod.splits)

lemma keeps_expect_rejection: "keeps sent_ok (expect_rejection r)"
proof (rule keepsI)
  fix c w assume "sent_ok c"
  then have "sent_ok (fst (snd (move_joint r ''shoulder_pan_joint'' (Fin OVERSHOOT) 2 c w)))"
    by (rule keepsD [OF sent.keeps_move_joint])
  then show "sent_ok (fst (snd (expect_rejection r c w)))"
    by (auto simp: expect_rejection_def split: prod.splits sum.splits)
qed

lemmas keeps_steps = keeps_step keeps_actions keeps_expect_rejection sent.keeps_client keeps_bind
  keeps_return keeps_lift

lemma keeps_move_joint_loop: "keeps sent_ok (move_joint_loop r jts)"
  by (induction r jts rule: move_joint_loop.induct) (auto intro!: keeps_steps)

lemma keeps_visit_poses: "keeps sent_ok (visit_poses r ps)"
  by (induction r ps rule: visit_poses.induct) (auto intro!: keeps_steps)

lemma keeps_home_run: "keeps sent_ok (home_run r)"
  unfolding home_run_def by (auto intro!: keeps_steps)

lemma keeps_move_joint_run: "keeps sent_ok (move_joint_run r)"
  unfolding move_joint_run_def
  by (rule keeps_bind [OF keeps_step keeps_move_joint_loop]) (auto intro!: keeps_steps)

lemma keeps_gripper_run: "keeps sent_ok (gripper_run r)"
  unfolding gripper_run_def by (intro keeps_bind keeps_step) (auto intro!: keeps_steps)

lemma keeps_safety_limit_run: "keeps sent_ok (safety_limit_run r)"
  unfolding safety_limit_run_def by (intro keeps_bind keeps_step) (auto intro!: keeps_steps)

lemma keeps_pick_and_place_run: "keeps sent_ok (pick_and_place_run r)"
  unfolding pick_and_place_run_def by (intro keeps_bind keeps_step) (auto intro!: keeps_steps)

lemma keeps_registry:
  assumes "(name, run) \<in> set (REGISTRY r)"
  shows "keeps sent_ok run"
proof -
  from assms have "run \<in> {home_run r, move_joint_run r, move_to_position_run r, gripper_run r,
      safety_limit_run r, pick_and_place_run r}"
    unfolding REGISTRY_def by auto
  then show ?thesis
    unfolding move_to_position_run_def
    by (elim insertE emptyE)
      (simp_all only: keeps_home_run keeps_move_joint_run keeps_gripper_run keeps_safety_limit_run
        keeps_pick_and_place_run keeps_visit_poses)
qed

lemma keeps_execute: "keeps sent_ok run \<Longrightarrow> keeps sent_ok (execute run)"
proof (rule keepsI)
  fix c :: ctx and w assume k: "keeps sent_ok run" and "sent_ok c"
  then have "sent_ok (c\<lparr>cx_steps := []\<rparr>)" by (simp add: sent_ok_def)
  then have "sent_ok (fst (snd (run (c\<lparr>cx_steps := []\<rparr>) w)))"
    by (rule keepsD [OF k])
  then show "sent_ok (fst (snd (execute run c w)))"
    by (auto simp: execute_def split: prod.splits sum.splits)
qed

lemma dict_item_in: "dict_item d k = Inr v \<Longrightarrow> (k, v) \<in> set d"
  by (auto simp: dict_item_def dest: map_of_SomeD split: option.splits)

lemma keeps_run_sequence: "keeps sent_ok (run_sequence r names)"
proof (induction names)
  case (Cons name names)
  show ?case
  proof (cases "dict_item (REGISTRY r) name")
    case (Inl e)
    then show ?thesis by (simp add: keeps_def abind_def alift_def)
  next
    case (Inr run)
    have "keeps sent_ok (abind (execute run) (\<lambda>ss.
        if all_passed ss then abind (run_sequence r names) (\<lambda>rest. areturn ((name, ss) # rest))
        else areturn [(name, ss)]))"
      using keeps_execute [OF keeps_registry [OF dict_item_in [OF Inr]]] Cons
      by (intro keeps_bind) (auto intro!: keeps_bind keeps_return)
    with Inr show ?thesis by (simp add: keeps_def abind_def alift_def)
  qed
qed (simp add: keeps_return)

subsection \<open>Lemmas: results of a sequence\<close>

lemma run_sequence_results:
  assumes "run_sequence r names c w = (Inr results, c', w')"
  shows "map fst results = take (length results) names
         \<and> (\<forall>i. Suc i < length results \<longrightarrow> all_passed (snd (results ! i)))
         \<and> (list_all (\<lambda>(n, ss). all_passed ss) results \<longrightarrow> length results = length names)"
  using assms
proof (induction names arbitrary: c w results c' w')
  case (Cons name names)
  from Cons.prems obtain run c1 w1 where "abind (execute run) (\<lambda>ss. if all_passed ss
           then abind (run_sequence r names) (\<lambda>rest. areturn ((name, ss) # rest))
           else areturn [(name, ss)]) c1 w1 = (Inr results, c', w')"
    by (auto simp: alift_def elim!: abind_cases)
  then obtain ss c2 w2 where
    rest: "(if all_passed ss then abind (run_sequence r names) (\<lambda>rest. areturn ((name, ss) # rest))
       else areturn [(name, ss)]) c2 w2 = (Inr results, c', w')"
    by (auto elim!: abind_cases)
  show ?case
  proof (cases "all_passed ss")
    case False
    with rest have "results = [(name, ss)]" by (simp add: areturn_def)
    with False show ?thesis by simp
  next
    case True
    with rest obtain rs c3 w3 where "run_sequence r names c2 w2 = (Inr rs, c3, w3)"
      and res: "results = (name, ss) # rs"
      by (auto simp: areturn_def elim!: abind_cases)
    note IH = Cons.IH [OF this(1)]
    have "all_passed (snd (results ! i))" if "Suc i < length results" for i
      using that True IH res by (cases i) auto
    with IH res True show ?thesis by simp
  qed
qed (simp add: areturn_def)

subsection \<open>A robot at home\<close>

text \<open>\<open>late_ros\<close> reports zero for every joint and grants every goal; here it has joint limits.\<close>

definition zeros :: "xfloat list" where "zeros = [Fin 0, Fin 0, Fin 0, Fin 0]"

definition limited_ctx :: ctx where
  "limited_ctx = new_ctx\<lparr>cx_limits := map (\<lambda>j. (j, (Fin (- 3 / 2), Fin (3 / 2)))) ARM_JOINTS\<rparr>"

lemma late_spin: "spin late_ros c w = (Inr (), c\<lparr>cx_state := Some (ARM_JOINTS, zeros)\<rparr>, Suc w)"
  by (simp add: spin_def late_ros_def abind_def spin_once_def areturn_def zeros_def)

lemma late_home:
  assumes "list_all (\<lambda>(j, p). inside (cx_limits c) j p) (zip ARM_JOINTS zeros)"
  shows "home late_ros c w = (Inr (), log_goal (ArmGoal (zip ARM_JOINTS zeros) (25 / 10)) c, w)"
  using assms
  by (simp add: home_def move_to_named_def POSES_def move_joints_def abind_def check_all_joints_eq late_send zeros_def)

lemma late_at_home: "at_named late_ros ''home'' c w = (Inr True, c\<lparr>cx_state := Some (ARM_JOINTS, zeros)\<rparr>, Suc w)"
  by (simp add: at_named_def at_pose_def get_arm_pose_def get_joint_state_def abind_def late_spin alift_def areturn_def pose_def POSES_def
      zeros_def ARM_JOINTS_def dict_of_def dict_item_def)

lemma late_run:
  assumes "list_all (\<lambda>(j, p). inside (cx_limits c) j p) (zip ARM_JOINTS zeros)"
  shows "\<exists>s c' w'. run_sequence late_ros [''home''] c w = (Inr [(''home'', [s])], c', w')
    \<and> execute (home_run late_ros) c w = (Inr [s], c', w') \<and> sp_passed s
    \<and> cx_sent c' = cx_sent c @ [(ArmGoal (zip ARM_JOINTS zeros) (25 / 10), cx_limits c)]"
proof -
  have clock: "ro_clock late_ros w = (real w, w)" for w by (simp add: late_ros_def)
  have registered: "dict_item (REGISTRY late_ros) ''home'' = Inr (home_run late_ros)" by (simp add: dict_item_def REGISTRY_def)
  obtain s c' w' where "execute (home_run late_ros) c w = (Inr [s], c', w')" "sp_passed s"
    "cx_sent c' = cx_sent c @ [(ArmGoal (zip ARM_JOINTS zeros) (25 / 10), cx_limits c)]"
    using assms by (simp add: execute_def home_run_def step_def body_def abind_def clock late_home late_spin late_at_home Let_def log_goal_def)
  then show ?thesis
    by (auto simp: abind_def alift_def areturn_def registered all_passed_def)
qed

lemma limited_inside: "list_all (\<lambda>(j, p). inside (cx_limits limited_ctx) j p) (zip ARM_JOINTS zeros)"
  by (simp add: limited_ctx_def inside_def get_limits_def ARM_JOINTS_def zeros_def)

lemma unlimited_inside: "list_all (\<lambda>(j, p). inside (cx_limits new_ctx) j p) (zip ARM_JOINTS zeros)"
  by (simp add: new_ctx_def inside_def get_limits_def ARM_JOINTS_def zeros_def)

subsection \<open>Properties\<close>

text \<open>C4: no scenario drives an arm joint past a limit the client knows. For every sequence of
  registered scenarios, on every robot (whatever messages, failures and action results it produces) and
  however it ends, each arm goal sent had all four joints within the limits known at that moment.\<close>

theorem scenarios_respect_limits:
  assumes "sent_ok c" and "run_sequence r names c w = (x, c', w')"
  shows "sent_ok c'"
  using keepsD [OF keeps_run_sequence assms(1), of r names w] assms(2) by simp

theorem scenarios_respect_limits_witness:
  "\<exists>x c' w'. run_sequence late_ros [''home''] limited_ctx 0 = (x, c', w') \<and> sent_ok c'
     \<and> (\<exists>g. cx_sent c' = [(g, map (\<lambda>j. (j, (Fin (- 3 / 2), Fin (3 / 2)))) ARM_JOINTS)])"
proof -
  obtain s c' w' where run: "run_sequence late_ros [''home''] limited_ctx 0 = (Inr [(''home'', [s])], c', w')"
    and sent: "cx_sent c' = cx_sent limited_ctx @ [(ArmGoal (zip ARM_JOINTS zeros) (25 / 10), cx_limits limited_ctx)]"
    using late_run [OF limited_inside] by blast
  have "sent_ok limited_ctx" by (simp add: sent_ok_def limited_ctx_def new_ctx_def)
  from scenarios_respect_limits [OF this run] run sent show ?thesis by (auto simp: limited_ctx_def new_ctx_def)
qed

text \<open>C17: a scenario that is reported as passed ran to its end. For each registered scenario and every
  robot: if \<open>execute\<close> returns, all recorded steps passed exactly when \<open>run\<close> completed; otherwise the run
  was cut short by a step that is on record as failed.\<close>

theorem execute_verdict:
  assumes "(name, run) \<in> set (REGISTRY r)" and "execute run c w = (Inr ss, c', w')"
  shows "all_passed ss \<longleftrightarrow> fst (run (c\<lparr>cx_steps := []\<rparr>) w) = Inr ()"
proof -
  let ?c = "c\<lparr>cx_steps := []\<rparr>"
  obtain x c1 w1 where run: "run ?c w = (x, c1, w1)" by (metis surj_pair)
  have "ok_after x c1"
    by (rule soundD [OF sound_registry [OF assms(1)] _ run]) (simp add: all_passed_def)
  with assms(2) run show ?thesis
    by (auto simp: execute_def ok_after_def split: sum.splits if_splits)
qed

theorem execute_verdict_witness:
  "\<exists>s c' w'. execute (home_run late_ros) new_ctx 0 = (Inr [s], c', w') \<and> sp_passed s
     \<and> fst (home_run late_ros (new_ctx\<lparr>cx_steps := []\<rparr>) 0) = Inr ()"
proof -
  obtain s c' w' where ex: "execute (home_run late_ros) new_ctx 0 = (Inr [s], c', w')" and s: "sp_passed s"
    using late_run [OF unlimited_inside] by blast
  have "(''home'', home_run late_ros) \<in> set (REGISTRY late_ros)" by (simp add: REGISTRY_def)
  from execute_verdict [OF this ex] ex s show ?thesis by (simp add: all_passed_def)
qed

text \<open>C18: the acceptance verdict. If the sequence of scenarios returns, what ran is a prefix of what was
  requested, every scenario before the last one run passed, the skipped ones are the rest, and the
  verdict is PASS exactly when every requested scenario ran, in order, and every step of each passed.\<close>

theorem acceptance_verdict:
  assumes "run_sequence r names c w = (Inr results, c', w')"
  shows "let rep = build_report results telemetry names in
         rp_run rep @ rp_skipped rep = names
         \<and> (\<forall>i. Suc i < length results \<longrightarrow> all_passed (snd (results ! i)))
         \<and> (rp_verdict rep \<longleftrightarrow> map fst results = names \<and> (\<forall>(n, ss) \<in> set results. all_passed ss))"
proof -
  note R = run_sequence_results [OF assms]
  have run: "map fst results @ drop (length results) names = names"
    using R by (metis append_take_drop_id)
  have all: "list_all (\<lambda>(n, ss). all_passed ss) results \<longleftrightarrow> (\<forall>(n, ss) \<in> set results. all_passed ss)"
    by (simp add: list_all_iff)
  have "length results = length names \<longleftrightarrow> map fst results = names"
    using R by (metis length_map take_all_iff order_refl)
  with run all R show ?thesis
    unfolding build_report_def Let_def by (simp only: report.simps) blast
qed

theorem acceptance_verdict_witness:
  "\<exists>results c' w'. run_sequence late_ros [''home''] new_ctx 0 = (Inr results, c', w') \<and> map fst results = [''home'']
     \<and> rp_verdict (build_report results JNull [''home''])"
proof -
  obtain s c' w' where run: "run_sequence late_ros [''home''] new_ctx 0 = (Inr [(''home'', [s])], c', w')" and s: "sp_passed s"
    using late_run [OF unlimited_inside] by blast
  from acceptance_verdict [OF run, of JNull] run s show ?thesis by (simp add: Let_def all_passed_def)
qed

definition bare_ros :: "nat ros" where
  "bare_ros = late_ros\<lparr>ro_spin := \<lambda>w. ([JointStateMsg [] []], w)\<rparr>"

lemma bare_spin: "spin bare_ros c w = (Inr (), c\<lparr>cx_state := Some ([], [])\<rparr>, w)"
  by (simp add: spin_def bare_ros_def late_ros_def abind_def spin_once_def areturn_def)

lemma bare_send: "send bare_ros srv g c w = (Inr (), log_goal g c, w)"
  by (simp add: send_def await_answer_def await_result_def abind_def areturn_def bare_ros_def late_ros_def)

lemma inside_unknown: "inside [] j p"
  by (simp add: inside_def get_limits_def)

lemma bare_home:
  assumes "cx_limits c = []"
  shows "\<exists>g. home bare_ros c w = (Inr (), c\<lparr>cx_sent := cx_sent c @ [(g, [])]\<rparr>, w)"
proof -
  let ?ps = "[Fin 0, Fin 0, Fin 0, Fin 0]"
  have "home bare_ros = move_joints bare_ros ?ps (25 / 10)"
    by (simp add: home_def move_to_named_def POSES_def)
  moreover have "move_joints bare_ros ?ps (25 / 10) c w
      = (Inr (), c\<lparr>cx_sent := cx_sent c @ [(ArmGoal (zip ARM_JOINTS ?ps) (25 / 10), [])]\<rparr>, w)"
    using assms
    by (simp add: move_joints_def abind_def check_all_joints_eq inside_unknown list_all_iff
        bare_send split_beta log_goal_def)
  ultimately show ?thesis by auto
qed

lemma bare_first_step:
  assumes "cx_limits c = []"
  shows "\<exists>c1. step bare_ros ''home first'' (home bare_ros) None (3 / 10) c w = (Inr (), c1, w)"
proof -
  obtain g where "home bare_ros c w = (Inr (), c\<lparr>cx_sent := cx_sent c @ [(g, [])]\<rparr>, w)"
    using bare_home [OF assms] by blast
  moreover have "ro_clock bare_ros w = (real w, w)" by (simp add: bare_ros_def late_ros_def)
  ultimately show ?thesis
    by (simp add: step_def body_def abind_def bare_spin areturn_def Let_def)
qed

lemma bare_pan: "\<exists>c1. pan_of bare_ros c w = (Inl (KeyError ''shoulder_pan_joint''), c1, w)"
  by (simp add: pan_of_def get_joint_state_def abind_def bare_spin alift_def dict_item_def dict_of_def)

lemma bare_safety_limit:
  assumes "cx_limits c = []"
  shows "\<exists>c1. safety_limit_run bare_ros c w = (Inl (KeyError ''shoulder_pan_joint''), c1, w)"
proof -
  obtain c1 where "step bare_ros ''home first'' (home bare_ros) None (3 / 10) c w = (Inr (), c1, w)"
    using bare_first_step [OF assms] by blast
  moreover obtain c2 where "pan_of bare_ros c1 w = (Inl (KeyError ''shoulder_pan_joint''), c2, w)"
    using bare_pan by blast
  ultimately show ?thesis by (simp add: safety_limit_run_def abind_def)
qed

lemma bare_execute:
  "cx_limits c = [] \<Longrightarrow>
   \<exists>c1. execute (safety_limit_run bare_ros) c w = (Inl (KeyError ''shoulder_pan_joint''), c1, w)"
  using bare_safety_limit [of "c\<lparr>cx_steps := []\<rparr>" w] by (auto simp: execute_def)

text \<open>\<open>execute\<close> can raise. Two scenarios read the joint state between steps, where nothing catches: on
  a robot whose joint state lacks the arm's joints, \<open>safety_limit\<close> passes its first step and then lets
  a \<open>KeyError\<close> escape \<open>execute\<close>, and with it the acceptance run and its report.\<close>

theorem execute_can_raise:
  "\<exists>(r :: nat ros) c w c' w' k. execute (safety_limit_run r) c w = (Inl (KeyError k), c', w')
     \<and> fst (acceptance_main r [''safety_limit''] None None c w) = Inl (KeyError k)"
proof -
  let ?k = "''shoulder_pan_joint''"
  obtain c1 where ex: "execute (safety_limit_run bare_ros) new_ctx 0 = (Inl (KeyError ?k), c1, 0)"
    using bare_execute [of new_ctx 0] by (auto simp: new_ctx_def)
  have conn: "connect bare_ros new_ctx 0 = (Inr (), new_ctx\<lparr>cx_state := Some ([], [])\<rparr>, 0)"
    by (simp add: connect_def bare_ros_def late_ros_def abind_def spin_once_def areturn_def new_ctx_def)
  obtain c2 where "execute (safety_limit_run bare_ros) (new_ctx\<lparr>cx_state := Some ([], [])\<rparr>) 0
      = (Inl (KeyError ?k), c2, 0)"
    using bare_execute [of "new_ctx\<lparr>cx_state := Some ([], [])\<rparr>" 0] by (auto simp: new_ctx_def)
  moreover have "dict_item (REGISTRY bare_ros) ''safety_limit'' = Inr (safety_limit_run bare_ros)"
    by (simp add: dict_item_def REGISTRY_def)
  moreover have "''safety_limit'' \<in> fst ` set (REGISTRY bare_ros)" by (simp add: REGISTRY_def)
  ultimately have "fst (acceptance_main bare_ros [''safety_limit''] None None new_ctx 0) = Inl (KeyError ?k)"
    using conn by (simp add: acceptance_main_def abind_def alift_def)
  with ex show ?thesis by blast
qed

end
