(* ===== verification/Report_Text.thy ===== *)
theory Report_Text
  imports Scenarios
begin

section \<open>What a run reports (\<open>ScenarioResult.report\<close> of \<open>scenarios/base.py\<close>, \<open>acceptance.py\<close>)\<close>

text \<open>
  The texts a run leaves behind: the report of a scenario, the machine-readable report as a document, and
  the Markdown rendered from that document, line by line. Rendering reads a document, so every access that
  may raise is a branch. \<open>str\<close> is Python's \<open>str()\<close> on documents that are not strings and \<open>exn_text\<close> the text
  of an exception. The theorems say that the report of a run can always be rendered and lists what was
  requested.
\<close>

subsection \<open>The report of a scenario\<close>

definition pad_right :: "nat \<Rightarrow> string \<Rightarrow> string" where
  "pad_right n s = s @ replicate (n - length s) (CHR '' '')"

definition pad_left :: "nat \<Rightarrow> string \<Rightarrow> string" where
  "pad_left n s = replicate (n - length s) (CHR '' '') @ s"

definition NOT_MET :: string where
  "NOT_MET = ''post-condition not met''"

definition detail_text :: "(exn \<Rightarrow> string) \<Rightarrow> step_result \<Rightarrow> string" where
  "detail_text exn_text s =
     (case sp_detail s of Some e \<Rightarrow> exn_text e | None \<Rightarrow> if sp_passed s then [] else NOT_MET)"

definition scenario_report :: "(exn \<Rightarrow> string) \<Rightarrow> string \<Rightarrow> step_result list \<Rightarrow> string list" where
  "scenario_report exn_text name ss =
     (''scenario: '' @ name)
     # map (\<lambda>s. ''  '' @ (if sp_passed s then ''ok  '' else ''FAIL'') @ '' '' @ pad_right 38 (sp_name s) @ '' ''
                @ pad_left 5 (py_fixed 2 (sp_seconds s)) @ ''s''
                @ (let d = detail_text exn_text s in if d = [] then [] else ''  '' @ d)) ss
     @ [''  '' @ (if all_passed ss then ''PASS'' else ''FAIL'') @ '' in '' @ py_fixed 2 (total_seconds ss) @ ''s'']"

subsection \<open>Fetching telemetry\<close>

text \<open>\<open>_fetch\<close>, from the outcome of the request and of decoding its body: \<open>None\<close> for the caught classes,
  and for a body that is \<open>null\<close>.\<close>

definition fetch :: "json res \<Rightarrow> json option res" where
  "fetch outcome =
     (case outcome of
        Inl e \<Rightarrow> if caught e [CURLError, CHTTPError, COSError, CJSONDecodeError] then Inr None else Inl e
      | Inr j \<Rightarrow> Inr (if j = JNull then None else Some j))"

subsection \<open>The report as a document\<close>

definition step_doc :: "(exn \<Rightarrow> string) \<Rightarrow> step_result \<Rightarrow> json" where
  "step_doc exn_text s =
     JObj [(''name'', JStr (sp_name s)), (''passed'', JBool (sp_passed s)),
           (''seconds'', JNum (py_round_to 2 (sp_seconds s))), (''detail'', JStr (detail_text exn_text s))]"

definition result_doc :: "(exn \<Rightarrow> string) \<Rightarrow> string \<times> bool \<times> step_result list \<Rightarrow> json" where
  "result_doc exn_text r =
     (case r of (name, passed, ss) \<Rightarrow>
        JObj [(''name'', JStr name), (''passed'', JBool passed), (''seconds'', JNum (py_round_to 2 (total_seconds ss))),
              (''steps'', JArr (map (step_doc exn_text) ss))])"

definition report_doc :: "(exn \<Rightarrow> string) \<Rightarrow> string \<Rightarrow> real \<Rightarrow> report \<Rightarrow> json" where
  "report_doc exn_text started_at seconds rep =
     JObj [(''verdict'', JStr (if rp_verdict rep then ''PASS'' else ''FAIL'')),
           (''started_at'', JStr started_at),
           (''duration_seconds'', JNum (py_round_to 2 seconds)),
           (''scenarios_requested'', JArr (map JStr (rp_requested rep))),
           (''scenarios_run'', JArr (map JStr (rp_run rep))),
           (''scenarios_skipped'', JArr (map JStr (rp_skipped rep))),
           (''results'', JArr (map (result_doc exn_text) (rp_results rep))),
           (''telemetry'', rp_telemetry rep)]"

subsection \<open>Markdown\<close>

definition VERSION_KEYS :: "string list" where
  "VERSION_KEYS = [''robot_id'', ''software_version'', ''git_commit'', ''firmware_version'', ''robot_model'',
                   ''config_profile'', ''hardware_target'']"

definition md_head :: "(json \<Rightarrow> string) \<Rightarrow> json \<Rightarrow> string list res" where
  "md_head str report =
     rbind (jitem report ''verdict'') (\<lambda>verdict.
     rbind (rbind (jitem report ''duration_seconds'') (shown_fixed 1)) (\<lambda>seconds.
     rbind (jitem report ''started_at'') (\<lambda>started_at.
       Inr [''# 3VN Robotics acceptance report'', [],
            ''**'' @ shown str verdict @ ''** in '' @ seconds @ ''s ('' @ shown str started_at @ '')'', []])))"

definition md_software :: "(json \<Rightarrow> string) \<Rightarrow> json \<Rightarrow> string list res" where
  "md_software str telemetry =
     rbind (jget telemetry ''available'' JNull) (\<lambda>available.
     rbind (if truthy available then jin ''version'' telemetry else Inr False) (\<lambda>known.
       if known
       then rbind (jitem telemetry ''version'') (\<lambda>version.
            rbind (rmap (\<lambda>key. rbind (jget version key (JStr ''unknown'')) (\<lambda>v.
                     Inr (''| '' @ key @ '' | `'' @ shown str v @ ''` |''))) VERSION_KEYS) (\<lambda>rows.
              Inr ([''## Software under test'', [], ''| field | value |'', ''|---|---|''] @ rows @ [[]])))
       else rbind (jget telemetry ''note'' (JStr ''dashboard not reachable'')) (\<lambda>note.
            case note of
              JStr n \<Rightarrow> Inr [''> Telemetry unavailable: '' @ n @ ''.'',
                            ''> The result below still stands, but cannot be tied to a specific build.'', []]
            | _ \<Rightarrow> Inl TypeError)))"

definition md_row :: "(json \<Rightarrow> string) \<Rightarrow> json \<Rightarrow> string res" where
  "md_row str result =
     rbind (jitem result ''passed'') (\<lambda>passed.
     rbind (jitem result ''name'') (\<lambda>name.
     rbind (rbind (jitem result ''seconds'') (shown_fixed 2)) (\<lambda>seconds.
       Inr (''| '' @ shown str name @ '' | '' @ (if truthy passed then ''pass'' else ''**FAIL**'') @ '' | ''
            @ seconds @ ''s |''))))"

definition SCENARIO_TABLE :: "string list" where
  "SCENARIO_TABLE = [''## Scenarios'', [], ''| scenario | result | time |'', ''|---|---|---|'']"

definition md_scenarios :: "(json \<Rightarrow> string) \<Rightarrow> json \<Rightarrow> string list res" where
  "md_scenarios str report =
     rbind (rbind (jitem report ''results'') jiter) (\<lambda>results.
     rbind (rmap (md_row str) results) (\<lambda>rows.
     rbind (rbind (jitem report ''scenarios_skipped'') jiter) (\<lambda>skipped.
       Inr (SCENARIO_TABLE @ rows @ map (\<lambda>s. ''| '' @ shown str s @ '' | skipped | - |'') skipped @ [[]]))))"

definition md_step :: "(json \<Rightarrow> string) \<Rightarrow> string \<Rightarrow> json \<Rightarrow> string list res" where
  "md_step str name s =
     rbind (jitem s ''passed'') (\<lambda>passed.
       if truthy passed then Inr []
       else rbind (jitem s ''name'') (\<lambda>step.
            rbind (jitem s ''detail'') (\<lambda>detail.
              Inr [''- `'' @ name @ ''` / '' @ shown str step @ '': ''
                   @ (if truthy detail then shown str detail else NOT_MET)])))"

definition md_failures :: "(json \<Rightarrow> string) \<Rightarrow> json \<Rightarrow> string list res" where
  "md_failures str report =
     rbind (rbind (jitem report ''results'') jiter) (\<lambda>results.
     rbind (rmap (\<lambda>r. rbind (jitem r ''passed'') (\<lambda>p. Inr (p, r))) results) (\<lambda>marked.
     let failures = map snd (filter (\<lambda>(p, r). \<not> truthy p) marked) in
       if failures = [] then Inr []
       else rbind (rmap (\<lambda>r.
              rbind (rbind (jitem r ''steps'') jiter) (\<lambda>steps.
              rbind (jitem r ''name'') (\<lambda>name.
              rbind (rmap (md_step str (shown str name)) steps) (\<lambda>ls. Inr (concat ls))))) failures) (\<lambda>blocks.
            Inr ([''## Failures'', []] @ concat blocks @ [[]]))))"

definition READINESS_TABLE :: "string list" where
  "READINESS_TABLE = [''## Telemetry at the end of the run'', [], ''| signal | value |'', ''|---|---|'']"

definition md_readiness :: "(json \<Rightarrow> string) \<Rightarrow> json \<Rightarrow> string list res" where
  "md_readiness str telemetry =
     rbind (jget telemetry ''readiness'' JNull) (\<lambda>readiness.
       if \<not> truthy readiness then Inr []
       else rbind (jitems readiness) (\<lambda>kvs.
            Inr (READINESS_TABLE @ map (\<lambda>(k, v). ''| '' @ k @ '' | `'' @ shown str v @ ''` |'') kvs @ [[]])))"

text \<open>The lines \<open>render_markdown\<close> joins with newlines.\<close>

definition render_markdown :: "(json \<Rightarrow> string) \<Rightarrow> json \<Rightarrow> string list res" where
  "render_markdown str report =
     rbind (md_head str report) (\<lambda>head.
     rbind (jitem report ''telemetry'') (\<lambda>telemetry.
     rbind (md_software str telemetry) (\<lambda>software.
     rbind (md_scenarios str report) (\<lambda>scenarios.
     rbind (md_failures str report) (\<lambda>failures.
     rbind (md_readiness str telemetry) (\<lambda>readiness.
       Inr (head @ software @ scenarios @ failures @ readiness)))))))"

subsection \<open>Where the report goes\<close>

text \<open>\<open>with_suffix\<close> of a path's last component: it replaces a suffix that is there.\<close>

definition with_suffix :: "string \<Rightarrow> string \<Rightarrow> string res" where
  "with_suffix name ending =
     (let r = rev name; ext = takeWhile (\<lambda>c. c \<noteq> CHR ''.'') r; rest = dropWhile (\<lambda>c. c \<noteq> CHR ''.'') r
      in if name = [] then Inl ValueError
         else if rest = [] \<or> ext = [] \<or> tl rest = [] then Inr (name @ ending)
         else Inr (rev (tl rest) @ ending))"

text \<open>The two files of \<open>--report\<close>, and the last lines of \<open>main\<close>.\<close>

definition report_files :: "string \<Rightarrow> (string \<times> string) res" where
  "report_files name = rbind (with_suffix name ''.json'') (\<lambda>j. rbind (with_suffix name ''.md'') (\<lambda>m. Inr (j, m)))"

definition summary_lines :: "real \<Rightarrow> report \<Rightarrow> string list res" where
  "summary_lines seconds rep =
     rbind (jget (rp_telemetry rep) ''available'' JNull) (\<lambda>available.
       Inr ([''  '' @ (if rp_verdict rep then ''PASS'' else ''FAIL'') @ '' -- ''
             @ show_nat (length (filter (\<lambda>(n, p, ss). p) (rp_results rep))) @ ''/'' @ show_nat (length (rp_requested rep))
             @ '' scenarios in '' @ py_fixed 1 (py_round_to 2 seconds) @ ''s'']
            @ (if truthy available then []
               else [''  (telemetry unavailable: run `make dash` alongside to tie the result to a build)''])))"

subsection \<open>Lemmas\<close>

lemma rmap_const [simp]: "rmap (\<lambda>x. Inr (f x)) xs = Inr (map f xs)"
  by (induction xs) auto

definition row_text :: "string \<times> bool \<times> step_result list \<Rightarrow> string" where
  "row_text r = (case r of (name, passed, ss) \<Rightarrow>
     ''| '' @ name @ '' | '' @ (if passed then ''pass'' else ''**FAIL**'') @ '' | ''
     @ py_fixed 2 (py_round_to 2 (total_seconds ss)) @ ''s |'')"

lemma md_row_result: "md_row str (result_doc exn_text r) = Inr (row_text r)"
  by (cases r) (simp add: md_row_def result_doc_def row_text_def shown_def shown_fixed_def)

lemma md_scenarios_report:
  "md_scenarios str (report_doc exn_text t secs rep) = Inr (SCENARIO_TABLE @ map row_text (rp_results rep)
     @ map (\<lambda>s. ''| '' @ s @ '' | skipped | - |'') (rp_skipped rep) @ [[]])"
proof -
  have "rmap (md_row str) (map (result_doc exn_text) rs) = Inr (map row_text rs)" for rs
    by (induction rs) (simp_all add: md_row_result)
  then show ?thesis by (simp add: md_scenarios_def report_doc_def shown_def o_def)
qed

lemma md_head_report: "\<exists>ls. md_head str (report_doc exn_text t secs rep) = Inr ls"
  by (simp add: md_head_def report_doc_def shown_fixed_def)

lemma md_step_doc: "\<exists>ls. md_step str name (step_doc exn_text s) = Inr ls"
  by (simp add: md_step_def step_doc_def)

lemma rmap_returns: "(\<And>x. x \<in> set xs \<Longrightarrow> \<exists>y. f x = Inr y) \<Longrightarrow> \<exists>ys. rmap f xs = Inr ys"
  by (induction xs) fastforce+

lemma result_doc_items [simp]:
  "jitem (result_doc exn_text d) ''name'' = Inr (JStr (fst d))"
  "jitem (result_doc exn_text d) ''passed'' = Inr (JBool (fst (snd d)))"
  "jitem (result_doc exn_text d) ''steps'' = Inr (JArr (map (step_doc exn_text) (snd (snd d))))"
  by (simp_all add: result_doc_def split: prod.splits)

lemma md_failures_report: "\<exists>ls. md_failures str (report_doc exn_text t secs rep) = Inr ls"
proof -
  let ?docs = "map (result_doc exn_text) (rp_results rep)"
  have marked: "rmap (\<lambda>r. rbind (jitem r ''passed'') (\<lambda>p. Inr (p, r))) (map (result_doc exn_text) rs) =
      Inr (map (\<lambda>d. (JBool (fst (snd d)), result_doc exn_text d)) rs)" for rs
    by (induction rs) simp_all
  have steps: "\<exists>ls. rmap (md_step str name) (map (step_doc exn_text) ss) = Inr ls" for name ss
    by (rule rmap_returns) (use md_step_doc in auto)
  have "\<exists>ys. rmap (\<lambda>r. rbind (rbind (jitem r ''steps'') jiter) (\<lambda>steps. rbind (jitem r ''name'') (\<lambda>name.
      rbind (rmap (md_step str (shown str name)) steps) (\<lambda>ls. Inr (concat ls)))))
      (map snd (filter (\<lambda>(p, r). \<not> truthy p) (map (\<lambda>d. (JBool (fst (snd d)), result_doc exn_text d)) (rp_results rep)))) = Inr ys"
  proof (rule rmap_returns)
    fix x
    assume "x \<in> set (map snd (filter (\<lambda>(p, r). \<not> truthy p)
        (map (\<lambda>d. (JBool (fst (snd d)), result_doc exn_text d)) (rp_results rep))))"
    then obtain d where x: "x = result_doc exn_text d" by auto
    obtain ls where "rmap (md_step str (shown str (JStr (fst d)))) (map (step_doc exn_text) (snd (snd d))) = Inr ls"
      using steps by blast
    then show "is_ok (rbind (rbind (jitem x ''steps'') jiter) (\<lambda>steps. rbind (jitem x ''name'') (\<lambda>name.
        rbind (rmap (md_step str (shown str name)) steps) (\<lambda>ls. Inr (concat ls)))))"
      by (simp add: x)
  qed
  then show ?thesis
    by (auto simp: md_failures_def report_doc_def marked Let_def)
qed

lemma telemetry_shape:
  assumes "collect_telemetry version state = Inr t"
  shows "t = JObj [(''available'', JBool False), (''note'', JStr (''dashboard not reachable at '' @ DASHBOARD))]
     \<or> (\<exists>rs. t = JObj ((''available'', JBool True)
            # (case version of None \<Rightarrow> [] | Some v \<Rightarrow> if truthy v then [(''version'', v)] else []) @ rs)
          \<and> (rs = [] \<or> (\<exists>kvs cs hs. rs = [(''readiness'', JObj kvs), (''controllers'', cs), (''hardware'', hs)])))"
  using assms
  by (cases version) (auto simp: collect_telemetry_def Let_def rbind_eq_Inr simp del: rmap.simps split: if_splits)

text \<open>What both endpoints answered, put together.\<close>

definition look_up :: "(string \<times> json) list \<Rightarrow> string \<Rightarrow> json \<Rightarrow> json" where
  "look_up kvs k dflt = (case map_of kvs k of None \<Rightarrow> dflt | Some v \<Rightarrow> v)"

lemma telemetry_of_both:
  assumes "truthy v" "kvs \<noteq> []"
  shows "collect_telemetry (Some v) (Some (JObj kvs)) = Inr (JObj
     [(''available'', JBool True), (''version'', v),
      (''readiness'', JObj (map (\<lambda>k. (k, look_up kvs k JNull))
         [''ready'', ''joints_fresh'', ''controllers_fresh'', ''hardware_fresh'', ''joint_messages'', ''uptime_seconds''])),
      (''controllers'', look_up kvs ''controllers'' (JArr [])), (''hardware'', look_up kvs ''hardware'' (JArr []))])"
  using assms by (simp add: collect_telemetry_def look_up_def)

lemma md_readiness_report:
  assumes "collect_telemetry version state = Inr t"
  shows "\<exists>ls. md_readiness str t = Inr ls"
  using telemetry_shape [OF assms] by (auto simp: md_readiness_def split: option.splits)

lemma md_software_report:
  assumes "collect_telemetry version state = Inr t" "\<And>v. version = Some v \<Longrightarrow> \<exists>kvs. v = JObj kvs"
  shows "\<exists>ls. md_software str t = Inr ls"
  using telemetry_shape [OF assms(1)] assms(2)
  by (cases version) (auto simp: md_software_def)

lemma render_report:
  assumes "collect_telemetry version state = Inr t" "\<And>v. version = Some v \<Longrightarrow> \<exists>kvs. v = JObj kvs"
  shows "\<exists>before after. render_markdown str (report_doc exn_text started_at secs (build_report results t names)) =
     Inr (before @ SCENARIO_TABLE @ map (\<lambda>(name, ss). row_text (name, all_passed ss, ss)) results
          @ map (\<lambda>name. ''| '' @ name @ '' | skipped | - |'') (drop (length results) names) @ [[]] @ after)"
proof -
  let ?rep = "build_report results t names"
  let ?doc = "report_doc exn_text started_at secs ?rep"
  obtain head where head: "md_head str ?doc = Inr head" using md_head_report by blast
  obtain sw where sw: "md_software str t = Inr sw" using md_software_report [OF assms] by blast
  obtain fs where fs: "md_failures str ?doc = Inr fs" using md_failures_report by blast
  obtain rd where rd: "md_readiness str t = Inr rd" using md_readiness_report [OF assms(1)] by blast
  have t: "jitem ?doc ''telemetry'' = Inr t" by (simp add: report_doc_def build_report_def)
  have rows: "map row_text (rp_results ?rep) = map (\<lambda>(name, ss). row_text (name, all_passed ss, ss)) results"
    "rp_skipped ?rep = drop (length results) names"
    by (simp_all add: build_report_def case_prod_beta o_def)
  have "render_markdown str ?doc = Inr ((head @ sw) @ SCENARIO_TABLE
             @ map (\<lambda>(name, ss). row_text (name, all_passed ss, ss)) results
             @ map (\<lambda>name. ''| '' @ name @ '' | skipped | - |'') (drop (length results) names)
             @ [[]] @ (fs @ rd))"
    by (simp add: render_markdown_def head sw fs rd t md_scenarios_report rows)
  then show ?thesis by blast
qed

lemma report_renders:
  "collect_telemetry version state = Inr t \<Longrightarrow> (\<And>v. version = Some v \<Longrightarrow> \<exists>kvs. v = JObj kvs) \<Longrightarrow>
     is_ok (render_markdown str (report_doc exn_text started_at secs (build_report results t names)))"
  using render_report [of version state t str exn_text started_at secs results names] by blast

subsection \<open>Properties\<close>

text \<open>C31: the report lists what was requested. For any sequence of scenarios that returned, whatever the
  dashboard answered (a version that is not a dictionary excepted), the Markdown is rendered without raising
  and its table has one row per requested scenario, in order: each that ran with pass or FAIL as it ended,
  then each that was skipped.\<close>

theorem report_lists_every_scenario:
  assumes run: "run_sequence r names c w = (Inr results, c', w')"
    and telemetry: "collect_telemetry version state = Inr t" "\<And>v. version = Some v \<Longrightarrow> \<exists>kvs. v = JObj kvs"
  shows "\<exists>before after. render_markdown str (report_doc exn_text started_at secs (build_report results t names)) =
           Inr (before @ SCENARIO_TABLE
             @ map (\<lambda>(name, ss). row_text (name, all_passed ss, ss)) results
             @ map (\<lambda>name. ''| '' @ name @ '' | skipped | - |'') (drop (length results) names)
             @ [[]] @ after)
         \<and> map fst results @ drop (length results) names = names"
proof -
  have "map fst results @ drop (length results) names = names"
    using run_sequence_results [OF run] by (metis append_take_drop_id)
  with render_report [OF telemetry] show ?thesis by blast
qed

theorem report_lists_every_scenario_witness:
  "\<exists>t results c' w' before after. run_sequence late_ros [''home''] new_ctx 0 = (Inr results, c', w')
     \<and> map fst results = [''home''] \<and> collect_telemetry None None = Inr t
     \<and> render_markdown (\<lambda>_. []) (report_doc (\<lambda>_. []) ''t'' 1 (build_report results t [''home'']))
       = Inr (before @ SCENARIO_TABLE @ map (\<lambda>(name, ss). row_text (name, all_passed ss, ss)) results @ [[]] @ after)"
proof -
  obtain results s c' w' where run: "run_sequence late_ros [''home''] new_ctx 0 = (Inr results, c', w')"
    and r: "results = [(''home'', [s])]"
    using late_run [OF unlimited_inside] by blast
  have names: "map fst results = [''home'']" and len: "length results = 1" by (simp_all add: r)
  obtain t where tel: "collect_telemetry None None = Inr t" by (simp add: collect_telemetry_def)
  obtain before after where md: "render_markdown (\<lambda>_. []) (report_doc (\<lambda>_. []) ''t'' 1 (build_report results t [''home'']))
       = Inr (before @ SCENARIO_TABLE @ map (\<lambda>(name, ss). row_text (name, all_passed ss, ss)) results @ [[]] @ after)"
    using report_lists_every_scenario [OF run tel, of "\<lambda>_. []" "\<lambda>_. []" "''t''" 1] by (auto simp add: len)
  show ?thesis by (rule exI [of _ t], rule exI [of _ results], rule exI [of _ c'], rule exI [of _ w'], rule exI [of _ before],
      rule exI [of _ after]) (intro conjI run names tel md)
qed

text \<open>A report can contradict itself. When the dashboard answers \<open>/api/state\<close> but not \<open>/api/version\<close>, the
  telemetry is available and its table is printed at the end, below a line that says it is unavailable
  because the dashboard cannot be reached.\<close>

theorem report_contradicts_itself:
  "\<exists>t ls. collect_telemetry None (Some (JObj (kv # kvs))) = Inr t
     \<and> jget t ''available'' JNull = Inr (JBool True)
     \<and> render_markdown str (report_doc exn_text started_at secs (build_report results t names)) = Inr ls
     \<and> ''> Telemetry unavailable: dashboard not reachable.'' \<in> set ls
     \<and> ''## Telemetry at the end of the run'' \<in> set ls"
proof -
  obtain rd cs hs where t: "collect_telemetry None (Some (JObj (kv # kvs))) = Inr (JObj [(''available'', JBool True),
      (''readiness'', JObj rd), (''controllers'', cs), (''hardware'', hs)])" "rd \<noteq> []"
    by (simp add: collect_telemetry_def)
  let ?t = "JObj [(''available'', JBool True), (''readiness'', JObj rd), (''controllers'', cs), (''hardware'', hs)]"
  let ?doc = "report_doc exn_text started_at secs (build_report results ?t names)"
  obtain head where head: "md_head str ?doc = Inr head" using md_head_report by blast
  obtain fs where fs: "md_failures str ?doc = Inr fs" using md_failures_report by blast
  have doc: "jitem ?doc ''telemetry'' = Inr ?t" by (simp add: report_doc_def build_report_def)
  have "\<exists>ls. render_markdown str ?doc = Inr ls
     \<and> ''> Telemetry unavailable: dashboard not reachable.'' \<in> set ls
     \<and> ''## Telemetry at the end of the run'' \<in> set ls"
    using t(2) by (simp add: render_markdown_def head fs doc md_scenarios_report md_software_def md_readiness_def
        READINESS_TABLE_def)
  with t(1) show ?thesis by fastforce
qed

text \<open>\<open>--report PREFIX\<close> is documented to write \<open>PREFIX.json\<close> and \<open>PREFIX.md\<close>. A prefix with a dot loses what
  follows it, so the reports of two runs that differ only there overwrite each other.\<close>

theorem report_prefix_loses_suffix:
  assumes "base \<noteq> []" "run \<noteq> []" "CHR ''.'' \<notin> set run"
  shows "report_files (base @ ''.'' @ run) = Inr (base @ ''.json'', base @ ''.md'')"
proof -
  have tw: "takeWhile (\<lambda>c. c \<noteq> CHR ''.'') (rev run @ CHR ''.'' # rev base) = rev run"
    "dropWhile (\<lambda>c. c \<noteq> CHR ''.'') (rev run @ CHR ''.'' # rev base) = CHR ''.'' # rev base"
    using assms(3) by (auto simp: takeWhile_append dropWhile_append)
  then show ?thesis using assms by (simp add: report_files_def with_suffix_def Let_def)
qed

theorem report_prefix_loses_suffix_witness:
  "report_files ''run.2'' = Inr (''run.json'', ''run.md'')"
  using report_prefix_loses_suffix [of "''run''" "''2''"] by simp

end
