(* ===== verification/Kinematics.thy ===== *)
theory Kinematics
  imports Robot_Client
begin

section \<open>Forward kinematics (\<open>threevn_control/kinematics.py\<close>)\<close>

text \<open>
  The transform of a link in a base frame, from the joints between them. A 4x4 array is the list of its
  rows. \<open>parent_map\<close> reads the joints from the expanded URDF (an \<open>xml\<close> tree); a missing attribute is
  \<open>None\<close>, as in \<open>Element.get\<close>. The loop of \<open>forward_kinematics\<close> is the recursion \<open>walk\<close>, which ends
  because the source's own guard stops it after 64 joints.
\<close>

type_synonym mat = "real list list"

definition eye4 :: mat where
  "eye4 = [[1, 0, 0, 0], [0, 1, 0, 0], [0, 0, 1, 0], [0, 0, 0, 1]]"

definition matmul :: "mat \<Rightarrow> mat \<Rightarrow> mat" where
  "matmul a b = map (\<lambda>row. map (\<lambda>j. sum_list (map2 (*) row (map (\<lambda>r. r ! j) b))) [0..<4]) a"

subsection \<open>Elementary transforms\<close>

definition rodrigues :: "real \<Rightarrow> real \<Rightarrow> real \<Rightarrow> real \<Rightarrow> real \<Rightarrow> mat" where
  "rodrigues x y z c s =
     (let d = 1 - c in
      [[c + x * x * d, x * y * d - z * s, x * z * d + y * s, 0],
       [y * x * d + z * s, c + y * y * d, y * z * d - x * s, 0],
       [z * x * d - y * s, z * y * d + x * s, c + z * z * d, 0],
       [0, 0, 0, 1]])"

definition rotation :: "real list \<Rightarrow> real \<Rightarrow> mat res" where
  "rotation axis angle =
     (case axis of
        [x, y, z] \<Rightarrow>
          (let norm = sqrt (x * x + y * y + z * z) in
           if norm = 0 then Inr eye4
           else Inr (rodrigues (x / norm) (y / norm) (z / norm) (cos angle) (sin angle)))
      | _ \<Rightarrow> Inl ValueError)"

definition rpy_to_matrix :: "real \<Rightarrow> real \<Rightarrow> real \<Rightarrow> mat res" where
  "rpy_to_matrix roll pitch yaw =
     rbind (rotation [0, 0, 1] yaw) (\<lambda>rz.
     rbind (rotation [0, 1, 0] pitch) (\<lambda>ry.
     rbind (rotation [1, 0, 0] roll) (\<lambda>rx.
       Inr (matmul (matmul rz ry) rx))))"

text \<open>Assigning to the column \<open>matrix[:3, 3]\<close> takes three values, or broadcasts one.\<close>

definition translation :: "real list \<Rightarrow> mat res" where
  "translation xyz =
     (case xyz of
        [x, y, z] \<Rightarrow> Inr [[1, 0, 0, x], [0, 1, 0, y], [0, 0, 1, z], [0, 0, 0, 1]]
      | [x] \<Rightarrow> Inr [[1, 0, 0, x], [0, 1, 0, x], [0, 0, 1, x], [0, 0, 0, 1]]
      | _ \<Rightarrow> Inl ValueError)"

subsection \<open>Joints\<close>

text \<open>A joint description: each field may be missing, as in a YAML profile.\<close>

record joint_spec =
  js_name :: "string option"
  js_parent :: "string option"
  js_xyz :: "real list option"
  js_rpy :: "real list option"
  js_type :: "string option"
  js_axis :: "real list option"

definition joint_axis :: "joint_spec \<Rightarrow> real list res" where
  "joint_axis spec = (case js_axis spec of None \<Rightarrow> Inl (KeyError ''axis'') | Some a \<Rightarrow> Inr a)"

definition joint_fixed :: "joint_spec \<Rightarrow> mat res" where
  "joint_fixed spec =
     (let xyz = (case js_xyz spec of None \<Rightarrow> [0, 0, 0] | Some v \<Rightarrow> v);
          rpy = (case js_rpy spec of None \<Rightarrow> [0, 0, 0] | Some v \<Rightarrow> v)
      in rbind (translation xyz) (\<lambda>t.
         rbind (case rpy of [r, p, y] \<Rightarrow> rpy_to_matrix r p y | _ \<Rightarrow> Inl TypeError) (\<lambda>r.
           Inr (matmul t r))))"

definition unit_or_zero :: "real list \<Rightarrow> real list" where
  "unit_or_zero axis =
     (let norm = sqrt (sum_list (map (\<lambda>x. x * x) axis))
      in if norm = 0 then axis else map (\<lambda>x. x / norm) axis)"

definition joint_transform :: "joint_spec \<Rightarrow> real \<Rightarrow> mat res" where
  "joint_transform spec position =
     rbind (joint_fixed spec) (\<lambda>fixed.
     let kind = (case js_type spec of None \<Rightarrow> ''fixed'' | Some k \<Rightarrow> k) in
     if kind = ''revolute'' then
       rbind (joint_axis spec) (\<lambda>axis. rbind (rotation axis position) (\<lambda>r. Inr (matmul fixed r)))
     else if kind = ''prismatic'' then
       rbind (joint_axis spec) (\<lambda>axis.
       rbind (translation (map (\<lambda>x. x * position) (unit_or_zero axis))) (\<lambda>t. Inr (matmul fixed t)))
     else Inr fixed)"

subsection \<open>The tree of joints\<close>

text \<open>\<open>s.split()\<close>.\<close>

function split_ws :: "string \<Rightarrow> string list" where
  "split_ws s =
     (case dropWhile is_space s of
        [] \<Rightarrow> []
      | c # r \<Rightarrow> (c # takeWhile (\<lambda>x. \<not> is_space x) r) # split_ws (dropWhile (\<lambda>x. \<not> is_space x) r))"
  by pat_completeness auto
termination
proof (relation "measure length")
  fix s c r
  assume "dropWhile is_space s = c # r"
  then have "length (c # r) \<le> length s" by (metis length_dropWhile_le)
  moreover have "length (dropWhile (\<lambda>x. \<not> is_space x) r) \<le> length r" by (rule length_dropWhile_le)
  ultimately show "(dropWhile (\<lambda>x. \<not> is_space x) r, s) \<in> measure length" by simp
qed simp

text \<open>\<open>[float(v) for v in el.get(k).split()]\<close> when the attribute is there and not empty.\<close>

definition floats_or :: "real list \<Rightarrow> xml option \<Rightarrow> string \<Rightarrow> real list res" where
  "floats_or other el k =
     (case el of
        None \<Rightarrow> Inr other
      | Some x \<Rightarrow> (case xml_get x k of
                    Some (c # s) \<Rightarrow> rmap py_float_str (split_ws (c # s))
                  | _ \<Rightarrow> Inr other))"

type_synonym parents = "(string option \<times> joint_spec) list"

definition add_parent :: "xml \<Rightarrow> parents \<Rightarrow> parents res" where
  "add_parent joint ps =
     (case (xml_find joint ''child'', xml_find joint ''parent'') of
        (Some child, Some parent) \<Rightarrow>
          (let origin = xml_find joint ''origin'' in
           rbind (floats_or [0, 0, 0] origin ''xyz'') (\<lambda>xyz.
           rbind (floats_or [0, 0, 0] origin ''rpy'') (\<lambda>rpy.
           rbind (floats_or [0, 0, 1] (xml_find joint ''axis'') ''xyz'') (\<lambda>axis.
             Inr (AList.update (xml_get child ''link'')
               \<lparr>js_name = xml_get joint ''name'', js_parent = xml_get parent ''link'',
                js_xyz = Some xyz, js_rpy = Some rpy,
                js_type = Some (case xml_get joint ''type'' of None \<Rightarrow> ''fixed'' | Some k \<Rightarrow> k),
                js_axis = Some axis\<rparr> ps)))))
      | _ \<Rightarrow> Inr ps)"

fun add_parents :: "xml list \<Rightarrow> parents \<Rightarrow> parents res" where
  "add_parents [] ps = Inr ps"
| "add_parents (j # js) ps = rbind (add_parent j ps) (add_parents js)"

definition parent_map :: "xml \<Rightarrow> parents res" where
  "parent_map urdf = add_parents (iter_joints urdf) []"

subsection \<open>Forward kinematics\<close>

definition joint_position :: "(string \<times> real) list \<Rightarrow> joint_spec \<Rightarrow> real" where
  "joint_position positions spec =
     (case js_name spec of
        None \<Rightarrow> 0
      | Some n \<Rightarrow> (case map_of positions n of None \<Rightarrow> 0 | Some p \<Rightarrow> p))"

function walk :: "parents \<Rightarrow> (string \<times> real) list \<Rightarrow> string option \<Rightarrow> string option \<Rightarrow> nat \<Rightarrow> mat list res" where
  "walk ps positions base node guard =
     (if node = base then Inr []
      else case map_of ps node of
        None \<Rightarrow> Inl ValueError
      | Some spec \<Rightarrow>
          rbind (joint_transform spec (joint_position positions spec)) (\<lambda>m.
            if 64 < guard + 1 then Inl ValueError
            else rbind (walk ps positions base (js_parent spec) (guard + 1)) (\<lambda>ms. Inr (m # ms))))"
  by pat_completeness auto
termination by (relation "measure (\<lambda>(ps, positions, base, node, guard). 65 - guard)") auto

definition forward_kinematics ::
  "parents \<Rightarrow> (string \<times> real) list \<Rightarrow> string \<Rightarrow> string \<Rightarrow> mat res" where
  "forward_kinematics ps positions target base =
     rbind (walk ps positions (Some base) (Some target) 0) (\<lambda>transforms.
       Inr (foldl matmul eye4 (rev transforms)))"

definition forward_kinematics_urdf ::
  "xml \<Rightarrow> (string \<times> real) list \<Rightarrow> string \<Rightarrow> string \<Rightarrow> mat res" where
  "forward_kinematics_urdf urdf positions target base =
     rbind (parent_map urdf) (\<lambda>ps. forward_kinematics ps positions target base)"

definition tool_position :: "parents \<Rightarrow> (string \<times> real) list \<Rightarrow> string \<Rightarrow> string \<Rightarrow> (real \<times> real \<times> real) res" where
  "tool_position ps positions target base =
     rbind (forward_kinematics ps positions target base) (\<lambda>t.
       Inr (t ! 0 ! 3, t ! 1 ! 3, t ! 2 ! 3))"


declare split_ws.simps [simp del] walk.simps [simp del]

subsection \<open>Lemmas: rigid transforms\<close>

fun apply_point :: "mat \<Rightarrow> real \<times> real \<times> real \<Rightarrow> real \<times> real \<times> real" where
  "apply_point t (x, y, z) =
     (t ! 0 ! 0 * x + t ! 0 ! 1 * y + t ! 0 ! 2 * z + t ! 0 ! 3,
      t ! 1 ! 0 * x + t ! 1 ! 1 * y + t ! 1 ! 2 * z + t ! 1 ! 3,
      t ! 2 ! 0 * x + t ! 2 ! 1 * y + t ! 2 ! 2 * z + t ! 2 ! 3)"

fun sqdist :: "real \<times> real \<times> real \<Rightarrow> real \<times> real \<times> real \<Rightarrow> real" where
  "sqdist (x, y, z) (x', y', z') = (x - x')\<^sup>2 + (y - y')\<^sup>2 + (z - z')\<^sup>2"

definition homogeneous :: "mat \<Rightarrow> bool" where
  "homogeneous t \<longleftrightarrow> (\<exists>a b c p d e f q g h i r.
     t = [[a, b, c, p], [d, e, f, q], [g, h, i, r], [0, 0, 0, 1]])"

definition rigid :: "mat \<Rightarrow> bool" where
  "rigid t \<longleftrightarrow> homogeneous t \<and> (\<forall>p q. sqdist (apply_point t p) (apply_point t q) = sqdist p q)"

lemma upt4: "[0..<4] = [0, 1, 2, 3 :: nat]"
  by (simp add: upt_rec)

lemma homogeneous_matmul: "homogeneous s \<Longrightarrow> homogeneous t \<Longrightarrow> homogeneous (matmul s t)"
  by (auto simp: homogeneous_def matmul_def upt4)

lemma apply_matmul:
  "homogeneous s \<Longrightarrow> homogeneous t \<Longrightarrow> apply_point (matmul s t) p = apply_point s (apply_point t p)"
  by (cases p) (auto simp: homogeneous_def matmul_def upt4 algebra_simps)

lemma rigid_matmul: "rigid s \<Longrightarrow> rigid t \<Longrightarrow> rigid (matmul s t)"
  by (simp add: rigid_def homogeneous_matmul apply_matmul)

lemma rigid_eye4: "rigid eye4"
  by (auto simp: rigid_def homogeneous_def eye4_def)

lemma matmul_eye4: "homogeneous t \<Longrightarrow> matmul eye4 t = t" "homogeneous t \<Longrightarrow> matmul t eye4 = t"
  by (auto simp: homogeneous_def matmul_def eye4_def upt4)

lemma matmul_assoc:
  "homogeneous s \<Longrightarrow> homogeneous t \<Longrightarrow> homogeneous u \<Longrightarrow> matmul (matmul s t) u = matmul s (matmul t u)"
  by (auto simp: homogeneous_def matmul_def upt4 algebra_simps)

lemma rigid_translation: "translation v = Inr t \<Longrightarrow> rigid t"
  by (auto simp: translation_def rigid_def homogeneous_def split: list.splits)

text \<open>Rodrigues' formula keeps lengths: the rotated vector is \<open>c v + s (u \<times> v) + (1 - c) (u . v) u\<close>.\<close>

lemma rodrigues_norm:
  fixes x y z c s vx vy vz :: real
  assumes u: "x\<^sup>2 + y\<^sup>2 + z\<^sup>2 = 1" and cs: "c\<^sup>2 + s\<^sup>2 = 1"
  shows "((c + x * x * (1 - c)) * vx + (x * y * (1 - c) - z * s) * vy + (x * z * (1 - c) + y * s) * vz)\<^sup>2
       + ((y * x * (1 - c) + z * s) * vx + (c + y * y * (1 - c)) * vy + (y * z * (1 - c) - x * s) * vz)\<^sup>2
       + ((z * x * (1 - c) - y * s) * vx + (z * y * (1 - c) + x * s) * vy + (c + z * z * (1 - c)) * vz)\<^sup>2
       = vx\<^sup>2 + vy\<^sup>2 + vz\<^sup>2"
proof -
  define k where "k = x * vx + y * vy + z * vz"
  define wx where "wx = y * vz - z * vy"
  define wy where "wy = z * vx - x * vz"
  define wz where "wz = x * vy - y * vx"
  let ?d = "1 - c" and ?v = "vx\<^sup>2 + vy\<^sup>2 + vz\<^sup>2" and ?u = "x\<^sup>2 + y\<^sup>2 + z\<^sup>2"
  have rows: "(c + x * x * ?d) * vx + (x * y * ?d - z * s) * vy + (x * z * ?d + y * s) * vz = c * vx + s * wx + ?d * k * x"
    "(y * x * ?d + z * s) * vx + (c + y * y * ?d) * vy + (y * z * ?d - x * s) * vz = c * vy + s * wy + ?d * k * y"
    "(z * x * ?d - y * s) * vx + (z * y * ?d + x * s) * vy + (c + z * z * ?d) * vz = c * vz + s * wz + ?d * k * z"
    by (simp_all add: k_def wx_def wy_def wz_def algebra_simps)
  have dots: "vx * wx + vy * wy + vz * wz = 0" "x * wx + y * wy + z * wz = 0"
    and lagrange: "wx\<^sup>2 + wy\<^sup>2 + wz\<^sup>2 = ?u * ?v - k\<^sup>2"
    by (simp_all add: k_def wx_def wy_def wz_def power2_eq_square algebra_simps)
  have "(c * vx + s * wx + ?d * k * x)\<^sup>2 + (c * vy + s * wy + ?d * k * y)\<^sup>2 + (c * vz + s * wz + ?d * k * z)\<^sup>2
      = c\<^sup>2 * ?v + s\<^sup>2 * (wx\<^sup>2 + wy\<^sup>2 + wz\<^sup>2) + ?d\<^sup>2 * k\<^sup>2 * ?u + 2 * c * s * (vx * wx + vy * wy + vz * wz)
        + 2 * c * ?d * k * k + 2 * s * ?d * k * (x * wx + y * wy + z * wz)"
    unfolding power2_eq_square k_def by (simp add: algebra_simps)
  also have "\<dots> = c\<^sup>2 * ?v + s\<^sup>2 * (?v - k\<^sup>2) + ?d\<^sup>2 * k\<^sup>2 + 2 * c * ?d * k * k"
    by (simp add: dots lagrange u)
  also have "\<dots> = (c\<^sup>2 + s\<^sup>2) * ?v + (1 - (c\<^sup>2 + s\<^sup>2)) * k\<^sup>2"
    by (simp add: power2_eq_square algebra_simps)
  finally show ?thesis by (simp add: rows cs)
qed

lemma rigid_rodrigues:
  assumes "x\<^sup>2 + y\<^sup>2 + z\<^sup>2 = 1" "c\<^sup>2 + s\<^sup>2 = 1"
  shows "rigid (rodrigues x y z c s)"
proof -
  have "homogeneous (rodrigues x y z c s)" by (simp add: homogeneous_def rodrigues_def Let_def)
  moreover have "sqdist (apply_point (rodrigues x y z c s) p) (apply_point (rodrigues x y z c s) q) = sqdist p q" for p q
  proof -
    obtain px py pz qx qy qz where pq: "p = (px, py, pz)" "q = (qx, qy, qz)" by (cases p, cases q) auto
    show ?thesis
      using rodrigues_norm [OF assms, of "px - qx" "py - qy" "pz - qz"]
      by (simp add: pq rodrigues_def Let_def right_diff_distrib) (simp add: algebra_simps)
  qed
  ultimately show ?thesis by (simp add: rigid_def)
qed

lemma rigid_rotation: "rotation axis angle = Inr t \<Longrightarrow> rigid t"
proof -
  assume t: "rotation axis angle = Inr t"
  then obtain x y z where axis: "axis = [x, y, z]" by (auto simp: rotation_def split: list.splits)
  define n where "n = sqrt (x * x + y * y + z * z)"
  show ?thesis
  proof (cases "n = 0")
    case True
    with t show ?thesis by (simp add: rotation_def axis n_def rigid_eye4)
  next
    case False
    have "0 \<le> x * x + y * y + z * z" by simp
    then have n2: "n\<^sup>2 = x\<^sup>2 + y\<^sup>2 + z\<^sup>2" by (simp add: n_def power2_eq_square)
    with False have "x\<^sup>2 + y\<^sup>2 + z\<^sup>2 \<noteq> 0" by (metis zero_eq_power2)
    with n2 have "(x / n)\<^sup>2 + (y / n)\<^sup>2 + (z / n)\<^sup>2 = 1"
      by (simp add: power_divide flip: add_divide_distrib)
    moreover have "(cos angle)\<^sup>2 + (sin angle)\<^sup>2 = 1" by simp
    ultimately have "rigid (rodrigues (x / n) (y / n) (z / n) (cos angle) (sin angle))" by (rule rigid_rodrigues)
    with False t show ?thesis by (simp add: rotation_def axis n_def Let_def)
  qed
qed


lemma rigid_rpy: "rpy_to_matrix r p y = Inr t \<Longrightarrow> rigid t"
  by (auto simp: rpy_to_matrix_def rbind_eq_Inr intro!: rigid_matmul dest: rigid_rotation)

lemma rigid_joint_fixed: "joint_fixed spec = Inr t \<Longrightarrow> rigid t"
  by (auto simp: joint_fixed_def Let_def rbind_eq_Inr intro!: rigid_matmul
      dest: rigid_translation rigid_rpy split: list.splits)

lemma rigid_joint_transform: "joint_transform spec q = Inr t \<Longrightarrow> rigid t"
  by (auto simp: joint_transform_def Let_def rbind_eq_Inr intro!: rigid_matmul
      dest: rigid_joint_fixed rigid_rotation rigid_translation split: if_splits)

subsection \<open>Lemmas: the walk to the base\<close>

text \<open>The link \<open>n\<close> joints above \<open>node\<close>.\<close>

fun link_above :: "parents \<Rightarrow> nat \<Rightarrow> string option \<Rightarrow> string option option" where
  "link_above ps 0 node = Some node"
| "link_above ps (Suc n) node = (case map_of ps node of None \<Rightarrow> None | Some spec \<Rightarrow> link_above ps n (js_parent spec))"

text \<open>A description whose numbers have the lengths the code unpacks: what \<open>parent_map\<close> gives for a URDF
  with well-formed triples.\<close>

definition spec_ok :: "joint_spec \<Rightarrow> bool" where
  "spec_ok spec \<longleftrightarrow>
     (\<forall>v. js_xyz spec = Some v \<longrightarrow> length v = 3) \<and> (\<forall>v. js_rpy spec = Some v \<longrightarrow> length v = 3)
     \<and> (js_type spec \<in> {Some ''revolute'', Some ''prismatic''} \<longrightarrow> (\<exists>v. js_axis spec = Some v \<and> length v = 3))"

lemma length3: "length v = 3 \<longleftrightarrow> (\<exists>x y z. v = [x, y, z])"
  by (auto simp: numeral_3_eq_3 length_Suc_conv)

lemma rotation_ok: "length v = 3 \<Longrightarrow> is_ok (rotation v angle)"
  by (auto simp: rotation_def length3 Let_def)

lemma translation_ok: "length v = 3 \<Longrightarrow> is_ok (translation v)"
  by (auto simp: translation_def length3)

lemma rpy_ok: "is_ok (rpy_to_matrix r p y)"
  using rotation_ok [of "[0, 0, 1]" y] rotation_ok [of "[0, 1, 0]" p] rotation_ok [of "[1, 0, 0]" r]
  by (auto simp: rpy_to_matrix_def)

lemma joint_fixed_ok:
  assumes "spec_ok spec"
  shows "is_ok (joint_fixed spec)"
proof -
  let ?xyz = "case js_xyz spec of None \<Rightarrow> [0, 0, 0] | Some v \<Rightarrow> v"
  let ?rpy = "case js_rpy spec of None \<Rightarrow> [0, 0, 0] | Some v \<Rightarrow> v"
  have "length ?xyz = 3" "length ?rpy = 3" using assms by (auto simp: spec_ok_def split: option.splits)
  then obtain t r p y where "translation ?xyz = Inr t" "?rpy = [r, p, y]"
    using translation_ok [of ?xyz] by (auto simp: length3)
  then show ?thesis using rpy_ok [of r p y] by (auto simp: joint_fixed_def Let_def)
qed

lemma joint_transform_ok:
  assumes "spec_ok spec"
  shows "is_ok (joint_transform spec q)"
proof -
  obtain f where f: "joint_fixed spec = Inr f" using joint_fixed_ok [OF assms] by blast
  have ax: "is_ok (rotation v q)" "is_ok (translation (map (\<lambda>x. x * q) (unit_or_zero v)))" if "length v = 3" for v
    using that by (auto intro!: rotation_ok translation_ok simp: unit_or_zero_def Let_def)
  show ?thesis
  proof (cases "js_type spec \<in> {Some ''revolute'', Some ''prismatic''}")
    case True
    then obtain v where v: "js_axis spec = Some v" "length v = 3" using assms by (auto simp: spec_ok_def)
    obtain r t where "rotation v q = Inr r" "translation (map (\<lambda>x. x * q) (unit_or_zero v)) = Inr t"
      using ax [OF v(2)] by blast
    then show ?thesis using True f v(1) by (auto simp: joint_transform_def joint_axis_def Let_def)
  next
    case False
    then show ?thesis using f by (cases "js_type spec") (auto simp: joint_transform_def Let_def)
  qed
qed

lemma walk_base: "walk ps positions base base guard = Inr []"
  by (simp add: walk.simps)

lemma walk_reaches:
  assumes "\<And>node spec. map_of ps node = Some spec \<Longrightarrow> spec_ok spec" and "guard \<le> 64"
  shows "if \<exists>n. guard + n \<le> 64 \<and> link_above ps n node = Some base
     then is_ok (walk ps positions base node guard) else walk ps positions base node guard = Inl ValueError"
  using assms(2)
proof (induction "64 - guard" arbitrary: guard node rule: less_induct)
  case less
  show ?case
  proof (cases "node = base")
    case True
    then have "guard + 0 \<le> 64 \<and> link_above ps 0 node = Some base" using less.prems by simp
    then have "\<exists>n. guard + n \<le> 64 \<and> link_above ps n node = Some base" by blast
    with True show ?thesis by (simp add: walk_base)
  next
    case neq: False
    show ?thesis
    proof (cases "map_of ps node")
      case None
      then have "link_above ps n node \<noteq> Some base" for n using neq by (cases n) auto
      with None neq show ?thesis by (simp add: walk.simps [of ps positions base node])
    next
      case (Some spec)
      have shift: "(\<exists>n. guard + n \<le> 64 \<and> link_above ps n node = Some base)
          \<longleftrightarrow> (\<exists>n. guard + 1 + n \<le> 64 \<and> link_above ps n (js_parent spec) = Some base)"
      proof
        assume "\<exists>n. guard + n \<le> 64 \<and> link_above ps n node = Some base"
        then obtain n where "guard + n \<le> 64" "link_above ps n node = Some base" by blast
        with neq Some show "\<exists>n. guard + 1 + n \<le> 64 \<and> link_above ps n (js_parent spec) = Some base"
          by (cases n) auto
      next
        assume "\<exists>n. guard + 1 + n \<le> 64 \<and> link_above ps n (js_parent spec) = Some base"
        then obtain n where "guard + 1 + n \<le> 64" "link_above ps n (js_parent spec) = Some base" by blast
        with Some show "\<exists>n. guard + n \<le> 64 \<and> link_above ps n node = Some base"
          by (intro exI [of _ "Suc n"]) simp
      qed
      obtain m where m: "joint_transform spec (joint_position positions spec) = Inr m"
        using joint_transform_ok assms(1) [OF Some] by blast
      show ?thesis
      proof (cases "guard < 64")
        case True
        then have "64 - (guard + 1) < 64 - guard" "guard + 1 \<le> 64" by simp_all
        note ih = less.hyps [OF this, of "js_parent spec"]
        show ?thesis
          unfolding shift walk.simps [of ps positions base node] using neq Some m True ih
          by (auto split: if_splits)
      next
        case False
        then show ?thesis
          unfolding shift walk.simps [of ps positions base node] using neq Some m by simp
      qed
    qed
  qed
qed

lemma rigid_walk: "walk ps positions base node guard = Inr ms \<Longrightarrow> \<forall>m \<in> set ms. rigid m"
proof (induction ps positions base node guard arbitrary: ms rule: walk.induct)
  case (1 ps positions base node guard)
  show ?case
  proof (cases "node = base")
    case True
    with "1.prems" show ?thesis by (simp add: walk.simps)
  next
    case False
    with "1.prems" obtain spec m ms' where
      spec: "map_of ps node = Some spec" "joint_transform spec (joint_position positions spec) = Inr m"
      and w: "walk ps positions base (js_parent spec) (guard + 1) = Inr ms'" "\<not> 64 < guard + 1" "ms = m # ms'"
      by (subst (asm) walk.simps) (auto simp: rbind_eq_Inr split: option.splits if_splits)
    then have "\<forall>m \<in> set ms'. rigid m" using "1.IH" [OF False spec(1)] by blast
    with w(3) rigid_joint_transform [OF spec(2)] show ?thesis by simp
  qed
qed

lemma rigid_foldl: "rigid t \<Longrightarrow> \<forall>m \<in> set ms. rigid m \<Longrightarrow> rigid (foldl matmul t ms)"
  by (induction ms arbitrary: t) (auto intro: rigid_matmul)


text \<open>Joints between a link and the first occurrence of the base above it.\<close>

definition hops :: "parents \<Rightarrow> string option \<Rightarrow> string option \<Rightarrow> nat \<Rightarrow> bool" where
  "hops ps node base n \<longleftrightarrow> link_above ps n node = Some base \<and> (\<forall>i<n. link_above ps i node \<noteq> Some base)"

lemma hops_0: "hops ps node base 0 \<longleftrightarrow> node = base"
  by (simp add: hops_def)

lemma hops_Suc:
  "hops ps node base (Suc n) \<longleftrightarrow>
     node \<noteq> base \<and> (\<exists>spec. map_of ps node = Some spec \<and> hops ps (js_parent spec) base n)"
  by (auto simp: hops_def All_less_Suc2 split: option.splits)

text \<open>The transforms of the first \<open>n\<close> joints above a link.\<close>

fun joints_up :: "parents \<Rightarrow> (string \<times> real) list \<Rightarrow> nat \<Rightarrow> string option \<Rightarrow> mat list res" where
  "joints_up ps positions 0 node = Inr []"
| "joints_up ps positions (Suc n) node =
     (case map_of ps node of
        None \<Rightarrow> Inl ValueError
      | Some spec \<Rightarrow>
          rbind (joint_transform spec (joint_position positions spec)) (\<lambda>m.
            rbind (joints_up ps positions n (js_parent spec)) (\<lambda>ms. Inr (m # ms))))"

lemma walk_joints_up:
  "hops ps node base n \<Longrightarrow> guard + n \<le> 64 \<Longrightarrow> walk ps positions base node guard = joints_up ps positions n node"
proof (induction n arbitrary: node guard)
  case 0
  then show ?case by (simp add: hops_0 walk_base)
next
  case (Suc n)
  then obtain spec where spec: "node \<noteq> base" "map_of ps node = Some spec" "hops ps (js_parent spec) base n"
    by (auto simp: hops_Suc)
  then have "walk ps positions base (js_parent spec) (guard + 1) = joints_up ps positions n (js_parent spec)"
    using Suc.prems(2) by (intro Suc.IH) auto
  with spec Suc.prems(2) show ?case by (simp add: walk.simps [of ps positions base node])
qed

lemma joints_up_add:
  "joints_up ps positions m node = Inr as \<Longrightarrow> link_above ps m node = Some mid
   \<Longrightarrow> joints_up ps positions n mid = Inr bs \<Longrightarrow> joints_up ps positions (m + n) node = Inr (as @ bs)"
  by (induction m arbitrary: node as) (auto simp: rbind_eq_Inr split: option.splits)

lemma hops_add:
  "hops ps node mid m \<Longrightarrow> hops ps mid base n \<Longrightarrow> \<forall>i<m. link_above ps i node \<noteq> Some base \<Longrightarrow> hops ps node base (m + n)"
proof (induction m arbitrary: node)
  case (Suc m)
  then obtain spec where spec: "map_of ps node = Some spec" "hops ps (js_parent spec) mid m"
    by (auto simp: hops_Suc)
  have "node \<noteq> base" using Suc.prems(3) [rule_format, of 0] by simp
  moreover have "\<forall>i<m. link_above ps i (js_parent spec) \<noteq> Some base"
  proof (intro allI impI)
    fix i assume "i < m"
    then show "link_above ps i (js_parent spec) \<noteq> Some base"
      using Suc.prems(3) [rule_format, of "Suc i"] spec(1) by simp
  qed
  ultimately show ?case using Suc.IH [OF spec(2) Suc.prems(2)] spec(1) by (simp add: hops_Suc)
qed (simp add: hops_0)

lemma foldl_matmul_homogeneous:
  "homogeneous t \<Longrightarrow> \<forall>m \<in> set ms. homogeneous m \<Longrightarrow> foldl matmul t ms = matmul t (foldl matmul eye4 ms)
     \<and> homogeneous (foldl matmul eye4 ms)"
proof (induction ms arbitrary: t rule: rev_induct)
  case Nil
  then show ?case using rigid_eye4 by (simp add: matmul_eye4 rigid_def)
next
  case (snoc m ms)
  then show ?case by (auto simp: homogeneous_matmul matmul_assoc)
qed

lemma forward_kinematics_hops:
  assumes "hops ps (Some target) (Some base) n" "n \<le> 64"
  shows "forward_kinematics ps positions target base
       = rbind (joints_up ps positions n (Some target)) (\<lambda>ms. Inr (foldl matmul eye4 (rev ms)))"
  using walk_joints_up [OF assms(1), of 0] assms(2) by (simp add: forward_kinematics_def)

lemma rigid_joints_up: "joints_up ps positions n node = Inr ms \<Longrightarrow> \<forall>m \<in> set ms. rigid m"
  by (induction n arbitrary: node ms) (auto simp: rbind_eq_Inr dest: rigid_joint_transform split: option.splits)

subsection \<open>Properties\<close>

text \<open>C13: forward kinematics always answers. For a description whose triples are well formed, whatever its
  shape (a chain, a forest, a cycle): the transform is returned exactly when the base lies at most 64
  joints above the target; in every other case, a cycle and a chain too long included, the loop stops and
  raises \<open>ValueError\<close>.\<close>

theorem forward_kinematics_returns_iff:
  assumes "\<And>node spec. map_of ps node = Some spec \<Longrightarrow> spec_ok spec"
  shows "if \<exists>n \<le> 64. link_above ps n (Some target) = Some (Some base)
     then \<exists>t. forward_kinematics ps positions target base = Inr t
     else forward_kinematics ps positions target base = Inl ValueError"
  using walk_reaches [of ps 0 "Some target" "Some base" positions] assms
  by (auto simp: forward_kinematics_def split: if_splits)

definition demo_joint :: "string \<Rightarrow> joint_spec" where
  "demo_joint p = \<lparr>js_name = Some ''j'', js_parent = Some p, js_xyz = Some [1, 0, 0], js_rpy = None,
                   js_type = Some ''revolute'', js_axis = Some [0, 0, 1]\<rparr>"

lemma demo_joint_ok: "spec_ok (demo_joint p)"
  by (simp add: spec_ok_def demo_joint_def)

lemma demo_cycle: "link_above [(Some ''a'', demo_joint ''b''), (Some ''b'', demo_joint ''a'')] n (Some ''a'')
     \<in> {Some (Some ''a''), Some (Some ''b'')}
   \<and> link_above [(Some ''a'', demo_joint ''b''), (Some ''b'', demo_joint ''a'')] n (Some ''b'')
     \<in> {Some (Some ''a''), Some (Some ''b'')}"
  by (induction n) (simp_all add: demo_joint_def)

theorem forward_kinematics_returns_iff_witness:
  "forward_kinematics [(Some ''a'', demo_joint ''b''), (Some ''b'', demo_joint ''a'')] [] ''a'' ''world''
   = Inl ValueError"
proof -
  let ?ps = "[(Some ''a'', demo_joint ''b''), (Some ''b'', demo_joint ''a'')]"
  have "link_above ?ps n (Some ''a'') \<noteq> Some (Some ''world'')" for n
    using demo_cycle [of n] by auto
  moreover have "spec_ok spec" if "map_of ?ps node = Some spec" for node spec
    using that demo_joint_ok by (auto split: if_splits)
  ultimately show ?thesis
    using forward_kinematics_returns_iff [of ?ps "''a''" "''world''" "[]"] by presburger
qed

text \<open>C14: a transform that is returned is a rigid motion: its last row is (0, 0, 0, 1) and it keeps the
  distance between any two points, whatever the axes (normalised or zero), angles and offsets.\<close>

theorem forward_kinematics_rigid:
  assumes "forward_kinematics ps positions target base = Inr t"
  shows "t ! 3 = [0, 0, 0, 1] \<and> length t = 4 \<and> (\<forall>p q. sqdist (apply_point t p) (apply_point t q) = sqdist p q)"
proof -
  obtain ms where "walk ps positions (Some base) (Some target) 0 = Inr ms" "t = foldl matmul eye4 (rev ms)"
    using assms by (auto simp: forward_kinematics_def rbind_eq_Inr)
  then have "rigid t" using rigid_foldl [OF rigid_eye4, of "rev ms"] rigid_walk by simp
  then show ?thesis by (auto simp: rigid_def homogeneous_def numeral_3_eq_3)
qed

theorem forward_kinematics_rigid_witness:
  "\<exists>t. forward_kinematics [(Some ''tool0'', demo_joint ''base'')] [(''j'', pi / 2)] ''tool0'' ''base'' = Inr t
     \<and> t = [[0, -1, 0, 1], [1, 0, 0, 0], [0, 0, 1, 0], [0, 0, 0, 1]]
     \<and> sqdist (apply_point t (3, 4, 5)) (apply_point t (0, 0, 5)) = 25"
proof -
  let ?t = "[[0, -1, 0, 1], [1, 0, 0, 0], [0, 0, 1, 0], [0, 0, 0, 1]]"
  let ?j = "demo_joint ''base''"
  have j: "joint_transform ?j (pi / 2) = Inr ?t"
    by (simp add: demo_joint_def joint_transform_def joint_fixed_def translation_def rpy_to_matrix_def rotation_def
        rodrigues_def joint_axis_def matmul_def eye4_def Let_def upt_rec)
  have pos: "joint_position [(''j'', pi / 2)] ?j = pi / 2" "js_parent ?j = Some ''base''"
    by (simp_all add: joint_position_def demo_joint_def)
  have "walk [(Some ''tool0'', ?j)] [(''j'', pi / 2)] (Some ''base'') (Some ''tool0'') 0 = Inr [?t]"
    using walk.simps [of "[(Some ''tool0'', ?j)]" "[(''j'', pi / 2)]" "Some ''base''" "Some ''tool0''" 0]
    by (simp add: j pos walk_base)
  then have run: "forward_kinematics [(Some ''tool0'', ?j)] [(''j'', pi / 2)] ''tool0'' ''base'' = Inr ?t"
    by (simp add: forward_kinematics_def matmul_def eye4_def upt_rec)
  have "sqdist (apply_point ?t (3, 4, 5)) (apply_point ?t (0, 0, 5)) = sqdist (3, 4, 5) (0, 0, 5)"
    using forward_kinematics_rigid [OF run] by blast
  with run show ?thesis by (auto simp: sqdist.simps)
qed

text \<open>Forward kinematics composes along the chain. When an intermediate link lies between the target and
  the base, and the whole chain has at most 64 joints, the transform of the target in the base is the
  transform of the intermediate link in the base times that of the target in the intermediate link.\<close>

theorem forward_kinematics_composes:
  assumes "hops ps (Some target) (Some mid) m" "hops ps (Some mid) (Some base) n" "m + n \<le> 64"
    and "\<forall>i<m. link_above ps i (Some target) \<noteq> Some (Some base)"
    and "forward_kinematics ps positions target mid = Inr a" "forward_kinematics ps positions mid base = Inr b"
  shows "forward_kinematics ps positions target base = Inr (matmul b a)"
proof -
  obtain as bs where as: "joints_up ps positions m (Some target) = Inr as" "a = foldl matmul eye4 (rev as)"
    and bs: "joints_up ps positions n (Some mid) = Inr bs" "b = foldl matmul eye4 (rev bs)"
    using assms by (auto simp: forward_kinematics_hops rbind_eq_Inr)
  have hom: "\<forall>m \<in> set (rev as). homogeneous m" "\<forall>m \<in> set (rev bs). homogeneous m"
    using rigid_joints_up [OF as(1)] rigid_joints_up [OF bs(1)] by (auto simp: rigid_def)
  have "joints_up ps positions (m + n) (Some target) = Inr (as @ bs)"
    using as(1) bs(1) assms(1) by (intro joints_up_add [where mid = "Some mid"]) (auto simp: hops_def)
  moreover have "hops ps (Some target) (Some base) (m + n)" using assms(1,2,4) by (intro hops_add)
  ultimately have "forward_kinematics ps positions target base = Inr (foldl matmul eye4 (rev bs @ rev as))"
    using assms(3) by (simp add: forward_kinematics_hops)
  moreover have "homogeneous b"
    using foldl_matmul_homogeneous [OF _ hom(2), of eye4] rigid_eye4 by (auto simp: bs(2) rigid_def)
  ultimately show ?thesis using foldl_matmul_homogeneous [OF _ hom(1), of b] by (simp add: as(2) bs(2))
qed

theorem forward_kinematics_composes_witness:
  "\<exists>t. forward_kinematics [(Some ''c'', demo_joint ''b''), (Some ''b'', demo_joint ''a'')] [] ''c'' ''a'' = Inr t"
proof -
  let ?ps = "[(Some ''c'', demo_joint ''b''), (Some ''b'', demo_joint ''a'')]"
  have h: "hops ?ps (Some ''c'') (Some ''b'') 1" "hops ?ps (Some ''b'') (Some ''a'') 1"
    by (simp_all add: hops_def demo_joint_def)
  define u where "u p = (case joint_transform (demo_joint p) 0 of Inr t \<Rightarrow> t | Inl _ \<Rightarrow> eye4)" for p
  have u: "joint_transform (demo_joint p) 0 = Inr (u p)" for p
    using joint_transform_ok [OF demo_joint_ok [of p], of 0] by (auto simp: u_def)
  have pos: "joint_position [] (demo_joint p) = 0" for p by (simp add: joint_position_def demo_joint_def)
  have "forward_kinematics ?ps [] ''c'' ''b'' = Inr (matmul eye4 (u ''b''))"
    "forward_kinematics ?ps [] ''b'' ''a'' = Inr (matmul eye4 (u ''a''))"
    using h by (simp_all add: forward_kinematics_hops u pos)
  from forward_kinematics_composes [OF h _ _ this] show ?thesis by simp
qed

end
