(* ===== verification/Manifest.thy ===== *)
theory Manifest
  imports Prelude
begin

section \<open>Dataset manifests (\<open>threevn_data/manifest.py\<close>)\<close>

text \<open>
  A manifest is a document beside the recorded images. \<open>build\<close> assembles it, \<open>validate\<close> lists what is
  wrong with it, \<open>write\<close> and \<open>read\<close> move it to and from the dataset directory, \<open>content_hash\<close>
  identifies a set of files. The process environment, the output of \<open>git\<close>, the clock and SHA-256 are
  arguments. A file system maps a path (the list of its components, which is also how \<open>pathlib\<close>
  orders paths) to bytes; the JSON file holds the document that \<open>json.loads\<close> reads from it.
\<close>

type_synonym path = "string list"
type_synonym environ = "(string \<times> string) list"

definition SCHEMA_VERSION :: int where
  "SCHEMA_VERSION = 1"

definition REQUIRED :: "string list" where
  "REQUIRED = [''schema_version'', ''created'', ''code'', ''world'', ''robot'',
               ''camera'', ''labels'', ''episodes'', ''frames'']"

definition CAMERA_KEYS :: "string list" where
  "CAMERA_KEYS = [''fx'', ''fy'', ''cx'', ''cy'', ''width'', ''height'']"

definition LABEL_SOURCES :: "string list" where
  "LABEL_SOURCES = [''simulator'', ''human'', ''derived'']"

subsection \<open>Assembling a manifest\<close>

text \<open>\<open>git args\<close> is the standard output of the command, or what \<open>subprocess.run\<close> raises.\<close>

definition commit_doc :: "json \<Rightarrow> json \<Rightarrow> json" where
  "commit_doc commit dirty = JObj [(''commit'', commit), (''dirty'', dirty)]"

definition git_description ::
  "environ \<Rightarrow> (string list \<Rightarrow> string res) \<Rightarrow> string \<Rightarrow> string option \<Rightarrow> json res" where
  "git_description env git cwd repo =
     (case map_of env ''THREEVN_GIT_COMMIT'' of
        Some (c # commit) \<Rightarrow>
          Inr (commit_doc (JStr (c # commit)) (JBool (map_of env ''THREEVN_GIT_DIRTY'' = Some ''1'')))
      | _ \<Rightarrow>
          (let dir = (case repo of Some (c # r) \<Rightarrow> c # r | _ \<Rightarrow> cwd) in
           case rbind (git [''git'', ''-C'', dir, ''rev-parse'', ''HEAD'']) (\<lambda>sha.
                rbind (git [''git'', ''-C'', dir, ''status'', ''--porcelain'']) (\<lambda>status.
                  Inr (py_strip sha, py_strip status))) of
             Inl e \<Rightarrow> if caught e [CSubprocessError, COSError] then Inr (commit_doc JNull JNull) else Inl e
           | Inr (sha, status) \<Rightarrow> Inr (commit_doc (JStr sha) (JBool (status \<noteq> [])))))"

definition build ::
  "json res \<Rightarrow> string \<Rightarrow> json \<Rightarrow> json \<Rightarrow> (string \<times> json) list \<Rightarrow> (string \<times> json) list \<Rightarrow> int \<Rightarrow> int
   \<Rightarrow> (string \<times> json) list \<Rightarrow> json res" where
  "build description now world robot_profile camera label_source episodes frames extra =
     rbind description (\<lambda>code.
       Inr (JObj (foldl (\<lambda>d (k, v). AList.update k v d)
         [(''schema_version'', JInt SCHEMA_VERSION),
          (''created'', JStr now),
          (''code'', code),
          (''world'', world),
          (''robot'', robot_profile),
          (''camera'', JObj camera),
          (''labels'', JObj label_source),
          (''episodes'', JInt episodes),
          (''frames'', JInt frames)] extra)))"

subsection \<open>Validation\<close>

datatype problem =
    MissingFields "string list"
  | WrongSchema json
  | NoCommit
  | CameraMissing string
  | BadSource json
  | NoFrames
  | NoEpisodes

definition missing_keys :: "string list \<Rightarrow> json \<Rightarrow> string list res" where
  "missing_keys keys doc =
     rbind (rmap (\<lambda>k. rbind (jin k doc) (\<lambda>present. Inr (if present then [] else [k]))) keys)
       (\<lambda>kss. Inr (concat kss))"

definition validate :: "json \<Rightarrow> problem list res" where
  "validate manifest =
     rbind (missing_keys REQUIRED manifest) (\<lambda>missing.
     if missing \<noteq> [] then Inr [MissingFields (sort missing)] else
     rbind (jitem manifest ''schema_version'') (\<lambda>schema.
     rbind (rbind (jitem manifest ''code'') (\<lambda>code. jget code ''commit'' JNull)) (\<lambda>commit.
     rbind (rbind (jitem manifest ''camera'') (missing_keys CAMERA_KEYS)) (\<lambda>lacking.
     rbind (rbind (jitem manifest ''labels'') (\<lambda>labels. jget labels ''source'' JNull)) (\<lambda>source.
     rbind (rbind (jitem manifest ''frames'') jnum) (\<lambda>frames.
     rbind (rbind (jitem manifest ''episodes'') jnum) (\<lambda>episodes.
       Inr ((if jeq_int schema SCHEMA_VERSION then [] else [WrongSchema schema])
            @ (if truthy commit then [] else [NoCommit])
            @ map CameraMissing lacking
            @ (if source \<in> set (map JStr LABEL_SOURCES) then [] else [BadSource source])
            @ (if frames \<le> 0 then [NoFrames] else [])
            @ (if episodes \<le> 0 then [NoEpisodes] else [])))))))))"

subsection \<open>Identity of a set of files\<close>

text \<open>\<open>path.name\<close> is the last component.\<close>

definition path_name :: "path \<Rightarrow> string" where
  "path_name p = (if p = [] then [] else last p)"

definition read_bytes :: "(path \<rightharpoonup> string) \<Rightarrow> path \<Rightarrow> string res" where
  "read_bytes fs p = (case fs p of None \<Rightarrow> Inl FileNotFoundError | Some bs \<Rightarrow> Inr bs)"

text \<open>\<open>digest.update\<close> called repeatedly digests the concatenation of its arguments.\<close>

definition content_hash :: "(string \<Rightarrow> string) \<Rightarrow> (path \<rightharpoonup> string) \<Rightarrow> path list \<Rightarrow> string res" where
  "content_hash sha256 fs paths =
     rbind (rmap (\<lambda>p. rbind (read_bytes fs p) (\<lambda>bs. Inr (path_name p @ bs))) (sort paths))
       (\<lambda>chunks. Inr (sha256 (concat chunks)))"

subsection \<open>Writing and reading\<close>

text \<open>\<open>json.dumps(..., sort_keys=True)\<close> orders the keys of every object.\<close>

fun sort_doc :: "json \<Rightarrow> json" where
  "sort_doc (JObj kvs) = JObj (sort_key fst (map (\<lambda>(k, v). (k, sort_doc v)) kvs))"
| "sort_doc (JArr xs) = JArr (map sort_doc xs)"
| "sort_doc j = j"

definition write_manifest :: "path \<Rightarrow> json \<Rightarrow> (path \<rightharpoonup> json) \<Rightarrow> path \<times> (path \<rightharpoonup> json)" where
  "write_manifest directory manifest docs =
     (let p = directory @ [''manifest.json''] in (p, docs(p \<mapsto> sort_doc manifest)))"

definition read_manifest :: "path \<Rightarrow> (path \<rightharpoonup> json) \<Rightarrow> json res" where
  "read_manifest directory docs =
     (case docs (directory @ [''manifest.json'']) of None \<Rightarrow> Inl FileNotFoundError | Some j \<Rightarrow> Inr j)"


subsection \<open>Lemmas: sorting the keys of a document\<close>

lemma map_of_sort_key:
  assumes "distinct (map fst kvs)"
  shows "map_of (sort_key fst kvs) = map_of kvs"
proof -
  have "distinct (map fst (sort_key fst kvs))"
    using assms by (metis distinct_sort mset_map mset_sort sort_key_simps(1) distinct_map mset_eq_setD set_sort)
  then show ?thesis using assms by (intro map_of_eqI) (auto simp: map_of_eq_Some_iff)
qed

lemma map_of_sort_doc:
  assumes "distinct (map fst kvs)"
  shows "map_of (sort_key fst (map (\<lambda>(k, v). (k, sort_doc v)) kvs)) k = map_option sort_doc (map_of kvs k)"
proof -
  have "map fst (map (\<lambda>(k, v). (k, sort_doc v)) kvs) = map fst kvs" by (induction kvs) auto
  with assms have "map_of (sort_key fst (map (\<lambda>(k, v). (k, sort_doc v)) kvs))
      = map_of (map (\<lambda>(k, v). (k, sort_doc v)) kvs)"
    by (intro map_of_sort_key) (simp only:)
  then show ?thesis by (simp add: map_of_map)
qed

text \<open>Looking something up in the sorted document finds the sorted value.\<close>

definition sorted_res :: "json res \<Rightarrow> json res" where
  "sorted_res r = rbind r (\<lambda>j. Inr (sort_doc j))"

lemma jitem_sort_doc: "wf_doc j \<Longrightarrow> jitem (sort_doc j) k = sorted_res (jitem j k)"
  by (cases j) (auto simp: map_of_sort_doc sorted_res_def split: option.splits)

lemma jget_sort_doc: "wf_doc j \<Longrightarrow> jget (sort_doc j) k JNull = sorted_res (jget j k JNull)"
  by (cases j) (auto simp: map_of_sort_doc sorted_res_def split: option.splits)

lemma sort_doc_JStr_iff: "sort_doc j = JStr s \<longleftrightarrow> j = JStr s"
  by (cases j) auto

lemma jin_sort_doc: "jin k (sort_doc j) = jin k j"
proof (cases j)
  case (JArr xs)
  have "JStr k \<in> sort_doc ` set xs \<longleftrightarrow> JStr k \<in> set xs" by (metis imageE image_eqI sort_doc_JStr_iff)
  with JArr show ?thesis by simp
next
  case (JObj kvs)
  then show ?thesis by (simp add: image_image case_prod_unfold)
qed simp_all

lemma jnum_sort_doc: "jnum (sort_doc j) = jnum j"
  by (cases j) auto

lemma truthy_sort_doc: "truthy (sort_doc j) = truthy j"
  by (cases j) (auto dest: arg_cong [where f = length])

lemma jeq_int_sort_doc: "jeq_int (sort_doc j) n = jeq_int j n"
  by (simp add: jeq_int_def jnum_sort_doc)

lemma missing_keys_sort_doc: "missing_keys ks (sort_doc j) = missing_keys ks j"
  by (simp add: missing_keys_def jin_sort_doc)

lemma source_sort_doc: "sort_doc j \<in> set (map JStr ss) \<longleftrightarrow> j \<in> set (map JStr ss)"
  by (auto simp: sort_doc_JStr_iff)

lemma wf_doc_jitem: "wf_doc j \<Longrightarrow> jitem j k = Inr v \<Longrightarrow> wf_doc v"
  by (fastforce simp: jitem_eq_Inr dest: map_of_SomeD)


subsection \<open>Lemmas: validation\<close>

text \<open>What the problems carry of the document is printed from the document that was validated.\<close>

fun sort_problem :: "problem \<Rightarrow> problem" where
  "sort_problem (WrongSchema j) = WrongSchema (sort_doc j)"
| "sort_problem (BadSource j) = BadSource (sort_doc j)"
| "sort_problem p = p"

lemma rbind_sorted_res: "rbind (sorted_res r) f = rbind r (\<lambda>j. f (sort_doc j))"
  by (simp add: sorted_res_def rbind_assoc)

lemma rbind_push: "(\<And>x. f x = rbind (g x) h) \<Longrightarrow> rbind r f = rbind (rbind r g) h"
  by (cases r) auto

lemma if_push: "(b \<Longrightarrow> x = rbind x' h) \<Longrightarrow> (\<not> b \<Longrightarrow> y = rbind y' h)
    \<Longrightarrow> (if b then x else y) = rbind (if b then x' else y') h"
  by simp

lemma rbind_jitem_sort_doc:
  assumes "wf_doc j" and "\<And>v. wf_doc v \<Longrightarrow> f (sort_doc v) = g v"
  shows "rbind (jitem (sort_doc j) k) f = rbind (jitem j k) g"
  using assms by (cases "jitem j k") (auto simp: jitem_sort_doc sorted_res_def dest: wf_doc_jitem)

lemma validate_sort_doc:
  assumes "wf_doc m"
  shows "validate (sort_doc m) = rbind (validate m) (\<lambda>ps. Inr (map sort_problem ps))"
proof -
  have num: "rbind (jitem (sort_doc m) k) jnum = rbind (jitem m k) jnum" for k
    by (rule rbind_jitem_sort_doc [OF assms]) (rule jnum_sort_doc)
  have sub: "rbind (jitem (sort_doc m) k) (\<lambda>d. jget d key JNull)
      = sorted_res (rbind (jitem m k) (\<lambda>d. jget d key JNull))" for k key
    unfolding sorted_res_def rbind_assoc
    by (rule rbind_jitem_sort_doc [OF assms]) (simp add: jget_sort_doc sorted_res_def)
  have cam: "rbind (jitem (sort_doc m) k) (missing_keys ks) = rbind (jitem m k) (missing_keys ks)" for k ks
    by (rule rbind_jitem_sort_doc [OF assms]) (rule missing_keys_sort_doc)
  show ?thesis
    unfolding validate_def missing_keys_sort_doc num sub cam
    unfolding jitem_sort_doc [OF assms] rbind_sorted_res source_sort_doc truthy_sort_doc jeq_int_sort_doc
    by (intro rbind_push if_push) auto
qed

lemma missing_keys_JObj: "missing_keys ks (JObj kvs) = Inr (filter (\<lambda>k. map_of kvs k = None) ks)"
proof -
  have "concat (map (\<lambda>k. if map_of kvs k \<noteq> None then [] else [k]) ks) = filter (\<lambda>k. map_of kvs k = None) ks"
    by (induction ks) auto
  moreover have "rmap (\<lambda>k. rbind (jin k (JObj kvs)) (\<lambda>present. Inr (if present then [] else [k]))) ks
      = Inr (map (\<lambda>k. if map_of kvs k \<noteq> None then [] else [k]) ks)"
    by (rule rmap_ok) (simp add: jin_JObj_dom del: jin.simps)
  ultimately show ?thesis by (simp add: missing_keys_def)
qed

text \<open>A manifest whose nine entries have the shapes \<open>build\<close> gives them: the problems are exactly
  those of the entries.\<close>

lemma validate_JObj:
  assumes "map_of kvs ''schema_version'' = Some (JInt SCHEMA_VERSION)"
    and "map_of kvs ''created'' \<noteq> None" "map_of kvs ''world'' \<noteq> None" "map_of kvs ''robot'' \<noteq> None"
    and "map_of kvs ''code'' = Some (JObj code)" "map_of kvs ''camera'' = Some (JObj camera)"
    and "map_of kvs ''labels'' = Some (JObj labels)"
    and "map_of kvs ''episodes'' = Some (JInt episodes)" "map_of kvs ''frames'' = Some (JInt frames)"
  shows "validate (JObj kvs) = Inr
     ((if truthy (case map_of code ''commit'' of None \<Rightarrow> JNull | Some v \<Rightarrow> v) then [] else [NoCommit])
      @ map CameraMissing (filter (\<lambda>k. map_of camera k = None) CAMERA_KEYS)
      @ (let source = (case map_of labels ''source'' of None \<Rightarrow> JNull | Some v \<Rightarrow> v)
         in if source \<in> set (map JStr LABEL_SOURCES) then [] else [BadSource source])
      @ (if frames \<le> 0 then [NoFrames] else []) @ (if episodes \<le> 0 then [NoEpisodes] else []))"
proof -
  have "filter (\<lambda>k. map_of kvs k = None) REQUIRED = []"
    using assms by (simp add: REQUIRED_def)
  with assms show ?thesis
    by (simp add: validate_def missing_keys_JObj jeq_int_def SCHEMA_VERSION_def Let_def)
qed

lemma foldl_update_other:
  "k \<notin> fst ` set extra \<Longrightarrow> map_of (foldl (\<lambda>d (k, v). AList.update k v d) d0 extra) k = map_of d0 k"
proof -
  assume "k \<notin> fst ` set extra"
  then have "map_of (rev extra) k = None" by (simp add: map_of_eq_None_iff)
  then show ?thesis by (simp add: foldl_update_map_of map_add_def)
qed

lemma validate_build:
  assumes "build (Inr (JObj code)) now world profile camera labels episodes frames extra = Inr m"
    and "set REQUIRED \<inter> fst ` set extra = {}"
  shows "validate m = Inr
     ((if truthy (case map_of code ''commit'' of None \<Rightarrow> JNull | Some v \<Rightarrow> v) then [] else [NoCommit])
      @ map CameraMissing (filter (\<lambda>k. map_of camera k = None) CAMERA_KEYS)
      @ (let source = (case map_of labels ''source'' of None \<Rightarrow> JNull | Some v \<Rightarrow> v)
         in if source \<in> set (map JStr LABEL_SOURCES) then [] else [BadSource source])
      @ (if frames \<le> 0 then [NoFrames] else []) @ (if episodes \<le> 0 then [NoEpisodes] else []))"
proof -
  have key: "k \<notin> fst ` set extra" if "k \<in> set REQUIRED" for k using assms(2) that by blast
  note keys = key [THEN foldl_update_other, unfolded REQUIRED_def, simplified]
  from assms(1) have m: "m = JObj (foldl (\<lambda>d (k, v). AList.update k v d)
      [(''schema_version'', JInt SCHEMA_VERSION), (''created'', JStr now), (''code'', JObj code),
       (''world'', world), (''robot'', profile), (''camera'', JObj camera), (''labels'', JObj labels),
       (''episodes'', JInt episodes), (''frames'', JInt frames)] extra)"
    by (simp add: build_def)
  show ?thesis unfolding m by (rule validate_JObj) (simp_all add: keys)
qed

lemma wf_doc_build:
  assumes "build (Inr code) now world profile camera labels episodes frames extra = Inr m"
    and "wf_doc code" "wf_doc world" "wf_doc profile" "wf_doc (JObj camera)" "wf_doc (JObj labels)"
    and "\<And>k v. (k, v) \<in> set extra \<Longrightarrow> wf_doc v"
  shows "wf_doc m"
proof -
  have upd: "wf_doc (JObj d) \<Longrightarrow> (\<And>k v. (k, v) \<in> set es \<Longrightarrow> wf_doc v)
      \<Longrightarrow> wf_doc (JObj (foldl (\<lambda>d (k, v). AList.update k v d) d es))" for d es
  proof (induction es arbitrary: d)
    case (Cons e es)
    obtain k v where e: "e = (k, v)" by (cases e)
    have "wf_doc v" using Cons.prems(2) [of k v] by (simp add: e)
    with Cons.prems(1) have "\<forall>p \<in> set (AList.update k v d). wf_doc (snd p)"
      by (induction d) auto
    with Cons.prems(1) have "wf_doc (JObj (AList.update k v d))" by (simp add: distinct_keys_update)
    then have "wf_doc (JObj (foldl (\<lambda>d (k, v). AList.update k v d) (AList.update k v d) es))"
      by (rule Cons.IH) (use Cons.prems(2) in auto)
    then show ?case by (simp add: e del: wf_doc.simps)
  qed simp
  from assms show ?thesis by (auto simp: build_def intro!: upd)
qed


subsection \<open>Lemmas: hashing files\<close>

lemma sort_perm: "mset ps = mset qs \<Longrightarrow> sort ps = (sort qs :: path list)"
  by (metis mset_sort properties_for_sort sorted_sort)

lemma read_after_write: "read_manifest directory (snd (write_manifest directory m docs)) = Inr (sort_doc m)"
  by (simp add: read_manifest_def write_manifest_def Let_def)

subsection \<open>Properties\<close>

text \<open>C35: a recording's manifest survives the disk and reports exactly what the recording lacks. For the
  manifest \<open>build\<close> assembles from any description of the commit, camera and label source, any counts, and
  extra entries that override no required field: written to a directory and read back, it validates with
  one problem per missing commit, missing camera entry, unknown label source and non-positive count, and
  with no other; the nine required fields and the schema version are always in order.\<close>

theorem recorded_manifest_validates:
  assumes "build (Inr (commit_doc commit dirty)) now world profile camera labels episodes frames extra = Inr m"
    and "set REQUIRED \<inter> fst ` set extra = {}"
    and "wf_doc commit" "wf_doc dirty" "wf_doc world" "wf_doc profile" "wf_doc (JObj camera)" "wf_doc (JObj labels)"
    and "\<And>k v. (k, v) \<in> set extra \<Longrightarrow> wf_doc v"
  shows "rbind (read_manifest directory (snd (write_manifest directory m docs))) validate = Inr
     ((if truthy commit then [] else [NoCommit])
      @ map CameraMissing (filter (\<lambda>k. map_of camera k = None) CAMERA_KEYS)
      @ (let source = (case map_of labels ''source'' of None \<Rightarrow> JNull | Some v \<Rightarrow> v)
         in if source \<in> set (map JStr LABEL_SOURCES) then [] else [BadSource (sort_doc source)])
      @ (if frames \<le> 0 then [NoFrames] else []) @ (if episodes \<le> 0 then [NoEpisodes] else []))"
proof -
  have "wf_doc m" by (rule wf_doc_build [OF assms(1)]) (use assms in \<open>auto simp: commit_doc_def\<close>)
  then show ?thesis
    unfolding read_after_write rbind_Inr
    by (simp add: validate_sort_doc validate_build [OF assms(1) [unfolded commit_doc_def] assms(2)] Let_def comp_def)
qed

theorem recorded_manifest_validates_witness:
  "rbind (build (Inr (commit_doc (JStr ''5ac0'') (JBool True))) ''2026'' (JStr ''bench'') (JStr ''mm'')
            [(''fx'', JNum 525), (''fy'', JNum 525), (''cx'', JNum 320), (''cy'', JNum 240), (''width'', JInt 640)]
            [(''source'', JStr ''simulator'')] 8 0 [(''seed'', JInt 0)])
     (\<lambda>m. rbind (read_manifest [''d''] (snd (write_manifest [''d''] m Map.empty))) validate)
   = Inr [CameraMissing ''height'', NoFrames]"
proof -
  let ?camera = "[(''fx'', JNum 525), (''fy'', JNum 525), (''cx'', JNum 320), (''cy'', JNum 240), (''width'', JInt 640)]"
  obtain m where m: "build (Inr (commit_doc (JStr ''5ac0'') (JBool True))) ''2026'' (JStr ''bench'') (JStr ''mm'')
            ?camera [(''source'', JStr ''simulator'')] 8 0 [(''seed'', JInt 0)] = Inr m"
    by (simp add: build_def)
  show ?thesis
    using recorded_manifest_validates [OF m, of "[''d'']" Map.empty]
    by (simp add: m REQUIRED_def CAMERA_KEYS_def LABEL_SOURCES_def Let_def)
qed

text \<open>The content hash does not depend on the order in which the files are listed, and it is not
  injective in the files whatever the digest: the name and the bytes are digested one after the other with
  nothing between them, so a file \<open>a\<close> holding \<open>bc\<close> and a file \<open>ab\<close> holding \<open>c\<close> hash alike.\<close>

theorem content_hash_order_and_ambiguity:
  "(\<forall>ps qs. mset ps = mset qs \<longrightarrow> content_hash sha256 fs ps = content_hash sha256 fs qs)
   \<and> content_hash sha256 [[''d'', ''a''] \<mapsto> ''bc''] [[''d'', ''a'']]
     = content_hash sha256 [[''d'', ''ab''] \<mapsto> ''c''] [[''d'', ''ab'']]"
proof (intro conjI allI impI)
  show "content_hash sha256 fs ps = content_hash sha256 fs qs" if "mset ps = mset qs" for ps qs
    unfolding content_hash_def sort_perm [OF that] ..
qed (simp add: content_hash_def read_bytes_def path_name_def)

theorem content_hash_order_and_ambiguity_witness:
  "content_hash (\<lambda>s. s) [[''x''] \<mapsto> ''1'', [''y''] \<mapsto> ''2''] [[''y''], [''x'']]
   = content_hash (\<lambda>s. s) [[''x''] \<mapsto> ''1'', [''y''] \<mapsto> ''2''] [[''x''], [''y'']]"
proof -
  have "mset [[''y''], [''x'']] = mset [[''x''], [''y'']]" by (simp add: add_mset_commute)
  with content_hash_order_and_ambiguity [of "\<lambda>s. s" "[[''x''] \<mapsto> ''1'', [''y''] \<mapsto> ''2'']"]
  show ?thesis by blast
qed

text \<open>When a validation raises instead of returning its problems. A manifest that has all nine fields
  still makes \<open>validate\<close> raise exactly when its code or labels entry is not an object, its camera entry
  does not support \<open>in\<close>, or one of its two counts is not a number.\<close>

theorem validate_raises_iff:
  assumes "\<forall>k \<in> set REQUIRED. map_of kvs k \<noteq> None"
  shows "(\<exists>e. validate (JObj kvs) = Inl e) \<longleftrightarrow>
     (\<nexists>d. map_of kvs ''code'' = Some (JObj d)) \<or> (\<nexists>d. map_of kvs ''labels'' = Some (JObj d))
     \<or> map_of kvs ''camera'' \<in> Some ` ({JNull} \<union> range JBool \<union> range JInt \<union> range JNum)
     \<or> \<not> is_jnum (the (map_of kvs ''frames'')) \<or> \<not> is_jnum (the (map_of kvs ''episodes''))"
proof -
  obtain schema code camera labels frames episodes where kv:
    "map_of kvs ''schema_version'' = Some schema" "map_of kvs ''code'' = Some code"
    "map_of kvs ''camera'' = Some camera" "map_of kvs ''labels'' = Some labels"
    "map_of kvs ''frames'' = Some frames" "map_of kvs ''episodes'' = Some episodes"
    using assms by (auto simp: REQUIRED_def)
  have none: "missing_keys REQUIRED (JObj kvs) = Inr []"
    using assms by (simp add: missing_keys_JObj filter_empty_conv del: not_None_eq)
  have cam: "(\<exists>e. missing_keys CAMERA_KEYS camera = Inl e)
      \<longleftrightarrow> camera \<in> {JNull} \<union> range JBool \<union> range JInt \<union> range JNum"
    by (cases camera) (auto simp: missing_keys_def CAMERA_KEYS_def)
  have get: "(\<exists>e. jget j k JNull = Inl e) \<longleftrightarrow> (\<nexists>d. j = JObj d)" for j k by (cases j) auto
  have num: "(\<exists>e. jnum j = Inl e) \<longleftrightarrow> \<not> is_jnum j" for j
    by (auto simp: is_jnum_def split: sum.splits)
  have "(\<exists>e. validate (JObj kvs) = Inl e) \<longleftrightarrow>
      (\<exists>e. jget code ''commit'' JNull = Inl e) \<or> (\<exists>e. missing_keys CAMERA_KEYS camera = Inl e)
      \<or> (\<exists>e. jget labels ''source'' JNull = Inl e) \<or> (\<exists>e. jnum frames = Inl e) \<or> (\<exists>e. jnum episodes = Inl e)"
    unfolding validate_def none by (simp add: kv rbind_def split: sum.splits)
  then show ?thesis unfolding cam get num by (auto simp: kv)
qed

theorem validate_raises_iff_witness:
  "\<exists>e. validate (JObj (map (\<lambda>k. (k, JInt 1)) REQUIRED)) = Inl e"
  using validate_raises_iff [of "map (\<lambda>k. (k, JInt 1)) REQUIRED"]
  by (simp add: REQUIRED_def)

end
