(* ===== verification/Dataset.thy ===== *)
theory Dataset
  imports Models Manifest
begin

section \<open>Reading and splitting a dataset (\<open>threevn_data/dataset.py\<close>)\<close>

text \<open>
  \<open>load\<close> reads the labelled frames, \<open>split_by_episode\<close> and \<open>split_by_frame\<close> divide them into three
  parts, the reports measure what a split is worth. Episode ids and labels are whatever values the
  JSON lines hold; ids are compared as Python compares dictionary keys (\<open>py_key\<close>). The draws of
  \<open>random.Random(seed)\<close> are the argument \<open>draw\<close>: \<open>draw n\<close> is what \<open>randbelow(n)\<close> returned, reduced to its
  documented range. Image decoding (PIL) and SHA-256 are arguments.
\<close>

record frame =
  fr_image :: path
  fr_episode :: json
  fr_index :: json
  fr_label :: "json list"
  fr_stamp :: json

subsection \<open>Loading\<close>

text \<open>What a line of \<open>labels.jsonl\<close> is to \<open>strip\<close> and \<open>json.loads\<close>.\<close>

datatype label_line = BlankLine | JsonLine json | BrokenLine

text \<open>\<open>directory / file\<close>: the components of the file, after those of the directory unless it is absolute.\<close>

fun split_slash :: "string \<Rightarrow> string list" where
  "split_slash [] = [[]]"
| "split_slash (c # s) =
     (if c = CHR 0x2F then [] # split_slash s
      else (case split_slash s of [] \<Rightarrow> [[c]] | w # ws \<Rightarrow> (c # w) # ws))"

definition join_path :: "path \<Rightarrow> string \<Rightarrow> path" where
  "join_path directory file =
     (let parts = filter (\<lambda>p. p \<noteq> [] \<and> p \<noteq> ''.'') (split_slash file)
      in if prefix [CHR 0x2F] file then [CHR 0x2F] # parts else directory @ parts)"

definition frame_of :: "path \<Rightarrow> json \<Rightarrow> frame res" where
  "frame_of directory row =
     rbind (jitem row ''image'') (\<lambda>image.
     rbind (case image of JStr s \<Rightarrow> Inr s | _ \<Rightarrow> Inl TypeError) (\<lambda>file.
     rbind (jitem row ''episode'') (\<lambda>episode.
     rbind (jitem row ''index'') (\<lambda>index.
     rbind (rbind (jitem row ''label'') jiter) (\<lambda>label.
     rbind (jitem row ''stamp'') (\<lambda>stamp.
       Inr \<lparr>fr_image = join_path directory file, fr_episode = episode, fr_index = index,
            fr_label = label, fr_stamp = stamp\<rparr>))))))"

fun load_lines :: "path \<Rightarrow> label_line list \<Rightarrow> frame list res" where
  "load_lines directory [] = Inr []"
| "load_lines directory (BlankLine # ls) = load_lines directory ls"
| "load_lines directory (BrokenLine # ls) = Inl JSONDecodeError"
| "load_lines directory (JsonLine row # ls) =
     rbind (frame_of directory row) (\<lambda>f. rbind (load_lines directory ls) (\<lambda>fs. Inr (f # fs)))"

definition load :: "(path \<rightharpoonup> label_line list) \<Rightarrow> path \<Rightarrow> frame list res" where
  "load files directory =
     (case files (directory @ [''labels.jsonl'']) of
        None \<Rightarrow> Inl FileNotFoundError
      | Some ls \<Rightarrow> load_lines directory ls)"

subsection \<open>Episodes\<close>

text \<open>Equal numbers are the same key whatever their type; lists and dictionaries cannot be keys.\<close>

definition py_key :: "json \<Rightarrow> json res" where
  "py_key j =
     (case j of
        JArr _ \<Rightarrow> Inl TypeError
      | JObj _ \<Rightarrow> Inl TypeError
      | _ \<Rightarrow> Inr (case jnum j of Inr x \<Rightarrow> JNum x | Inl _ \<Rightarrow> j))"

definition episodes :: "frame list \<Rightarrow> json list res" where
  "episodes frames =
     rbind (rmap (\<lambda>f. py_key (fr_episode f)) frames) (\<lambda>keys. py_sorted (remdups keys))"

subsection \<open>Shuffling\<close>

text \<open>\<open>random.shuffle\<close>: for \<open>i\<close> from the last index down to 1, swap \<open>xs[i]\<close> with \<open>xs[randbelow(i + 1)]\<close>.\<close>

fun swap_down :: "(nat \<Rightarrow> nat) \<Rightarrow> nat \<Rightarrow> 'a list \<Rightarrow> 'a list" where
  "swap_down draw 0 xs = xs"
| "swap_down draw (Suc i) xs =
     (let j = draw (i + 2) mod (i + 2)
      in swap_down draw i (xs[Suc i := xs ! j, j := xs ! Suc i]))"

definition shuffle :: "(nat \<Rightarrow> nat) \<Rightarrow> 'a list \<Rightarrow> 'a list" where
  "shuffle draw xs = swap_down draw (length xs - 1) xs"

subsection \<open>Splitting\<close>

record split =
  sp_train :: "frame list"
  sp_val :: "frame list"
  sp_test :: "frame list"

datatype part = Train | Val | Test

definition part_sizes :: "nat \<Rightarrow> real \<times> real \<Rightarrow> int \<times> int" where
  "part_sizes n ratios =
     (let n_train = max 1 (py_round (real n * fst ratios));
          n_val = max 1 (py_round (real n * snd ratios));
          n_train = min n_train (int n - 2);
          n_val = min n_val (int n - n_train - 1)
      in (n_train, n_val))"

definition assignment :: "int \<times> int \<Rightarrow> json list \<Rightarrow> (json \<times> part) list" where
  "assignment sizes shuffled =
     map2 (\<lambda>position episode.
             (episode, if int position < fst sizes then Train
                       else if int position < fst sizes + snd sizes then Val else Test))
          [0..<length shuffled] shuffled"

definition part_of :: "(json \<times> part) list \<Rightarrow> frame \<Rightarrow> part res" where
  "part_of asg f =
     rbind (py_key (fr_episode f)) (\<lambda>k.
       case map_of asg k of None \<Rightarrow> Inl (KeyError []) | Some p \<Rightarrow> Inr p)"

definition deal :: "frame list \<Rightarrow> part list \<Rightarrow> split" where
  "deal frames parts =
     (let pick = (\<lambda>p. map fst (filter (\<lambda>fp. snd fp = p) (zip frames parts)))
      in \<lparr>sp_train = pick Train, sp_val = pick Val, sp_test = pick Test\<rparr>)"

text \<open>The part of every frame, in the order of the frames.\<close>

definition episode_parts :: "(nat \<Rightarrow> nat) \<Rightarrow> real \<times> real \<Rightarrow> frame list \<Rightarrow> part list res" where
  "episode_parts draw ratios frames =
     rbind (episodes frames) (\<lambda>ids.
     if length ids < 3 then Inl ValueError
     else (let shuffled = shuffle draw ids
           in rmap (part_of (assignment (part_sizes (length shuffled) ratios) shuffled)) frames))"

definition split_by_episode :: "(nat \<Rightarrow> nat) \<Rightarrow> real \<times> real \<Rightarrow> frame list \<Rightarrow> split res" where
  "split_by_episode draw ratios frames =
     rbind (episode_parts draw ratios frames) (\<lambda>parts. Inr (deal frames parts))"

text \<open>\<open>xs[a:b]\<close>: negative bounds count from the end, both are clipped to the list.\<close>

definition clip_bound :: "nat \<Rightarrow> int \<Rightarrow> nat" where
  "clip_bound n i = nat (if i < 0 then max 0 (int n + i) else min (int n) i)"

definition py_slice :: "'a list \<Rightarrow> int \<Rightarrow> int \<Rightarrow> 'a list" where
  "py_slice xs a b =
     (let lo = clip_bound (length xs) a; hi = clip_bound (length xs) b in take (hi - lo) (drop lo xs))"

definition split_by_frame :: "(nat \<Rightarrow> nat) \<Rightarrow> real \<times> real \<Rightarrow> frame list \<Rightarrow> split" where
  "split_by_frame draw ratios frames =
     (let shuffled = shuffle draw frames; n = length shuffled;
          n_train = py_trunc (real n * fst ratios);
          n_val = py_trunc (real n * snd ratios)
      in \<lparr>sp_train = py_slice shuffled 0 n_train,
          sp_val = py_slice shuffled n_train (n_train + n_val),
          sp_test = drop (clip_bound n (n_train + n_val)) shuffled\<rparr>)"


subsection \<open>Reports\<close>

text \<open>\<open>np.array(rows, dtype=float)\<close>: every entry through \<open>float\<close>, rows of unequal length raise.\<close>

definition label_matrix :: "frame list \<Rightarrow> matrix res" where
  "label_matrix frames =
     rbind (rmap (\<lambda>f. rmap py_float (fr_label f)) frames) (\<lambda>rows.
       if list_all (\<lambda>r. length r = length (hd rows)) rows then Inr rows else Inl ValueError)"

text \<open>The difference of two rows; a row of one entry is broadcast.\<close>

definition row_diff :: "real list \<Rightarrow> real list \<Rightarrow> real list res" where
  "row_diff xs ys =
     (if length xs = length ys then Inr (map2 (-) xs ys)
      else if length ys = 1 then Inr (map (\<lambda>x. x - hd ys) xs)
      else if length xs = 1 then Inr (map (\<lambda>y. hd xs - y) ys)
      else Inl ValueError)"

record leakage =
  lk_test_frames :: nat
  lk_min_mm :: real
  lk_median_mm :: real
  lk_within_10mm :: nat
  lk_fraction_within_10mm :: real

definition min_list1 :: "real list \<Rightarrow> real" where
  "min_list1 xs = foldl min (hd xs) (tl xs)"

definition max_list1 :: "real list \<Rightarrow> real" where
  "max_list1 xs = foldl max (hd xs) (tl xs)"

definition nearest_rows :: "matrix \<Rightarrow> matrix \<Rightarrow> real list res" where
  "nearest_rows train test =
     rmap (\<lambda>t. rbind (rmap (row_diff t) train) (\<lambda>deltas. Inr (min_list1 (map norm_row deltas)))) test"

definition leakage_report :: "split \<Rightarrow> leakage res" where
  "leakage_report sp =
     rbind (label_matrix (sp_train sp)) (\<lambda>train.
     rbind (label_matrix (sp_test sp)) (\<lambda>test.
     if train = [] \<or> test = [] then Inl ValueError
     else rbind (nearest_rows train test) (\<lambda>nearest.
       let within_10mm = length (filter (\<lambda>d. d < 1 / 100) nearest) in
       Inr \<lparr>lk_test_frames = length test,
            lk_min_mm = min_list1 nearest * 1000,
            lk_median_mm = np_median nearest * 1000,
            lk_within_10mm = within_10mm,
            lk_fraction_within_10mm = real within_10mm / real (length nearest)\<rparr>)))"

text \<open>\<open>collections.Counter\<close> over keys in order of first appearance.\<close>

definition counter_of :: "'a list \<Rightarrow> ('a \<times> nat) list" where
  "counter_of xs = foldl (\<lambda>d x. AList.update x (case map_of d x of None \<Rightarrow> 1 | Some n \<Rightarrow> n + 1) d) [] xs"

text \<open>\<open>dict(sorted(d.items()))\<close> for keys that are distinct.\<close>

definition sorted_items :: "(json \<times> 'v) list \<Rightarrow> (json \<times> 'v) list res" where
  "sorted_items d =
     rbind (py_sorted (map fst d)) (\<lambda>ks. Inr (List.map_filter (\<lambda>k. map_option (\<lambda>v. (k, v)) (map_of d k)) ks))"

record dataset_summary =
  sm_frames :: nat
  sm_episodes :: nat
  sm_frames_per_episode :: "(json \<times> nat) list"
  sm_label_min :: "real list"
  sm_label_max :: "real list"
  sm_label_mean :: "real list"

definition columns :: "matrix \<Rightarrow> real list list" where
  "columns rows = map (\<lambda>k. map (\<lambda>r. r ! k) rows) [0..<ncols rows]"

text \<open>The minimum of an empty array raises.\<close>

definition summarise :: "frame list \<Rightarrow> dataset_summary res" where
  "summarise frames =
     rbind (label_matrix frames) (\<lambda>labels.
     rbind (rmap (\<lambda>f. py_key (fr_episode f)) frames) (\<lambda>keys.
     rbind (sorted_items (counter_of keys)) (\<lambda>per_episode.
     if labels = [] then Inl ValueError
     else Inr \<lparr>sm_frames = length frames,
               sm_episodes = length (counter_of keys),
               sm_frames_per_episode = per_episode,
               sm_label_min = map min_list1 (columns labels),
               sm_label_max = map max_list1 (columns labels),
               sm_label_mean = map np_mean (columns labels)\<rparr>)))"

record duplicates =
  du_files :: nat
  du_unique :: nat
  du_duplicate_groups :: nat
  du_largest_group :: nat
  du_unique_per_episode :: "(json \<times> nat) list"

definition digest_of :: "(string \<Rightarrow> string) \<Rightarrow> (path \<rightharpoonup> string) \<Rightarrow> frame \<Rightarrow> (string \<times> string) res" where
  "digest_of sha256 fs f =
     rbind (read_bytes fs (fr_image f)) (\<lambda>bs. Inr (path_name (fr_image f), sha256 bs))"

definition per_episode_sets ::
  "(string \<times> string) list \<Rightarrow> json list \<Rightarrow> frame list \<Rightarrow> (json \<times> string list) list" where
  "per_episode_sets digests keys frames =
     foldl (\<lambda>d (k, f).
              let seen = (case map_of d k of None \<Rightarrow> [] | Some ss \<Rightarrow> ss);
                  new = (case map_of digests (path_name (fr_image f)) of None \<Rightarrow> [] | Some s \<Rightarrow> [s])
              in AList.update k (remdups (seen @ new)) d) [] (zip keys frames)"

definition duplicate_report :: "(string \<Rightarrow> string) \<Rightarrow> (path \<rightharpoonup> string) \<Rightarrow> frame list \<Rightarrow> duplicates res" where
  "duplicate_report sha256 fs frames =
     rbind (rmap (digest_of sha256 fs) frames) (\<lambda>pairs.
     let digests = dict_of pairs; counts = counter_of (map snd digests) in
     rbind (rmap (\<lambda>f. py_key (fr_episode f)) frames) (\<lambda>keys.
     rbind (sorted_items (per_episode_sets digests keys frames)) (\<lambda>per_episode.
       Inr \<lparr>du_files = length digests,
            du_unique = length counts,
            du_duplicate_groups = length (filter (\<lambda>(s, n). 1 < n) counts),
            du_largest_group = foldl max 0 (map snd counts),
            du_unique_per_episode = map (\<lambda>(k, ss). (k, length ss)) per_episode\<rparr>)))"

record image_leakage =
  il_test_frames :: nat
  il_min :: real
  il_p10 :: real
  il_median :: real
  il_exact_duplicates :: nat

text \<open>\<open>thumb f\<close> is the flattened thumbnail of the frame, or what opening the image raises. All
  thumbnails have the same size; stacking none of them raises.\<close>

definition thumbnails :: "(frame \<Rightarrow> real list res) \<Rightarrow> frame list \<Rightarrow> matrix res" where
  "thumbnails thumb frames =
     rbind (rmap thumb frames) (\<lambda>rows. if rows = [] then Inl ValueError else Inr rows)"

definition rms :: "real list \<Rightarrow> real list \<Rightarrow> real" where
  "rms xs ys = sqrt (np_mean (map2 (\<lambda>x y. (x - y) * (x - y)) xs ys))"

definition image_leakage_report :: "(frame \<Rightarrow> real list res) \<Rightarrow> split \<Rightarrow> image_leakage res" where
  "image_leakage_report thumb sp =
     rbind (thumbnails thumb (sp_train sp)) (\<lambda>train.
     rbind (thumbnails thumb (sp_test sp)) (\<lambda>test.
     let nearest = map (\<lambda>row. min_list1 (map (\<lambda>t. rms t row) train)) test in
     Inr \<lparr>il_test_frames = length test,
          il_min = min_list1 nearest,
          il_p10 = np_percentile nearest 10,
          il_median = np_median nearest,
          il_exact_duplicates = length (filter (\<lambda>d. d = 0) nearest)\<rparr>))"


subsection \<open>Lemmas: shuffling and sorting keep the elements\<close>

lemma mset_swap_down: "i < length xs \<Longrightarrow> mset (swap_down draw i xs) = mset xs"
proof (induction i arbitrary: xs)
  case (Suc i)
  let ?j = "draw (i + 2) mod (i + 2)"
  have "?j < i + 2" by (intro mod_less_divisor) simp
  then have "?j < length xs" using Suc.prems by linarith
  then have "mset (xs[Suc i := xs ! ?j, ?j := xs ! Suc i]) = mset xs"
    using Suc.prems by (intro mset_swap)
  then show ?case using Suc.IH [of "xs[Suc i := xs ! ?j, ?j := xs ! Suc i]"] Suc.prems by (simp add: Let_def)
qed simp

lemma mset_shuffle [simp]: "mset (shuffle draw xs) = mset xs"
  by (cases "xs = []") (simp_all add: shuffle_def mset_swap_down)

lemma set_shuffle [simp]: "set (shuffle draw xs) = set xs"
  by (rule mset_eq_setD) simp

lemma length_shuffle [simp]: "length (shuffle draw xs) = length xs"
  by (rule mset_eq_length) simp

lemma distinct_shuffle [simp]: "distinct (shuffle draw xs) = distinct xs"
  by (rule mset_eq_imp_distinct_iff) simp

lemma mset_py_sorted: "py_sorted xs = Inr ys \<Longrightarrow> mset ys = mset xs"
  by (auto simp: py_sorted_def split: if_splits)

subsection \<open>Lemmas: the episode split\<close>

definition key_of :: "frame \<Rightarrow> json" where
  "key_of f = (case py_key (fr_episode f) of Inr k \<Rightarrow> k | Inl _ \<Rightarrow> JNull)"

lemma episodes_props:
  assumes "episodes frames = Inr ids"
  shows "distinct ids" "set ids = key_of ` set frames"
    and "f \<in> set frames \<Longrightarrow> py_key (fr_episode f) = Inr (key_of f)"
proof -
  obtain keys where keys: "rmap (\<lambda>f. py_key (fr_episode f)) frames = Inr keys"
    and ids: "py_sorted (remdups keys) = Inr ids"
    using assms by (auto simp: episodes_def rbind_eq_Inr)
  have all: "list_all2 (\<lambda>f k. py_key (fr_episode f) = Inr k) frames keys"
    using keys by (simp add: rmap_eq_Inr_iff)
  then have "keys = map key_of frames"
    by (induction rule: list_all2_induct) (auto simp: key_of_def)
  moreover have "mset ids = mset (remdups keys)" by (rule mset_py_sorted [OF ids])
  ultimately show "distinct ids" "set ids = key_of ` set frames"
    by (auto dest: mset_eq_imp_distinct_iff mset_eq_setD)
  show "py_key (fr_episode f) = Inr (key_of f)" if "f \<in> set frames"
    using all that by (induction rule: list_all2_induct) (auto simp: key_of_def)
qed

lemma part_sizes_bounds:
  assumes "3 \<le> n" "part_sizes n ratios = (a, b)"
  shows "1 \<le> a" "1 \<le> b" "a + b < int n"
proof -
  let ?t = "max 1 (py_round (real n * fst ratios))" and ?v = "max 1 (py_round (real n * snd ratios))"
  have "a = min ?t (int n - 2)" "b = min ?v (int n - a - 1)"
    using assms(2) by (auto simp: part_sizes_def Let_def)
  moreover have "1 \<le> ?t" "1 \<le> ?v" by simp_all
  moreover have "3 \<le> int n" using assms(1) by simp
  ultimately show "1 \<le> a" "1 \<le> b" "a + b < int n" by (auto simp: min_def split: if_splits)
qed

lemma map_fst_assignment [simp]: "map fst (assignment sizes ids) = ids"
  by (rule nth_equalityI) (simp_all add: assignment_def)

lemma length_assignment [simp]: "length (assignment sizes ids) = length ids"
  by (simp add: assignment_def)

lemma assignment_nth:
  assumes "distinct ids" "i < length ids"
  shows "map_of (assignment (a, b) ids) (ids ! i)
       = Some (if int i < a then Train else if int i < a + b then Val else Test)"
proof -
  have "(ids ! i, if int i < a then Train else if int i < a + b then Val else Test)
      = assignment (a, b) ids ! i"
    using assms by (simp add: assignment_def)
  also have "\<dots> \<in> set (assignment (a, b) ids)" using assms by (intro nth_mem) simp
  finally show ?thesis using assms by (intro map_of_is_SomeI) simp_all
qed

lemma deal_map:
  "deal frames (map g frames) =
     \<lparr>sp_train = filter (\<lambda>f. g f = Train) frames, sp_val = filter (\<lambda>f. g f = Val) frames,
      sp_test = filter (\<lambda>f. g f = Test) frames\<rparr>"
proof -
  have "map fst (filter (\<lambda>fp. snd fp = p) (zip frames (map g frames))) = filter (\<lambda>f. g f = p) frames" for p
    by (induction frames) auto
  then show ?thesis by (simp add: deal_def Let_def)
qed

text \<open>A successful split assigns a part to every episode, and each part gets an episode.\<close>

lemma episode_parts_assignment:
  assumes eps: "episodes frames = Inr ids" and "3 \<le> length ids"
  obtains h where "episode_parts draw ratios frames = Inr (map (\<lambda>f. h (key_of f)) frames)"
    and "\<And>p. \<exists>f \<in> set frames. h (key_of f) = p"
proof -
  note ids = episodes_props [OF eps]
  define order where "order = shuffle draw ids"
  obtain a b where ab: "part_sizes (length order) ratios = (a, b)" by (cases "part_sizes (length order) ratios")
  define asg where "asg = assignment (a, b) order"
  have order: "distinct order" "set order = key_of ` set frames" "length order = length ids"
    by (simp_all add: order_def ids)
  note bounds = part_sizes_bounds [OF assms(2) [folded order(3)] ab]
  have dom: "\<exists>p. map_of asg k = Some p" if "k \<in> set order" for k
    using that order(1) assignment_nth [of order _ a b] by (metis asg_def in_set_conv_nth)
  let ?h = "\<lambda>k. the (map_of asg k)"
  have "part_of asg f = Inr (?h (key_of f))" if "f \<in> set frames" for f
    using that dom [of "key_of f"] ids(3) [OF that] order(2) by (auto simp: part_of_def)
  then have "rmap (part_of asg) frames = Inr (map (\<lambda>f. ?h (key_of f)) frames)" by (rule rmap_ok)
  then have res: "episode_parts draw ratios frames = Inr (map (\<lambda>f. ?h (key_of f)) frames)"
    using eps assms(2) ab by (simp add: episode_parts_def Let_def asg_def order_def)
  have at_pos: "\<exists>f \<in> set frames. ?h (key_of f) = (if int i < a then Train else if int i < a + b then Val else Test)"
    if "i < length order" for i
  proof -
    have "order ! i \<in> key_of ` set frames" using order(2) that nth_mem by blast
    then obtain f where "f \<in> set frames" "order ! i = key_of f" by blast
    with assignment_nth [OF order(1) that, of a b] show ?thesis by (intro bexI [of _ f]) (simp_all add: asg_def)
  qed
  have "order \<noteq> []" using bounds by auto
  then have "\<exists>f \<in> set frames. ?h (key_of f) = p" for p
    using at_pos [of 0] at_pos [of "nat a"] at_pos [of "nat (a + b)"] bounds by (cases p) auto
  with that [of ?h] res show thesis by simp
qed

lemma split_by_episode_assignment:
  assumes eps: "episodes frames = Inr ids" and "3 \<le> length ids"
  obtains h where "split_by_episode draw ratios frames = Inr
      \<lparr>sp_train = filter (\<lambda>f. h (key_of f) = Train) frames, sp_val = filter (\<lambda>f. h (key_of f) = Val) frames,
       sp_test = filter (\<lambda>f. h (key_of f) = Test) frames\<rparr>"
    and "\<And>p. \<exists>f \<in> set frames. h (key_of f) = p"
proof -
  obtain h where "episode_parts draw ratios frames = Inr (map (\<lambda>f. h (key_of f)) frames)"
    "\<And>p. \<exists>f \<in> set frames. h (key_of f) = p"
    by (rule episode_parts_assignment [OF assms, of draw ratios]) (rule that)
  with that [of h] show thesis by (simp add: split_by_episode_def deal_map)
qed

lemma mset_three_parts:
  fixes h :: "'a \<Rightarrow> part"
  shows "mset (filter (\<lambda>f. h f = Train) xs) + mset (filter (\<lambda>f. h f = Val) xs)
   + mset (filter (\<lambda>f. h f = Test) xs) = mset xs"
proof -
  have "{#x \<in># M. h x = Train#} + {#x \<in># M. h x = Val#} + {#x \<in># M. h x = Test#} = M" for M
  proof (rule multiset_eqI)
    fix x
    show "count ({#x \<in># M. h x = Train#} + {#x \<in># M. h x = Val#} + {#x \<in># M. h x = Test#}) x = count M x"
      by (cases "h x") simp_all
  qed
  then show ?thesis by simp
qed


subsection \<open>What both splitters promise\<close>

text \<open>A splitter loses no frame and duplicates none; it may refuse the dataset.\<close>

locale splitter =
  fixes split :: "frame list \<Rightarrow> split res"
  assumes split_mset: "split frames = Inr sp \<Longrightarrow> mset (sp_train sp) + mset (sp_val sp) + mset (sp_test sp) = mset frames"
begin

lemma split_parts:
  assumes "split frames = Inr sp"
  shows "set (sp_train sp) \<union> set (sp_val sp) \<union> set (sp_test sp) = set frames"
    and "length (sp_train sp) + length (sp_val sp) + length (sp_test sp) = length frames"
proof -
  have eq: "mset (sp_train sp @ sp_val sp @ sp_test sp) = mset frames"
    using split_mset [OF assms] by (simp add: add.assoc)
  show "set (sp_train sp) \<union> set (sp_val sp) \<union> set (sp_test sp) = set frames"
    using mset_eq_setD [OF eq] by auto
  show "length (sp_train sp) + length (sp_val sp) + length (sp_test sp) = length frames"
    using mset_eq_length [OF eq] by simp
qed

lemma split_index:
  assumes "split frames = Inr sp" "distinct (map fr_image frames)"
  shows "distinct (map fr_image (sp_train sp @ sp_val sp @ sp_test sp))"
proof -
  have "mset (map fr_image (sp_train sp @ sp_val sp @ sp_test sp)) = mset (map fr_image frames)"
    using split_mset [OF assms(1)] by (metis add.assoc mset_append mset_map)
  then show ?thesis using assms(2) mset_eq_imp_distinct_iff by blast
qed

end

lemma split_by_episode_few:
  "episodes frames = Inr ids \<Longrightarrow> length ids < 3 \<Longrightarrow> split_by_episode draw ratios frames = Inl ValueError"
  by (simp add: split_by_episode_def episode_parts_def)

interpretation by_episode: splitter "split_by_episode draw ratios" for draw ratios
proof
  fix frames sp
  assume sp: "split_by_episode draw ratios frames = Inr sp"
  then obtain ids where ids: "episodes frames = Inr ids" by (auto simp: split_by_episode_def episode_parts_def rbind_eq_Inr)
  have "3 \<le> length ids" using sp split_by_episode_few [OF ids, of draw ratios] by (cases "length ids < 3") auto
  then obtain h where "split_by_episode draw ratios frames = Inr
      \<lparr>sp_train = filter (\<lambda>f. h (key_of f) = Train) frames, sp_val = filter (\<lambda>f. h (key_of f) = Val) frames,
       sp_test = filter (\<lambda>f. h (key_of f) = Test) frames\<rparr>"
    by (rule split_by_episode_assignment [OF ids])
  with sp show "mset (sp_train sp) + mset (sp_val sp) + mset (sp_test sp) = mset frames"
    using mset_three_parts [of "\<lambda>f. h (key_of f)" frames] by auto
qed

lemma py_trunc_nonneg: "0 \<le> x \<Longrightarrow> 0 \<le> py_trunc x"
  by (simp add: py_trunc_def)

lemma split_by_frame_append:
  assumes "0 \<le> fst ratios" "0 \<le> snd ratios" and sp: "sp = split_by_frame draw ratios frames"
  shows "sp_train sp @ sp_val sp @ sp_test sp = shuffle draw frames"
proof -
  let ?n = "length (shuffle draw frames)"
  let ?t = "py_trunc (real ?n * fst ratios)" and ?v = "py_trunc (real ?n * snd ratios)"
  have nonneg: "0 \<le> ?t" "0 \<le> ?v" using assms by (simp_all add: py_trunc_nonneg)
  define a where "a = clip_bound ?n ?t"
  define b where "b = clip_bound ?n (?t + ?v)"
  have "a \<le> b" using nonneg by (simp add: a_def b_def clip_bound_def)
  then have "take a xs @ take (b - a) (drop a xs) @ drop b xs = xs" for xs :: "frame list"
    by (metis append_assoc append_take_drop_id le_add_diff_inverse take_add)
  then show ?thesis
    unfolding sp split_by_frame_def Let_def py_slice_def a_def b_def
    by (simp add: clip_bound_def)
qed

definition DEFAULT_RATIOS :: "real \<times> real" where
  "DEFAULT_RATIOS = (7 / 10, 15 / 100)"

interpretation by_frame: splitter "\<lambda>frames. Inr (split_by_frame draw DEFAULT_RATIOS frames)" for draw
proof
  fix frames sp
  assume "(Inr (split_by_frame draw DEFAULT_RATIOS frames) :: split res) = Inr sp"
  then have "sp_train sp @ sp_val sp @ sp_test sp = shuffle draw frames"
    by (intro split_by_frame_append) (auto simp: DEFAULT_RATIOS_def)
  then show "mset (sp_train sp) + mset (sp_val sp) + mset (sp_test sp) = mset frames"
    by (metis add.assoc mset_append mset_shuffle)
qed


subsection \<open>Lemmas: reports\<close>

lemma min_list1_Min: "xs \<noteq> [] \<Longrightarrow> min_list1 xs = Min (set xs)"
proof (cases xs)
  case (Cons x ys)
  have "foldl min x ys = Min (insert x (set ys))" for x
  proof (induction ys arbitrary: x)
    case (Cons y ys)
    then show ?case by (cases "ys = []") (simp_all add: min.assoc Min.insert_remove)
  qed simp
  with Cons show ?thesis by (simp add: min_list1_def)
qed simp

lemma min_list1_le: "x \<in> set xs \<Longrightarrow> min_list1 xs \<le> x"
  by (cases "xs = []") (simp_all add: min_list1_Min)

lemma min_list1_in: "xs \<noteq> [] \<Longrightarrow> min_list1 xs \<in> set xs"
  by (simp add: min_list1_Min)

lemma min_list1_less: "xs \<noteq> [] \<Longrightarrow> min_list1 xs < c \<longleftrightarrow> (\<exists>x \<in> set xs. x < c)"
  by (simp add: min_list1_Min Min_less_iff)

definition label_dist :: "real list \<Rightarrow> real list \<Rightarrow> real" where
  "label_dist t r = norm_row (map2 (-) t r)"

lemma nearest_rows_eq:
  assumes "\<And>t r. t \<in> set test \<Longrightarrow> r \<in> set train \<Longrightarrow> length t = length r"
  shows "nearest_rows train test = Inr (map (\<lambda>t. min_list1 (map (label_dist t) train)) test)"
proof -
  have "rmap (row_diff t) train = Inr (map (\<lambda>r. map2 (-) t r) train)" if "t \<in> set test" for t
    using that assms by (intro rmap_ok) (simp add: row_diff_def)
  then show ?thesis
    unfolding nearest_rows_def by (intro rmap_ok) (simp add: comp_def label_dist_def [abs_def])
qed

lemma label_matrix_rows:
  "label_matrix frames = Inr rows \<Longrightarrow> length rows = length frames \<and> (\<forall>r \<in> set rows. length r = ncols rows)"
  by (auto simp: label_matrix_def rbind_eq_Inr ncols_def list_all_iff rmap_length split: if_splits)

lemma length_filter_card: "length (filter P xs) = card {i. i < length xs \<and> P (xs ! i)}"
  by (simp add: length_filter_conv_card)

subsection \<open>Properties\<close>

text \<open>C7: the episode split keeps every episode whole. For any dataset with comparable episode ids, any
  ratios and any shuffle: with fewer than three episodes it is refused with \<open>ValueError\<close>; otherwise it
  succeeds, every frame lands in exactly one part, the parts keep the recording order, none of the three
  is empty, and no two parts hold frames of the same episode.\<close>

theorem split_by_episode_correct:
  assumes "episodes frames = Inr ids"
  shows "if length ids < 3 then split_by_episode draw ratios frames = Inl ValueError
     else \<exists>sp. split_by_episode draw ratios frames = Inr sp
       \<and> mset (sp_train sp) + mset (sp_val sp) + mset (sp_test sp) = mset frames
       \<and> subseq (sp_train sp) frames \<and> subseq (sp_val sp) frames \<and> subseq (sp_test sp) frames
       \<and> sp_train sp \<noteq> [] \<and> sp_val sp \<noteq> [] \<and> sp_test sp \<noteq> []
       \<and> key_of ` set (sp_train sp) \<inter> key_of ` set (sp_val sp) = {}
       \<and> key_of ` set (sp_train sp) \<inter> key_of ` set (sp_test sp) = {}
       \<and> key_of ` set (sp_val sp) \<inter> key_of ` set (sp_test sp) = {}"
proof (cases "length ids < 3")
  case True
  then show ?thesis using split_by_episode_few [OF assms] by simp
next
  case False
  then have len: "3 \<le> length ids" by simp
  obtain h where sp: "split_by_episode draw ratios frames = Inr
      \<lparr>sp_train = filter (\<lambda>f. h (key_of f) = Train) frames, sp_val = filter (\<lambda>f. h (key_of f) = Val) frames,
       sp_test = filter (\<lambda>f. h (key_of f) = Test) frames\<rparr>"
    and all: "\<And>p. \<exists>f \<in> set frames. h (key_of f) = p"
    by (rule split_by_episode_assignment [OF assms len, of draw ratios]) (rule that)
  have "filter (\<lambda>f. h (key_of f) = p) frames \<noteq> []" for p
    using all [of p] by (simp add: filter_empty_conv)
  moreover have "key_of ` set (filter (\<lambda>f. h (key_of f) = p) frames)
      \<inter> key_of ` set (filter (\<lambda>f. h (key_of f) = q) frames) = {}" if "p \<noteq> q" for p q
    using that by auto
  ultimately show ?thesis
    using False sp mset_three_parts [of "\<lambda>f. h (key_of f)" frames] by simp
qed

definition demo_frame :: "int \<Rightarrow> real \<Rightarrow> frame" where
  "demo_frame e x = \<lparr>fr_image = [''d'', ''i''], fr_episode = JInt e, fr_index = JInt 0,
                     fr_label = [JNum x, JNum 0, JNum 1], fr_stamp = JNum 0\<rparr>"

lemma demo_episodes: "episodes [demo_frame 0 0, demo_frame 0 1, demo_frame 1 2, demo_frame 2 3]
    = Inr [JNum 0, JNum 1, JNum 2]"
  by (simp add: episodes_def demo_frame_def py_key_def py_sorted_def is_jstr_def is_jnum_def jnum_val_def)

theorem split_by_episode_correct_witness:
  "\<exists>sp. split_by_episode (\<lambda>n. 0) (7 / 10, 15 / 100)
          [demo_frame 0 0, demo_frame 0 1, demo_frame 1 2, demo_frame 2 3] = Inr sp \<and> sp_test sp \<noteq> []"
  using split_by_episode_correct [OF demo_episodes, of "\<lambda>n. 0" "(7 / 10, 15 / 100)"] by auto

text \<open>The leakage report measures what it names. When both parts have labels of the same width, the
  report is returned and counts exactly the test frames that have a training frame closer than a
  centimetre in label space; its minimum is attained by some pair and is a lower bound for every pair, and
  the count and the fraction stay within the size of the test part. It refuses exactly when a part is
  empty.\<close>

theorem leakage_report_correct:
  assumes tr: "label_matrix (sp_train sp) = Inr train" and te: "label_matrix (sp_test sp) = Inr test"
    and wid: "ncols train = ncols test"
  shows "if sp_train sp = [] \<or> sp_test sp = [] then leakage_report sp = Inl ValueError
     else \<exists>r. leakage_report sp = Inr r \<and> lk_test_frames r = length (sp_test sp)
       \<and> lk_within_10mm r = card {i. i < length test \<and> (\<exists>t \<in> set train. label_dist (test ! i) t < 1 / 100)}
       \<and> (\<exists>i t. i < length test \<and> t \<in> set train \<and> lk_min_mm r = label_dist (test ! i) t * 1000)
       \<and> (\<forall>i t. i < length test \<and> t \<in> set train \<longrightarrow> lk_min_mm r \<le> label_dist (test ! i) t * 1000)
       \<and> lk_within_10mm r \<le> lk_test_frames r \<and> 0 \<le> lk_fraction_within_10mm r \<and> lk_fraction_within_10mm r \<le> 1"
proof (cases "sp_train sp = [] \<or> sp_test sp = []")
  case True
  then have "train = [] \<or> test = []" using label_matrix_rows [OF tr] label_matrix_rows [OF te] by auto
  with True show ?thesis using tr te by (simp add: leakage_report_def)
next
  case False
  note rows = label_matrix_rows [OF tr] label_matrix_rows [OF te]
  then have ne: "train \<noteq> []" "test \<noteq> []" using False by auto
  let ?near = "map (\<lambda>t. min_list1 (map (label_dist t) train)) test"
  have near: "nearest_rows train test = Inr ?near"
    by (rule nearest_rows_eq) (use rows wid in auto)
  obtain r where r: "leakage_report sp = Inr r" "lk_test_frames r = length test"
    "lk_min_mm r = min_list1 ?near * 1000" "lk_within_10mm r = length (filter (\<lambda>d. d < 1 / 100) ?near)"
    "lk_fraction_within_10mm r = real (lk_within_10mm r) / real (length ?near)"
    using tr te ne near by (simp add: leakage_report_def Let_def)
  have "?near \<noteq> []" using ne by simp
  from min_list1_in [OF this] obtain i where i: "i < length test"
    "min_list1 ?near = min_list1 (map (label_dist (test ! i)) train)" by (auto simp: in_set_conv_nth)
  have "map (label_dist (test ! i)) train \<noteq> []" using ne by simp
  from min_list1_in [OF this] obtain t where t: "t \<in> set train" "min_list1 ?near = label_dist (test ! i) t"
    using i by auto
  have low: "min_list1 ?near \<le> label_dist (test ! i) t" if "i < length test" "t \<in> set train" for i t
  proof -
    have "min_list1 ?near \<le> min_list1 (map (label_dist (test ! i)) train)"
      using that by (intro min_list1_le) auto
    also have "\<dots> \<le> label_dist (test ! i) t" using that by (intro min_list1_le) auto
    finally show ?thesis .
  qed
  have count: "lk_within_10mm r = card {i. i < length test \<and> (\<exists>t \<in> set train. label_dist (test ! i) t < 1 / 100)}"
  proof -
    have "{i. i < length test \<and> ?near ! i < 1 / 100}
        = {i. i < length test \<and> (\<exists>t \<in> set train. label_dist (test ! i) t < 1 / 100)}"
    proof (intro Collect_cong conj_cong refl)
      fix i assume "i < length test"
      then show "?near ! i < 1 / 100 \<longleftrightarrow> (\<exists>t \<in> set train. label_dist (test ! i) t < 1 / 100)"
        using min_list1_less [of "map (label_dist (test ! i)) train" "1 / 100"] ne by simp
    qed
    then show ?thesis unfolding r(4) length_filter_card by simp
  qed
  have le: "lk_within_10mm r \<le> length test" unfolding r(4) by (metis length_filter_le length_map)
  then have "lk_fraction_within_10mm r \<le> 1" "0 \<le> lk_fraction_within_10mm r"
    using ne unfolding r(5) by (simp_all add: divide_le_eq)
  with False r(1,2,3) rows i(1) t low count le show ?thesis by auto
qed

theorem leakage_report_correct_witness:
  "\<exists>r. leakage_report \<lparr>sp_train = [demo_frame 0 0], sp_val = [], sp_test = [demo_frame 1 2]\<rparr> = Inr r
     \<and> lk_test_frames r = 1"
proof -
  have "label_matrix [demo_frame e x] = Inr [[x, 0, 1]]" for e x
    by (simp add: label_matrix_def demo_frame_def)
  then show ?thesis
    using leakage_report_correct [of "\<lparr>sp_train = [demo_frame 0 0], sp_val = [], sp_test = [demo_frame 1 2]\<rparr>"
        "[[0, 0, 1]]" "[[2, 0, 1]]"]
    by (auto simp: ncols_def)
qed

end
