(* ===== verification/Train.thy ===== *)
theory Train
  imports Dataset Serve
begin

section \<open>Training (\<open>threevn_ml/train.py\<close>)\<close>

text \<open>
  \<open>train_main\<close> is the whole run: read and validate the manifest, compute or reuse the features, split by
  episode, judge the closed form, fit and judge two ridge models, and write the artifact. Arguments stand
  for the parts outside the source: \<open>solve\<close> is \<open>np.linalg.solve\<close>, \<open>open_rgb\<close> decodes an image file,
  \<open>rng seed\<close> are the draws of \<open>random.Random(seed)\<close>, \<open>code\<close> is what \<open>git_description('/ws')\<close> returns. Files
  are maps from paths: the label lines, the manifest documents, the feature caches. What is printed is
  left out, except that the two percentages divide and so may raise before anything is written.
\<close>

subsection \<open>Features, extracted or cached\<close>

record cached =
  ca_names :: "string list"
  ca_features :: matrix
  ca_labels :: matrix

fun featurise :: "(path \<Rightarrow> byte ndarray res) \<Rightarrow> intrinsics \<Rightarrow> frame list \<Rightarrow> (matrix \<times> frame list) res" where
  "featurise open_rgb i [] = Inr ([], [])"
| "featurise open_rgb i (f # fs) =
     rbind (open_rgb (fr_image f)) (\<lambda>rgb.
     rbind (extract_features rgb i SHAPE_FEATURES 1 60 30) (\<lambda>vector.
     rbind (featurise open_rgb i fs) (\<lambda>(rows, kept).
       Inr (case vector of None \<Rightarrow> (rows, kept) | Some v \<Rightarrow> (v # rows, f # kept)))))"

definition load_features ::
  "(path \<Rightarrow> byte ndarray res) \<Rightarrow> (path \<rightharpoonup> label_line list) \<Rightarrow> (path \<rightharpoonup> cached) \<Rightarrow> path \<Rightarrow> intrinsics \<Rightarrow> bool
   \<Rightarrow> ((matrix \<times> matrix \<times> frame list) \<times> (path \<rightharpoonup> cached)) res" where
  "load_features open_rgb files caches directory i use_cache =
     (let p = directory @ [''features.npz''] in
      rbind (load files directory) (\<lambda>frames.
      case (if use_cache then caches p else None) of
        Some c \<Rightarrow>
          if ca_names c = SHAPE_FEATURES \<and> length (ca_features c) = length frames
          then Inr ((ca_features c, ca_labels c, frames), caches)
          else rbind (featurise open_rgb i frames) (\<lambda>(rows, kept).
               rbind (label_matrix kept) (\<lambda>labels.
                 Inr ((rows, labels, kept),
                      if length kept = length frames
                      then caches(p \<mapsto> \<lparr>ca_names = SHAPE_FEATURES, ca_features = rows, ca_labels = labels\<rparr>)
                      else caches)))
      | None \<Rightarrow>
          rbind (featurise open_rgb i frames) (\<lambda>(rows, kept).
          rbind (label_matrix kept) (\<lambda>labels.
            Inr ((rows, labels, kept),
                 if use_cache \<and> length kept = length frames
                 then caches(p \<mapsto> \<lparr>ca_names = SHAPE_FEATURES, ca_features = rows, ca_labels = labels\<rparr>)
                 else caches)))))"

subsection \<open>Evaluation\<close>

definition row_at :: "matrix \<Rightarrow> nat \<Rightarrow> real list res" where
  "row_at m i = (if i < length m then Inr (m ! i) else Inl IndexError)"

text \<open>\<open>m[np.ix_(rows, picked)]\<close> and \<open>labels[rows]\<close>.\<close>

definition pick :: "matrix \<Rightarrow> nat list \<Rightarrow> nat list \<Rightarrow> matrix res" where
  "pick m rows picked =
     rmap (\<lambda>i. rbind (row_at m i) (\<lambda>r.
                rmap (\<lambda>k. if k < length r then Inr (r ! k) else Inl IndexError) picked)) rows"

definition column_of :: "string \<Rightarrow> nat" where
  "column_of name = length (takeWhile (\<lambda>n. n \<noteq> name) SHAPE_FEATURES)"

text \<open>\<open>{name: [index[id(f)] for f in items]}\<close>: the positions of the frames of a part.\<close>

definition rows_of :: "part list \<Rightarrow> part \<Rightarrow> nat list" where
  "rows_of parts p = filter (\<lambda>i. parts ! i = p) [0..<length parts]"

text \<open>\<open>errors\<close> on positions; labels of another width fail to broadcast or to be indexed.\<close>

definition judged :: "matrix \<Rightarrow> matrix \<Rightarrow> error_summary res" where
  "judged predicted actual =
     (if ncols actual = 3 then errors predicted actual
      else Inl (if ncols actual = 1 then IndexError else ValueError))"

definition summary_doc :: "error_summary \<Rightarrow> json" where
  "summary_doc es = JObj
     [(''n'', JInt (int (es_n es))),
      (''median_mm'', JNum (es_median_mm es)),
      (''p95_mm'', JNum (es_p95_mm es)),
      (''max_mm'', JNum (es_max_mm es)),
      (''mae_x_mm'', JNum (es_mae_x_mm es)),
      (''mae_y_mm'', JNum (es_mae_y_mm es)),
      (''mae_z_mm'', JNum (es_mae_z_mm es)),
      (''bias_z_mm'', JNum (es_bias_z_mm es))]"

record scores =
  sc_train :: error_summary
  sc_val :: error_summary
  sc_test :: error_summary

definition evaluate ::
  "(matrix \<Rightarrow> matrix res) \<Rightarrow> matrix \<Rightarrow> matrix \<Rightarrow> part list \<Rightarrow> nat list \<Rightarrow> part \<Rightarrow> error_summary res" where
  "evaluate predict features labels parts picked p =
     rbind (pick features (rows_of parts p) picked) (\<lambda>x.
     rbind (predict x) (\<lambda>predicted.
     rbind (rmap (row_at labels) (rows_of parts p)) (\<lambda>actual. judged predicted actual)))"

definition evaluate_parts ::
  "(matrix \<Rightarrow> matrix res) \<Rightarrow> matrix \<Rightarrow> matrix \<Rightarrow> part list \<Rightarrow> nat list \<Rightarrow> scores res" where
  "evaluate_parts predict features labels parts picked =
     rbind (evaluate predict features labels parts picked Train) (\<lambda>a.
     rbind (evaluate predict features labels parts picked Val) (\<lambda>b.
     rbind (evaluate predict features labels parts picked Test) (\<lambda>c.
       Inr \<lparr>sc_train = a, sc_val = b, sc_test = c\<rparr>)))"

definition scores_doc :: "scores \<Rightarrow> json" where
  "scores_doc s = JObj [(''train'', summary_doc (sc_train s)), (''val'', summary_doc (sc_val s)),
                        (''test'', summary_doc (sc_test s))]"

definition fit_and_judge ::
  "(matrix \<Rightarrow> matrix \<Rightarrow> matrix res) \<Rightarrow> real \<Rightarrow> matrix \<Rightarrow> matrix \<Rightarrow> part list \<Rightarrow> string list
   \<Rightarrow> (ridge \<times> scores) res" where
  "fit_and_judge solve alpha features labels parts names =
     (let picked = map column_of names in
      rbind (pick features (rows_of parts Train) picked) (\<lambda>x.
      rbind (rmap (row_at labels) (rows_of parts Train)) (\<lambda>y.
      rbind (ridge_fit solve (ridge_new alpha) x y) (\<lambda>model.
      rbind (evaluate_parts (ridge_predict model) features labels parts picked) (\<lambda>s.
        Inr (model, s))))))"

subsection \<open>The artifact\<close>

definition np_std :: "real list \<Rightarrow> real" where
  "np_std xs = sqrt (np_mean (map (\<lambda>x. (x - np_mean xs)\<^sup>2) xs))"

definition stats_doc :: "string list \<Rightarrow> matrix \<Rightarrow> json" where
  "stats_doc names x = JObj
     [(''names'', JArr (map JStr names)),
      (''mean'', JArr (map (JNum \<circ> np_mean) (columns x))),
      (''std'', JArr (map (JNum \<circ> np_std) (columns x))),
      (''min'', JArr (map (JNum \<circ> min_list1) (columns x))),
      (''max'', JArr (map (JNum \<circ> max_list1) (columns x)))]"

definition dataset_doc :: "json \<Rightarrow> json res" where
  "dataset_doc doc =
     rbind (jitem doc ''world'') (\<lambda>world. rbind (jitem doc ''robot'') (\<lambda>robot.
     rbind (jitem doc ''frames'') (\<lambda>frames. rbind (jitem doc ''episodes'') (\<lambda>episodes.
     rbind (jitem doc ''created'') (\<lambda>created. rbind (jitem doc ''code'') (\<lambda>code.
     rbind (jitem doc ''labels'') (\<lambda>labels.
       Inr (JObj [(''world'', world), (''robot'', robot), (''frames'', frames), (''episodes'', episodes),
                  (''recorded'', created), (''code'', code), (''labels'', labels)]))))))))"

definition artifact_doc ::
  "json \<Rightarrow> scores \<Rightarrow> scores \<Rightarrow> scores \<Rightarrow> geometric \<Rightarrow> matrix \<Rightarrow> int \<Rightarrow> part list \<Rightarrow> json \<Rightarrow> json \<Rightarrow> json" where
  "artifact_doc model base geo shape closed_form x seed parts dataset code = JObj
     [(''schema_version'', JInt 1),
      (''model'', model),
      (''selected'', JStr ''ridge + shape''),
      (''ablation'', JObj [(''geometry'', JArr (map JStr GEOMETRIC_FEATURES)),
                           (''+ shape'', JArr (map JStr SHAPE_FEATURES))]),
      (''baseline'', geometric_to_dict closed_form),
      (''features'', JArr (map JStr SHAPE_FEATURES)),
      (''metrics'', JObj [(''geometric'', scores_doc base), (''ridge geometry'', scores_doc geo),
                          (''ridge + shape'', scores_doc shape)]),
      (''feature_stats'', stats_doc SHAPE_FEATURES x),
      (''split'', JObj [(''kind'', JStr ''episode''), (''seed'', JInt seed),
                        (''train'', JInt (int (length (rows_of parts Train)))),
                        (''val'', JInt (int (length (rows_of parts Val)))),
                        (''test'', JInt (int (length (rows_of parts Test))))]),
      (''dataset'', dataset),
      (''code'', code)]"

subsection \<open>The run\<close>

record train_args =
  ta_dataset :: path
  ta_alpha :: real
  ta_target_width :: real
  ta_seed :: int
  ta_no_cache :: bool

record train_world =
  tw_manifests :: "path \<rightharpoonup> json"
  tw_labels :: "path \<rightharpoonup> label_line list"
  tw_caches :: "path \<rightharpoonup> cached"

text \<open>From the features to the artifact. \<open>100 * (base_test - geo_test) / base_test\<close> and the same for the
  shape features are printed before the artifact is written.\<close>

definition train_on ::
  "(matrix \<Rightarrow> matrix \<Rightarrow> matrix res) \<Rightarrow> (nat \<Rightarrow> nat) \<Rightarrow> json res \<Rightarrow> train_args \<Rightarrow> json \<Rightarrow> intrinsics
   \<Rightarrow> matrix \<Rightarrow> matrix \<Rightarrow> frame list \<Rightarrow> json res" where
  "train_on solve draw code args doc i features labels frames =
     (let closed_form = \<lparr>g_intrinsics = i, g_target_width = ta_target_width args\<rparr>;
          judge = fit_and_judge solve (ta_alpha args) features labels in
      rbind (episode_parts draw DEFAULT_RATIOS frames) (\<lambda>parts.
      rbind (evaluate_parts (geometric_predict closed_form) features labels parts
               (map column_of GEOMETRIC_FEATURES)) (\<lambda>base.
      rbind (judge parts GEOMETRIC_FEATURES) (\<lambda>(geometry, geo).
      rbind (judge parts SHAPE_FEATURES) (\<lambda>(ridge, shape).
      rbind (py_div (100 * (es_median_mm (sc_test base) - es_median_mm (sc_test geo)))
               (es_median_mm (sc_test base))) (\<lambda>_.
      rbind (py_div (100 * (es_median_mm (sc_test geo) - es_median_mm (sc_test shape)))
               (es_median_mm (sc_test geo))) (\<lambda>_.
      rbind (ridge_to_dict ridge) (\<lambda>model.
      rbind (pick features (rows_of parts Train) (map column_of SHAPE_FEATURES)) (\<lambda>x.
      rbind (dataset_doc doc) (\<lambda>dataset.
      rbind code (\<lambda>c.
        Inr (artifact_doc model base geo shape closed_form x (ta_seed args) parts dataset c))))))))))))"

text \<open>The exit code, what was written to \<open>--out\<close> (keys sorted, as \<open>save\<close> does), and the feature caches.\<close>

definition train_main ::
  "(matrix \<Rightarrow> matrix \<Rightarrow> matrix res) \<Rightarrow> (path \<Rightarrow> byte ndarray res) \<Rightarrow> (int \<Rightarrow> nat \<Rightarrow> nat) \<Rightarrow> json res
   \<Rightarrow> train_args \<Rightarrow> train_world \<Rightarrow> (int \<times> json option \<times> (path \<rightharpoonup> cached)) res" where
  "train_main solve open_rgb rng code args w =
     rbind (read_manifest (ta_dataset args) (tw_manifests w)) (\<lambda>doc.
     rbind (validate doc) (\<lambda>problems.
     if problems \<noteq> [] then Inr (1, None, tw_caches w)
     else
       rbind (intrinsics_from_manifest doc) (\<lambda>i.
       rbind (load_features open_rgb (tw_labels w) (tw_caches w) (ta_dataset args) i (\<not> ta_no_cache args))
         (\<lambda>((features, labels, frames), caches).
       rbind (train_on solve (rng (ta_seed args)) code args doc i features labels frames) (\<lambda>artifact.
         Inr (0, Some (sort_doc artifact), caches))))))"


subsection \<open>Lemmas: documents\<close>

lemma sort_doc_strings [simp]: "sort_doc (JArr (map JStr xs)) = JArr (map JStr xs)"
  by (simp add: comp_def)

lemma sort_doc_numbers: "sort_doc (JArr (map JNum xs)) = JArr (map JNum xs)"
  by (simp add: comp_def)

lemma git_description_doc:
  "git_description env git cwd repo = Inr c \<Longrightarrow> \<exists>commit dirty. c = commit_doc commit dirty \<and> wf_doc commit \<and> wf_doc dirty"
  by (auto simp: git_description_def Let_def split: option.splits list.splits sum.splits if_splits
      intro!: exI)

lemma jvec_numbers: "jvec (JArr (map JNum xs)) = Inr xs"
proof -
  have "rmap jnum (map JNum xs) = Inr xs" by (induction xs) auto
  then show ?thesis by (simp add: jvec_def)
qed

lemma jmat_numbers: "jmat (JArr (map (JArr \<circ> map JNum) rows)) = Inr rows"
proof -
  have "rmap jvec (map (JArr \<circ> map JNum) rows) = Inr rows" by (induction rows) (auto simp: jvec_numbers)
  then show ?thesis by (simp add: jmat_def)
qed

text \<open>A stored model is rebuilt from the sorted document too.\<close>

lemma ridge_from_sorted:
  assumes "ridge_to_dict r = Inr d"
  shows "wf_doc d" "ridge_from_dict (sort_doc d) = Inr r"
proof -
  obtain w c where f: "r_fitted r = Some (w, c)" and d: "d = JObj [(''kind'', JStr ''ridge''),
      (''alpha'', JNum (r_alpha r)), (''weights'', JArr (map (JArr \<circ> map JNum) w)), (''intercept'', JArr (map JNum c))]"
    using assms by (auto simp: ridge_to_dict_def split: option.splits)
  show wf: "wf_doc d" by (auto simp: d)
  have sw: "sort_doc (JArr (map (JArr \<circ> map JNum) w)) = JArr (map (JArr \<circ> map JNum) w)"
    by (simp add: comp_def)
  show "ridge_from_dict (sort_doc d) = Inr r"
    unfolding ridge_from_dict_def jitem_sort_doc [OF wf]
    by (simp add: d sorted_res_def sw sort_doc_numbers jvec_numbers jmat_numbers ridge_new_def f
        del: sort_doc.simps(1,2) add: sort_doc.simps(3-))
qed

lemma wf_summary_doc [simp]: "wf_doc (summary_doc e)"
  by (simp add: summary_doc_def)

lemma wf_scores_doc [simp]: "wf_doc (scores_doc s)"
  by (simp add: scores_doc_def)

text \<open>What the gates and the serving node read of one entry of the metrics.\<close>

lemma scores_entry:
  "jitem (sort_doc (scores_doc s)) ''test'' = Inr (sort_doc (summary_doc (sc_test s)))"
  "validate_entry ''train'' (n, sort_doc (scores_doc s)) = Inr []"
  "validate_entry ''test'' (n, sort_doc (scores_doc s)) = Inr []"
  "jitem (sort_doc (summary_doc e)) ''median_mm'' = Inr (JNum (es_median_mm e))"
  "jitem (sort_doc (summary_doc e)) ''p95_mm'' = Inr (JNum (es_p95_mm e))"
proof -
  have it: "jitem (sort_doc (scores_doc s)) k = sorted_res (jitem (scores_doc s) k)" for k
    by (rule jitem_sort_doc) simp
  have su: "jitem (sort_doc (summary_doc e)) k = sorted_res (jitem (summary_doc e) k)" for e k
    by (rule jitem_sort_doc) simp
  have has: "jin ''median_mm'' (summary_doc e) = Inr True" for e by (simp add: summary_doc_def)
  have parts: "jin ''train'' (scores_doc s) = Inr True" "jin ''test'' (scores_doc s) = Inr True"
    by (simp_all add: scores_doc_def)
  show t: "jitem (sort_doc (scores_doc s)) ''test'' = Inr (sort_doc (summary_doc (sc_test s)))"
    unfolding it by (simp add: scores_doc_def sorted_res_def del: sort_doc.simps)
  have tr: "jitem (sort_doc (scores_doc s)) ''train'' = Inr (sort_doc (summary_doc (sc_train s)))"
    unfolding it by (simp add: scores_doc_def sorted_res_def del: sort_doc.simps)
  show "validate_entry ''train'' (n, sort_doc (scores_doc s)) = Inr []"
    by (simp add: validate_entry_def jin_sort_doc tr has parts del: sort_doc.simps)
  show "validate_entry ''test'' (n, sort_doc (scores_doc s)) = Inr []"
    by (simp add: validate_entry_def jin_sort_doc t has parts del: sort_doc.simps)
  show "jitem (sort_doc (summary_doc e)) ''median_mm'' = Inr (JNum (es_median_mm e))"
    "jitem (sort_doc (summary_doc e)) ''p95_mm'' = Inr (JNum (es_p95_mm e))"
    unfolding su by (simp_all add: summary_doc_def sorted_res_def)
qed


subsection \<open>Lemmas: the gates on a trained artifact\<close>

text \<open>The documents the gates cannot object to, except on the score and the commits: what every artifact
  of a training run is, sorted or not.\<close>

lemma gates_on_entries:
  assumes "map_of kvs ''schema_version'' = Some (JInt 1)" "map_of kvs ''selected'' = Some (JStr (c # sel))"
    and "map_of kvs ''model'' \<noteq> None" "map_of kvs ''feature_stats'' \<noteq> None"
    and feats: "map_of kvs ''features'' = Some (JArr (map JStr served))" "served \<noteq> []"
    and ms: "map_of kvs ''metrics'' = Some (JObj ms)"
    and entries: "\<And>e split. e \<in> set ms \<Longrightarrow> split \<in> {''train'', ''test''} \<Longrightarrow> validate_entry split e = Inr []"
    and m: "median_at (JObj ms) (JStr (c # sel)) = Inr m" and b: "median_at (JObj ms) (JStr ''geometric'') = Inr b"
    and code: "map_of kvs ''code'' = Some cj" "jget cj ''commit'' JNull = Inr commit"
    and ds: "map_of kvs ''dataset'' = Some (JObj ds)"
    and dcode: "map_of ds ''code'' = Some dcj" "jget dcj ''commit'' JNull = Inr dcommit" "truthy dcommit"
    and lab: "map_of ds ''labels'' = Some lbj" "jget lbj ''source'' JNull = Inr src"
    and frames: "map_of ds ''frames'' = Some fr" "truthy fr"
  shows "check_all (JObj kvs) served None None = Inr
     ((if truthy commit then [] else [(Provenance, [NoTrainingCommit])])
      @ (if m < b then [] else [(BeatsBaseline, [DoesNotBeat m b])]))"
proof -
  have keys: "k \<in> fst ` set ms" if "median_at (JObj ms) (JStr k) = Inr x" for k x
    using that by (auto simp: median_at_def median_doc_def rbind_eq_Inr split: option.splits dest: map_of_SomeD intro: rev_image_eqI)
  have tests: "rmap (\<lambda>key. rbind (jin key (JObj kvs)) (\<lambda>b. Inr (key, b))) REQUIRED_KEYS
      = Inr (map (\<lambda>k. (k, True)) REQUIRED_KEYS)"
    using assms by (intro rmap_ok) (auto simp: jin_JObj_dom REQUIRED_KEYS_def simp del: jin.simps)
  have ent: "rmap (validate_entry split) ms = Inr (map (\<lambda>_. []) ms)" if "split \<in> {''train'', ''test''}" for split
    using entries that by (intro rmap_ok) blast
  have "validates (JObj kvs) = Inr []"
    unfolding validates_def tests
    using assms(1) feats ms by (simp add: REQUIRED_KEYS_def ent concat_map_Nil jeq_int_def)
  moreover have "provenance (JObj kvs) = Inr (if truthy commit then [] else [NoTrainingCommit])"
    using code ds dcode lab frames by (simp add: provenance_def)
  moreover have "feature_contract (JObj kvs) served = Inr []"
    using feats by (simp add: feature_contract_def)
  moreover have "selected_key (JObj kvs) = Inr (Some (JStr (c # sel)))"
    using assms(2) ms keys [OF m] by (simp add: selected_key_def)
  then have "beats_baseline (JObj kvs) = Inr (if m < b then [] else [DoesNotBeat m b])"
    using beats_baseline_eq [OF _ _ _ m b, of "JObj kvs"] ms keys [OF b] by (simp add: not_less)
  ultimately show ?thesis by (auto simp: check_all_def no_regression_def)
qed

text \<open>The sorted artifact, entry by entry.\<close>

definition artifact_entries ::
  "json \<Rightarrow> scores \<Rightarrow> scores \<Rightarrow> scores \<Rightarrow> geometric \<Rightarrow> matrix \<Rightarrow> int \<Rightarrow> part list \<Rightarrow> json \<Rightarrow> json \<Rightarrow> (string \<times> json) list" where
  "artifact_entries model base geo shape cf x seed parts dataset code =
     (case artifact_doc model base geo shape cf x seed parts dataset code of JObj kvs \<Rightarrow> kvs | _ \<Rightarrow> [])"

lemma artifact_doc_entries:
  "artifact_doc model base geo shape cf x seed parts dataset code
   = JObj (artifact_entries model base geo shape cf x seed parts dataset code)"
  by (simp add: artifact_entries_def artifact_doc_def)

lemma distinct_artifact_entries:
  "distinct (map fst (artifact_entries model base geo shape cf x seed parts dataset code))"
  by (simp add: artifact_entries_def artifact_doc_def)

lemmas artifact_entry = artifact_entries_def artifact_doc_def

definition metrics_entries :: "scores \<Rightarrow> scores \<Rightarrow> scores \<Rightarrow> (string \<times> json) list" where
  "metrics_entries base geo shape =
     [(''geometric'', scores_doc base), (''ridge geometry'', scores_doc geo), (''ridge + shape'', scores_doc shape)]"

definition sorted_metrics :: "scores \<Rightarrow> scores \<Rightarrow> scores \<Rightarrow> (string \<times> json) list" where
  "sorted_metrics base geo shape = sort_key fst (map (\<lambda>(k, v). (k, sort_doc v)) (metrics_entries base geo shape))"

lemma map_of_sorted_metrics:
  "map_of (sorted_metrics base geo shape) k = map_option sort_doc (map_of (metrics_entries base geo shape) k)"
  unfolding sorted_metrics_def by (rule map_of_sort_doc) (simp add: metrics_entries_def)

lemma sorted_metrics_valid:
  "e \<in> set (sorted_metrics base geo shape) \<Longrightarrow> split \<in> {''train'', ''test''} \<Longrightarrow> validate_entry split e = Inr []"
  by (auto simp: sorted_metrics_def metrics_entries_def scores_entry simp del: sort_doc.simps)

lemma sorted_metrics_medians:
  "median_at (JObj (sorted_metrics base geo shape)) (JStr ''ridge + shape'') = Inr (es_median_mm (sc_test shape))"
  "median_at (JObj (sorted_metrics base geo shape)) (JStr ''geometric'') = Inr (es_median_mm (sc_test base))"
  by (simp_all add: median_at_def median_doc_def map_of_sorted_metrics metrics_entries_def scores_entry del: sort_doc.simps)


text \<open>What a valid manifest has, and what the dataset entry keeps of it.\<close>

lemma validate_okD:
  assumes "validate doc = Inr []"
  obtains code commit labels source frames x where "jitem doc ''code'' = Inr code" "jget code ''commit'' JNull = Inr commit"
    "truthy commit" "jitem doc ''labels'' = Inr labels" "jget labels ''source'' JNull = Inr source"
    "jitem doc ''frames'' = Inr frames" "jnum frames = Inr x" "0 < x"
  using assms by (auto simp: validate_def rbind_eq_Inr split: if_splits)

lemma truthy_positive: "jnum j = Inr x \<Longrightarrow> 0 < x \<Longrightarrow> truthy j"
  by (cases j) auto

lemma dataset_doc_okD:
  assumes "dataset_doc doc = Inr d" "validate doc = Inr []" "wf_doc doc"
  obtains ds dcj dcommit lbj src fr where "d = JObj ds" "wf_doc d"
    "map_of ds ''code'' = Some dcj" "jget dcj ''commit'' JNull = Inr dcommit" "truthy dcommit"
    "map_of ds ''labels'' = Some lbj" "jget lbj ''source'' JNull = Inr src"
    "map_of ds ''frames'' = Some fr" "truthy fr"
proof -
  obtain code commit labels source frames x where v: "jitem doc ''code'' = Inr code" "jget code ''commit'' JNull = Inr commit"
    "truthy commit" "jitem doc ''labels'' = Inr labels" "jget labels ''source'' JNull = Inr source"
    "jitem doc ''frames'' = Inr frames" "jnum frames = Inr x" "0 < x"
    by (rule validate_okD [OF assms(2)])
  obtain world robot episodes created where d: "d = JObj [(''world'', world), (''robot'', robot), (''frames'', frames),
      (''episodes'', episodes), (''recorded'', created), (''code'', code), (''labels'', labels)]"
    and parts: "jitem doc ''world'' = Inr world" "jitem doc ''robot'' = Inr robot"
      "jitem doc ''episodes'' = Inr episodes" "jitem doc ''created'' = Inr created"
    using assms(1) v by (auto simp: dataset_doc_def rbind_eq_Inr)
  have "wf_doc d" unfolding d using parts v wf_doc_jitem [OF assms(3)] by auto
  with that [of _ code commit labels source frames] d v truthy_positive [OF v(7,8)] show thesis by simp
qed

lemma wf_geometric_to_dict: "wf_doc (geometric_to_dict g)"
  by (simp add: geometric_to_dict_def Let_def)

lemma wf_artifact_doc:
  assumes "wf_doc model" "wf_doc dataset" "wf_doc code"
  shows "wf_doc (artifact_doc model base geo shape cf x seed parts dataset code)"
  using assms wf_geometric_to_dict [of cf] by (auto simp: artifact_doc_def stats_doc_def)

lemma jitem_sorted_artifact:
  "jitem (sort_doc (artifact_doc model base geo shape cf x seed parts dataset code)) k
   = sorted_res (jitem (artifact_doc model base geo shape cf x seed parts dataset code) k)"
  using map_of_sort_doc [OF distinct_artifact_entries [of model base geo shape cf x seed parts dataset code], of k]
  by (simp add: artifact_doc_entries sorted_res_def split: option.splits)

lemma check_all_trained:
  assumes "dataset_doc doc = Inr dataset" "validate doc = Inr []" "wf_doc doc"
  shows "check_all (sort_doc (artifact_doc model base geo shape cf x seed parts dataset (commit_doc commit dirty)))
       FEATURE_NAMES None None = Inr
     ((if truthy commit then [] else [(Provenance, [NoTrainingCommit])])
      @ (if es_median_mm (sc_test shape) < es_median_mm (sc_test base) then []
         else [(BeatsBaseline, [DoesNotBeat (es_median_mm (sc_test shape)) (es_median_mm (sc_test base))])]))"
proof -
  obtain ds dcj dcommit lbj src fr where ds: "dataset = JObj ds" "wf_doc dataset"
    "map_of ds ''code'' = Some dcj" "jget dcj ''commit'' JNull = Inr dcommit" "truthy dcommit"
    "map_of ds ''labels'' = Some lbj" "jget lbj ''source'' JNull = Inr src"
    "map_of ds ''frames'' = Some fr" "truthy fr"
    by (rule dataset_doc_okD [OF assms])
  let ?kvs = "artifact_entries model base geo shape cf x seed parts dataset (commit_doc commit dirty)"
  let ?sorted = "sort_key fst (map (\<lambda>(k, v). (k, sort_doc v)) ?kvs)"
  let ?ds = "sort_key fst (map (\<lambda>(k, v). (k, sort_doc v)) ds)"
  have look: "map_of ?sorted k = map_option sort_doc (map_of ?kvs k)" for k
    by (rule map_of_sort_doc) (rule distinct_artifact_entries)
  have dlook: "map_of ?ds k = map_option sort_doc (map_of ds k)" for k
    by (rule map_of_sort_doc) (use ds(1,2) in simp)
  have wf: "wf_doc dcj" "wf_doc lbj" using ds(1,2,3,6) by (auto dest!: map_of_SomeD)
  have "check_all (JObj ?sorted) FEATURE_NAMES None None = Inr
     ((if truthy (sort_doc commit) then [] else [(Provenance, [NoTrainingCommit])])
      @ (if es_median_mm (sc_test shape) < es_median_mm (sc_test base) then []
         else [(BeatsBaseline, [DoesNotBeat (es_median_mm (sc_test shape)) (es_median_mm (sc_test base))])]))"
  proof (rule gates_on_entries)
    show "map_of ?sorted ''metrics'' = Some (JObj (sorted_metrics base geo shape))"
      unfolding look by (simp add: artifact_entry sorted_metrics_def metrics_entries_def)
    show "median_at (JObj (sorted_metrics base geo shape)) (JStr ''ridge + shape'') = Inr (es_median_mm (sc_test shape))"
      "median_at (JObj (sorted_metrics base geo shape)) (JStr ''geometric'') = Inr (es_median_mm (sc_test base))"
      by (rule sorted_metrics_medians)+
    show "validate_entry split e = Inr []" if "e \<in> set (sorted_metrics base geo shape)" "split \<in> {''train'', ''test''}" for e split
      using that by (rule sorted_metrics_valid)
    show "map_of ?sorted ''dataset'' = Some (JObj ?ds)" unfolding look by (simp add: artifact_entry ds(1))
    show "map_of ?ds ''code'' = Some (sort_doc dcj)" "map_of ?ds ''labels'' = Some (sort_doc lbj)"
      "map_of ?ds ''frames'' = Some (sort_doc fr)" unfolding dlook by (simp_all add: ds)
    show "jget (sort_doc dcj) ''commit'' JNull = Inr (sort_doc dcommit)"
      "jget (sort_doc lbj) ''source'' JNull = Inr (sort_doc src)"
      using wf ds by (simp_all add: jget_sort_doc sorted_res_def del: sort_doc.simps)
    show "truthy (sort_doc dcommit)" "truthy (sort_doc fr)" using ds by (simp_all add: truthy_sort_doc)
    show "map_of ?sorted ''features'' = Some (JArr (map JStr FEATURE_NAMES))"
      unfolding look by (simp add: artifact_entry FEATURE_NAMES_def comp_def)
    show "FEATURE_NAMES \<noteq> []" by (simp add: FEATURE_NAMES_def SHAPE_FEATURES_def GEOMETRIC_FEATURES_def)
    show "map_of ?sorted ''code'' = Some (sort_doc (commit_doc commit dirty))"
      unfolding look by (simp add: artifact_entry)
    show "jget (sort_doc (commit_doc commit dirty)) ''commit'' JNull = Inr (sort_doc commit)"
      by (simp add: commit_doc_def)
    show "map_of ?sorted ''schema_version'' = Some (JInt 1)" "map_of ?sorted ''selected'' = Some (JStr ''ridge + shape'')"
      "map_of ?sorted ''model'' \<noteq> None" "map_of ?sorted ''feature_stats'' \<noteq> None"
      unfolding look by (simp_all add: artifact_entry)
  qed
  then show ?thesis by (simp add: artifact_doc_entries truthy_sort_doc)
qed


lemma trained_metrics:
  "jitem (sort_doc (artifact_doc model base geo shape cf x seed parts dataset c)) ''metrics''
   = Inr (JObj (sorted_metrics base geo shape))"
  unfolding jitem_sorted_artifact by (simp add: artifact_doc_def sorted_res_def sorted_metrics_def metrics_entries_def)

subsection \<open>Lemmas: a run that writes an artifact\<close>

lemma train_on_okD:
  assumes "train_on solve draw code args doc i features labels frames = Inr a"
  obtains parts base geometry geo ridge shape model x dataset c where
    "episode_parts draw DEFAULT_RATIOS frames = Inr parts"
    "evaluate_parts (geometric_predict \<lparr>g_intrinsics = i, g_target_width = ta_target_width args\<rparr>) features labels parts
       (map column_of GEOMETRIC_FEATURES) = Inr base"
    "fit_and_judge solve (ta_alpha args) features labels parts GEOMETRIC_FEATURES = Inr (geometry, geo)"
    "fit_and_judge solve (ta_alpha args) features labels parts SHAPE_FEATURES = Inr (ridge, shape)"
    "ridge_to_dict ridge = Inr model"
    "pick features (rows_of parts Train) (map column_of SHAPE_FEATURES) = Inr x"
    "dataset_doc doc = Inr dataset" "code = Inr c"
    "a = artifact_doc model base geo shape \<lparr>g_intrinsics = i, g_target_width = ta_target_width args\<rparr> x (ta_seed args)
           parts dataset c"
  using assms by (auto simp: train_on_def Let_def rbind_eq_Inr split: prod.splits)

lemma train_main_okD:
  assumes "train_main solve open_rgb rng code args w = Inr (0, Some out, caches)"
  obtains doc i features labels frames a where
    "tw_manifests w (ta_dataset args @ [''manifest.json'']) = Some doc" "validate doc = Inr []"
    "load_features open_rgb (tw_labels w) (tw_caches w) (ta_dataset args) i (\<not> ta_no_cache args)
       = Inr ((features, labels, frames), caches)"
    "train_on solve (rng (ta_seed args)) code args doc i features labels frames = Inr a" "out = sort_doc a"
  using assms
  by (auto simp: train_main_def read_manifest_def rbind_eq_Inr split: option.splits if_splits prod.splits)

lemma featurise_length: "featurise open_rgb i frames = Inr (rows, kept) \<Longrightarrow> length rows = length kept"
  by (induction frames arbitrary: rows kept) (auto simp: rbind_eq_Inr split: option.splits)

lemma featurise_kept: "featurise open_rgb i frames = Inr (rows, kept) \<Longrightarrow> subseq kept frames"
  by (induction frames arbitrary: rows kept) (auto simp: rbind_eq_Inr split: option.splits)

lemma rows_of_set: "i \<in> set (rows_of parts p) \<longleftrightarrow> i < length parts \<and> parts ! i = p"
  by (auto simp: rows_of_def)

lemma episode_parts_okD:
  assumes "episode_parts draw ratios frames = Inr parts"
  obtains h where "parts = map (\<lambda>f. h (key_of f)) frames" "\<And>p. \<exists>f \<in> set frames. h (key_of f) = p"
proof -
  obtain ids where ids: "episodes frames = Inr ids" using assms by (auto simp: episode_parts_def rbind_eq_Inr)
  have len: "3 \<le> length ids"
    using assms ids by (cases "length ids < 3") (auto simp: episode_parts_def)
  show thesis
    by (rule episode_parts_assignment [OF ids len, of draw ratios]) (use assms that in auto)
qed

lemma rmap_same: "(\<And>x. x \<in> set xs \<Longrightarrow> f x = g x) \<Longrightarrow> rmap f xs = rmap g xs"
  by (induction xs) auto

lemma pick_same: "(\<And>k. k \<in> set rows \<Longrightarrow> row_at m k = row_at m' k) \<Longrightarrow> pick m rows cols = pick m' rows cols"
  unfolding pick_def by (rule rmap_same) simp

lemma fit_and_judge_okD:
  assumes "fit_and_judge solve alpha features labels parts names = Inr (model, s)"
  obtains x y where "pick features (rows_of parts Train) (map column_of names) = Inr x"
    "rmap (row_at labels) (rows_of parts Train) = Inr y" "ridge_fit solve (ridge_new alpha) x y = Inr model"
    "evaluate_parts (ridge_predict model) features labels parts (map column_of names) = Inr s"
  using assms by (auto simp: fit_and_judge_def Let_def rbind_eq_Inr)

subsection \<open>Properties\<close>

text \<open>C21: what training writes meets the gates. If a run exits with 0 then on the artifact it wrote, with no
  incumbent, every gate can be evaluated and the only possible objections are that the training commit is
  unknown and that the stored model does not beat the closed form on the test split; the schema, the
  required fields, the feature order and the dataset's provenance always pass.\<close>

theorem trained_artifact_gates:
  assumes run: "train_main solve open_rgb rng (git_description env git cwd (Some ''/ws'')) args w = Inr (0, Some out, caches)"
    and wf: "\<And>doc. tw_manifests w (ta_dataset args @ [''manifest.json'']) = Some doc \<Longrightarrow> wf_doc doc"
  shows "\<exists>m b commit. rbind (jitem out ''metrics'') (\<lambda>ms. median_at ms (JStr ''ridge + shape'')) = Inr m
     \<and> rbind (jitem out ''metrics'') (\<lambda>ms. median_at ms (JStr ''geometric'')) = Inr b
     \<and> rbind (jitem out ''code'') (\<lambda>c. jget c ''commit'' JNull) = Inr commit
     \<and> check_all out FEATURE_NAMES None None = Inr
         ((if truthy commit then [] else [(Provenance, [NoTrainingCommit])])
          @ (if m < b then [] else [(BeatsBaseline, [DoesNotBeat m b])]))"
proof -
  obtain doc i features labels frames a where doc:
    "tw_manifests w (ta_dataset args @ [''manifest.json'']) = Some doc" "validate doc = Inr []"
    and a: "train_on solve (rng (ta_seed args)) (git_description env git cwd (Some ''/ws'')) args doc i features labels
        frames = Inr a" and out: "out = sort_doc a"
    by (rule train_main_okD [OF run])
  from a obtain parts base geo shape model x dataset c cf where d: "dataset_doc doc = Inr dataset"
    and c: "git_description env git cwd (Some ''/ws'') = Inr c"
    and art: "a = artifact_doc model base geo shape cf x (ta_seed args) parts dataset c"
    by (rule train_on_okD) blast
  obtain commit dirty where c': "c = commit_doc commit dirty" using git_description_doc [OF c] by blast
  have "jitem out ''metrics'' = Inr (JObj (sorted_metrics base geo shape))"
    unfolding out art by (rule trained_metrics)
  moreover have "jitem out ''code'' = Inr (sort_doc (commit_doc commit dirty))"
    unfolding out art c' jitem_sorted_artifact by (simp add: artifact_doc_def sorted_res_def)
  moreover have "jget (sort_doc (commit_doc commit dirty)) ''commit'' JNull = Inr (sort_doc commit)"
    by (simp add: commit_doc_def)
  ultimately show ?thesis
    using check_all_trained [OF d doc(2) wf [OF doc(1)], of model base geo shape cf x "ta_seed args" parts commit dirty]
    by (intro exI [of _ "es_median_mm (sc_test shape)"] exI [of _ "es_median_mm (sc_test base)"] exI [of _ "sort_doc commit"])
      (simp add: sorted_metrics_medians truthy_sort_doc out art c' del: sort_doc.simps)
qed


text \<open>A recording of three episodes with its features cached, for the examples below.\<close>

definition demo_row :: "int \<Rightarrow> real \<Rightarrow> json" where
  "demo_row e z = JObj [(''image'', JStr ''i''), (''episode'', JInt e), (''index'', JInt 0),
                        (''label'', JArr [JNum 0, JNum 0, JNum z]), (''stamp'', JNum 0)]"

definition demo_manifest :: json where
  "demo_manifest = JObj
     [(''schema_version'', JInt 1), (''created'', JStr ''2026''),
      (''code'', JObj [(''commit'', JStr ''5ac0''), (''dirty'', JBool False)]),
      (''world'', JStr ''bench''), (''robot'', JStr ''mm''),
      (''camera'', JObj [(''fx'', JNum 1), (''fy'', JNum 1), (''cx'', JNum 0), (''cy'', JNum 0),
                         (''width'', JInt 640), (''height'', JInt 480)]),
      (''labels'', JObj [(''source'', JStr ''simulator'')]), (''episodes'', JInt 3), (''frames'', JInt 3)]"

definition demo_features :: matrix where
  "demo_features = replicate 3 [0, 0, 1, 0, 0, 0, 0]"

text \<open>Where the target of the third frame is, is a parameter.\<close>

definition demo_labels_at :: "real \<Rightarrow> matrix" where
  "demo_labels_at z = [[0, 0, 2], [0, 0, 2], [0, 0, z]]"

abbreviation demo_labels :: matrix where
  "demo_labels \<equiv> demo_labels_at 3"

definition demo_world :: train_world where
  "demo_world =
     \<lparr>tw_manifests = [[''d'', ''manifest.json''] \<mapsto> demo_manifest],
      tw_labels = [[''d'', ''labels.jsonl''] \<mapsto>
        [JsonLine (demo_row 0 2), BlankLine, JsonLine (demo_row 1 2), JsonLine (demo_row 2 3)]],
      tw_caches = [[''d'', ''features.npz''] \<mapsto>
        \<lparr>ca_names = SHAPE_FEATURES, ca_features = demo_features, ca_labels = demo_labels\<rparr>]\<rparr>"

definition demo_args :: train_args where
  "demo_args = \<lparr>ta_dataset = [''d''], ta_alpha = 1 / 1000000, ta_target_width = 1, ta_seed = 0, ta_no_cache = False\<rparr>"

definition demo_solve :: "matrix \<Rightarrow> matrix \<Rightarrow> matrix res" where
  "demo_solve a b = Inr (map (\<lambda>_. [0, 0, 1]) a)"

definition demo_frames :: "frame list" where
  "demo_frames = map (\<lambda>(e, z). \<lparr>fr_image = [''d'', ''i''], fr_episode = JInt e, fr_index = JInt 0,
      fr_label = [JNum 0, JNum 0, JNum z], fr_stamp = JNum 0\<rparr>) [(0, 2), (1, 2), (2, 3)]"

lemma demo_load: "load (tw_labels demo_world) [''d''] = Inr demo_frames"
  by (simp add: load_def demo_world_def frame_of_def demo_row_def demo_frames_def join_path_def)

lemma demo_validate: "validate demo_manifest = Inr []" "wf_doc demo_manifest"
  by (simp_all add: demo_manifest_def validate_JObj SCHEMA_VERSION_def CAMERA_KEYS_def LABEL_SOURCES_def Let_def)

lemma demo_parts: "episode_parts (\<lambda>n. n - 1) DEFAULT_RATIOS demo_frames = Inr [Train, Val, Test]"
proof -
  have eps: "episodes demo_frames = Inr [JNum 0, JNum 1, JNum 2]"
    by (simp add: episodes_def demo_frames_def py_key_def py_sorted_def is_jstr_def is_jnum_def jnum_val_def)
  obtain a b where ab: "part_sizes 3 DEFAULT_RATIOS = (a, b)" by (cases "part_sizes 3 DEFAULT_RATIOS")
  have sizes: "part_sizes (Suc (Suc (Suc 0))) DEFAULT_RATIOS = (1, 1)"
    using part_sizes_bounds [OF _ ab] ab by (auto simp: numeral_3_eq_3)
  have "shuffle (\<lambda>n. n - 1) [JNum 0, JNum 1, JNum 2] = [JNum 0, JNum 1, JNum 2]"
    by (simp add: shuffle_def numeral_2_eq_2 Let_def)
  then show ?thesis
    using eps sizes by (simp add: episode_parts_def Let_def)
      (simp add: demo_frames_def part_of_def py_key_def assignment_def upt_rec)
qed

lemma demo_rows: "rows_of [Train, Val, Test] Train = [0]" "rows_of [Train, Val, Test] Val = [1]"
  "rows_of [Train, Val, Test] Test = [2]"
  by (simp_all add: rows_of_def upt_rec numeral_2_eq_2)

lemma demo_columns: "map column_of GEOMETRIC_FEATURES = [0, 1, 2]"
  "map column_of SHAPE_FEATURES = [0, 1, 2, 3, 4, 5, 6]"
  by (simp_all add: column_of_def GEOMETRIC_FEATURES_def SHAPE_FEATURES_def)


definition single_error :: "real \<Rightarrow> real \<Rightarrow> error_summary" where
  "single_error a z = (case judged [[0, 0, a]] [[0, 0, z]] of Inr e \<Rightarrow> e | Inl _ \<Rightarrow> undefined)"

lemma judged_single: "judged [[0, 0, a]] [[0, 0, z]] = Inr (single_error a z)"
  "es_median_mm (single_error a z) = \<bar>a - z\<bar> * 1000"
  by (simp_all add: single_error_def judged_def errors_def ncols_def Let_def np_median_def norm_row_def)

lemma demo_pick:
  "i < 3 \<Longrightarrow> pick demo_features [i] [0, 1, 2] = Inr [[0, 0, 1]]"
  "i < 3 \<Longrightarrow> pick demo_features [i] [0, 1, 2, 3, 4, 5, 6] = Inr [[0, 0, 1, 0, 0, 0, 0]]"
  by (simp_all add: pick_def row_at_def demo_features_def)

lemma demo_label_rows: "rmap (row_at (demo_labels_at z)) [0] = Inr [[0, 0, 2]]" "rmap (row_at (demo_labels_at z)) [1] = Inr [[0, 0, 2]]"
  "rmap (row_at (demo_labels_at z)) [2] = Inr [[0, 0, z]]"
  by (simp_all add: row_at_def demo_labels_at_def)


lemma demo_evaluate:
  assumes "rows_of parts p = [i]" "pick features [i] cols = Inr [row]" "predict [row] = Inr [[0, 0, a]]"
    and "rmap (row_at labels) [i] = Inr [[0, 0, z]]"
  shows "evaluate predict features labels parts cols p = Inr (single_error a z)"
  unfolding evaluate_def assms(1,2) rbind_Inr assms(3,4) judged_single ..

lemma demo_evaluate_parts:
  assumes "\<And>i. i < 3 \<Longrightarrow> pick demo_features [i] cols = Inr [row]" "predict [row] = Inr [[0, 0, a]]"
  shows "evaluate_parts predict demo_features (demo_labels_at z) [Train, Val, Test] cols
     = Inr \<lparr>sc_train = single_error a 2, sc_val = single_error a 2, sc_test = single_error a z\<rparr>"
proof -
  have "evaluate predict demo_features (demo_labels_at z) [Train, Val, Test] cols Train = Inr (single_error a 2)"
    by (rule demo_evaluate [where row = row and i = 0]) (rule demo_rows demo_label_rows assms | simp)+
  moreover have "evaluate predict demo_features (demo_labels_at z) [Train, Val, Test] cols Val = Inr (single_error a 2)"
    by (rule demo_evaluate [where row = row and i = 1]) (rule demo_rows demo_label_rows assms | simp)+
  moreover have "evaluate predict demo_features (demo_labels_at z) [Train, Val, Test] cols Test = Inr (single_error a z)"
    by (rule demo_evaluate [where row = row and i = 2]) (rule demo_rows demo_label_rows assms | simp)+
  ultimately show ?thesis by (simp add: evaluate_parts_def)
qed

lemma demo_fit:
  assumes cols: "map column_of names = cols" and pk: "\<And>i. i < 3 \<Longrightarrow> pick demo_features [i] cols = Inr [row]"
    and row: "length row = n" "0 < n" "sum_list row = 1"
  shows "fit_and_judge demo_solve alpha demo_features (demo_labels_at z) [Train, Val, Test] names
   = Inr (\<lparr>r_alpha = alpha, r_fitted = Some (replicate n [0, 0, 1], [0, 0, 1])\<rparr>,
          \<lparr>sc_train = single_error 2 2, sc_val = single_error 2 2, sc_test = single_error 2 z\<rparr>)"
proof -
  have s: "(\<Sum>k<n. row ! k) = 1" using row by (simp add: sum_list_sum_nth atLeast0LessThan)
  have mul: "row_mul r (replicate n [0, 0, 1]) = [0, 0, \<Sum>k<n. r ! k]" for r
    using row(2) by (simp add: row_mul_def ncols_def upt_rec numeral_3_eq_3)
  have mean: "mean_row [row] = row" "mean_row [[0, 0, 2 :: real]] = [0, 0, 2]"
    by (auto simp: mean_row_def ncols_def col_mean_def row intro: nth_equalityI)
  have len: "length (ridge_gram alpha [row]) = n"
    by (simp add: ridge_gram_def add_diag_def transpose_mul_def ncols_def sub_row_def mean row)
  have fit: "ridge_fit demo_solve (ridge_new alpha) [row] [[0, 0, 2]]
      = Inr \<lparr>r_alpha = alpha, r_fitted = Some (replicate n [0, 0, 1], [0, 0, 1])\<rparr>"
    by (simp add: ridge_fit_def ridge_new_def demo_solve_def len mean mul s map_replicate_const)
  have "ridge_predict \<lparr>r_alpha = alpha, r_fitted = Some (replicate n [0, 0, 1], [0, 0, 1])\<rparr> [row] = Inr [[0, 0, 2]]"
    by (simp add: ridge_predict_def ridge_row_def mul s row)
  then have "evaluate_parts (ridge_predict \<lparr>r_alpha = alpha, r_fitted = Some (replicate n [0, 0, 1], [0, 0, 1])\<rparr>)
      demo_features (demo_labels_at z) [Train, Val, Test] cols
    = Inr \<lparr>sc_train = single_error 2 2, sc_val = single_error 2 2, sc_test = single_error 2 z\<rparr>"
    by (rule demo_evaluate_parts [where row = row, rotated]) (rule pk)
  then show ?thesis
    unfolding fit_and_judge_def Let_def cols demo_rows using pk [of 0] demo_label_rows(1) fit by simp
qed

abbreviation demo_camera :: intrinsics where
  "demo_camera \<equiv> \<lparr>in_fx = 1, in_fy = 1, in_cx = 0, in_cy = 0\<rparr>"

abbreviation demo_scores :: "real \<Rightarrow> real \<Rightarrow> scores" where
  "demo_scores a z \<equiv> \<lparr>sc_train = single_error a 2, sc_val = single_error a 2, sc_test = single_error a z\<rparr>"

lemma demo_train_on:
  assumes "z \<noteq> 1" "z \<noteq> 2"
  shows "\<exists>model x d c. dataset_doc demo_manifest = Inr d \<and> c = commit_doc (JStr ''9f'') (JBool False)
    \<and> train_on demo_solve (\<lambda>n. n - 1) (Inr c) demo_args demo_manifest demo_camera demo_features (demo_labels_at z) demo_frames
      = Inr (artifact_doc model (demo_scores 1 z) (demo_scores 2 z) (demo_scores 2 z) \<lparr>g_intrinsics = demo_camera, g_target_width = 1\<rparr>
          x 0 [Train, Val, Test] d c)"
proof -
  let ?cf = "\<lparr>g_intrinsics = demo_camera, g_target_width = 1\<rparr>"
  have base: "evaluate_parts (geometric_predict ?cf) demo_features (demo_labels_at z) [Train, Val, Test] [0, 1, 2] = Inr (demo_scores 1 z)"
    by (rule demo_evaluate_parts [where row = "[0, 0, 1]"])
      (simp_all add: demo_pick(1) [simplified] geometric_predict_def geometric_row_def geometric_scale_def)
  have geo: "fit_and_judge demo_solve alpha demo_features (demo_labels_at z) [Train, Val, Test] GEOMETRIC_FEATURES
     = Inr (\<lparr>r_alpha = alpha, r_fitted = Some (replicate 3 [0, 0, 1], [0, 0, 1])\<rparr>, demo_scores 2 z)" for alpha
    by (rule demo_fit [OF demo_columns(1), where row = "[0, 0, 1]"]) (rule demo_pick | simp)+
  have shape: "fit_and_judge demo_solve alpha demo_features (demo_labels_at z) [Train, Val, Test] SHAPE_FEATURES
     = Inr (\<lparr>r_alpha = alpha, r_fitted = Some (replicate 7 [0, 0, 1], [0, 0, 1])\<rparr>, demo_scores 2 z)" for alpha
    by (rule demo_fit [OF demo_columns(2), where row = "[0, 0, 1, 0, 0, 0, 0]"]) (rule demo_pick | simp)+
  obtain d where d: "dataset_doc demo_manifest = Inr d" by (simp add: dataset_doc_def demo_manifest_def)
  have pk: "pick demo_features [0] [0, 1, 2, 3, 4, 5, 6] = Inr [[0, 0, 1, 0, 0, 0, 0]]" by (rule demo_pick) simp
  show ?thesis
    unfolding train_on_def Let_def demo_parts rbind_Inr demo_columns demo_rows
    using base d pk geo shape assms by (auto simp: demo_args_def judged_single ridge_to_dict_def)
qed

lemma demo_train:
  "\<exists>out. check_all out FEATURE_NAMES None None = Inr [] \<and> train_main demo_solve (\<lambda>p. Inl OSError) (\<lambda>seed n. n - 1)
       (git_description [(''THREEVN_GIT_COMMIT'', ''9f'')] (\<lambda>a. Inl OSError) ''/'' (Some ''/ws'')) demo_args demo_world
     = Inr (0, Some out, tw_caches demo_world)"
proof -
  have intr: "intrinsics_from_manifest demo_manifest = Inr demo_camera"
    by (simp add: intrinsics_from_manifest_def demo_manifest_def)
  have feats: "load_features (\<lambda>p. Inl OSError) (tw_labels demo_world) (tw_caches demo_world) [''d''] demo_camera True
      = Inr ((demo_features, demo_labels, demo_frames), tw_caches demo_world)"
    unfolding load_features_def Let_def demo_load
    by (simp add: demo_world_def demo_features_def demo_frames_def)
  have code: "git_description [(''THREEVN_GIT_COMMIT'', ''9f'')] (\<lambda>a. Inl OSError) ''/'' (Some ''/ws'')
      = Inr (commit_doc (JStr ''9f'') (JBool False))" by (simp add: git_description_def)
  obtain model x d c where d: "dataset_doc demo_manifest = Inr d" and c: "c = commit_doc (JStr ''9f'') (JBool False)"
    and a: "train_on demo_solve (\<lambda>n. n - 1) (Inr c) demo_args demo_manifest demo_camera demo_features demo_labels demo_frames
      = Inr (artifact_doc model (demo_scores 1 3) (demo_scores 2 3) (demo_scores 2 3) \<lparr>g_intrinsics = demo_camera, g_target_width = 1\<rparr>
          x 0 [Train, Val, Test] d c)" using demo_train_on [of 3] by auto
  have gates: "check_all (sort_doc (artifact_doc model (demo_scores 1 3) (demo_scores 2 3) (demo_scores 2 3)
      \<lparr>g_intrinsics = demo_camera, g_target_width = 1\<rparr> x 0 [Train, Val, Test] d (commit_doc (JStr ''9f'') (JBool False)))) FEATURE_NAMES None None = Inr []"
    unfolding check_all_trained [OF d demo_validate] by (simp add: judged_single)
  have args: "ta_dataset demo_args = [''d'']" "ta_no_cache demo_args = False" by (simp_all add: demo_args_def)
  have man: "read_manifest [''d''] (tw_manifests demo_world) = Inr demo_manifest"
    by (simp add: read_manifest_def demo_world_def)
  show ?thesis
    unfolding train_main_def code args man rbind_Inr demo_validate(1) intr
    using feats a gates c by simp
qed

theorem trained_artifact_gates_witness:
  "\<exists>out fs. train_main demo_solve (\<lambda>p. Inl OSError) (\<lambda>seed n. n - 1)
       (git_description [(''THREEVN_GIT_COMMIT'', ''9f'')] (\<lambda>a. Inl OSError) ''/'' (Some ''/ws'')) demo_args demo_world
     = Inr (0, Some out, tw_caches demo_world) \<and> check_all out FEATURE_NAMES None None = Inr fs"
proof -
  obtain out where run: "train_main demo_solve (\<lambda>p. Inl OSError) (\<lambda>seed n. n - 1)
       (git_description [(''THREEVN_GIT_COMMIT'', ''9f'')] (\<lambda>a. Inl OSError) ''/'' (Some ''/ws'')) demo_args demo_world
     = Inr (0, Some out, tw_caches demo_world)" using demo_train by blast
  have "wf_doc doc" if "tw_manifests demo_world (ta_dataset demo_args @ [''manifest.json'']) = Some doc" for doc
    using that demo_validate(2) by (simp add: demo_world_def demo_args_def)
  from trained_artifact_gates [OF run this] obtain m b commit where
    "check_all out FEATURE_NAMES None None = Inr ((if truthy commit then [] else [(Provenance, [NoTrainingCommit])])
       @ (if m < b then [] else [(BeatsBaseline, [DoesNotBeat m b])]))" by blast
  with run show ?thesis by blast
qed


subsection \<open>Serving what was trained\<close>

lemma jvec_column: "jvec (JArr (map (sort_doc \<circ> (JNum \<circ> f)) cs)) = Inr (map f cs)"
  using jvec_numbers [of "map f cs"] by (simp add: comp_def)

lemma stats_doc_drift: "\<exists>d. drift_new (sort_doc (stats_doc names x)) z = Inr d"
proof -
  have "wf_doc (stats_doc names x)" by (auto simp: stats_doc_def)
  note it = jitem_sort_doc [OF this]
  show ?thesis
    unfolding drift_new_def it by (simp add: stats_doc_def sorted_res_def jvec_column)
qed

lemma jget_of_jitem: "jitem j k = Inr v \<Longrightarrow> jget j k d = Inr v"
  by (auto simp: jitem_eq_Inr)

lemma trained_selected:
  "selected_key (sort_doc (artifact_doc model base geo shape cf x seed parts dataset c)) = Inr (Some (JStr ''ridge + shape''))"
proof -
  let ?a = "artifact_doc model base geo shape cf x seed parts dataset c"
  obtain kvs where kvs: "sort_doc ?a = JObj kvs" by (simp add: artifact_doc_entries)
  have "map_of kvs k = map_option sort_doc (map_of (artifact_entries model base geo shape cf x seed parts dataset c) k)" for k
    using map_of_sort_doc [OF distinct_artifact_entries, of model base geo shape cf x seed parts dataset c k] kvs
    by (simp add: artifact_doc_entries)
  then show ?thesis
    unfolding kvs selected_key_def using trained_metrics [of model base geo shape cf x seed parts dataset c] kvs
    by (auto simp: artifact_entry sorted_metrics_def metrics_entries_def simp del: sort_key_simps)
qed

lemma trained_entry:
  "jsub (JObj (sorted_metrics base geo shape)) (JStr ''ridge + shape'') = Inr (sort_doc (scores_doc shape))"
  "jitem (JObj (sorted_metrics base geo shape)) ''geometric'' = Inr (sort_doc (scores_doc base))"
  by (simp_all add: map_of_sorted_metrics metrics_entries_def)

lemma trained_summary_row:
  assumes "dataset_doc doc = Inr dataset"
  shows "\<exists>row. summary_row now nt v (sort_doc (artifact_doc model base geo shape cf x seed parts dataset (commit_doc commit dirty)))
     = Inr row"
proof -
  let ?a = "artifact_doc model base geo shape cf x seed parts dataset (commit_doc commit dirty)"
  obtain ds where ds: "dataset = JObj ds" using assms by (auto simp: dataset_doc_def rbind_eq_Inr)
  have dset: "jget (sort_doc ?a) ''dataset'' (JObj []) = Inr (sort_doc dataset)"
    by (rule jget_of_jitem, unfold jitem_sorted_artifact) (simp add: artifact_doc_def sorted_res_def)
  have code: "jget (sort_doc ?a) ''code'' (JObj []) = Inr (sort_doc (commit_doc commit dirty))"
    by (rule jget_of_jitem, unfold jitem_sorted_artifact) (simp add: artifact_doc_def sorted_res_def)
  note entry = scores_entry(1) [THEN jget_of_jitem] scores_entry(4) [THEN jget_of_jitem]
  have "score (sort_doc ?a) = Inr (JNum (es_median_mm (sc_test shape)))"
    unfolding score_def trained_selected trained_metrics rbind_Inr option.case trained_entry entry ..
  moreover have "baseline (JObj (sorted_metrics base geo shape)) = Inr (JNum (es_median_mm (sc_test base)))"
    unfolding baseline_def trained_entry(2) [THEN jget_of_jitem] rbind_Inr entry ..
  ultimately show ?thesis
    unfolding summary_row_def trained_metrics [THEN jget_of_jitem] rbind_Inr dset code
    by (simp add: ds commit_doc_def)
qed

lemma trained_banner:
  assumes "dataset_doc doc = Inr dataset"
  shows "\<exists>r. serve_banner (sort_doc (artifact_doc model base geo shape cf x seed parts dataset c)) = Inr r"
proof -
  let ?a = "artifact_doc model base geo shape cf x seed parts dataset c"
  obtain ds where ds: "dataset = JObj ds" "distinct (map fst ds)" "map_of ds ''frames'' \<noteq> None"
    using assms by (auto simp: dataset_doc_def rbind_eq_Inr)
  have "jitem (sort_doc ?a) ''dataset'' = Inr (sort_doc dataset)"
    unfolding jitem_sorted_artifact by (simp add: artifact_doc_def sorted_res_def)
  moreover have "\<exists>f. jitem (sort_doc dataset) ''frames'' = Inr f"
    using ds map_of_sort_doc [OF ds(2), of "''frames''"] by auto
  ultimately show ?thesis
    unfolding serve_banner_def trained_metrics rbind_Inr trained_selected trained_entry option.case scores_entry by auto
qed

lemma serve_init_trained:
  assumes "ridge_to_dict ridge = Inr model" "dataset_doc doc = Inr dataset"
    and "production_version s = Some v"
    and "artifact_of v s = Inr (sort_doc (artifact_doc model base geo shape cf x seed parts dataset c))"
  shows "\<exists>node. serve_init width n s = Inr node \<and> sv_model node = ridge \<and> sv_version node = v"
proof -
  let ?a = "artifact_doc model base geo shape cf x seed parts dataset c"
  have "jitem (sort_doc ?a) ''model'' = Inr (sort_doc model)" "jitem (sort_doc ?a) ''feature_stats'' = Inr (sort_doc (stats_doc SHAPE_FEATURES x))"
    "jitem (sort_doc ?a) ''features'' = Inr (JArr (map JStr FEATURE_NAMES))"
    unfolding jitem_sorted_artifact by (simp_all add: artifact_doc_def sorted_res_def FEATURE_NAMES_def comp_def)
  moreover from this have "feature_contract (sort_doc ?a) FEATURE_NAMES = Inr []" by (simp add: feature_contract_def)
  moreover obtain d where "drift_new (sort_doc (stats_doc SHAPE_FEATURES x)) 4 = Inr d" using stats_doc_drift by blast
  moreover obtain r where "serve_banner (sort_doc ?a) = Inr r" using trained_banner [OF assms(2)] by blast
  ultimately show ?thesis
    using assms(3,4) ridge_from_sorted(2) [OF assms(1)] by (simp add: serve_init_def)
qed

text \<open>What training writes can be served, and is what is served. If the version in production is an
  artifact some run of the trainer wrote, the serving node starts on it, and the model it predicts with is
  the ridge model that run fitted, on the training rows of that run.\<close>

theorem trained_artifact_serves:
  assumes run: "train_main solve open_rgb rng code args w = Inr (0, Some out, caches)"
    and prod: "production_version s = Some v" "artifact_of v s = Inr out"
  shows "\<exists>node i features labels frames parts x y. serve_init width n s = Inr node \<and> sv_version node = v
     \<and> load_features open_rgb (tw_labels w) (tw_caches w) (ta_dataset args) i (\<not> ta_no_cache args)
         = Inr ((features, labels, frames), caches)
     \<and> episode_parts (rng (ta_seed args)) DEFAULT_RATIOS frames = Inr parts
     \<and> pick features (rows_of parts Train) (map column_of SHAPE_FEATURES) = Inr x
     \<and> rmap (row_at labels) (rows_of parts Train) = Inr y
     \<and> ridge_fit solve (ridge_new (ta_alpha args)) x y = Inr (sv_model node)"
proof -
  obtain doc i features labels frames a where
    lf: "load_features open_rgb (tw_labels w) (tw_caches w) (ta_dataset args) i (\<not> ta_no_cache args)
       = Inr ((features, labels, frames), caches)"
    and a: "train_on solve (rng (ta_seed args)) code args doc i features labels frames = Inr a" "out = sort_doc a"
    by (rule train_main_okD [OF run])
  obtain parts base geometry geo ridge shape model x dataset c where
    parts: "episode_parts (rng (ta_seed args)) DEFAULT_RATIOS frames = Inr parts"
    and fit: "fit_and_judge solve (ta_alpha args) features labels parts SHAPE_FEATURES = Inr (ridge, shape)"
    and model: "ridge_to_dict ridge = Inr model" and dataset: "dataset_doc doc = Inr dataset"
    and art: "a = artifact_doc model base geo shape \<lparr>g_intrinsics = i, g_target_width = ta_target_width args\<rparr> x (ta_seed args)
           parts dataset c"
    by (rule train_on_okD [OF a(1)])
  obtain node where node: "serve_init width n s = Inr node" "sv_model node = ridge" "sv_version node = v"
    using serve_init_trained [OF model dataset prod(1) prod(2) [unfolded a(2) art]] by blast
  obtain x' y where "pick features (rows_of parts Train) (map column_of SHAPE_FEATURES) = Inr x'"
    "rmap (row_at labels) (rows_of parts Train) = Inr y" "ridge_fit solve (ridge_new (ta_alpha args)) x' y = Inr ridge"
    by (rule fit_and_judge_okD [OF fit])
  with node lf parts show ?thesis by blast
qed


definition store_of :: "json \<Rightarrow> store" where
  "store_of a = \<lparr>st_index = Some \<lparr>ix_production = Some ''v'', ix_versions = [], ix_history = []\<rparr>, st_models = [(''v'', a)]\<rparr>"

theorem trained_artifact_serves_witness:
  "\<exists>out node. train_main demo_solve (\<lambda>p. Inl OSError) (\<lambda>seed n. n - 1)
       (git_description [(''THREEVN_GIT_COMMIT'', ''9f'')] (\<lambda>a. Inl OSError) ''/'' (Some ''/ws'')) demo_args demo_world
     = Inr (0, Some out, tw_caches demo_world) \<and> serve_init (1 / 20) 30 (store_of out) = Inr node"
proof -
  obtain out where run: "train_main demo_solve (\<lambda>p. Inl OSError) (\<lambda>seed n. n - 1)
       (git_description [(''THREEVN_GIT_COMMIT'', ''9f'')] (\<lambda>a. Inl OSError) ''/'' (Some ''/ws'')) demo_args demo_world
     = Inr (0, Some out, tw_caches demo_world)" using demo_train by blast
  have "production_version (store_of out) = Some ''v''" "artifact_of ''v'' (store_of out) = Inr out"
    by (simp_all add: store_of_def production_version_def read_index_def artifact_of_def)
  from trained_artifact_serves [OF run this] run show ?thesis by blast
qed

text \<open>C22: test scores are about episodes the model has not seen. In a run that writes an artifact, every usable frame is
  used in exactly one of training, validation and test, and no two of these share an episode. The model depends
  on the training frames only: a second run on the same frames whose features and labels agree with the first on the training
  frames, and may be anything on the others, writes the same model and the same feature statistics. And the test score in
  the artifact is the error of that model's predictions on the test frames.\<close>

theorem trained_on_unseen_episodes:
  assumes run: "train_on solve draw code args doc i features labels frames = Inr a"
    and second: "train_on solve draw code' args doc' i' features' labels' frames = Inr a'"
    and agree: "\<And>parts k. episode_parts draw DEFAULT_RATIOS frames = Inr parts \<Longrightarrow> k \<in> set (rows_of parts Train) \<Longrightarrow>
      row_at features k = row_at features' k \<and> row_at labels k = row_at labels' k"
  shows "jitem a' ''model'' = jitem a ''model'' \<and> jitem a' ''feature_stats'' = jitem a ''feature_stats''
     \<and> (\<exists>parts ridge x y predicted score. episode_parts draw DEFAULT_RATIOS frames = Inr parts
         \<and> mset (rows_of parts Train) + mset (rows_of parts Val) + mset (rows_of parts Test) = mset [0..<length frames]
         \<and> (\<forall>p q. p \<noteq> q \<longrightarrow> (\<lambda>i. key_of (frames ! i)) ` set (rows_of parts p)
                          \<inter> (\<lambda>i. key_of (frames ! i)) ` set (rows_of parts q) = {})
         \<and> jitem a ''model'' = ridge_to_dict ridge
         \<and> pick features (rows_of parts Test) (map column_of SHAPE_FEATURES) = Inr x
         \<and> rmap (row_at labels) (rows_of parts Test) = Inr y
         \<and> ridge_predict ridge x = Inr predicted \<and> judged predicted y = Inr score
         \<and> rbind (jitem a ''metrics'') (\<lambda>m. rbind (jitem m ''ridge + shape'') (\<lambda>s. jitem s ''test'')) = Inr (summary_doc score))"
proof -
  obtain parts base geo ridge shape model x dataset c where parts: "episode_parts draw DEFAULT_RATIOS frames = Inr parts"
    and fit: "fit_and_judge solve (ta_alpha args) features labels parts SHAPE_FEATURES = Inr (ridge, shape)"
    and model: "ridge_to_dict ridge = Inr model"
    and x: "pick features (rows_of parts Train) (map column_of SHAPE_FEATURES) = Inr x"
    and a: "a = artifact_doc model base geo shape \<lparr>g_intrinsics = i, g_target_width = ta_target_width args\<rparr> x (ta_seed args) parts dataset c"
    by (rule train_on_okD [OF run]) (rule that)
  obtain base' geo' ridge' shape' model' x' dataset' c' where
    fit': "fit_and_judge solve (ta_alpha args) features' labels' parts SHAPE_FEATURES = Inr (ridge', shape')"
    and model': "ridge_to_dict ridge' = Inr model'"
    and x': "pick features' (rows_of parts Train) (map column_of SHAPE_FEATURES) = Inr x'"
    and a': "a' = artifact_doc model' base' geo' shape' \<lparr>g_intrinsics = i', g_target_width = ta_target_width args\<rparr> x' (ta_seed args) parts dataset' c'"
    by (rule train_on_okD [OF second]) (use parts that in auto)
  have same: "pick features' (rows_of parts Train) cols = pick features (rows_of parts Train) cols"
    "rmap (row_at labels') (rows_of parts Train) = rmap (row_at labels) (rows_of parts Train)" for cols
    using agree [OF parts] by (auto intro!: pick_same rmap_same)
  obtain y where y: "rmap (row_at labels) (rows_of parts Train) = Inr y" "ridge_fit solve (ridge_new (ta_alpha args)) x y = Inr ridge"
    and scores: "evaluate_parts (ridge_predict ridge) features labels parts (map column_of SHAPE_FEATURES) = Inr shape"
    by (rule fit_and_judge_okD [OF fit]) (use x that in auto)
  have "ridge' = ridge"
    by (rule fit_and_judge_okD [OF fit']) (use x y same in auto)
  then have models: "model' = model" "x' = x" using model model' x x' same by auto
  obtain xt yt predicted where test: "pick features (rows_of parts Test) (map column_of SHAPE_FEATURES) = Inr xt"
    "rmap (row_at labels) (rows_of parts Test) = Inr yt" "ridge_predict ridge xt = Inr predicted" "judged predicted yt = Inr (sc_test shape)"
    using scores by (auto simp: evaluate_parts_def evaluate_def rbind_eq_Inr)
  obtain h where h: "parts = map (\<lambda>f. h (key_of f)) frames"
    by (rule episode_parts_okD [OF parts]) (rule that)
  have "(\<lambda>i. key_of (frames ! i)) ` set (rows_of parts p) \<inter> (\<lambda>i. key_of (frames ! i)) ` set (rows_of parts q) = {}"
    if "p \<noteq> q" for p q using that by (auto simp: rows_of_set h)
  moreover have "mset (rows_of parts Train) + mset (rows_of parts Val) + mset (rows_of parts Test) = mset [0..<length frames]"
  proof -
    have "mset (rows_of parts Train) + mset (rows_of parts Val) + mset (rows_of parts Test) = mset [0..<length parts]"
      unfolding rows_of_def by (rule mset_three_parts)
    then show ?thesis by (simp add: h)
  qed
  moreover have "jitem a ''model'' = ridge_to_dict ridge" "jitem a' ''model'' = jitem a ''model''"
    "jitem a' ''feature_stats'' = jitem a ''feature_stats''"
    "rbind (jitem a ''metrics'') (\<lambda>m. rbind (jitem m ''ridge + shape'') (\<lambda>s. jitem s ''test'')) = Inr (summary_doc (sc_test shape))"
    by (simp_all add: a a' models model artifact_doc_def scores_doc_def)
  ultimately show ?thesis using parts test by blast
qed

text \<open>Two runs that differ in where the target of the test frame is.\<close>

theorem trained_on_unseen_episodes_witness:
  "\<exists>a a'. train_on demo_solve (\<lambda>n. n - 1) (Inr (commit_doc (JStr ''9f'') (JBool False))) demo_args demo_manifest demo_camera
       demo_features (demo_labels_at 3) demo_frames = Inr a
     \<and> train_on demo_solve (\<lambda>n. n - 1) (Inr (commit_doc (JStr ''9f'') (JBool False))) demo_args demo_manifest demo_camera
       demo_features (demo_labels_at 5) demo_frames = Inr a'
     \<and> jitem a' ''model'' = jitem a ''model''"
proof -
  obtain a a' where runs: "train_on demo_solve (\<lambda>n. n - 1) (Inr (commit_doc (JStr ''9f'') (JBool False))) demo_args demo_manifest demo_camera
       demo_features (demo_labels_at 3) demo_frames = Inr a"
     "train_on demo_solve (\<lambda>n. n - 1) (Inr (commit_doc (JStr ''9f'') (JBool False))) demo_args demo_manifest demo_camera
       demo_features (demo_labels_at 5) demo_frames = Inr a'"
    using demo_train_on [of 3] demo_train_on [of 5] by auto
  have "jitem a' ''model'' = jitem a ''model''"
    by (rule trained_on_unseen_episodes [OF runs, THEN conjunct1]) (auto simp: demo_parts [simplified] demo_rows row_at_def demo_labels_at_def)
  with runs show ?thesis by blast
qed

text \<open>The feature cache outlives its dataset. The cache is keyed on the feature names and the number of
  frames only: once it exists, recording a new dataset with as many frames into the same directory changes
  nothing, and the next run gets the old features and the old labels, whatever the new images, labels and
  camera are, paired with the new frames and their episodes.\<close>

theorem stale_cache_reused:
  assumes "caches (dir @ [''features.npz'']) = Some c" and "ca_names c = SHAPE_FEATURES"
    and "load files dir = Inr frames" and "length frames = length (ca_features c)"
  shows "load_features open_rgb files caches dir i True = Inr ((ca_features c, ca_labels c, frames), caches)"
  using assms by (simp add: load_features_def)

text \<open>Here the frames on disk say 9 metres, their images cannot be read, and the labels used are those of the
  earlier recording.\<close>

theorem stale_cache_reused_witness:
  "load_features (\<lambda>p. Inl OSError)
     [[''d'', ''labels.jsonl''] \<mapsto> [JsonLine (demo_row 0 9), JsonLine (demo_row 1 9), JsonLine (demo_row 2 9)]]
     (tw_caches demo_world) [''d''] \<lparr>in_fx = 7, in_fy = 7, in_cx = 0, in_cy = 0\<rparr> True
   = Inr ((demo_features, demo_labels,
       map (\<lambda>f. f\<lparr>fr_label := [JNum 0, JNum 0, JNum 9]\<rparr>) demo_frames), tw_caches demo_world)"
proof -
  let ?files = "[[''d'', ''labels.jsonl''] \<mapsto> [JsonLine (demo_row 0 9), JsonLine (demo_row 1 9), JsonLine (demo_row 2 9)]]"
  have "load ?files [''d''] = Inr (map (\<lambda>f. f\<lparr>fr_label := [JNum 0, JNum 0, JNum 9]\<rparr>) demo_frames)"
    by (simp add: load_def frame_of_def demo_row_def demo_frames_def join_path_def)
  then show ?thesis
    using stale_cache_reused [of "tw_caches demo_world" "[''d'']"
        "\<lparr>ca_names = SHAPE_FEATURES, ca_features = demo_features, ca_labels = demo_labels\<rparr>" ?files]
    by (simp add: demo_world_def demo_features_def demo_frames_def)
qed

subsection \<open>Storing a model (\<open>save\<close> and \<open>load\<close> of \<open>models.py\<close>)\<close>

text \<open>A file holds the document its text decodes to; \<open>sort_keys\<close> orders the keys at every level.\<close>

type_synonym model_files = "string \<Rightarrow> json option"

definition save_model :: "string \<Rightarrow> json \<Rightarrow> model_files \<Rightarrow> model_files" where
  "save_model path document files = files(path \<mapsto> sort_doc document)"

definition load_model :: "string \<Rightarrow> model_files \<Rightarrow> json res" where
  "load_model path files = (case files path of None \<Rightarrow> Inl FileNotFoundError | Some d \<Rightarrow> Inr d)"

text \<open>A model survives being stored: whatever else the artifact says, the model read back from the file is the
  one that was saved, and no other file changes.\<close>

theorem saved_model_loads:
  assumes "wf_doc document" "jitem document ''model'' = Inr model" "ridge_to_dict ridge = Inr model"
  shows "rbind (load_model path (save_model path document files)) (\<lambda>d. rbind (jitem d ''model'') ridge_from_dict) = Inr ridge
         \<and> (\<forall>other. other \<noteq> path \<longrightarrow> load_model other (save_model path document files) = load_model other files)"
  using ridge_from_sorted(2) [OF assms(3)]
  by (simp add: load_model_def save_model_def jitem_sort_doc [OF assms(1)] assms(2) sorted_res_def)

theorem saved_model_loads_witness:
  "\<exists>model. rbind (load_model ''m.json'' (save_model ''m.json'' (JObj [(''version'', JInt 1), (''model'', model)]) (\<lambda>_. None)))
     (\<lambda>d. rbind (jitem d ''model'') ridge_from_dict) = Inr ((ridge_new 1)\<lparr>r_fitted := Some ([[2]], [3])\<rparr>)"
proof -
  obtain model where m: "ridge_to_dict ((ridge_new 1)\<lparr>r_fitted := Some ([[2]], [3])\<rparr>) = Inr model"
    by (simp add: ridge_to_dict_def ridge_new_def)
  have "wf_doc (JObj [(''version'', JInt 1), (''model'', model)])" using ridge_from_sorted(1) [OF m] by simp
  from saved_model_loads [OF this _ m, of "''m.json''" "\<lambda>_. None"] show ?thesis by auto
qed

end
