(* ===== verification/Collect.thy ===== *)
theory Collect
  imports Dataset
begin

section \<open>Recording a dataset (\<open>threevn_data/collect.py\<close>)\<close>

text \<open>
  The recorder drives the robot, reads the target's true position from the simulator and writes frames
  with their labels. The simulator and the ROS graph are a record \<open>sim\<close> of functions over an arbitrary
  world state \<open>'w\<close>: what a \<open>gz\<close> call prints (or raises), which messages arrive in one \<open>spin_once\<close>, how
  often the body of a timed loop runs, what tf2 answers, and what writing an image does (it may raise, or fail with
  \<open>False\<close>). A recorder operation is a function from the
  node's state and the world to a result (or exception), the new state and the new world.
\<close>

subsection \<open>The outside\<close>

record camera_image =
  cm_frame_id :: string
  cm_sec :: int
  cm_nanosec :: int
  cm_height :: nat
  cm_width :: nat
  cm_data :: "byte list"

record camera_info =
  cn_k :: "real list"
  cn_width :: int
  cn_height :: int

datatype camera_event = ImageEvent camera_image | InfoEvent camera_info

datatype gz_call = EchoTopic string | SetPose string string real real real

type_synonym point3 = "real \<times> real \<times> real"

record 'w sim =
  sm_gz :: "gz_call \<Rightarrow> 'w \<Rightarrow> string list res \<times> 'w"
  sm_spin :: "'w \<Rightarrow> camera_event list \<times> 'w"
  sm_iterations :: "'w \<Rightarrow> nat \<times> 'w"
  sm_transform :: "string \<Rightarrow> point3 \<Rightarrow> 'w \<Rightarrow> point3 res \<times> 'w"
  sm_imwrite :: "string \<Rightarrow> nat \<times> nat \<Rightarrow> byte list \<Rightarrow> 'w \<Rightarrow> bool res \<times> 'w"

subsection \<open>Ground truth poses\<close>

definition ROBOT_MODEL :: string where "ROBOT_MODEL = ''threevn_mm''"

definition TARGET_MODEL :: string where "TARGET_MODEL = ''target_cube''"

definition DYNAMIC_TOPIC :: "string \<Rightarrow> string" where
  "DYNAMIC_TOPIC world = ''/world/'' @ world @ ''/dynamic_pose/info''"

definition STATIC_TOPIC :: "string \<Rightarrow> string" where
  "STATIC_TOPIC world = ''/world/'' @ world @ ''/pose/info''"

definition quoted :: "string \<Rightarrow> string" where
  "quoted s = CHR 0x22 # s @ [CHR 0x22]"

text \<open>The loop over the lines that collects the block after the model's name.\<close>

fun scan_block :: "string \<Rightarrow> string list \<Rightarrow> bool \<Rightarrow> string list \<Rightarrow> bool \<times> string list" where
  "scan_block model [] seen block = (seen, block)"
| "scan_block model (l # ls) seen block =
     (if sublist ''name:'' l
      then if seen then (seen, block) else scan_block model ls (sublist (quoted model) l) block
      else scan_block model ls seen (if seen then block @ [l] else block))"

definition after_colon :: "string \<Rightarrow> string" where
  "after_colon s = drop 1 (dropWhile (\<lambda>c. c \<noteq> CHR 0x3A) s)"

fun field :: "string \<Rightarrow> string \<Rightarrow> bool \<Rightarrow> string list \<Rightarrow> real res" where
  "field section_name key inside [] = Inr 0"
| "field section_name key inside (l # ls) =
     (let stripped = py_strip l in
      if prefix section_name stripped then field section_name key True ls
      else if inside then
        if prefix [CHR 0x7D] stripped then field section_name key False ls
        else if prefix (key @ [CHR 0x3A]) stripped then py_float_str (after_colon stripped)
        else field section_name key inside ls
      else field section_name key inside ls)"

definition atan2 :: "real \<Rightarrow> real \<Rightarrow> real" where
  "atan2 y x = Arg (Complex x y)"

definition yaw_of :: "real \<Rightarrow> real \<Rightarrow> real" where
  "yaw_of qz w = (let qw = (if w = 0 then 1 else w) in atan2 (2 * qw * qz) (1 - 2 * qz * qz))"

definition pose_of_lines :: "string \<Rightarrow> string list \<Rightarrow> (real \<times> real \<times> real \<times> real) option res" where
  "pose_of_lines model ls =
     (case scan_block model ls False [] of
        (False, _) \<Rightarrow> Inr None
      | (True, block) \<Rightarrow>
          rbind (field ''orientation'' ''z'' False block) (\<lambda>qz.
          rbind (field ''orientation'' ''w'' False block) (\<lambda>qw.
          rbind (field ''position'' ''x'' False block) (\<lambda>x.
          rbind (field ''position'' ''y'' False block) (\<lambda>y.
          rbind (field ''position'' ''z'' False block) (\<lambda>z.
            Inr (Some (x, y, z, yaw_of qz qw))))))))"

definition read_pose :: "'w sim \<Rightarrow> string \<Rightarrow> string \<Rightarrow> 'w \<Rightarrow> (real \<times> real \<times> real \<times> real) option res \<times> 'w" where
  "read_pose sm topic model w =
     (case sm_gz sm (EchoTopic topic) w of
        (Inl e, w1) \<Rightarrow> (if caught e [CSubprocessError, COSError] then Inr None else Inl e, w1)
      | (Inr ls, w1) \<Rightarrow> (pose_of_lines model ls, w1))"

definition robot_pose :: "'w sim \<Rightarrow> string \<Rightarrow> 'w \<Rightarrow> (real \<times> real \<times> real \<times> real) option res \<times> 'w" where
  "robot_pose sm world = read_pose sm (DYNAMIC_TOPIC world) ROBOT_MODEL"

definition target_pose :: "'w sim \<Rightarrow> string \<Rightarrow> 'w \<Rightarrow> (real \<times> real \<times> real \<times> real) option res \<times> 'w" where
  "target_pose sm world = read_pose sm (STATIC_TOPIC world) TARGET_MODEL"

definition lower_ascii :: "char \<Rightarrow> char" where
  "lower_ascii c = (if 65 \<le> (of_char c :: nat) \<and> (of_char c :: nat) \<le> 90 then char_of ((of_char c :: nat) + 32) else c)"

definition place_target :: "'w sim \<Rightarrow> string \<Rightarrow> real \<Rightarrow> real \<Rightarrow> 'w \<Rightarrow> bool res \<times> 'w" where
  "place_target sm world x y w =
     (case sm_gz sm (SetPose world TARGET_MODEL x y (25 / 1000)) w of
        (Inl e, w1) \<Rightarrow> (if caught e [CSubprocessError, COSError] then Inr False else Inl e, w1)
      | (Inr ls, w1) \<Rightarrow> (Inr (list_ex (\<lambda>l. sublist ''true'' (map lower_ascii l)) ls), w1))"

subsection \<open>The node\<close>

datatype reject = NoImage | NoGroundTruth | BehindCamera | UnknownReason

record label_row =
  lr_image :: string
  lr_episode :: nat
  lr_index :: nat
  lr_label :: point3
  lr_stamp :: real

record collector =
  co_image :: "camera_image option"
  co_info :: "camera_info option"
  co_rows :: "label_row list"
  co_rejected :: "(reject \<times> nat) list"
  co_reject_reason :: reject
  co_cmds :: "(real \<times> real) list"
  co_files :: "(string \<times> nat \<times> nat \<times> byte list) list"

definition co_new :: collector where
  "co_new = \<lparr>co_image = None, co_info = None, co_rows = [], co_rejected = [], co_reject_reason = UnknownReason,
             co_cmds = [], co_files = []\<rparr>"

fun on_camera :: "collector \<Rightarrow> camera_event \<Rightarrow> collector" where
  "on_camera c (ImageEvent m) = c\<lparr>co_image := Some m\<rparr>"
| "on_camera c (InfoEvent i) = c\<lparr>co_info := Some i\<rparr>"

definition co_spin :: "'w sim \<Rightarrow> collector \<Rightarrow> 'w \<Rightarrow> collector \<times> 'w" where
  "co_spin sm c w = (case sm_spin sm w of (evs, w1) \<Rightarrow> (foldl on_camera c evs, w1))"

fun spins :: "'w sim \<Rightarrow> nat \<Rightarrow> collector \<Rightarrow> 'w \<Rightarrow> collector \<times> 'w" where
  "spins sm 0 c w = (c, w)"
| "spins sm (Suc n) c w = (case co_spin sm c w of (c1, w1) \<Rightarrow> spins sm n c1 w1)"

definition spin_for :: "'w sim \<Rightarrow> collector \<Rightarrow> 'w \<Rightarrow> collector \<times> 'w" where
  "spin_for sm c w = (case sm_iterations sm w of (n, w1) \<Rightarrow> spins sm n c w1)"

fun wait_ready_n :: "'w sim \<Rightarrow> nat \<Rightarrow> collector \<Rightarrow> 'w \<Rightarrow> bool \<times> collector \<times> 'w" where
  "wait_ready_n sm 0 c w = (False, c, w)"
| "wait_ready_n sm (Suc n) c w =
     (case co_spin sm c w of
        (c1, w1) \<Rightarrow> if co_image c1 \<noteq> None \<and> co_info c1 \<noteq> None then (True, c1, w1) else wait_ready_n sm n c1 w1)"

definition wait_ready :: "'w sim \<Rightarrow> collector \<Rightarrow> 'w \<Rightarrow> bool \<times> collector \<times> 'w" where
  "wait_ready sm c w = (case sm_iterations sm w of (n, w1) \<Rightarrow> wait_ready_n sm n c w1)"

fun publish_n :: "'w sim \<Rightarrow> real \<times> real \<Rightarrow> nat \<Rightarrow> collector \<Rightarrow> 'w \<Rightarrow> collector \<times> 'w" where
  "publish_n sm cmd 0 c w = (c, w)"
| "publish_n sm cmd (Suc n) c w =
     (case co_spin sm (c\<lparr>co_cmds := co_cmds c @ [cmd]\<rparr>) w of (c1, w1) \<Rightarrow> publish_n sm cmd n c1 w1)"

definition drive :: "'w sim \<Rightarrow> real \<Rightarrow> real \<Rightarrow> collector \<Rightarrow> 'w \<Rightarrow> collector \<times> 'w" where
  "drive sm lin ang c w =
     (case sm_iterations sm w of (n, w1) \<Rightarrow>
      case publish_n sm (lin, ang) n c w1 of (c1, w2) \<Rightarrow>
      case publish_n sm (0, 0) 10 c1 w2 of (c2, w3) \<Rightarrow> spin_for sm c2 w3)"

subsection \<open>Labels\<close>

text \<open>The target in \<open>base_footprint\<close>, from the two poses in the world.\<close>

definition base_point :: "real \<times> real \<times> real \<times> real \<Rightarrow> real \<times> real \<times> real \<times> real \<Rightarrow> point3" where
  "base_point robot target =
     (case (robot, target) of ((rx, ry, _, ryaw), (tx, ty, tz, _)) \<Rightarrow>
        let dx = tx - rx; dy = ty - ry; c = cos (- ryaw); s = sin (- ryaw)
        in (dx * c - dy * s, dx * s + dy * c, tz))"

definition label_now :: "'w sim \<Rightarrow> string \<Rightarrow> string \<Rightarrow> 'w \<Rightarrow> point3 option res \<times> 'w" where
  "label_now sm world frame_id w =
     (case robot_pose sm world w of (Inl e, w1) \<Rightarrow> (Inl e, w1) | (Inr robot, w1) \<Rightarrow>
      case target_pose sm world w1 of (Inl e, w2) \<Rightarrow> (Inl e, w2) | (Inr target, w2) \<Rightarrow>
      case (robot, target) of
        (Some r, Some t) \<Rightarrow>
          (case sm_transform sm frame_id (base_point r t) w2 of
             (Inl e, w3) \<Rightarrow> (if caught e [CTransformException] then Inr None else Inl e, w3)
           | (Inr p, w3) \<Rightarrow> (Inr (Some p), w3))
      | _ \<Rightarrow> (Inr None, w2))"

definition ahead :: "real \<times> real \<times> real \<times> real \<Rightarrow> real \<Rightarrow> real \<Rightarrow> real \<times> real" where
  "ahead robot forward lateral =
     (case robot of (rx, ry, _, ryaw) \<Rightarrow>
        (rx + forward * cos ryaw - lateral * sin ryaw, ry + forward * sin ryaw + lateral * cos ryaw))"

definition place_target_ahead ::
  "'w sim \<Rightarrow> string \<Rightarrow> real \<Rightarrow> real \<Rightarrow> collector \<Rightarrow> 'w \<Rightarrow> bool res \<times> collector \<times> 'w" where
  "place_target_ahead sm world forward lateral c w =
     (case robot_pose sm world w of
        (Inl e, w1) \<Rightarrow> (Inl e, c, w1)
      | (Inr None, w1) \<Rightarrow> (Inr False, c, w1)
      | (Inr (Some r), w1) \<Rightarrow>
          (case ahead r forward lateral of (x, y) \<Rightarrow>
           case place_target sm world x y w1 of
             (Inl e, w2) \<Rightarrow> (Inl e, c, w2)
           | (Inr False, w2) \<Rightarrow> (Inr False, c, w2)
           | (Inr True, w2) \<Rightarrow> (case spin_for sm c w2 of (c1, w3) \<Rightarrow> (Inr True, c1, w3))))"

subsection \<open>Frames\<close>

fun digits :: "nat \<Rightarrow> string" where
  "digits n = (if n < 10 then [char_of (48 + n)] else digits (n div 10) @ [char_of (48 + n mod 10)])"

text \<open>\<open>f'{n:0wd}'\<close>.\<close>

definition pad :: "nat \<Rightarrow> nat \<Rightarrow> string" where
  "pad w n = replicate (w - length (digits n)) (CHR ''0'') @ digits n"

definition frame_name :: "nat \<Rightarrow> nat \<Rightarrow> string" where
  "frame_name episode index = ''ep'' @ pad 3 episode @ ''_'' @ pad 4 index @ ''.png''"

text \<open>\<open>cv2.imwrite\<close> raises on an empty image and returns \<open>False\<close> when the file cannot be written; the return value is
  not looked at, so the row is added in either case.\<close>

definition capture :: "'w sim \<Rightarrow> string \<Rightarrow> nat \<Rightarrow> nat \<Rightarrow> collector \<Rightarrow> 'w \<Rightarrow> bool res \<times> collector \<times> 'w" where
  "capture sm world episode index c w =
     (case co_image c of
        None \<Rightarrow> (Inr False, c\<lparr>co_reject_reason := NoImage\<rparr>, w)
      | Some msg \<Rightarrow>
          (case label_now sm world (cm_frame_id msg) w of
             (Inl e, w1) \<Rightarrow> (Inl e, c, w1)
           | (Inr None, w1) \<Rightarrow> (Inr False, c\<lparr>co_reject_reason := NoGroundTruth\<rparr>, w1)
           | (Inr (Some (x, y, z)), w1) \<Rightarrow>
               if z \<le> 0 then (Inr False, c\<lparr>co_reject_reason := BehindCamera\<rparr>, w1)
               else (case reshape3 (cm_data msg) (cm_height msg) (cm_width msg) of
                       Inl e \<Rightarrow> (Inl e, c, w1)
                     | Inr rgb \<Rightarrow>
                         (let name = ''images/'' @ frame_name episode index; bgr = swap_channels (nd_data rgb);
                              size = (cm_height msg, cm_width msg) in
                          case sm_imwrite sm name size bgr w1 of
                            (Inl e, w2) \<Rightarrow> (Inl e, c, w2)
                          | (Inr written, w2) \<Rightarrow>
                              (Inr True,
                               c\<lparr>co_files := (if written then co_files c @ [(name, cm_height msg, cm_width msg, bgr)] else co_files c),
                                 co_rows := co_rows c @ [\<lparr>lr_image = name, lr_episode = episode,
                                   lr_index = index, lr_label = (x, y, z),
                                   lr_stamp = real_of_int (cm_sec msg) + real_of_int (cm_nanosec msg) / 10 ^ 9\<rparr>]\<rparr>,
                               w2)))))"

definition count_reject :: "collector \<Rightarrow> collector" where
  "count_reject c =
     (let r = co_reject_reason c in
      c\<lparr>co_rejected := AList.update r (case map_of (co_rejected c) r of None \<Rightarrow> 1 | Some n \<Rightarrow> n + 1) (co_rejected c)\<rparr>)"

text \<open>The loop over \<open>range(frames)\<close>, from \<open>index\<close> with \<open>n\<close> frames to go.\<close>

fun record_frames ::
  "'w sim \<Rightarrow> string \<Rightarrow> nat \<Rightarrow> real \<times> real \<Rightarrow> nat \<Rightarrow> nat \<Rightarrow> nat \<Rightarrow> collector \<Rightarrow> 'w \<Rightarrow> nat res \<times> collector \<times> 'w" where
  "record_frames sm world episode mv 0 index kept c w = (Inr kept, c, w)"
| "record_frames sm world episode mv (Suc n) index kept c w =
     (case (if index \<noteq> 0 then drive sm (fst mv) (snd mv) c w else (c, w)) of (c1, w1) \<Rightarrow>
      case capture sm world episode index c1 w1 of
        (Inl e, c2, w2) \<Rightarrow> (Inl e, c2, w2)
      | (Inr True, c2, w2) \<Rightarrow> record_frames sm world episode mv n (index + 1) (kept + 1) c2 w2
      | (Inr False, c2, w2) \<Rightarrow> record_frames sm world episode mv n (index + 1) kept (count_reject c2) w2)"

definition record_episode ::
  "'w sim \<Rightarrow> string \<Rightarrow> nat \<Rightarrow> real \<times> real \<Rightarrow> nat \<Rightarrow> collector \<Rightarrow> 'w \<Rightarrow> nat res \<times> collector \<times> 'w" where
  "record_episode sm world episode mv frames c w =
     (case spin_for sm c w of (c1, w1) \<Rightarrow> record_frames sm world episode mv frames 0 0 c1 w1)"


subsection \<open>The recording\<close>

definition MOVES :: "(real \<times> real) list" where
  "MOVES = [(5 / 100, 6 / 100), (- 5 / 100, 6 / 100), (4 / 100, - 7 / 100), (- 4 / 100, - 7 / 100),
            (6 / 100, 2 / 100), (- 6 / 100, 2 / 100), (3 / 100, 9 / 100), (- 3 / 100, - 9 / 100)]"

text \<open>\<open>rng.uniform(-0.01, 0.01)\<close> is \<open>a + (b - a) * rng.random()\<close>; \<open>rnd k\<close> is the \<open>k\<close>-th \<open>random()\<close>.\<close>

definition uniform_jitter :: "real \<Rightarrow> real" where
  "uniform_jitter r = - (1 / 100) + (1 / 100 - - (1 / 100)) * r"

definition target_offset :: "(nat \<Rightarrow> real) \<Rightarrow> nat \<Rightarrow> real \<times> real" where
  "target_offset rnd index =
     (let forward = 28 / 100 + 34 / 100 * py_mod (real index * (6180339887 / 10 ^ 10)) 1;
          lateral = - (13 / 100) + 26 / 100 * py_mod (real index * (3819660113 / 10 ^ 10)) 1
      in (py_round_to 4 (forward + uniform_jitter (rnd (2 * index))),
          py_round_to 4 (lateral + uniform_jitter (rnd (2 * index + 1)))))"

definition target_offsets :: "(nat \<Rightarrow> real) \<Rightarrow> nat \<Rightarrow> (real \<times> real) list" where
  "target_offsets rnd n = map (target_offset rnd) [0..<n]"

fun record_all ::
  "'w sim \<Rightarrow> string \<Rightarrow> nat \<Rightarrow> nat \<Rightarrow> (real \<times> real) list \<Rightarrow> nat \<Rightarrow> collector \<Rightarrow> 'w \<Rightarrow> nat res \<times> collector \<times> 'w" where
  "record_all sm world frames episode [] kept c w = (Inr kept, c, w)"
| "record_all sm world frames episode ((forward, lateral) # offsets) kept c w =
     (case place_target_ahead sm world forward lateral c w of
        (Inl e, c1, w1) \<Rightarrow> (Inl e, c1, w1)
      | (Inr False, c1, w1) \<Rightarrow> record_all sm world frames (episode + 1) offsets kept c1 w1
      | (Inr True, c1, w1) \<Rightarrow>
          (case record_episode sm world episode (MOVES ! (episode mod length MOVES)) frames c1 w1 of
             (Inl e, c2, w2) \<Rightarrow> (Inl e, c2, w2)
           | (Inr k, c2, w2) \<Rightarrow> record_all sm world frames (episode + 1) offsets (kept + k) c2 w2))"

definition row_doc :: "label_row \<Rightarrow> json" where
  "row_doc r =
     (case lr_label r of (x, y, z) \<Rightarrow>
        JObj [(''image'', JStr (lr_image r)), (''episode'', JInt (int (lr_episode r))), (''index'', JInt (int (lr_index r))),
              (''label'', JArr [JNum x, JNum y, JNum z]), (''stamp'', JNum (lr_stamp r))])"

definition camera_doc :: "collector \<Rightarrow> (string \<times> json) list res" where
  "camera_doc c =
     (case co_info c of
        None \<Rightarrow> Inl AttributeError
      | Some info \<Rightarrow>
          rbind (py_index (cn_k info) 0) (\<lambda>fx. rbind (py_index (cn_k info) 4) (\<lambda>fy.
          rbind (py_index (cn_k info) 2) (\<lambda>cx. rbind (py_index (cn_k info) 5) (\<lambda>cy.
          rbind (case co_image c of None \<Rightarrow> Inl AttributeError | Some m \<Rightarrow> Inr (cm_frame_id m)) (\<lambda>frame_id.
            Inr [(''fx'', JNum fx), (''fy'', JNum fy), (''cx'', JNum cx), (''cy'', JNum cy),
                 (''width'', JInt (cn_width info)), (''height'', JInt (cn_height info)),
                 (''frame_id'', JStr frame_id)]))))))"

definition label_source :: "(string \<times> json) list" where
  "label_source = [(''source'', JStr ''simulator''),
     (''quantity'', JStr ''target position in the camera optical frame''),
     (''units'', JStr ''metres''), (''target_repositioned_per_episode'', JBool True)]"

record collect_args =
  cl_episodes :: nat
  cl_frames :: nat
  cl_world :: string
  cl_seed :: int

text \<open>The exit code and, when the recording went through, the lines of \<open>labels.jsonl\<close> and the manifest; the
  lines are written before the manifest is assembled.\<close>

record recording =
  rc_lines :: "label_line list"
  rc_manifest :: json

definition collect_main ::
  "'w sim \<Rightarrow> (nat \<Rightarrow> real) \<Rightarrow> json res \<Rightarrow> string \<Rightarrow> collect_args \<Rightarrow> 'w \<Rightarrow> (int \<times> recording option) res \<times> collector" where
  "collect_main sm rnd code now args w =
     (case wait_ready sm co_new w of
        (False, c, w1) \<Rightarrow> (Inr (1, None), c)
      | (True, c, w1) \<Rightarrow>
          (case record_all sm (cl_world args) (cl_frames args) 0 (target_offsets rnd (cl_episodes args)) 0 c w1 of
             (Inl e, c1, w2) \<Rightarrow> (Inl e, c1)
           | (Inr kept, c1, w2) \<Rightarrow>
               (rbind (camera_doc c1) (\<lambda>camera.
                rbind (build code now (JStr (cl_world args)) (JStr ''threevn_mm_v1'') camera label_source
                         (int (card (lr_episode ` set (co_rows c1)))) (int kept) [(''seed'', JInt (cl_seed args))]) (\<lambda>doc.
                rbind (validate doc) (\<lambda>problems.
                  Inr (0, Some \<lparr>rc_lines = map (JsonLine \<circ> row_doc) (co_rows c1), rc_manifest = sort_doc doc\<rparr>)))), c1)))"


subsection \<open>Lemmas: geometry\<close>

lemma atan2_polar: "- pi < t \<Longrightarrow> t \<le> pi \<Longrightarrow> atan2 (sin t) (cos t) = t"
proof -
  assume "- pi < t" "t \<le> pi"
  moreover have "Complex (cos t) (sin t) = cis t" by (simp add: complex_eq_iff)
  ultimately show ?thesis unfolding atan2_def by (intro cis_Arg_unique) simp_all
qed

lemma yaw_of_half_angle:
  assumes "- pi < t" "t < pi"
  shows "yaw_of (sin (t / 2)) (cos (t / 2)) = t"
proof -
  have "0 < cos (t / 2)" using assms by (intro cos_gt_zero_pi) simp_all
  moreover have "2 * cos (t / 2) * sin (t / 2) = sin t" using sin_double [of "t / 2"] by (simp add: mult.commute)
  moreover have "1 - 2 * sin (t / 2) * sin (t / 2) = cos t"
    using cos_double_sin [of "t / 2"] by (simp add: power2_eq_square mult.assoc)
  ultimately show ?thesis using atan2_polar [of t] assms by (simp add: yaw_of_def Let_def)
qed

lemma base_point_ahead:
  assumes "ahead r forward lateral = (x, y)"
  shows "base_point r (x, y, z, yaw) = (forward, lateral, z)"
proof -
  obtain rx ry rz t where r: "r = (rx, ry, rz, t)" by (cases r)
  have c: "cos t * cos t + sin t * sin t = 1" using sin_cos_squared_add2 [of t] by (simp add: power2_eq_square)
  have xy: "x - rx = forward * cos t - lateral * sin t" "y - ry = forward * sin t + lateral * cos t"
    using assms by (auto simp: ahead_def r)
  have "(x - rx) * cos t + (y - ry) * sin t = forward * (cos t * cos t + sin t * sin t)"
    "(y - ry) * cos t - (x - rx) * sin t = lateral * (cos t * cos t + sin t * sin t)"
    unfolding xy by algebra+
  then show ?thesis unfolding c by (simp add: base_point_def r Let_def)
qed

subsection \<open>Lemmas: file names\<close>

declare digits.simps [simp del]

lemma digits_are_digits: "list_all is_digit (digits n)"
proof (induction n rule: digits.induct)
  case (1 n)
  have "is_digit (char_of (48 + k))" if "k < 10" for k :: nat using that by (simp add: is_digit_def)
  then show ?case using "1.IH" by (subst digits.simps) simp
qed

lemma digits_value_append: "digits_value (xs @ [c]) = 10 * digits_value xs + (of_char c - 48)"
  by (simp add: digits_value_def)

lemma digits_value_digits: "digits_value (digits n) = n"
proof (induction n rule: digits.induct)
  case (1 n)
  show ?case
  proof (cases "n < 10")
    case True
    then show ?thesis by (subst digits.simps) (simp add: digits_value_def)
  next
    case False
    then show ?thesis using "1.IH" by (subst digits.simps) (simp add: digits_value_append)
  qed
qed

lemma digits_value_zeros: "digits_value (replicate k (CHR ''0'') @ xs) = digits_value xs"
  by (induction k) (simp_all add: digits_value_def)

lemma pad_inject: "pad w m = pad w n \<Longrightarrow> m = n"
  unfolding pad_def by (metis digits_value_digits digits_value_zeros)

lemma pad_digits: "list_all is_digit (pad w n)"
  using digits_are_digits [of n] by (auto simp: pad_def list_all_iff is_digit_def)

lemma takeWhile_digits: "list_all is_digit a \<Longrightarrow> \<not> is_digit c \<Longrightarrow> takeWhile is_digit (a @ c # b) = a"
  by (induction a) auto

lemma frame_name_inject: "frame_name e i = frame_name e' i' \<longleftrightarrow> e = e' \<and> i = i'"
proof
  assume eq: "frame_name e i = frame_name e' i'"
  have nd: "\<not> is_digit (CHR ''_'')" "\<not> is_digit (CHR ''.'')" by (simp_all add: is_digit_def)
  have rest: "pad 3 e @ CHR ''_'' # (pad 4 i @ ''.png'') = pad 3 e' @ CHR ''_'' # (pad 4 i' @ ''.png'')"
    using eq by (simp add: frame_name_def)
  then have e: "pad 3 e = pad 3 e'" using takeWhile_digits [OF pad_digits nd(1)] by metis
  with rest have "pad 4 i @ CHR ''.'' # ''png'' = pad 4 i' @ CHR ''.'' # ''png''" by simp
  then have "pad 4 i = pad 4 i'" using takeWhile_digits [OF pad_digits nd(2)] by metis
  with e show "e = e' \<and> i = i'" by (auto dest: pad_inject)
qed simp

lemma split_slash_none: "CHR 0x2F \<notin> set s \<Longrightarrow> split_slash s = [s]"
  by (induction s) auto

lemma frame_name_no_slash: "CHR 0x2F \<notin> set (frame_name e i)"
proof -
  have "c \<noteq> CHR 0x2F" if "is_digit c" for c using that by (auto simp: is_digit_def)
  then have "CHR 0x2F \<notin> set (pad w n)" for w n using pad_digits [of w n] by (auto simp: list_all_iff)
  then show ?thesis by (simp add: frame_name_def)
qed

lemma join_frame_name: "join_path directory (''images/'' @ frame_name e i) = directory @ [''images'', frame_name e i]"
proof -
  have "split_slash (frame_name e i) = [frame_name e i]" by (rule split_slash_none) (rule frame_name_no_slash)
  moreover have "frame_name e i \<noteq> []" "frame_name e i \<noteq> ''.''" by (simp_all add: frame_name_def)
  ultimately show ?thesis by (simp add: join_path_def Let_def)
qed


subsection \<open>Facts that messages, and driving, cannot change\<close>

locale camera_inv =
  fixes P :: "collector \<Rightarrow> bool"
  assumes on_camera_inv: "P c \<Longrightarrow> P (on_camera c e)"
begin

lemma co_spin_inv: "P c \<Longrightarrow> co_spin sm c w = (c1, w1) \<Longrightarrow> P c1"
proof -
  have "P c \<Longrightarrow> P (foldl on_camera c evs)" for evs
    by (induction evs arbitrary: c) (auto intro: on_camera_inv)
  then show "P c \<Longrightarrow> co_spin sm c w = (c1, w1) \<Longrightarrow> P c1" by (auto simp: co_spin_def split: prod.splits)
qed

lemma spins_inv: "P c \<Longrightarrow> spins sm n c w = (c1, w1) \<Longrightarrow> P c1"
  by (induction n arbitrary: c w) (auto split: prod.splits dest: co_spin_inv)

lemma spin_for_inv: "P c \<Longrightarrow> spin_for sm c w = (c1, w1) \<Longrightarrow> P c1"
  by (auto simp: spin_for_def split: prod.splits dest: spins_inv)

lemma wait_ready_inv: "P c \<Longrightarrow> wait_ready sm c w = (b, c1, w1) \<Longrightarrow> P c1"
proof -
  have "P c \<Longrightarrow> wait_ready_n sm n c w = (b, c1, w1) \<Longrightarrow> P c1" for n w c
    by (induction n arbitrary: c w) (auto split: prod.splits if_splits dest: co_spin_inv)
  then show "P c \<Longrightarrow> wait_ready sm c w = (b, c1, w1) \<Longrightarrow> P c1" by (auto simp: wait_ready_def split: prod.splits)
qed

end

locale drive_inv = camera_inv +
  assumes command_inv: "P c \<Longrightarrow> P (c\<lparr>co_cmds := cs\<rparr>)"
begin

lemma publish_inv: "P c \<Longrightarrow> publish_n sm cmd n c w = (c1, w1) \<Longrightarrow> P c1"
proof (induction n arbitrary: c w)
  case (Suc n)
  obtain c0 w0 where "co_spin sm (c\<lparr>co_cmds := co_cmds c @ [cmd]\<rparr>) w = (c0, w0)"
    by (cases "co_spin sm (c\<lparr>co_cmds := co_cmds c @ [cmd]\<rparr>) w")
  moreover from this have "P c0" by (rule co_spin_inv [OF command_inv [OF Suc.prems(1)]])
  ultimately show ?case using Suc.IH [of c0 w0] Suc.prems(2) by simp
qed simp

lemma drive_inv: "P c \<Longrightarrow> drive sm lin ang c w = (c1, w1) \<Longrightarrow> P c1"
  by (auto simp: drive_def split: prod.splits) (blast intro: publish_inv spin_for_inv)

end

interpretation kept_rows: drive_inv "\<lambda>c. co_rows c = rows \<and> co_files c = files" for rows files
proof
  show "co_rows (on_camera c e) = rows \<and> co_files (on_camera c e) = files"
    if "co_rows c = rows \<and> co_files c = files" for c e using that by (cases e) auto
qed simp

interpretation has_camera: drive_inv "\<lambda>c. co_image c \<noteq> None \<and> co_info c \<noteq> None"
proof
  show "co_image (on_camera c e) \<noteq> None \<and> co_info (on_camera c e) \<noteq> None"
    if "co_image c \<noteq> None \<and> co_info c \<noteq> None" for c e using that by (cases e) auto
qed simp

text \<open>The last commands published are ten stops, or none was ever published.\<close>

definition stopped :: "collector \<Rightarrow> bool" where
  "stopped c \<longleftrightarrow> co_cmds c = [] \<or> suffix (replicate 10 (0, 0)) (co_cmds c)"

interpretation stopped: camera_inv stopped
proof
  show "stopped (on_camera c e)" if "stopped c" for c e using that by (cases e) (auto simp: stopped_def)
qed

interpretation cmds: camera_inv "\<lambda>c. co_cmds c = cs" for cs
proof
  show "co_cmds (on_camera c e) = cs" if "co_cmds c = cs" for c e using that by (cases e) auto
qed

lemma publish_cmds: "publish_n sm cmd n c w = (c1, w1) \<Longrightarrow> co_cmds c1 = co_cmds c @ replicate n cmd"
proof (induction n arbitrary: c w)
  case (Suc n)
  obtain c0 w0 where "co_spin sm (c\<lparr>co_cmds := co_cmds c @ [cmd]\<rparr>) w = (c0, w0)"
    by (cases "co_spin sm (c\<lparr>co_cmds := co_cmds c @ [cmd]\<rparr>) w")
  moreover from this have "co_cmds c0 = co_cmds c @ [cmd]" by (rule cmds.co_spin_inv [rotated]) simp
  ultimately show ?case using Suc.IH [of c0 w0] Suc.prems by simp
qed simp

lemma drive_stops:
  assumes "drive sm lin ang c w = (c', w')"
  shows "stopped c'"
proof -
  obtain n w1 c1 w2 c2 w3 where "publish_n sm (lin, ang) n c w1 = (c1, w2)" "publish_n sm (0, 0) 10 c1 w2 = (c2, w3)"
    "spin_for sm c2 w3 = (c', w')"
    using assms by (auto simp: drive_def split: prod.splits)
  moreover from this(2) have "stopped c2" by (simp add: stopped_def suffix_def publish_cmds [of sm "(0, 0)" 10 c1 w2 c2 w3])
  ultimately show ?thesis by (blast intro: stopped.spin_for_inv)
qed


subsection \<open>Lemmas: what is recorded\<close>

definition good_row :: "label_row \<Rightarrow> bool" where
  "good_row r \<longleftrightarrow> (\<exists>x y z. lr_label r = (x, y, z) \<and> 0 < z) \<and> lr_image r = ''images/'' @ frame_name (lr_episode r) (lr_index r)"

definition row_id :: "label_row \<Rightarrow> nat \<times> nat" where
  "row_id r = (lr_episode r, lr_index r)"

lemma capture_cases:
  assumes "capture sm world e i c w = (res, c', w')"
  shows "co_cmds c' = co_cmds c" "co_image c' = co_image c" "co_info c' = co_info c"
    and "res = Inr True \<Longrightarrow> \<exists>r. co_rows c' = co_rows c @ [r] \<and> good_row r \<and> row_id r = (e, i)"
    and "res \<noteq> Inr True \<Longrightarrow> co_rows c' = co_rows c"
  using assms
  by (auto simp: capture_def good_row_def row_id_def Let_def split: option.splits prod.splits sum.splits if_splits)

lemma count_reject_keeps [simp]:
  "co_rows (count_reject c) = co_rows c" "co_cmds (count_reject c) = co_cmds c"
  "co_image (count_reject c) = co_image c" "co_info (count_reject c) = co_info c"
  by (simp_all add: count_reject_def Let_def)

text \<open>What holds of the node between two frames: the camera has been seen and the robot is stopped.\<close>

definition at_rest :: "collector \<Rightarrow> bool" where
  "at_rest c \<longleftrightarrow> co_image c \<noteq> None \<and> co_info c \<noteq> None \<and> stopped c"

lemma at_rest_spin_for: "at_rest c \<Longrightarrow> spin_for sm c w = (c1, w1) \<Longrightarrow> at_rest c1 \<and> co_rows c1 = co_rows c"
  using has_camera.spin_for_inv [of c sm w c1 w1] stopped.spin_for_inv [of c sm w c1 w1]
    kept_rows.spin_for_inv [of c "co_rows c" "co_files c" sm w c1 w1]
  by (simp add: at_rest_def)

lemma at_rest_step:
  assumes "at_rest c" "(if i \<noteq> 0 then drive sm lin ang c w else (c, w)) = (c1, w1)"
  shows "at_rest c1 \<and> co_rows c1 = co_rows c"
proof (cases "i = 0")
  case False
  then have d: "drive sm lin ang c w = (c1, w1)" using assms(2) by simp
  show ?thesis
    using assms(1) has_camera.drive_inv [OF _ d] drive_stops [OF d] kept_rows.drive_inv [of c "co_rows c" "co_files c", OF _ d]
    by (simp add: at_rest_def)
qed (use assms in simp)

lemma at_rest_capture: "at_rest c \<Longrightarrow> capture sm world e i c w = (res, c', w') \<Longrightarrow> at_rest c'"
  using capture_cases [of sm world e i c w res c' w'] by (simp add: at_rest_def stopped_def)

lemma at_rest_count_reject: "at_rest (count_reject c) = at_rest c"
  by (simp add: at_rest_def stopped_def)

lemma record_frames_spec:
  assumes "record_frames sm world e mv n i kept c w = (res, c', w')" "at_rest c"
  shows "at_rest c' \<and> (\<forall>k. res = Inr k \<longrightarrow> (\<exists>new. co_rows c' = co_rows c @ new \<and> k = kept + length new
     \<and> list_all good_row new \<and> distinct (map row_id new) \<and> (\<forall>r \<in> set new. lr_episode r = e \<and> i \<le> lr_index r)))"
  using assms
proof (induction n arbitrary: i kept c w)
  case (Suc n)
  obtain c1 w1 where d: "(if i \<noteq> 0 then drive sm (fst mv) (snd mv) c w else (c, w)) = (c1, w1)" by fastforce
  obtain cap c2 w2 where cp: "capture sm world e i c1 w1 = (cap, c2, w2)" by (cases "capture sm world e i c1 w1")
  have c1: "at_rest c1" "co_rows c1 = co_rows c" using at_rest_step [OF Suc.prems(2) d] by auto
  have c2: "at_rest c2" by (rule at_rest_capture [OF c1(1) cp])
  note run = Suc.prems(1) [unfolded record_frames.simps d prod.case cp]
  show ?case
  proof (cases cap)
    case (Inl ex)
    with run c2 show ?thesis by auto
  next
    case (Inr ok)
    show ?thesis
    proof (cases ok)
      case True
      obtain r where r: "co_rows c2 = co_rows c @ [r]" "good_row r" "row_id r = (e, i)"
        using capture_cases(4) [OF cp] Inr True c1(2) by auto
      have "record_frames sm world e mv n (i + 1) (kept + 1) c2 w2 = (res, c', w')" using run Inr True by simp
      note ih = Suc.IH [OF this c2]
      have "\<exists>new. co_rows c' = co_rows c @ new \<and> k = kept + length new \<and> list_all good_row new
          \<and> distinct (map row_id new) \<and> (\<forall>r \<in> set new. lr_episode r = e \<and> i \<le> lr_index r)" if "res = Inr k" for k
      proof -
        from ih that obtain new where new: "co_rows c' = co_rows c2 @ new" "k = kept + 1 + length new" "list_all good_row new"
          "distinct (map row_id new)" "\<forall>r \<in> set new. lr_episode r = e \<and> i + 1 \<le> lr_index r" by blast
        then have "row_id r \<notin> row_id ` set new" using r(3) by (auto simp: row_id_def)
        with new r show ?thesis by (intro exI [of _ "r # new"]) (auto simp: row_id_def)
      qed
      with ih show ?thesis by blast
    next
      case False
      then have rows: "co_rows c2 = co_rows c" using capture_cases(5) [OF cp] Inr c1(2) by simp
      have "record_frames sm world e mv n (i + 1) kept (count_reject c2) w2 = (res, c', w')" using run Inr False by simp
      from Suc.IH [OF this] c2 rows show ?thesis by (fastforce simp: at_rest_count_reject)
    qed
  qed
qed auto


lemma place_target_ahead_rest:
  assumes "place_target_ahead sm world f l c w = (res, c', w')" "at_rest c"
  shows "at_rest c' \<and> co_rows c' = co_rows c"
  using assms
  by (auto simp: place_target_ahead_def split: prod.splits sum.splits option.splits bool.splits
      dest: at_rest_spin_for [OF assms(2)])

lemma record_episode_spec:
  assumes "record_episode sm world e mv n c w = (res, c', w')" "at_rest c"
  shows "at_rest c' \<and> (\<forall>k. res = Inr k \<longrightarrow> (\<exists>new. co_rows c' = co_rows c @ new \<and> k = length new
     \<and> list_all good_row new \<and> distinct (map row_id new) \<and> (\<forall>r \<in> set new. lr_episode r = e)))"
proof -
  obtain c1 w1 where sp: "spin_for sm c w = (c1, w1)" by (cases "spin_for sm c w")
  have "record_frames sm world e mv n 0 0 c1 w1 = (res, c', w')"
    using assms(1) sp by (simp add: record_episode_def)
  from record_frames_spec [OF this] at_rest_spin_for [OF assms(2) sp] show ?thesis by fastforce
qed

lemma record_all_spec:
  assumes "record_all sm world n e offsets kept c w = (res, c', w')" "at_rest c"
  shows "at_rest c' \<and> (\<forall>k. res = Inr k \<longrightarrow> (\<exists>new. co_rows c' = co_rows c @ new \<and> k = kept + length new
     \<and> list_all good_row new \<and> distinct (map row_id new) \<and> (\<forall>r \<in> set new. e \<le> lr_episode r)))"
  using assms
proof (induction offsets arbitrary: e kept c w)
  case (Cons off offsets)
  obtain f l where off: "off = (f, l)" by (cases off)
  obtain ok c1 w1 where pl: "place_target_ahead sm world f l c w = (ok, c1, w1)" by (cases "place_target_ahead sm world f l c w")
  have c1: "at_rest c1" "co_rows c1 = co_rows c" using place_target_ahead_rest [OF pl Cons.prems(2)] by auto
  note run = Cons.prems(1) [unfolded off record_all.simps pl prod.case]
  consider (err) x where "ok = Inl x" | (no) "ok = Inr False" | (yes) "ok = Inr True" by (cases ok) auto
  then show ?case
  proof cases
    case err
    with run c1 show ?thesis by auto
  next
    case no
    then have "record_all sm world n (e + 1) offsets kept c1 w1 = (res, c', w')" using run by simp
    from Cons.IH [OF this c1(1)] c1(2) show ?thesis by fastforce
  next
    case yes
    obtain er c2 w2 where ep: "record_episode sm world e (MOVES ! (e mod length MOVES)) n c1 w1 = (er, c2, w2)"
      by (cases "record_episode sm world e (MOVES ! (e mod length MOVES)) n c1 w1")
    note spec = record_episode_spec [OF ep c1(1)]
    show ?thesis
    proof (cases er)
      case (Inl x)
      with run yes ep spec show ?thesis by auto
    next
      case (Inr k1)
      obtain first where first: "co_rows c2 = co_rows c @ first" "k1 = length first" "list_all good_row first"
        "distinct (map row_id first)" "\<forall>r \<in> set first. lr_episode r = e" using spec Inr c1(2) by auto
      have "record_all sm world n (e + 1) offsets (kept + k1) c2 w2 = (res, c', w')" using run yes ep Inr by simp
      note ih = Cons.IH [OF this] spec
      have "\<exists>new. co_rows c' = co_rows c @ new \<and> k = kept + length new \<and> list_all good_row new
          \<and> distinct (map row_id new) \<and> (\<forall>r \<in> set new. e \<le> lr_episode r)" if "res = Inr k" for k
      proof -
        from ih that obtain new where new: "co_rows c' = co_rows c2 @ new" "k = kept + k1 + length new" "list_all good_row new"
          "distinct (map row_id new)" "\<forall>r \<in> set new. e + 1 \<le> lr_episode r" by blast
        then have "row_id ` set first \<inter> row_id ` set new = {}" using first(5) by (fastforce simp: row_id_def)
        with new first show ?thesis by (intro exI [of _ "first @ new"]) auto
      qed
      with ih show ?thesis by blast
    qed
  qed
qed auto

lemma wait_ready_True: "wait_ready sm c w = (True, c1, w1) \<Longrightarrow> co_image c1 \<noteq> None \<and> co_info c1 \<noteq> None"
proof -
  have "wait_ready_n sm n c w = (True, c1, w1) \<Longrightarrow> co_image c1 \<noteq> None \<and> co_info c1 \<noteq> None" for n c w
    by (induction n arbitrary: c w) (auto split: prod.splits if_splits)
  then show "wait_ready sm c w = (True, c1, w1) \<Longrightarrow> co_image c1 \<noteq> None \<and> co_info c1 \<noteq> None"
    by (auto simp: wait_ready_def split: prod.splits)
qed

lemma wait_ready_new:
  assumes "wait_ready sm co_new w = (b, c, w1)"
  shows "co_rows c = []" "stopped c"
  using kept_rows.wait_ready_inv [of co_new "[]" "[]" sm w b c w1] stopped.wait_ready_inv [OF _ assms] assms
  by (auto simp: co_new_def stopped_def)

subsection \<open>Lemmas: reading a recording back\<close>

definition frame_of_row :: "path \<Rightarrow> label_row \<Rightarrow> frame" where
  "frame_of_row directory r =
     (case lr_label r of (x, y, z) \<Rightarrow>
        \<lparr>fr_image = directory @ [''images'', frame_name (lr_episode r) (lr_index r)],
         fr_episode = JInt (int (lr_episode r)), fr_index = JInt (int (lr_index r)),
         fr_label = [JNum x, JNum y, JNum z], fr_stamp = JNum (lr_stamp r)\<rparr>)"

lemma load_rows:
  "list_all good_row rows \<Longrightarrow>
   load_lines directory (map (JsonLine \<circ> row_doc) rows) = Inr (map (frame_of_row directory) rows)"
proof (induction rows)
  case (Cons r rows)
  then obtain x y z where "lr_label r = (x, y, z)" "lr_image r = ''images/'' @ frame_name (lr_episode r) (lr_index r)"
    by (auto simp: good_row_def)
  then have "frame_of directory (row_doc r) = Inr (frame_of_row directory r)"
    using join_frame_name [of directory "lr_episode r" "lr_index r"]
    by (simp add: frame_of_def row_doc_def frame_of_row_def)
  with Cons show ?case by simp
qed simp

lemma distinct_frame_images: "distinct (map row_id rows) \<Longrightarrow> distinct (map (fr_image \<circ> frame_of_row directory) rows)"
  by (auto simp: distinct_map inj_on_def frame_of_row_def frame_name_inject row_id_def split: prod.splits)

lemma camera_doc_ok:
  assumes "camera_doc c = Inr cam"
  shows "filter (\<lambda>k. map_of cam k = None) CAMERA_KEYS = []" "wf_doc (JObj cam)"
  using assms by (auto simp: camera_doc_def rbind_eq_Inr CAMERA_KEYS_def split: option.splits)


subsection \<open>Properties\<close>

lemma validate_recorded:
  assumes doc: "build (Inr (commit_doc commit dirty)) now (JStr world) (JStr ''threevn_mm_v1'') cam label_source
        (int (card (f ` set rows))) (int (length rows)) [(''seed'', JInt seed)] = Inr doc"
    and cam: "camera_doc c = Inr cam" and wf: "wf_doc commit" "wf_doc dirty"
  shows "wf_doc doc"
    and "validate (sort_doc doc) = Inr ((if truthy commit then [] else [NoCommit])
          @ (if rows = [] then [NoFrames, NoEpisodes] else []))"
proof -
  show wfd: "wf_doc doc"
    by (rule wf_doc_build [OF doc]) (use wf camera_doc_ok [OF cam] in \<open>auto simp: commit_doc_def label_source_def\<close>)
  have ex: "set REQUIRED \<inter> fst ` set [(''seed'', JInt seed)] = {}" by (simp add: REQUIRED_def)
  show "validate (sort_doc doc) = Inr ((if truthy commit then [] else [NoCommit])
          @ (if rows = [] then [NoFrames, NoEpisodes] else []))"
    using validate_sort_doc [OF wfd] validate_build [OF doc [unfolded commit_doc_def] ex] camera_doc_ok(1) [OF cam]
    by (auto simp: label_source_def LABEL_SOURCES_def Let_def card_gt_0_iff)
qed

lemma collect_main_okD:
  assumes run: "collect_main sm rnd (Inr code) now args w = (Inr (0, Some rc), c)"
  obtains cam doc where "camera_doc c = Inr cam"
    and "build (Inr code) now (JStr (cl_world args)) (JStr ''threevn_mm_v1'') cam label_source
        (int (card (lr_episode ` set (co_rows c)))) (int (length (co_rows c))) [(''seed'', JInt (cl_seed args))] = Inr doc"
    and "rc = \<lparr>rc_lines = map (JsonLine \<circ> row_doc) (co_rows c), rc_manifest = sort_doc doc\<rparr>"
    and "list_all good_row (co_rows c)" "distinct (map row_id (co_rows c))" "at_rest c"
proof -
  obtain c0 w0 where ready: "wait_ready sm co_new w = (True, c0, w0)"
    using run by (auto simp: collect_main_def split: prod.splits bool.splits)
  obtain kept w1 where rec: "record_all sm (cl_world args) (cl_frames args) 0 (target_offsets rnd (cl_episodes args)) 0 c0 w0
      = (Inr kept, c, w1)"
    using run ready by (auto simp: collect_main_def split: prod.splits sum.splits)
  obtain cam doc where cam: "camera_doc c = Inr cam"
    and doc: "build (Inr code) now (JStr (cl_world args)) (JStr ''threevn_mm_v1'') cam label_source
        (int (card (lr_episode ` set (co_rows c)))) (int kept) [(''seed'', JInt (cl_seed args))] = Inr doc"
    and rc: "rc = \<lparr>rc_lines = map (JsonLine \<circ> row_doc) (co_rows c), rc_manifest = sort_doc doc\<rparr>"
    using run ready rec by (auto simp: collect_main_def rbind_eq_Inr)
  have "at_rest c0" using wait_ready_True [OF ready] wait_ready_new [OF ready] by (simp add: at_rest_def)
  note spec = record_all_spec [OF rec this]
  then have "kept = length (co_rows c)" "list_all good_row (co_rows c)" "distinct (map row_id (co_rows c))"
    using wait_ready_new(1) [OF ready] by auto
  with that cam doc rc spec show thesis by simp
qed

text \<open>C11: a recording can be read back and its manifest is true of it. Whatever the simulator, the camera and
  tf2 do: if the recorder exits with 0 then the label lines it wrote load, one frame per line, every frame
  names an image of its own and has a label in front of the camera; the manifest counts exactly these frames and
  episodes, and validation complains about it only if nothing was recorded or the commit is unknown. The
  robot was left stopped.\<close>

theorem recording_is_consistent:
  assumes run: "collect_main sm rnd (Inr (commit_doc commit dirty)) now args w = (Inr (0, Some rc), c)"
    and wf: "wf_doc commit" "wf_doc dirty"
  shows "\<exists>frames. load_lines directory (rc_lines rc) = Inr frames \<and> length frames = length (rc_lines rc)
     \<and> distinct (map fr_image frames)
     \<and> list_all (\<lambda>f. \<exists>x y z. fr_label f = [JNum x, JNum y, JNum z] \<and> 0 < z) frames
     \<and> jitem (rc_manifest rc) ''frames'' = Inr (JInt (int (length frames)))
     \<and> jitem (rc_manifest rc) ''episodes'' = Inr (JInt (int (card (fr_episode ` set frames))))
     \<and> validate (rc_manifest rc) = Inr ((if truthy commit then [] else [NoCommit])
          @ (if frames = [] then [NoFrames, NoEpisodes] else []))
     \<and> stopped c"
proof -
  obtain cam doc where cam: "camera_doc c = Inr cam"
    and doc: "build (Inr (commit_doc commit dirty)) now (JStr (cl_world args)) (JStr ''threevn_mm_v1'') cam label_source
        (int (card (lr_episode ` set (co_rows c)))) (int (length (co_rows c))) [(''seed'', JInt (cl_seed args))] = Inr doc"
    and rc: "rc = \<lparr>rc_lines = map (JsonLine \<circ> row_doc) (co_rows c), rc_manifest = sort_doc doc\<rparr>"
    and good: "list_all good_row (co_rows c)" "distinct (map row_id (co_rows c))" and rest: "at_rest c"
    by (rule collect_main_okD [OF run])
  define rows kept where "rows = co_rows c" and "kept = length rows"
  then have rows: "co_rows c = rows" "kept = length rows" "list_all good_row rows" "distinct (map row_id rows)"
    using good by simp_all
  let ?frames = "map (frame_of_row directory) rows"
  have load: "load_lines directory (rc_lines rc) = Inr ?frames" using load_rows [OF rows(3)] by (simp add: rc rows)
  have imgs: "distinct (map fr_image ?frames)" using distinct_frame_images [OF rows(4)] by simp
  have labs: "list_all (\<lambda>f. \<exists>x y z. fr_label f = [JNum x, JNum y, JNum z] \<and> 0 < z) ?frames"
    using rows(3) by (auto simp: list_all_iff good_row_def frame_of_row_def)
  have eps: "fr_episode ` set ?frames = (\<lambda>e. JInt (int e)) ` lr_episode ` set rows"
    by (auto simp: frame_of_row_def image_image split: prod.splits)
  have card: "card (fr_episode ` set ?frames) = card (lr_episode ` set rows)"
    unfolding eps by (rule card_image) (simp add: inj_on_def)
  note wfd = validate_recorded(1) [OF doc cam wf]
  have val: "validate (rc_manifest rc) = Inr ((if truthy commit then [] else [NoCommit])
          @ (if ?frames = [] then [NoFrames, NoEpisodes] else []))"
    using validate_recorded(2) [OF doc cam wf] rows(1) by (simp add: rc)
  have "jitem doc ''frames'' = Inr (JInt (int kept))" "jitem doc ''episodes'' = Inr (JInt (int (card (lr_episode ` set rows))))"
    using doc rows(1,2) by (auto simp: build_def)
  then have "jitem (rc_manifest rc) ''frames'' = Inr (JInt (int (length ?frames)))"
    "jitem (rc_manifest rc) ''episodes'' = Inr (JInt (int (card (fr_episode ` set ?frames))))"
    unfolding rc card by (simp_all add: jitem_sort_doc [OF wfd] sorted_res_def rows)
  with load imgs labs val rest show ?thesis
    by (intro exI [of _ ?frames]) (simp add: rc rows at_rest_def)
qed

text \<open>A simulator that shows the robot and the target at the origin and accepts every placement.\<close>

definition origin_sim :: "unit sim" where
  "origin_sim = \<lparr>sm_gz = \<lambda>call w. (Inr (case call of
        EchoTopic t \<Rightarrow> [''name: '' @ quoted (if t = DYNAMIC_TOPIC ''bench'' then ROBOT_MODEL else TARGET_MODEL)]
      | SetPose _ _ _ _ _ \<Rightarrow> [''true'']), w),
     sm_spin = \<lambda>w. ([ImageEvent \<lparr>cm_frame_id = ''cam'', cm_sec = 0, cm_nanosec = 0, cm_height = 1, cm_width = 1, cm_data = [1, 2, 3]\<rparr>,
                     InfoEvent \<lparr>cn_k = [1, 0, 0, 0, 1, 0, 0, 0, 1], cn_width = 0, cn_height = 0\<rparr>], w),
     sm_iterations = \<lambda>w. (1, w), sm_transform = \<lambda>f p w. (Inr (0, 0, 1), w),
     sm_imwrite = \<lambda>name size data w. (if data = [] then Inl OtherException else Inr True, w)\<rparr>"

lemma origin_pose: "pose_of_lines model [''name: '' @ quoted model] = Inr (Some (0, 0, 0, yaw_of 0 0))"
proof -
  have "''name: '' @ quoted model = ''name:'' @ ('' '' @ quoted model)" by simp
  then have "sublist ''name:'' (''name: '' @ quoted model)" by (metis prefixI prefix_imp_sublist)
  moreover have "sublist (quoted model) (''name: '' @ quoted model)" by (metis suffixI suffix_imp_sublist)
  ultimately show ?thesis by (simp add: pose_of_lines_def)
qed

lemma origin_robot: "robot_pose origin_sim ''bench'' w = (Inr (Some (0, 0, 0, yaw_of 0 0)), w)"
  using origin_pose [of ROBOT_MODEL] by (simp add: robot_pose_def read_pose_def origin_sim_def)

lemma origin_target: "target_pose origin_sim ''bench'' w = (Inr (Some (0, 0, 0, yaw_of 0 0)), w)"
  using origin_pose [of TARGET_MODEL]
  by (simp add: target_pose_def read_pose_def origin_sim_def STATIC_TOPIC_def DYNAMIC_TOPIC_def)

lemma origin_place: "place_target origin_sim ''bench'' x y w = (Inr True, w)"
proof -
  have "map lower_ascii ''true'' = ''true''" by (simp add: lower_ascii_def)
  then show ?thesis by (simp add: place_target_def origin_sim_def)
qed

lemma origin_spin:
  "co_spin origin_sim c w = (c\<lparr>co_image := Some \<lparr>cm_frame_id = ''cam'', cm_sec = 0, cm_nanosec = 0, cm_height = 1,
     cm_width = 1, cm_data = [1, 2, 3]\<rparr>, co_info := Some \<lparr>cn_k = [1, 0, 0, 0, 1, 0, 0, 0, 1], cn_width = 0, cn_height = 0\<rparr>\<rparr>, w)"
  by (simp add: co_spin_def origin_sim_def)

lemma origin_capture:
  assumes "co_image c = Some \<lparr>cm_frame_id = ''cam'', cm_sec = 0, cm_nanosec = 0, cm_height = 1, cm_width = 1, cm_data = [1, 2, 3]\<rparr>"
  shows "\<exists>c'. capture origin_sim ''bench'' e i c w = (Inr True, c', w)"
proof -
  have "label_now origin_sim ''bench'' ''cam'' w = (Inr (Some (0, 0, 1)), w)"
    by (simp add: label_now_def origin_robot origin_target) (simp add: origin_sim_def)
  moreover have "sm_imwrite origin_sim name size [3, 2, 1] w = (Inr True, w)" for name size by (simp add: origin_sim_def)
  ultimately show ?thesis using assms by (simp add: capture_def reshape3_def swap_channels.simps Let_def)
qed

text \<open>What the unread return value of \<open>cv2.imwrite\<close> costs: with a simulator on which no file can be written, a frame is
  kept and gets its row, and there is no image behind it.\<close>

theorem row_without_image:
  assumes "co_image c = Some \<lparr>cm_frame_id = ''cam'', cm_sec = 0, cm_nanosec = 0, cm_height = 1, cm_width = 1, cm_data = [1, 2, 3]\<rparr>"
  shows "\<exists>c'. capture (origin_sim\<lparr>sm_imwrite := \<lambda>name size data w. (Inr False, w)\<rparr>) ''bench'' episode index c w = (Inr True, c', w)
     \<and> length (co_rows c') = Suc (length (co_rows c)) \<and> co_files c' = co_files c"
proof -
  let ?sim = "origin_sim\<lparr>sm_imwrite := \<lambda>name size data w. (Inr False, w)\<rparr>"
  have "robot_pose ?sim ''bench'' w = robot_pose origin_sim ''bench'' w" "target_pose ?sim ''bench'' w = target_pose origin_sim ''bench'' w" for w
    by (simp_all add: robot_pose_def target_pose_def read_pose_def)
  then have "label_now ?sim ''bench'' ''cam'' w = (Inr (Some (0, 0, 1)), w)"
    by (simp add: label_now_def origin_robot origin_target) (simp add: origin_sim_def)
  then show ?thesis using assms by (simp add: capture_def reshape3_def swap_channels.simps Let_def)
qed

lemma origin_spin_for: "spin_for origin_sim c w = co_spin origin_sim c w"
proof -
  have "sm_iterations origin_sim w = (1, w)" by (simp add: origin_sim_def)
  then show ?thesis by (simp add: spin_for_def split: prod.splits)
qed

lemma origin_record:
  "\<exists>c' k. record_all origin_sim ''bench'' 1 0 (target_offsets rnd 1) 0 c w = (Inr 1, c', w)
     \<and> co_image c' \<noteq> None \<and> co_info c' = Some k \<and> length (cn_k k) = 9"
proof -
  obtain f l where tg: "target_offsets rnd 1 = [(f, l)]" by (cases "target_offset rnd 0") (simp add: target_offsets_def)
  obtain x y where xy: "ahead (0, 0, 0, yaw_of 0 0) f l = (x, y)" by fastforce
  obtain c1 where place: "place_target_ahead origin_sim ''bench'' f l c w = (Inr True, c1, w)"
    by (simp add: place_target_ahead_def origin_robot xy origin_place origin_spin_for origin_spin)
  obtain c2 k where spin: "spin_for origin_sim c1 w = (c2, w)"
    and img: "co_image c2 = Some \<lparr>cm_frame_id = ''cam'', cm_sec = 0, cm_nanosec = 0, cm_height = 1, cm_width = 1, cm_data = [1, 2, 3]\<rparr>"
    and info: "co_info c2 = Some k" "length (cn_k k) = 9"
    by (simp add: origin_spin_for origin_spin)
  obtain c3 where cap: "capture origin_sim ''bench'' 0 0 c2 w = (Inr True, c3, w)" using origin_capture [OF img] by blast
  have "record_all origin_sim ''bench'' 1 0 (target_offsets rnd 1) 0 c w = (Inr 1, c3, w)"
    unfolding tg using place spin cap by (simp add: record_episode_def)
  then show ?thesis using capture_cases(2,3) [OF cap] img info by auto
qed

lemma camera_doc_total:
  assumes "co_image c \<noteq> None" "co_info c = Some k" "length (cn_k k) = 9"
  obtains cam where "camera_doc c = Inr cam"
  using assms by (auto simp: camera_doc_def py_index_def)

lemma origin_run:
  obtains rc c where "collect_main origin_sim (\<lambda>k. 0) (Inr (commit_doc (JStr ''5ac0'') (JBool False))) ''2026''
       \<lparr>cl_episodes = 1, cl_frames = 1, cl_world = ''bench'', cl_seed = 0\<rparr> () = (Inr (0, Some rc), c)"
    and "length (rc_lines rc) = 1"
proof -
  let ?args = "\<lparr>cl_episodes = 1, cl_frames = 1, cl_world = ''bench'', cl_seed = 0\<rparr>"
  obtain c where ready: "wait_ready origin_sim co_new () = (True, c, ())" and c: "co_rows c = []" "at_rest c"
  proof -
    have "sm_iterations origin_sim () = (1, ())" by (simp add: origin_sim_def)
    with that show thesis by (simp add: wait_ready_def origin_spin co_new_def stopped_def at_rest_def)
  qed
  obtain c' k where rec: "record_all origin_sim ''bench'' 1 0 (target_offsets (\<lambda>k. 0) 1) 0 c () = (Inr 1, c', ())"
    and cam': "co_image c' \<noteq> None" "co_info c' = Some k" "length (cn_k k) = 9"
    using origin_record by blast
  have len: "length (co_rows c') = 1" using record_all_spec [OF rec c(2)] c(1) by auto
  obtain cam where cam: "camera_doc c' = Inr cam" by (rule camera_doc_total [OF cam'])
  obtain doc where doc: "build (Inr (commit_doc (JStr ''5ac0'') (JBool False))) ''2026'' (JStr ''bench'') (JStr ''threevn_mm_v1'')
      cam label_source (int (card (lr_episode ` set (co_rows c')))) (int 1) [(''seed'', JInt 0)] = Inr doc"
    by (simp add: build_def)
  have "\<exists>ps. validate doc = Inr ps"
    using validate_build [OF doc [unfolded commit_doc_def]] by (simp add: REQUIRED_def)
  then have run: "collect_main origin_sim (\<lambda>k. 0) (Inr (commit_doc (JStr ''5ac0'') (JBool False))) ''2026'' ?args ()
      = (Inr (0, Some \<lparr>rc_lines = map (JsonLine \<circ> row_doc) (co_rows c'), rc_manifest = sort_doc doc\<rparr>), c')"
    using rec cam doc by (auto simp: collect_main_def ready)
  show thesis by (rule that [OF run]) (use len in simp)
qed

theorem recording_is_consistent_witness:
  "\<exists>rc c. collect_main origin_sim (\<lambda>k. 0) (Inr (commit_doc (JStr ''5ac0'') (JBool False))) ''2026''
       \<lparr>cl_episodes = 1, cl_frames = 1, cl_world = ''bench'', cl_seed = 0\<rparr> () = (Inr (0, Some rc), c)
     \<and> jitem (rc_manifest rc) ''frames'' = Inr (JInt 1) \<and> validate (rc_manifest rc) = Inr []"
proof -
  obtain rc c where run: "collect_main origin_sim (\<lambda>k. 0) (Inr (commit_doc (JStr ''5ac0'') (JBool False))) ''2026''
       \<lparr>cl_episodes = 1, cl_frames = 1, cl_world = ''bench'', cl_seed = 0\<rparr> () = (Inr (0, Some rc), c)"
    and len: "length (rc_lines rc) = 1" by (rule origin_run)
  have "wf_doc (JStr ''5ac0'')" "wf_doc (JBool False)" by simp_all
  from recording_is_consistent [OF run this, of "[]"] len run show ?thesis by fastforce
qed

text \<open>A target placed ahead of the robot is labelled where it was placed. For any pose of the robot, the
  point in front of it at the requested offsets, transformed back into its base frame the way labels are,
  is the requested offset; and the heading both use is the true one for every heading short of a half
  turn. At exactly a half turn the quaternion's scalar part is 0, which the reader replaces by 1: the
  heading is then wrong.\<close>

theorem placed_target_is_labelled:
  "base_point r (fst (ahead r forward lateral), snd (ahead r forward lateral), z, yaw) = (forward, lateral, z)
   \<and> (\<forall>t. - pi < t \<and> t < pi \<longrightarrow> yaw_of (sin (t / 2)) (cos (t / 2)) = t)
   \<and> yaw_of (sin (pi / 2)) (cos (pi / 2)) \<noteq> pi"
proof -
  have "yaw_of 1 0 \<noteq> pi"
  proof
    assume "yaw_of 1 0 = pi"
    then have "sin (Arg (Complex (- 1) 2)) = 0" by (simp add: yaw_of_def atan2_def)
    moreover have "Complex (- 1) 2 \<noteq> 0" by (simp add: complex_eq_iff)
    ultimately show False by (simp add: sin_Arg)
  qed
  then show ?thesis
    using base_point_ahead [of r forward lateral] yaw_of_half_angle by (auto simp: prod_eq_iff)
qed

theorem placed_target_is_labelled_witness: "yaw_of (sin (pi / 6)) (cos (pi / 6)) = pi / 3"
proof -
  have "- pi < pi / 3" "pi / 3 < pi" using pi_gt_zero by linarith+
  then show ?thesis using placed_target_is_labelled [of "(0, 0, 0, 0)" 0 0 0 0] by fastforce
qed

text \<open>Where targets are put. For every seed, each placement lies between 0.26995 and 0.63005 metres ahead
  and within 0.14005 metres to either side; the documented visible range, 0.28 to 0.62, is exceeded by the
  jitter: the first placement is nearer than 0.28 whenever its draw is below 0.4.\<close>

theorem target_offsets_bounds:
  assumes "\<And>k. 0 \<le> rnd k \<and> rnd k < 1"
  shows "list_all (\<lambda>(f, l). 26995 / 100000 \<le> f \<and> f \<le> 63005 / 100000 \<and> \<bar>l\<bar> \<le> 14005 / 100000) (target_offsets rnd n)
     \<and> (0 < n \<and> rnd 0 < 4 / 10 \<longrightarrow> fst (hd (target_offsets rnd n)) < 28 / 100)"
proof -
  have jit: "- (1 / 100) \<le> uniform_jitter (rnd k)" "uniform_jitter (rnd k) \<le> 1 / 100" for k
    using assms [of k] by (auto simp: uniform_jitter_def)
  have r4: "\<bar>py_round_to 4 x - x\<bar> \<le> 1 / 20000" for x using py_round_to_error [of 4 x] by simp
  have one: "26995 / 100000 \<le> fst (target_offset rnd i) \<and> fst (target_offset rnd i) \<le> 63005 / 100000
      \<and> \<bar>snd (target_offset rnd i)\<bar> \<le> 14005 / 100000" for i
  proof -
    let ?a = "py_mod (real i * (6180339887 / 10 ^ 10)) 1" and ?b = "py_mod (real i * (3819660113 / 10 ^ 10)) 1"
    have "0 \<le> ?a" "?a < 1" "0 \<le> ?b" "?b < 1" by (intro py_mod_bounds; simp)+
    then show ?thesis
      using jit [of "2 * i"] jit [of "2 * i + 1"] r4 [of "28 / 100 + 34 / 100 * ?a + uniform_jitter (rnd (2 * i))"]
        r4 [of "- (13 / 100) + 26 / 100 * ?b + uniform_jitter (rnd (2 * i + 1))"]
      unfolding target_offset_def Let_def fst_conv snd_conv by linarith
  qed
  have "fst (target_offset rnd 0) < 28 / 100" if "rnd 0 < 4 / 10"
  proof -
    have "fst (target_offset rnd 0) = py_round_to 4 (27 / 100 + rnd 0 / 50)"
      by (simp add: target_offset_def py_mod_def uniform_jitter_def)
    then show ?thesis using that r4 [of "27 / 100 + rnd 0 / 50"] by linarith
  qed
  moreover have "hd (target_offsets rnd n) = target_offset rnd 0" if "0 < n"
    using that by (simp add: target_offsets_def hd_map)
  ultimately show ?thesis using one by (auto simp: target_offsets_def list_all_iff split_beta)
qed

theorem target_offsets_bounds_witness: "fst (hd (target_offsets (\<lambda>k. 0) 3)) < 28 / 100"
  using target_offsets_bounds [of "\<lambda>k. 0" 3] by simp

end
