(* ===== verification/Describe.thy ===== *)
theory Describe
  imports Collect
begin

text \<open>
  \<open>describe.py\<close> prints what is in a dataset and what the two ways of splitting it cost. Printing is incremental: what
  is printed before an exception stays printed, so the text is a list of chunks, each of which is printed or
  raises. A line carries the values it shows; how they are rounded is left out, except that a value that has
  no \<open>.1f\<close> format raises. The draws of the two splits' generators and the sizes of the image files are
  arguments.
\<close>

subsection \<open>Output\<close>

datatype describe_line =
    DatasetLine path
  | RecordedLine json
  | CodeLine json bool
  | WorldLine json
  | RobotLine json
  | LabelsLine json json
  | CameraLine json json real json
  | ManifestLine bool
  | ProblemLine problem
  | FramesLine nat nat
  | RangeLine "real list"
  | DiskLine real nat real
  | DistinctLine nat nat "(nat \<times> nat) option"
  | ImageLine string image_leakage
  | LabelLine string leakage
  | RefusedLine string

fun print_all :: "'l list res list \<Rightarrow> unit res \<times> 'l list" where
  "print_all [] = (Inr (), [])"
| "print_all (Inl e # chunks) = (Inl e, [])"
| "print_all (Inr ls # chunks) = (case print_all chunks of (r, out) \<Rightarrow> (r, ls @ out))"

text \<open>\<open>x:.1f\<close> of a document's value.\<close>

definition format_float :: "json \<Rightarrow> real res" where
  "format_float j = (case j of JStr _ \<Rightarrow> Inl ValueError | _ \<Rightarrow> jnum j)"

text \<open>\<open>commit[:12] if commit else "unknown"\<close>; a slice is a missing key of a dictionary.\<close>

definition short_commit :: "json \<Rightarrow> json res" where
  "short_commit commit =
     (if \<not> truthy commit then Inr (JStr ''unknown'')
      else case commit of
        JStr s \<Rightarrow> Inr (JStr (take 12 s))
      | JArr xs \<Rightarrow> Inr (JArr (take 12 xs))
      | JObj _ \<Rightarrow> Inl (KeyError [])
      | _ \<Rightarrow> Inl TypeError)"

subsection \<open>The parts of the text\<close>

definition head_chunks :: "path \<Rightarrow> json \<Rightarrow> problem list \<Rightarrow> describe_line list res list" where
  "head_chunks directory doc problems =
     [Inr [DatasetLine directory],
      rbind (jitem doc ''created'') (\<lambda>v. Inr [RecordedLine v]),
      rbind (rbind (jitem doc ''code'') (\<lambda>c. jget c ''commit'' JNull)) (\<lambda>commit.
      rbind (rbind (jitem doc ''code'') (\<lambda>c. jget c ''dirty'' JNull)) (\<lambda>dirty.
      rbind (short_commit commit) (\<lambda>s. Inr [CodeLine s (truthy dirty)]))),
      rbind (jitem doc ''world'') (\<lambda>v. Inr [WorldLine v]),
      rbind (jitem doc ''robot'') (\<lambda>v. Inr [RobotLine v]),
      rbind (rbind (jitem doc ''labels'') (\<lambda>l. jitem l ''source'')) (\<lambda>s.
      rbind (rbind (jitem doc ''labels'') (\<lambda>l. jitem l ''quantity'')) (\<lambda>q. Inr [LabelsLine s q])),
      rbind (jitem doc ''camera'') (\<lambda>camera.
      rbind (jitem camera ''width'') (\<lambda>w.
      rbind (jitem camera ''height'') (\<lambda>h.
      rbind (rbind (jitem camera ''fx'') format_float) (\<lambda>fx.
      rbind (jitem camera ''frame_id'') (\<lambda>f. Inr [CameraLine w h fx f]))))),
      Inr (ManifestLine (problems = []) # map ProblemLine problems)]"

definition frame_chunks :: "dataset_summary \<Rightarrow> describe_line list res list" where
  "frame_chunks s =
     [Inr [FramesLine (sm_frames s) (sm_episodes s)],
      rbind (py_index (sm_label_min s) 0) (\<lambda>x0. rbind (py_index (sm_label_max s) 0) (\<lambda>x1.
      rbind (py_index (sm_label_min s) 1) (\<lambda>y0. rbind (py_index (sm_label_max s) 1) (\<lambda>y1.
      rbind (py_index (sm_label_min s) 2) (\<lambda>z0. rbind (py_index (sm_label_max s) 2) (\<lambda>z1.
        Inr [RangeLine [x0, x1, y0, y1, z0, z1]]))))))]"

definition disk_chunk :: "nat list \<Rightarrow> describe_line list res" where
  "disk_chunk sizes =
     (let size = real (sum_list sizes) in
      Inr [DiskLine (size / 10 ^ 6) (length sizes) (size / real (max (length sizes) 1) / 10 ^ 3)])"

definition distinct_chunk :: "(string \<Rightarrow> string) \<Rightarrow> (path \<rightharpoonup> string) \<Rightarrow> frame list \<Rightarrow> describe_line list res" where
  "distinct_chunk sha256 fs frames =
     rbind (duplicate_report sha256 fs frames) (\<lambda>d.
       Inr [DistinctLine (du_unique d) (du_files d)
              (if du_unique d < du_files d then Some (du_files d - du_unique d, du_largest_group d) else None)])"

text \<open>One line of the comparison: \<open>except ValueError\<close> prints the refusal instead.\<close>

definition report_chunk :: "(string \<Rightarrow> 'r \<Rightarrow> describe_line) \<Rightarrow> (split \<Rightarrow> 'r res) \<Rightarrow> string \<times> split res \<Rightarrow> describe_line list res" where
  "report_chunk line report = (\<lambda>(name, sp).
     case rbind sp report of
       Inr r \<Rightarrow> Inr [line name r]
     | Inl e \<Rightarrow> if isinstance e CValueError then Inr [RefusedLine name] else Inl e)"

definition splits :: "(nat \<Rightarrow> nat) \<Rightarrow> (nat \<Rightarrow> nat) \<Rightarrow> frame list \<Rightarrow> (string \<times> split res) list" where
  "splits draw_e draw_f frames =
     [(''by episode (correct)'', split_by_episode draw_e DEFAULT_RATIOS frames),
      (''by frame (leaks)'', Inr (split_by_frame draw_f DEFAULT_RATIOS frames))]"

subsection \<open>The run\<close>

record dataset_files =
  df_docs :: "path \<rightharpoonup> json"
  df_labels :: "path \<rightharpoonup> label_line list"
  df_bytes :: "path \<rightharpoonup> string"
  df_png_sizes :: "nat list"

definition describe_main ::
  "(string \<Rightarrow> string) \<Rightarrow> (frame \<Rightarrow> real list res) \<Rightarrow> (nat \<Rightarrow> nat) \<Rightarrow> (nat \<Rightarrow> nat) \<Rightarrow> dataset_files \<Rightarrow> path
   \<Rightarrow> int res \<times> describe_line list" where
  "describe_main sha256 thumb draw_e draw_f w directory =
     (case rbind (read_manifest directory (df_docs w)) (\<lambda>doc.
           rbind (validate doc) (\<lambda>problems.
           rbind (load (df_labels w) directory) (\<lambda>frames.
           rbind (summarise frames) (\<lambda>summary. Inr (doc, problems, frames, summary))))) of
        Inl e \<Rightarrow> (Inl e, [])
      | Inr (doc, problems, frames, summary) \<Rightarrow>
          (case print_all
                  (head_chunks directory doc problems @ frame_chunks summary @ [disk_chunk (df_png_sizes w)]
                   @ [distinct_chunk sha256 (df_bytes w) frames]
                   @ map (report_chunk ImageLine (image_leakage_report thumb)) (splits draw_e draw_f frames)
                   @ map (report_chunk LabelLine leakage_report) (splits draw_e draw_f frames)) of
             (Inl e, out) \<Rightarrow> (Inl e, out)
           | (Inr _, out) \<Rightarrow> (Inr (if problems \<noteq> [] then 1 else 0), out)))"

subsection \<open>Lemmas: printing\<close>

lemma print_all_ok: "fst (print_all cs) = Inr () \<longleftrightarrow> list_all is_ok cs"
proof (induction cs)
  case (Cons c cs)
  then show ?case by (cases c) (auto split: prod.splits)
qed simp

lemma print_all_text: "list_all is_ok cs \<Longrightarrow> print_all cs = (Inr (), concat (map projr cs))"
  by (induction cs) (auto split: prod.splits)


subsection \<open>Lemmas: a dataset of plain frames\<close>

text \<open>What the recorder's lines load as: an integer episode and three numbers.\<close>

definition plain_frame :: "frame \<Rightarrow> bool" where
  "plain_frame f \<longleftrightarrow> (\<exists>e. fr_episode f = JInt e) \<and> (\<exists>x y z. fr_label f = [JNum x, JNum y, JNum z])"

lemma plain_label: "plain_frame f \<Longrightarrow> \<exists>r. rmap py_float (fr_label f) = Inr r \<and> length r = 3"
  by (auto simp: plain_frame_def)

lemma plain_key: "plain_frame f \<Longrightarrow> \<exists>e. py_key (fr_episode f) = Inr (JNum e)"
  by (auto simp: plain_frame_def py_key_def)

lemma plain_labels:
  assumes "\<forall>f \<in> set frames. plain_frame f"
  obtains rows where "label_matrix frames = Inr rows" "\<forall>r \<in> set rows. length r = 3" "length rows = length frames"
proof -
  obtain row where row: "rmap py_float (fr_label f) = Inr (row f) \<and> length (row f) = 3" if "f \<in> set frames" for f
    using assms plain_label by metis
  then have r: "rmap (\<lambda>f. rmap py_float (fr_label f)) frames = Inr (map row frames)" by (intro rmap_ok) blast
  have "label_matrix frames = Inr (map row frames)"
    unfolding label_matrix_def r using row by (cases frames) (auto simp: list_all_iff)
  then show thesis using that row by auto
qed

lemma plain_keys:
  assumes "\<forall>f \<in> set frames. plain_frame f"
  obtains es where "rmap (\<lambda>f. py_key (fr_episode f)) frames = Inr (map JNum es)"
proof -
  obtain e where "py_key (fr_episode f) = Inr (JNum (e f))" if "f \<in> set frames" for f
    using assms plain_key by metis
  then have "rmap (\<lambda>f. py_key (fr_episode f)) frames = Inr (map (JNum \<circ> e) frames)" by (intro rmap_ok) simp
  then show thesis using that [of "map e frames"] by simp
qed

lemma py_sorted_numbers: "\<forall>k \<in> set ks. \<exists>x. k = JNum x \<Longrightarrow> is_ok (py_sorted ks)"
  by (fastforce simp: py_sorted_def is_jnum_def list_all_iff)

lemma plain_episodes:
  assumes "\<forall>f \<in> set frames. plain_frame f"
  obtains ids where "episodes frames = Inr ids"
proof -
  obtain es where es: "rmap (\<lambda>f. py_key (fr_episode f)) frames = Inr (map JNum es)" by (rule plain_keys [OF assms])
  have "is_ok (py_sorted (remdups (map JNum es)))" by (rule py_sorted_numbers) auto
  then show thesis using that es by (auto simp: episodes_def)
qed

lemma foldl_update_keys: "fst ` set (foldl (\<lambda>d x. AList.update (k x) (g d x) d) d0 xs) = fst ` set d0 \<union> k ` set xs"
  by (induction xs arbitrary: d0) (auto simp: fst_set_update)

lemma sorted_items_numbers:
  assumes "fst ` set d \<subseteq> range JNum"
  shows "is_ok (sorted_items d)"
proof -
  have "\<forall>k \<in> set (map fst d). \<exists>x. k = JNum x" using assms by auto
  from py_sorted_numbers [OF this] show ?thesis by (auto simp: sorted_items_def)
qed

lemma counter_of_keys: "fst ` set (counter_of xs) = set xs"
  using foldl_update_keys [of "\<lambda>x. x" "\<lambda>d x. case map_of d x of None \<Rightarrow> 1 | Some n \<Rightarrow> n + 1" "[]" xs]
  by (simp add: counter_of_def)

lemma per_episode_keys: "fst ` set (per_episode_sets digests keys frames) \<subseteq> set keys"
proof -
  let ?g = "\<lambda>d kf. remdups ((case map_of d (fst kf) of None \<Rightarrow> [] | Some ss \<Rightarrow> ss)
      @ (case map_of digests (path_name (fr_image (snd kf))) of None \<Rightarrow> [] | Some s \<Rightarrow> [s]))"
  have "per_episode_sets digests keys frames = foldl (\<lambda>d x. AList.update (fst x) (?g d x) d) [] (zip keys frames)"
    by (simp add: per_episode_sets_def Let_def case_prod_unfold)
  moreover have "fst ` set (zip keys frames) \<subseteq> set keys" by (auto dest: set_zip_leftD)
  ultimately show ?thesis using foldl_update_keys [of fst ?g "[]" "zip keys frames"] by simp
qed

lemma plain_summary:
  assumes "\<forall>f \<in> set frames. plain_frame f" "frames \<noteq> []"
  obtains s where "summarise frames = Inr s" "sm_frames s = length frames"
    "sm_episodes s = card (key_of ` set frames)" "length (sm_label_min s) = 3" "length (sm_label_max s) = 3"
proof -
  obtain rows where rows: "label_matrix frames = Inr rows" "\<forall>r \<in> set rows. length r = 3" "length rows = length frames"
    by (rule plain_labels [OF assms(1)])
  obtain es where es: "rmap (\<lambda>f. py_key (fr_episode f)) frames = Inr (map JNum es)" by (rule plain_keys [OF assms(1)])
  have "is_ok (sorted_items (counter_of (map JNum es)))"
    by (rule sorted_items_numbers) (auto simp: counter_of_keys)
  then obtain items where items: "sorted_items (counter_of (map JNum es)) = Inr items" by blast
  have "rows \<noteq> []" using rows(3) assms(2) by auto
  then have cols: "length (columns rows) = 3" using rows(2) by (cases rows) (simp_all add: columns_def ncols_def)
  have "list_all2 (\<lambda>f k. py_key (fr_episode f) = Inr k) frames (map JNum es)"
    using es by (simp add: rmap_eq_Inr_iff)
  then have keys: "map JNum es = map key_of frames"
    by (induction rule: list_all2_induct) (auto simp: key_of_def)
  have "distinct (map fst (counter_of (map JNum es)))"
    unfolding counter_of_def
    by (rule rev_induct [where P = "\<lambda>xs. distinct (map fst (foldl (\<lambda>d x. AList.update x
        (case map_of d x of None \<Rightarrow> 1 | Some n \<Rightarrow> n + 1) d) [] xs))"]) (simp_all add: distinct_keys_update)
  then have "length (counter_of (map JNum es)) = card (set (map JNum es))"
    by (metis counter_of_keys distinct_card length_map list.set_map)
  then have n: "length (counter_of (map JNum es)) = card (key_of ` set frames)" unfolding keys by simp
  obtain s where s: "summarise frames = Inr s" "sm_frames s = length frames"
    "sm_episodes s = length (counter_of (map JNum es))"
    "sm_label_min s = map min_list1 (columns rows)" "sm_label_max s = map max_list1 (columns rows)"
    using \<open>rows \<noteq> []\<close> by (simp add: summarise_def rows(1) es items)
  show thesis by (rule that [OF s(1,2)]) (use s(3-5) n cols in simp_all)
qed

lemma plain_distinct:
  assumes "\<forall>f \<in> set frames. plain_frame f" "\<forall>f \<in> set frames. bytes (fr_image f) \<noteq> None"
  shows "is_ok (distinct_chunk sha256 bytes frames)"
proof -
  have "rmap (digest_of sha256 bytes) frames
      = Inr (map (\<lambda>f. (path_name (fr_image f), sha256 (the (bytes (fr_image f))))) frames)"
    using assms(2) by (intro rmap_ok) (auto simp: digest_of_def read_bytes_def)
  then obtain pairs where pairs: "rmap (digest_of sha256 bytes) frames = Inr pairs" by blast
  obtain es where es: "rmap (\<lambda>f. py_key (fr_episode f)) frames = Inr (map JNum es)" by (rule plain_keys [OF assms(1)])
  have "is_ok (sorted_items (per_episode_sets (dict_of pairs) (map JNum es) frames))"
    by (rule sorted_items_numbers) (use per_episode_keys [of "dict_of pairs" "map JNum es" frames] in auto)
  then show ?thesis by (auto simp: distinct_chunk_def duplicate_report_def pairs es Let_def)
qed

text \<open>A report on parts of a plain dataset is made or refused, with an empty part, by \<open>ValueError\<close>.\<close>

lemma plain_leakage:
  assumes "\<forall>f \<in> set (sp_train sp) \<union> set (sp_test sp). plain_frame f"
  shows "if sp_train sp = [] \<or> sp_test sp = [] then leakage_report sp = Inl ValueError else is_ok (leakage_report sp)"
proof -
  obtain tr where tr: "label_matrix (sp_train sp) = Inr tr" "\<forall>r \<in> set tr. length r = 3" "length tr = length (sp_train sp)"
    by (rule plain_labels [of "sp_train sp"]) (use assms in auto)
  obtain te where te: "label_matrix (sp_test sp) = Inr te" "\<forall>r \<in> set te. length r = 3" "length te = length (sp_test sp)"
    by (rule plain_labels [of "sp_test sp"]) (use assms in auto)
  have "is_ok (nearest_rows tr te)" using tr(2) te(2) by (subst nearest_rows_eq) auto
  moreover have "tr = [] \<longleftrightarrow> sp_train sp = []" "te = [] \<longleftrightarrow> sp_test sp = []"
    using tr(3) te(3) by (metis length_0_conv)+
  ultimately show ?thesis by (auto simp: leakage_report_def tr(1) te(1) Let_def)
qed

lemma plain_image_leakage:
  assumes "\<forall>f \<in> set (sp_train sp) \<union> set (sp_test sp). is_ok (thumb f)"
  shows "if sp_train sp = [] \<or> sp_test sp = [] then image_leakage_report thumb sp = Inl ValueError
     else is_ok (image_leakage_report thumb sp)"
proof -
  have "rmap thumb fs = Inr (map (\<lambda>f. projr (thumb f)) fs)" if "\<forall>f \<in> set fs. is_ok (thumb f)" for fs
    using that by (intro rmap_ok) auto
  then have "thumbnails thumb fs = (if fs = [] then Inl ValueError else Inr (map (\<lambda>f. projr (thumb f)) fs))"
    if "\<forall>f \<in> set fs. is_ok (thumb f)" for fs
    using that by (auto simp: thumbnails_def)
  then show ?thesis using assms by (auto simp: image_leakage_report_def Let_def)
qed


subsection \<open>Lemmas: the text of a recorded dataset\<close>

definition refused :: "describe_line list res \<Rightarrow> string \<Rightarrow> bool" where
  "refused chunk n \<longleftrightarrow> (\<exists>ls. chunk = Inr ls \<and> RefusedLine n \<in> set ls)"

lemma refused_simps [simp]:
  "refused (Inr ls) n \<longleftrightarrow> RefusedLine n \<in> set ls"
  "refused (rbind m f) n \<longleftrightarrow> (\<exists>x. m = Inr x \<and> refused (f x) n)"
  by (cases m; auto simp: refused_def)+

lemma report_chunk_cases:
  assumes "rbind sp report = Inl ValueError \<or> is_ok (rbind sp report)" and "\<And>r. line name r \<noteq> RefusedLine n"
  shows "is_ok (report_chunk line report (name, sp))"
    and "refused (report_chunk line report (name, sp)) n \<longleftrightarrow> n = name \<and> rbind sp report = Inl ValueError"
  using assms assms(2) [symmetric] by (auto simp: report_chunk_def)

lemma head_chunks_recorded:
  assumes doc: "build (Inr (commit_doc (JStr h) dirty)) now world robot cam label_source e f [(''seed'', seed)] = Inr doc"
    and cam: "camera_doc c = Inr cam" and wf: "wf_doc doc" and h: "h \<noteq> []"
  shows "list_all is_ok (head_chunks directory (sort_doc doc) problems)"
proof -
  have code: "jitem doc ''code'' = Inr (commit_doc (JStr h) dirty)" and labels: "jitem doc ''labels'' = Inr (JObj label_source)"
    and camera: "jitem doc ''camera'' = Inr (JObj cam)"
    and plain: "\<exists>v. jitem doc ''created'' = Inr v" "\<exists>v. jitem doc ''world'' = Inr v" "\<exists>v. jitem doc ''robot'' = Inr v"
    using doc by (auto simp: build_def)
  note wfs = wf_doc_jitem [OF wf code] wf_doc_jitem [OF wf labels] wf_doc_jitem [OF wf camera]
  have commit: "jget (sort_doc (commit_doc (JStr h) dirty)) ''commit'' JNull = Inr (JStr h)"
    "\<exists>v. jget (sort_doc (commit_doc (JStr h) dirty)) ''dirty'' JNull = Inr v"
    using wfs(1) by (simp_all add: jget_sort_doc commit_doc_def sorted_res_def)
  have source: "\<exists>v. jitem (sort_doc (JObj label_source)) ''source'' = Inr v"
    "\<exists>v. jitem (sort_doc (JObj label_source)) ''quantity'' = Inr v"
    unfolding jitem_sort_doc [OF wfs(2)] by (simp_all add: label_source_def sorted_res_def)
  have fx: "\<exists>x. jitem (sort_doc (JObj cam)) ''fx'' = Inr (JNum x)"
    and rest: "\<exists>v. jitem (sort_doc (JObj cam)) ''width'' = Inr v" "\<exists>v. jitem (sort_doc (JObj cam)) ''height'' = Inr v"
      "\<exists>v. jitem (sort_doc (JObj cam)) ''frame_id'' = Inr v"
    unfolding jitem_sort_doc [OF wfs(3)] using cam
    by (auto simp: camera_doc_def rbind_eq_Inr sorted_res_def split: option.splits)
  show ?thesis
    using plain commit source fx rest h
    by (auto simp: head_chunks_def jitem_sort_doc [OF wf] code labels camera sorted_res_def short_commit_def format_float_def
        simp del: sort_doc.simps)
qed

lemma head_not_refused: "ch \<in> set (head_chunks directory doc problems) \<Longrightarrow> \<not> refused ch n"
  by (auto simp: head_chunks_def)

lemma frame_not_refused: "ch \<in> set (frame_chunks s) \<Longrightarrow> \<not> refused ch n"
  by (auto simp: frame_chunks_def)

lemma distinct_not_refused: "\<not> refused (distinct_chunk sha256 bytes frames) n"
  by (auto simp: distinct_chunk_def)

lemma frame_chunks_ok: "length (sm_label_min s) = 3 \<Longrightarrow> length (sm_label_max s) = 3 \<Longrightarrow> list_all is_ok (frame_chunks s)"
  by (simp add: frame_chunks_def py_index_def)

lemma episode_split_cases:
  assumes plain: "\<forall>f \<in> set frames. plain_frame f"
  shows "if card (key_of ` set frames) < 3 then split_by_episode draw ratios frames = Inl ValueError
     else \<exists>sp. split_by_episode draw ratios frames = Inr sp \<and> sp_train sp \<noteq> [] \<and> sp_test sp \<noteq> []
       \<and> set (sp_train sp) \<union> set (sp_test sp) \<subseteq> set frames"
proof -
  obtain ids where ids: "episodes frames = Inr ids" by (rule plain_episodes [OF plain])
  have n: "length ids = card (key_of ` set frames)"
    using episodes_props(1,2) [OF ids] by (metis distinct_card)
  show ?thesis
  proof (cases "length ids < 3")
    case True
    then show ?thesis using split_by_episode_few [OF ids] n by simp
  next
    case False
    then have "3 \<le> length ids" by simp
    then obtain t where sp: "split_by_episode draw ratios frames = Inr
        \<lparr>sp_train = filter (\<lambda>f. t (key_of f) = Train) frames, sp_val = filter (\<lambda>f. t (key_of f) = Val) frames,
         sp_test = filter (\<lambda>f. t (key_of f) = Test) frames\<rparr>" and all: "\<And>p. \<exists>f \<in> set frames. t (key_of f) = p"
      by (rule split_by_episode_assignment [OF ids, of draw ratios]) (rule that)
    then show ?thesis using all [of Train] all [of Test] False n by (auto simp: filter_empty_conv)
  qed
qed


lemma plain_reports:
  assumes "set (sp_train sp) \<union> set (sp_test sp) \<subseteq> set frames"
    and "\<forall>f \<in> set frames. plain_frame f" "\<forall>f \<in> set frames. is_ok (thumb f)"
  shows "leakage_report sp = Inl ValueError \<or> is_ok (leakage_report sp)"
    "image_leakage_report thumb sp = Inl ValueError \<or> is_ok (image_leakage_report thumb sp)"
    "sp_train sp \<noteq> [] \<Longrightarrow> sp_test sp \<noteq> [] \<Longrightarrow> is_ok (leakage_report sp) \<and> is_ok (image_leakage_report thumb sp)"
proof -
  have "\<forall>f \<in> set (sp_train sp) \<union> set (sp_test sp). plain_frame f" "\<forall>f \<in> set (sp_train sp) \<union> set (sp_test sp). is_ok (thumb f)"
    using assms by blast+
  note r = plain_leakage [OF this(1)] plain_image_leakage [OF this(2)]
  show "leakage_report sp = Inl ValueError \<or> is_ok (leakage_report sp)"
    "image_leakage_report thumb sp = Inl ValueError \<or> is_ok (image_leakage_report thumb sp)"
    using r by (auto split: if_splits)
  show "is_ok (leakage_report sp) \<and> is_ok (image_leakage_report thumb sp)" if "sp_train sp \<noteq> []" "sp_test sp \<noteq> []"
    using r that by simp
qed

lemma describe_recorded:
  fixes draw_e draw_f :: "nat \<Rightarrow> nat" and sha256 :: "string \<Rightarrow> string" and sizes :: "nat list"
  assumes plain: "\<forall>f \<in> set frames. plain_frame f" "frames \<noteq> []"
    and bytes: "\<forall>f \<in> set frames. bytes (fr_image f) \<noteq> None" and thumb: "\<forall>f \<in> set frames. is_ok (thumb f)"
    and head: "list_all is_ok (head_chunks dir doc problems)" and s: "summarise frames = Inr s"
  defines "chunks \<equiv> head_chunks dir doc problems @ frame_chunks s @ [disk_chunk sizes] @ [distinct_chunk sha256 bytes frames]
     @ map (report_chunk ImageLine (image_leakage_report thumb)) (splits draw_e draw_f frames)
     @ map (report_chunk LabelLine leakage_report) (splits draw_e draw_f frames)"
  shows "list_all is_ok chunks"
    and "(\<exists>ch \<in> set chunks. refused ch ''by episode (correct)'') \<longleftrightarrow> card (key_of ` set frames) < 3"
proof -
  let ?e = "split_by_episode draw_e DEFAULT_RATIOS frames"
  let ?f = "split_by_frame draw_f DEFAULT_RATIOS frames"
  have f: "set (sp_train ?f) \<union> set (sp_test ?f) \<subseteq> set frames"
    using by_frame.split_parts(1) [of draw_f frames ?f] by blast
  note leak = plain_reports [OF _ plain(1) thumb]
  define reports where "reports = [report_chunk ImageLine (image_leakage_report thumb) (''by episode (correct)'', ?e),
      report_chunk ImageLine (image_leakage_report thumb) (''by frame (leaks)'', Inr ?f),
      report_chunk LabelLine leakage_report (''by episode (correct)'', ?e),
      report_chunk LabelLine leakage_report (''by frame (leaks)'', Inr ?f)]"
  have chunks: "chunks = (head_chunks dir doc problems @ frame_chunks s @ [disk_chunk sizes, distinct_chunk sha256 bytes frames]) @ reports"
    by (simp add: chunks_def reports_def splits_def)
  note by_ep = episode_split_cases [OF plain(1), of draw_e DEFAULT_RATIOS]
  have ep: "(rbind ?e leakage_report = Inl ValueError \<or> is_ok (rbind ?e leakage_report))
    \<and> (rbind ?e (image_leakage_report thumb) = Inl ValueError \<or> is_ok (rbind ?e (image_leakage_report thumb)))
    \<and> (rbind ?e leakage_report = Inl ValueError \<longleftrightarrow> card (key_of ` set frames) < 3)
    \<and> (rbind ?e (image_leakage_report thumb) = Inl ValueError \<longleftrightarrow> card (key_of ` set frames) < 3)"
  proof (cases "card (key_of ` set frames) < 3")
    case True
    then show ?thesis using by_ep by simp
  next
    case False
    then obtain sp where sp: "?e = Inr sp" "sp_train sp \<noteq> []" "sp_test sp \<noteq> []"
      and sub: "set (sp_train sp) \<union> set (sp_test sp) \<subseteq> set frames" using by_ep by auto
    from leak(3) [OF sub sp(2,3)] obtain r i where "leakage_report sp = Inr r" "image_leakage_report thumb sp = Inr i" by blast
    then show ?thesis using False sp(1) by simp
  qed
  have fr: "rbind (Inr ?f) leakage_report = Inl ValueError \<or> is_ok (rbind (Inr ?f) leakage_report)"
    "rbind (Inr ?f) (image_leakage_report thumb) = Inl ValueError \<or> is_ok (rbind (Inr ?f) (image_leakage_report thumb))"
    using leak(1,2) [OF f] by simp_all
  have "is_ok (report_chunk ImageLine (image_leakage_report thumb) (''by episode (correct)'', ?e))
    \<and> (refused (report_chunk ImageLine (image_leakage_report thumb) (''by episode (correct)'', ?e)) ''by episode (correct)''
        \<longleftrightarrow> card (key_of ` set frames) < 3)"
    using report_chunk_cases [of ?e "image_leakage_report thumb" ImageLine "''by episode (correct)''"] ep by auto
  moreover have "is_ok (report_chunk LabelLine leakage_report (''by episode (correct)'', ?e))
    \<and> (refused (report_chunk LabelLine leakage_report (''by episode (correct)'', ?e)) ''by episode (correct)''
        \<longleftrightarrow> card (key_of ` set frames) < 3)"
    using report_chunk_cases [of ?e leakage_report LabelLine "''by episode (correct)''"] ep by auto
  moreover have "is_ok (report_chunk ImageLine (image_leakage_report thumb) (''by frame (leaks)'', Inr ?f))
    \<and> \<not> refused (report_chunk ImageLine (image_leakage_report thumb) (''by frame (leaks)'', Inr ?f)) ''by episode (correct)''"
    using report_chunk_cases [of "Inr ?f" "image_leakage_report thumb" ImageLine "''by frame (leaks)''"] fr by auto
  moreover have "is_ok (report_chunk LabelLine leakage_report (''by frame (leaks)'', Inr ?f))
    \<and> \<not> refused (report_chunk LabelLine leakage_report (''by frame (leaks)'', Inr ?f)) ''by episode (correct)''"
    using report_chunk_cases [of "Inr ?f" leakage_report LabelLine "''by frame (leaks)''"] fr by auto
  ultimately have rep: "list_all is_ok reports"
    "(\<exists>ch \<in> set reports. refused ch ''by episode (correct)'') \<longleftrightarrow> card (key_of ` set frames) < 3"
    unfolding reports_def by simp_all
  obtain s' where s': "summarise frames = Inr s'" "length (sm_label_min s') = 3" "length (sm_label_max s') = 3"
    by (rule plain_summary [OF plain])
  have "list_all is_ok (frame_chunks s)" using s s' by (auto intro: frame_chunks_ok)
  then show "list_all is_ok chunks"
    unfolding chunks using head rep(1) plain_distinct [OF plain(1) bytes] by (simp add: disk_chunk_def Let_def)
  have "\<not> refused (disk_chunk sizes) n" for n by (simp add: disk_chunk_def Let_def)
  then show "(\<exists>ch \<in> set chunks. refused ch ''by episode (correct)'') \<longleftrightarrow> card (key_of ` set frames) < 3"
    unfolding chunks using rep(2) head_not_refused frame_not_refused distinct_not_refused
    by (auto simp: Un_iff)
qed

lemma refused_in_text:
  "list_all is_ok chunks \<Longrightarrow> RefusedLine n \<in> set (concat (map projr chunks)) \<longleftrightarrow> (\<exists>ch \<in> set chunks. refused ch n)"
  by (induction chunks) (auto simp: refused_def)

subsection \<open>Properties\<close>

text \<open>A recording can always be described. If the recorder exited with 0 on a known commit and kept a frame,
  and its files are where it wrote them, then the description never raises and exits with 0: it reports a
  manifest without problems and exactly the recorded frames and episodes, and it refuses to compare the
  split by episode exactly when fewer than three episodes were kept.\<close>

theorem recorded_dataset_is_described:
  assumes run: "collect_main sm rnd (Inr (commit_doc (JStr h) dirty)) now args w = (Inr (0, Some rc), c)"
    and known: "h \<noteq> []" "wf_doc dirty" and some: "rc_lines rc \<noteq> []"
    and files: "df_docs d (dir @ [''manifest.json'']) = Some (rc_manifest rc)"
      "df_labels d (dir @ [''labels.jsonl'']) = Some (rc_lines rc)"
    and frames: "load_lines dir (rc_lines rc) = Inr frames"
    and images: "\<And>f. f \<in> set frames \<Longrightarrow> df_bytes d (fr_image f) \<noteq> None \<and> is_ok (thumb f)"
  shows "\<exists>out. describe_main sha256 thumb draw_e draw_f d dir = (Inr 0, out) \<and> ManifestLine True \<in> set out
     \<and> FramesLine (length (rc_lines rc)) (card (fr_episode ` set frames)) \<in> set out
     \<and> (RefusedLine ''by episode (correct)'' \<in> set out \<longleftrightarrow> card (fr_episode ` set frames) < 3)"
proof -
  obtain cam doc where cam: "camera_doc c = Inr cam"
    and doc: "build (Inr (commit_doc (JStr h) dirty)) now (JStr (cl_world args)) (JStr ''threevn_mm_v1'') cam label_source
        (int (card (lr_episode ` set (co_rows c)))) (int (length (co_rows c))) [(''seed'', JInt (cl_seed args))] = Inr doc"
    and rc: "rc = \<lparr>rc_lines = map (JsonLine \<circ> row_doc) (co_rows c), rc_manifest = sort_doc doc\<rparr>"
    and good: "list_all good_row (co_rows c)"
    by (rule collect_main_okD [OF run])
  have wf: "wf_doc (JStr h)" by simp
  note valid = validate_recorded [OF doc cam wf known(2)]
  have fs: "frames = map (frame_of_row dir) (co_rows c)" using frames load_rows [OF good] by (simp add: rc)
  have plain: "\<forall>f \<in> set frames. plain_frame f" "frames \<noteq> []"
    using some by (auto simp: fs rc plain_frame_def frame_of_row_def split: prod.splits)
  obtain s where s: "summarise frames = Inr s" "sm_frames s = length frames" "sm_episodes s = card (key_of ` set frames)"
    by (rule plain_summary [OF plain])
  let ?k = "\<lambda>e. JNum (case e of JInt n \<Rightarrow> real_of_int n)"
  have k: "key_of f = ?k (fr_episode f)" if "f \<in> set frames" for f
    using plain(1) that by (auto simp: plain_frame_def key_of_def py_key_def)
  have ints: "\<forall>e \<in> fr_episode ` set frames. \<exists>n. e = JInt n" using plain(1) by (auto simp: plain_frame_def)
  have "inj_on ?k (fr_episode ` set frames)"
  proof (rule inj_onI)
    fix a b assume "a \<in> fr_episode ` set frames" "b \<in> fr_episode ` set frames" and eq: "?k a = ?k b"
    then obtain m n where "a = JInt m" "b = JInt n" using ints by blast
    then show "a = b" using eq by simp
  qed
  moreover have "key_of ` set frames = ?k ` fr_episode ` set frames" using k by (auto simp: image_image)
  ultimately have card: "card (key_of ` set frames) = card (fr_episode ` set frames)" by (simp add: card_image)
  have problems: "validate (sort_doc doc) = Inr []" using valid(2) some known(1) by (simp add: rc)
  note head = head_chunks_recorded [OF doc cam valid(1) known(1), of dir "[]"]
  have img: "\<forall>f \<in> set frames. df_bytes d (fr_image f) \<noteq> None" "\<forall>f \<in> set frames. is_ok (thumb f)"
    using images by auto
  note shown = describe_recorded [OF plain img head s(1), of "df_png_sizes d" sha256 draw_e draw_f]
  have "describe_main sha256 thumb draw_e draw_f d dir = (Inr 0, concat (map projr
      (head_chunks dir (sort_doc doc) [] @ frame_chunks s @ [disk_chunk (df_png_sizes d)] @ [distinct_chunk sha256 (df_bytes d) frames]
       @ map (report_chunk ImageLine (image_leakage_report thumb)) (splits draw_e draw_f frames)
       @ map (report_chunk LabelLine leakage_report) (splits draw_e draw_f frames))))" (is "_ = (Inr 0, ?out)")
    using files frames problems s(1) print_all_text [OF shown(1)]
    by (simp add: describe_main_def read_manifest_def load_def rc del: print_all.simps)
  moreover have "ManifestLine True \<in> set ?out" by (simp add: head_chunks_def)
  moreover have "FramesLine (length (rc_lines rc)) (card (fr_episode ` set frames)) \<in> set ?out"
    using s(2,3) card by (simp add: frame_chunks_def fs rc)
  moreover have "RefusedLine ''by episode (correct)'' \<in> set ?out \<longleftrightarrow> card (fr_episode ` set frames) < 3"
    using refused_in_text [OF shown(1)] shown(2) card by simp
  ultimately show ?thesis by blast
qed

text \<open>One frame of one episode: the split by episode is refused, and the run still exits with 0.\<close>

theorem recorded_dataset_is_described_witness:
  "\<exists>d out. describe_main (\<lambda>s. s) (\<lambda>f. Inr [0]) (\<lambda>n. 0) (\<lambda>n. 0) d [''d''] = (Inr 0, out)
     \<and> RefusedLine ''by episode (correct)'' \<in> set out"
proof -
  obtain rc c where run: "collect_main origin_sim (\<lambda>k. 0) (Inr (commit_doc (JStr ''5ac0'') (JBool False))) ''2026''
       \<lparr>cl_episodes = 1, cl_frames = 1, cl_world = ''bench'', cl_seed = 0\<rparr> () = (Inr (0, Some rc), c)"
    and len: "length (rc_lines rc) = 1" by (rule origin_run)
  let ?d = "\<lparr>df_docs = [[''d'', ''manifest.json''] \<mapsto> rc_manifest rc], df_labels = [[''d'', ''labels.jsonl''] \<mapsto> rc_lines rc],
      df_bytes = \<lambda>p. Some [], df_png_sizes = [11000]\<rparr>"
  obtain rows where "rc_lines rc = map (JsonLine \<circ> row_doc) rows" "list_all good_row rows"
    by (rule collect_main_okD [OF run]) simp
  then obtain frames where frames: "load_lines [''d''] (rc_lines rc) = Inr frames" "length frames = 1"
    using load_rows len by fastforce
  then have "card (fr_episode ` set frames) < 3" by (auto simp: length_Suc_conv)
  moreover have "rc_lines rc \<noteq> []" using len by auto
  ultimately show ?thesis
    using recorded_dataset_is_described [OF run, of ?d "[''d'']" frames "\<lambda>f. Inr [0]" "\<lambda>s. s" "\<lambda>n. 0" "\<lambda>n. 0"] frames(1)
    by auto
qed

end
