(* ===== verification/Controllers.thy ===== *)
theory Controllers
  imports Prelude
begin

text \<open>
  The mobile manipulator is launched with one controller configuration merged from the arm's and the base's
  (\<open>mm_sim.launch.py\<close>). A configuration is the document \<open>yaml.safe_load\<close> returns, without anchors, so no
  two sections share an object. \<open>copy.deepcopy\<close> is the identity on documents; an in-place update of the copy
  is an update of the value that is passed on.
\<close>

subsection \<open>Prefixing joint names\<close>

definition JOINT_KEYS :: "string list" where
  "JOINT_KEYS = [''joints'', ''joint'', ''left_wheel_names'', ''right_wheel_names'']"

definition prefix_name :: "string \<Rightarrow> json \<Rightarrow> json res" where
  "prefix_name p j = (case j of JStr s \<Rightarrow> Inr (JStr (p @ s)) | _ \<Rightarrow> Inl TypeError)"

definition prefix_value :: "string \<Rightarrow> json \<Rightarrow> json res" where
  "prefix_value p v =
     (case v of
        JStr s \<Rightarrow> Inr (JStr (p @ s))
      | JArr xs \<Rightarrow> rbind (rmap (prefix_name p) xs) (\<lambda>ys. Inr (JArr ys))
      | _ \<Rightarrow> Inr v)"

fun prefix_keys :: "string \<Rightarrow> string list \<Rightarrow> (string \<times> json) list \<Rightarrow> (string \<times> json) list res" where
  "prefix_keys p [] d = Inr d"
| "prefix_keys p (k # ks) d =
     (case map_of d k of
        None \<Rightarrow> prefix_keys p ks d
      | Some v \<Rightarrow> rbind (prefix_value p v) (\<lambda>v'. prefix_keys p ks (AList.update k v' d)))"

definition prefix_section :: "string \<Rightarrow> json \<Rightarrow> json res" where
  "prefix_section p section =
     (case section of
        JObj d \<Rightarrow>
          (case map_of d ''ros__parameters'' of
             Some (JObj ros_params) \<Rightarrow>
               rbind (prefix_keys p JOINT_KEYS ros_params) (\<lambda>q.
                 Inr (JObj (AList.update ''ros__parameters'' (JObj q) d)))
           | _ \<Rightarrow> Inr section)
      | _ \<Rightarrow> Inr section)"

definition prefix_joint_names :: "json \<Rightarrow> string \<Rightarrow> json res" where
  "prefix_joint_names params p =
     rbind (jitems params) (\<lambda>kvs.
     rbind (rmap (\<lambda>(name, section). rbind (prefix_section p section) (\<lambda>s. Inr (name, s))) kvs) (\<lambda>out.
       Inr (JObj out)))"

subsection \<open>Merging\<close>

text \<open>The loop over the base's controller manager settings; \<open>target[key]\<close> of anything but a dictionary raises
  \<open>TypeError\<close>, whatever \<open>key in target\<close> said.\<close>

fun merge_items :: "json \<Rightarrow> (string \<times> json) list \<Rightarrow> json res" where
  "merge_items target [] = Inr target"
| "merge_items target ((key, v) # kvs) =
     (case target of
        JObj d \<Rightarrow>
          if (case map_of d key of None \<Rightarrow> False | Some w \<Rightarrow> \<not> py_eq w v) then Inl ValueError
          else merge_items (JObj (AList.update key v d)) kvs
      | _ \<Rightarrow> Inl TypeError)"

fun jset :: "json \<Rightarrow> string \<Rightarrow> json \<Rightarrow> json" where
  "jset (JObj d) k v = JObj (AList.update k v d)"
| "jset j k v = j"

fun merge_sections :: "(string \<times> json) list \<Rightarrow> (string \<times> json) list \<Rightarrow> (string \<times> json) list res" where
  "merge_sections merged [] = Inr merged"
| "merge_sections merged ((name, section) # rest) =
     (case map_of merged name of
        None \<Rightarrow> merge_sections (AList.update name section merged) rest
      | Some m \<Rightarrow>
          if name \<noteq> ''controller_manager'' then Inl ValueError
          else
            rbind (jitem m ''ros__parameters'') (\<lambda>target.
            rbind (rbind (jitem section ''ros__parameters'') jitems) (\<lambda>kvs.
            rbind (merge_items target kvs) (\<lambda>t.
              merge_sections (AList.update name (jset m ''ros__parameters'' t) merged) rest))))"

definition merge_controller_params :: "json \<Rightarrow> json \<Rightarrow> string \<Rightarrow> json res" where
  "merge_controller_params arm_params base_params p =
     rbind (rbind (prefix_joint_names arm_params p) jitems) (\<lambda>merged.
     rbind (jitems base_params) (\<lambda>items.
     rbind (merge_sections merged items) (\<lambda>out. Inr (JObj out))))"

text \<open>The two files are read and the merged document is written to a temporary file, whose name is returned;
  the file system maps the files of the configuration directory to their documents.\<close>

definition write_merged_controllers :: "(string \<rightharpoonup> json) \<Rightarrow> string \<Rightarrow> string \<Rightarrow> (string \<times> (string \<rightharpoonup> json)) res" where
  "write_merged_controllers config handle p =
     (case config ''controllers.yaml'' of
        None \<Rightarrow> Inl FileNotFoundError
      | Some arm \<Rightarrow>
          (case config ''base_controllers.yaml'' of
             None \<Rightarrow> Inl FileNotFoundError
           | Some base \<Rightarrow>
               rbind (merge_controller_params arm base p) (\<lambda>merged. Inr (handle, config(handle \<mapsto> merged)))))"

subsection \<open>Specification\<close>

text \<open>The parameters of a section, as a map.\<close>

definition params_of :: "json \<Rightarrow> string \<rightharpoonup> json" where
  "params_of s = (case s of
     JObj d \<Rightarrow> (case map_of d ''ros__parameters'' of Some (JObj q) \<Rightarrow> map_of q | _ \<Rightarrow> Map.empty)
   | _ \<Rightarrow> Map.empty)"

definition has_params :: "json \<Rightarrow> bool" where
  "has_params s \<longleftrightarrow> (\<exists>q. jitem s ''ros__parameters'' = Inr (JObj q) \<and> distinct (map fst q))"

definition agree :: "json \<Rightarrow> json \<Rightarrow> bool" where
  "agree a b \<longleftrightarrow> (\<forall>k v w. params_of a k = Some v \<longrightarrow> params_of b k = Some w \<longrightarrow> py_eq v w)"

definition compatible :: "(string \<times> json) list \<Rightarrow> (string \<times> json) list \<Rightarrow> bool" where
  "compatible arm base \<longleftrightarrow>
     (\<forall>n a b. map_of arm n = Some a \<longrightarrow> map_of base n = Some b \<longrightarrow> n = ''controller_manager'' \<and> agree a b)"

text \<open>Joint names in a value, as the merge sees them.\<close>

definition add_prefix :: "string \<Rightarrow> json \<Rightarrow> json" where
  "add_prefix p v = (case v of
     JStr s \<Rightarrow> JStr (p @ s)
   | JArr xs \<Rightarrow> JArr (map (\<lambda>x. case x of JStr s \<Rightarrow> JStr (p @ s) | _ \<Rightarrow> x) xs)
   | _ \<Rightarrow> v)"


subsection \<open>Lemmas: prefixing\<close>

lemma prefix_value_ok: "prefix_value p v = Inr v' \<Longrightarrow> v' = add_prefix p v"
proof -
  have "rmap (prefix_name p) xs = Inr ys \<Longrightarrow> ys = map (\<lambda>x. case x of JStr s \<Rightarrow> JStr (p @ s) | _ \<Rightarrow> x) xs" for xs ys
    by (induction xs arbitrary: ys) (auto simp: rbind_eq_Inr prefix_name_def split: json.splits)
  then show "prefix_value p v = Inr v' \<Longrightarrow> v' = add_prefix p v"
    by (auto simp: prefix_value_def add_prefix_def rbind_eq_Inr split: json.splits)
qed

lemma prefix_keys_ok:
  assumes "prefix_keys p ks d = Inr q" "distinct ks"
  shows "map_of q = (\<lambda>k. if k \<in> set ks then map_option (add_prefix p) (map_of d k) else map_of d k)"
  using assms
proof (induction ks arbitrary: d)
  case (Cons k ks)
  show ?case
  proof (cases "map_of d k")
    case None
    then show ?thesis using Cons by (auto simp: fun_eq_iff)
  next
    case (Some v)
    then obtain v' where v: "prefix_value p v = Inr v'" "prefix_keys p ks (AList.update k v' d) = Inr q"
      using Cons.prems(1) by (auto simp: rbind_eq_Inr)
    from Cons.IH [OF v(2)] Cons.prems(2) have
      "map_of q = (\<lambda>i. if i \<in> set ks then map_option (add_prefix p) (map_of (AList.update k v' d) i) else map_of (AList.update k v' d) i)"
      by simp
    then show ?thesis using Some Cons.prems(2) prefix_value_ok [OF v(1)] by (auto simp: fun_eq_iff)
  qed
qed simp

lemma distinct_JOINT_KEYS: "distinct JOINT_KEYS"
  by (simp add: JOINT_KEYS_def)

lemma prefix_section_ok:
  assumes "prefix_section p s = Inr s'"
  shows "params_of s' = (\<lambda>k. if k \<in> set JOINT_KEYS then map_option (add_prefix p) (params_of s k) else params_of s k)"
    and "\<And>k. k \<noteq> ''ros__parameters'' \<Longrightarrow> jget s' k JNull = jget s k JNull"
  using assms
  by (auto simp: prefix_section_def params_of_def rbind_eq_Inr fun_eq_iff
      prefix_keys_ok [OF _ distinct_JOINT_KEYS] split: json.splits option.splits)

lemma prefix_joint_names_ok:
  assumes "prefix_joint_names (JObj arm) p = Inr (JObj arm')"
  shows "map fst arm' = map fst arm" and "list_all2 (\<lambda>(n, s) (m, s'). n = m \<and> prefix_section p s = Inr s') arm arm'"
proof -
  have l: "list_all2 (\<lambda>x y. (\<lambda>(name, section). rbind (prefix_section p section) (\<lambda>s. Inr (name, s))) x = Inr y) arm arm'"
    using assms by (simp add: prefix_joint_names_def rbind_eq_Inr rmap_eq_Inr_iff)
  then show "list_all2 (\<lambda>(n, s) (m, s'). n = m \<and> prefix_section p s = Inr s') arm arm'"
    by (rule list_all2_mono) (auto simp: rbind_eq_Inr)
  then show "map fst arm' = map fst arm"
    by (induction rule: list_all2_induct) auto
qed

lemma prefix_joint_names_lookup:
  assumes "prefix_joint_names (JObj arm) p = Inr (JObj arm')"
  shows "rel_option (\<lambda>s s'. prefix_section p s = Inr s') (map_of arm n) (map_of arm' n)"
  using prefix_joint_names_ok(2) [OF assms] by (induction rule: list_all2_induct) auto


subsection \<open>Lemmas: merging\<close>

lemma map_of_rev: "distinct (map fst kvs) \<Longrightarrow> map_of (rev kvs) = map_of kvs"
  by (rule map_of_inject_set [THEN iffD2]) (simp_all add: rev_map [symmetric])

lemma merge_items_spec:
  assumes "distinct (map fst kvs)"
  shows "merge_items (JObj d) kvs =
    (if \<forall>k v w. map_of d k = Some v \<longrightarrow> map_of kvs k = Some w \<longrightarrow> py_eq v w
     then Inr (JObj (foldl (\<lambda>d (k, v). AList.update k v d) d kvs)) else Inl ValueError)"
  using assms
proof (induction kvs arbitrary: d)
  case (Cons kv kvs)
  obtain k v where kv: "kv = (k, v)" by (cases kv)
  let ?d = "AList.update k v d"
  have fresh: "map_of kvs k = None" using Cons.prems by (simp add: kv map_of_eq_None_iff)
  have "(\<forall>i x w. map_of d i = Some x \<longrightarrow> map_of (kv # kvs) i = Some w \<longrightarrow> py_eq x w)
      \<longleftrightarrow> (case map_of d k of None \<Rightarrow> True | Some w \<Rightarrow> py_eq w v)
        \<and> (\<forall>i x w. map_of ?d i = Some x \<longrightarrow> map_of kvs i = Some w \<longrightarrow> py_eq x w)" (is "?L \<longleftrightarrow> ?A \<and> ?R")
    using fresh by (auto simp: kv split: option.splits if_splits)
  then show ?case using Cons.IH [of ?d] Cons.prems by (simp add: kv split: option.splits)
qed simp

lemma params_of_Some: "jitem s ''ros__parameters'' = Inr (JObj q) \<Longrightarrow> params_of s = map_of q"
  by (auto simp: jitem_eq_Inr params_of_def)

text \<open>What the merge makes of the manager sections of the two configurations.\<close>

definition joined :: "json \<Rightarrow> json \<Rightarrow> json \<Rightarrow> bool" where
  "joined a b s \<longleftrightarrow> params_of s = params_of a ++ params_of b
     \<and> (\<forall>k. k \<noteq> ''ros__parameters'' \<longrightarrow> jget s k JNull = jget a k JNull)"

lemma merge_one:
  assumes "has_params a" "has_params b"
  shows "\<exists>t u. jitem a ''ros__parameters'' = Inr t \<and> rbind (jitem b ''ros__parameters'') jitems = Inr u
     \<and> (if agree a b then \<exists>q. merge_items t u = Inr q \<and> joined a b (jset a ''ros__parameters'' q)
        else merge_items t u = Inl ValueError)"
proof -
  obtain qa qb where a: "jitem a ''ros__parameters'' = Inr (JObj qa)"
    and b: "jitem b ''ros__parameters'' = Inr (JObj qb)" "distinct (map fst qb)"
    using assms by (auto simp: has_params_def)
  obtain d where d: "a = JObj d" using a by (auto simp: jitem_eq_Inr)
  have "map_of qa ++ map_of (rev qb) = map_of qa ++ map_of qb"
    using b(2) by (simp add: map_of_rev)
  then have j: "joined a b (jset a ''ros__parameters'' (JObj (foldl (\<lambda>d (k, v). AList.update k v d) qa qb)))"
    unfolding joined_def params_of_Some [OF a] params_of_Some [OF b(1)]
    by (simp add: d params_of_def foldl_update_map_of)
  show ?thesis
    using j a b params_of_Some [OF a] params_of_Some [OF b(1)] by (auto simp: merge_items_spec agree_def)
qed


text \<open>What every section of the merged configuration is.\<close>

definition merged_as :: "(string \<rightharpoonup> json) \<Rightarrow> (string \<rightharpoonup> json) \<Rightarrow> (string \<rightharpoonup> json) \<Rightarrow> bool" where
  "merged_as arm base out \<longleftrightarrow> (\<forall>n. case (arm n, base n) of
       (Some a, Some b) \<Rightarrow> (\<exists>s. out n = Some s \<and> joined a b s)
     | (Some a, None) \<Rightarrow> out n = Some a
     | (None, b) \<Rightarrow> out n = b)"

lemma merged_asD: "merged_as arm base out \<Longrightarrow> case (arm n, base n) of
       (Some a, Some b) \<Rightarrow> (\<exists>s. out n = Some s \<and> joined a b s)
     | (Some a, None) \<Rightarrow> out n = Some a
     | (None, b) \<Rightarrow> out n = b"
  by (simp add: merged_as_def)

lemma merged_as_new:
  assumes "arm n = None" "base n = None" "merged_as (arm(n \<mapsto> b)) base out"
  shows "merged_as arm (base(n \<mapsto> b)) out"
  unfolding merged_as_def
proof
  fix k
  show "case (arm k, (base(n \<mapsto> b)) k) of (Some a, Some b) \<Rightarrow> \<exists>s. out k = Some s \<and> joined a b s
      | (Some a, None) \<Rightarrow> out k = Some a | (None, b) \<Rightarrow> out k = b"
    using merged_asD [OF assms(3), of k] assms(1,2) by (auto split: option.splits if_splits)
qed

lemma merged_as_joined:
  assumes "arm n = Some a" "base n = None" "joined a b s" "merged_as (arm(n \<mapsto> s)) base out"
  shows "merged_as arm (base(n \<mapsto> b)) out"
  unfolding merged_as_def
proof
  fix k
  show "case (arm k, (base(n \<mapsto> b)) k) of (Some a, Some b) \<Rightarrow> \<exists>s. out k = Some s \<and> joined a b s
      | (Some a, None) \<Rightarrow> out k = Some a | (None, b) \<Rightarrow> out k = b"
    using merged_asD [OF assms(4), of k] assms(1-3) by (auto split: option.splits if_splits)
qed

lemma merge_sections_spec:
  assumes "distinct (map fst items)"
    and "\<And>a b. map_of merged ''controller_manager'' = Some a \<Longrightarrow> map_of items ''controller_manager'' = Some b
        \<Longrightarrow> has_params a \<and> has_params b"
  shows "if compatible merged items
    then \<exists>out. merge_sections merged items = Inr out \<and> merged_as (map_of merged) (map_of items) (map_of out)
    else merge_sections merged items = Inl ValueError"
  using assms
proof (induction items arbitrary: merged)
  case Nil
  then show ?case by (simp add: compatible_def merged_as_def split: option.splits)
next
  case (Cons it items)
  obtain n b where it: "it = (n, b)" by (cases it)
  have fresh: "map_of items n = None" and dist: "distinct (map fst items)"
    using Cons.prems(1) by (auto simp: it map_of_eq_None_iff)
  show ?case
  proof (cases "map_of merged n")
    case None
    let ?m = "AList.update n b merged"
    have prem: "has_params x \<and> has_params y"
      if "map_of ?m ''controller_manager'' = Some x" "map_of items ''controller_manager'' = Some y" for x y
      using Cons.prems(2) [of x y] that fresh by (auto simp: it split: if_splits)
    have "compatible merged (it # items) \<longleftrightarrow> compatible ?m items"
      using None fresh by (auto simp: compatible_def it split: if_splits)
    moreover have IH: "if compatible ?m items
        then \<exists>out. merge_sections ?m items = Inr out \<and> merged_as (map_of ?m) (map_of items) (map_of out)
        else merge_sections ?m items = Inl ValueError"
      by (rule Cons.IH [OF dist]) (use prem in blast)
    ultimately show ?thesis using None merged_as_new [of "map_of merged" n "map_of items" b, OF None fresh]
      by (cases "compatible ?m items") (auto simp: it simp flip: fun_upd_def simp del: fun_upd_apply)
  next
    case (Some a)
    show ?thesis
    proof (cases "n = ''controller_manager''")
      case False
      then have "\<not> compatible merged (it # items)" using Some by (auto simp: compatible_def it)
      then show ?thesis using False Some by (simp add: it)
    next
      case True
      then have "has_params a" "has_params b" using Cons.prems(2) Some by (auto simp: it)
      then obtain t u where tu: "jitem a ''ros__parameters'' = Inr t" "rbind (jitem b ''ros__parameters'') jitems = Inr u"
        and m: "if agree a b then \<exists>q. merge_items t u = Inr q \<and> joined a b (jset a ''ros__parameters'' q)
          else merge_items t u = Inl ValueError"
        using merge_one by blast
      show ?thesis
      proof (cases "agree a b")
        case False
        then have "\<not> compatible merged (it # items)" using Some True by (auto simp: compatible_def it)
        then show ?thesis using False True Some tu m by (simp add: it)
      next
        case ag: True
        then obtain q where q: "merge_items t u = Inr q" "joined a b (jset a ''ros__parameters'' q)" using m by auto
        let ?m = "AList.update n (jset a ''ros__parameters'' q) merged"
        have prem: "has_params x \<and> has_params y"
          if "map_of ?m ''controller_manager'' = Some x" "map_of items ''controller_manager'' = Some y" for x y
          using that fresh True by simp
        have "compatible merged (it # items) \<longleftrightarrow> compatible ?m items"
          using Some True ag fresh by (auto simp: compatible_def it split: if_splits)
        moreover have "merge_sections merged (it # items) = merge_sections ?m items" using True Some tu q by (simp add: it)
        moreover have IH: "if compatible ?m items
        then \<exists>out. merge_sections ?m items = Inr out \<and> merged_as (map_of ?m) (map_of items) (map_of out)
        else merge_sections ?m items = Inl ValueError"
      by (rule Cons.IH [OF dist]) (use prem in blast)
        ultimately show ?thesis using merged_as_joined [of "map_of merged" n a "map_of items", OF Some fresh q(2)]
          by (cases "compatible ?m items") (auto simp: it simp flip: fun_upd_def simp del: fun_upd_apply)
      qed
    qed
  qed
qed


subsection \<open>Properties\<close>

text \<open>Only joint names move. In the merged configuration's arm sections, a parameter that is one of the four
  joint keys has the prefix in front of every name, every other parameter and every other key of the
  section is untouched, and the section names, to which the topics and actions belong, are the same.\<close>

theorem only_joint_names_move:
  assumes "prefix_joint_names (JObj arm) p = Inr (JObj arm')"
  shows "map fst arm' = map fst arm
     \<and> (\<forall>n s s'. map_of arm n = Some s \<longrightarrow> map_of arm' n = Some s' \<longrightarrow>
         (\<forall>k. params_of s' k = (if k \<in> set JOINT_KEYS then map_option (add_prefix p) (params_of s k) else params_of s k))
       \<and> (\<forall>k. k \<noteq> ''ros__parameters'' \<longrightarrow> jget s' k JNull = jget s k JNull))"
proof (intro conjI allI impI)
  show "map fst arm' = map fst arm" by (rule prefix_joint_names_ok(1) [OF assms])
next
  fix n s s'
  assume "map_of arm n = Some s" "map_of arm' n = Some s'"
  then have "prefix_section p s = Inr s'" using prefix_joint_names_lookup [OF assms, of n] by simp
  note ok = prefix_section_ok [OF this]
  show "params_of s' k = (if k \<in> set JOINT_KEYS then map_option (add_prefix p) (params_of s k) else params_of s k)" for k
    using ok(1) by simp
  show "jget s' k JNull = jget s k JNull" if "k \<noteq> ''ros__parameters''" for k
    using ok(2) that by simp
qed

text \<open>The arm's and the base's configuration, shortened to one controller each.\<close>

definition demo_arm :: "(string \<times> json) list" where
  "demo_arm =
     [(''controller_manager'', JObj [(''ros__parameters'', JObj [(''update_rate'', JInt 50),
        (''arm_controller'', JObj [(''type'', JStr ''JointTrajectoryController'')])])]),
      (''arm_controller'', JObj [(''ros__parameters'', JObj [(''joints'', JArr [JStr ''elbow_joint''])])])]"

definition demo_base :: "int \<Rightarrow> (string \<times> json) list" where
  "demo_base rate =
     [(''controller_manager'', JObj [(''ros__parameters'', JObj [(''update_rate'', JInt rate),
        (''base_controller'', JObj [(''type'', JStr ''DiffDriveController'')])])]),
      (''base_controller'', JObj [(''ros__parameters'', JObj [(''wheel_radius'', JNum (33 / 1000))])])]"

definition demo_arm_prefixed :: "(string \<times> json) list" where
  "demo_arm_prefixed =
     [(''controller_manager'', JObj [(''ros__parameters'', JObj [(''update_rate'', JInt 50),
        (''arm_controller'', JObj [(''type'', JStr ''JointTrajectoryController'')])])]),
      (''arm_controller'', JObj [(''ros__parameters'', JObj [(''joints'', JArr [JStr ''arm_elbow_joint''])])])]"

lemma demo_prefix: "prefix_joint_names (JObj demo_arm) ''arm_'' = Inr (JObj demo_arm_prefixed)"
  by (simp add: prefix_joint_names_def demo_arm_def demo_arm_prefixed_def prefix_section_def JOINT_KEYS_def
      prefix_value_def prefix_name_def)

theorem only_joint_names_move_witness:
  "\<exists>s'. map_of demo_arm_prefixed ''arm_controller'' = Some s'
     \<and> params_of s' ''joints'' = Some (JArr [JStr ''arm_elbow_joint''])"
  using only_joint_names_move [OF demo_prefix]
  by (simp add: demo_arm_def demo_arm_prefixed_def params_of_def JOINT_KEYS_def add_prefix_def)

text \<open>C37: merging never lets one subsystem silently win. For two configurations whose joint names can be prefixed
  and whose manager sections have parameters: if a section other than the manager's is in both, or a
  manager setting differs between them, the merge raises \<open>ValueError\<close>; otherwise it returns a configuration
  with exactly the sections of both, each as its subsystem has it (the arm's with prefixed joints), the
  manager's with the settings and controllers of both.\<close>

theorem merge_controller_params_correct:
  assumes pre: "prefix_joint_names (JObj arm) p = Inr (JObj arm')" and dist: "distinct (map fst base)"
    and params: "\<And>a. map_of arm' ''controller_manager'' = Some a \<Longrightarrow> has_params a"
      "\<And>b. map_of base ''controller_manager'' = Some b \<Longrightarrow> has_params b"
  shows "if compatible arm' base
     then \<exists>out. merge_controller_params (JObj arm) (JObj base) p = Inr (JObj out)
       \<and> (\<forall>n. case (map_of arm' n, map_of base n) of
            (Some a, Some b) \<Rightarrow> (\<exists>s. map_of out n = Some s \<and> params_of s = params_of a ++ params_of b
                                  \<and> (\<forall>k. k \<noteq> ''ros__parameters'' \<longrightarrow> jget s k JNull = jget a k JNull))
          | (Some a, None) \<Rightarrow> map_of out n = Some a
          | (None, b) \<Rightarrow> map_of out n = b)
     else merge_controller_params (JObj arm) (JObj base) p = Inl ValueError"
proof (cases "compatible arm' base")
  case True
  have "\<exists>out. merge_sections arm' base = Inr out \<and> merged_as (map_of arm') (map_of base) (map_of out)"
    using merge_sections_spec [OF dist, of arm'] params True by simp
  then obtain out where out: "merge_sections arm' base = Inr out" "merged_as (map_of arm') (map_of base) (map_of out)"
    by blast
  then have "merge_controller_params (JObj arm) (JObj base) p = Inr (JObj out)"
    by (simp add: merge_controller_params_def pre)
  with out(2) True show ?thesis unfolding merged_as_def joined_def by simp
next
  case False
  have "merge_sections arm' base = Inl ValueError"
    using merge_sections_spec [OF dist, of arm'] params False by simp
  with False show ?thesis by (simp add: merge_controller_params_def pre)
qed

text \<open>With the same update rate both configurations are hosted by one manager; with different ones the launch
  is refused.\<close>

theorem merge_controller_params_correct_witness:
  "(\<exists>out. merge_controller_params (JObj demo_arm) (JObj (demo_base 50)) ''arm_'' = Inr (JObj out)
      \<and> map_of out ''arm_controller'' = map_of demo_arm_prefixed ''arm_controller''
      \<and> map_of out ''base_controller'' = map_of (demo_base 50) ''base_controller'')
   \<and> merge_controller_params (JObj demo_arm) (JObj (demo_base 100)) ''arm_'' = Inl ValueError"
proof -
  have d: "distinct (map fst (demo_base r))" for r by (simp add: demo_base_def)
  have p1: "has_params a" if "map_of demo_arm_prefixed ''controller_manager'' = Some a" for a
    using that by (auto simp: demo_arm_prefixed_def has_params_def)
  have p2: "has_params b" if "map_of (demo_base r) ''controller_manager'' = Some b" for b r
    using that by (auto simp: demo_base_def has_params_def)
  let ?m = "\<lambda>d. the (map_of d ''controller_manager'')"
  have both: "map_of demo_arm_prefixed n = Some a \<Longrightarrow> map_of (demo_base r) n = Some b
      \<Longrightarrow> n = ''controller_manager'' \<and> a = ?m demo_arm_prefixed \<and> b = ?m (demo_base r)" for n a b r
    by (auto simp: demo_arm_prefixed_def demo_base_def split: if_splits)
  have "agree (?m demo_arm_prefixed) (?m (demo_base 50))"
    by (auto simp: agree_def demo_arm_prefixed_def demo_base_def params_of_def split: if_splits)
  then have c50: "compatible demo_arm_prefixed (demo_base 50)" unfolding compatible_def using both by blast
  have "\<not> agree (?m demo_arm_prefixed) (?m (demo_base 100))"
    by (simp add: agree_def demo_arm_prefixed_def demo_base_def params_of_def exI [of _ "''update_rate''"])
  moreover have "map_of demo_arm_prefixed ''controller_manager'' = Some (?m demo_arm_prefixed)"
    "map_of (demo_base r) ''controller_manager'' = Some (?m (demo_base r))" for r
    by (simp_all add: demo_arm_prefixed_def demo_base_def)
  ultimately have c100: "\<not> compatible demo_arm_prefixed (demo_base 100)" unfolding compatible_def by blast
  from merge_controller_params_correct [OF demo_prefix d [of 50] p1 p2 [where r = 50]] c50 obtain out where
    out: "merge_controller_params (JObj demo_arm) (JObj (demo_base 50)) ''arm_'' = Inr (JObj out)"
    and secs: "\<And>n. case (map_of demo_arm_prefixed n, map_of (demo_base 50) n) of
            (Some a, Some b) \<Rightarrow> (\<exists>s. map_of out n = Some s \<and> params_of s = params_of a ++ params_of b
                                  \<and> (\<forall>k. k \<noteq> ''ros__parameters'' \<longrightarrow> jget s k JNull = jget a k JNull))
          | (Some a, None) \<Rightarrow> map_of out n = Some a
          | (None, b) \<Rightarrow> map_of out n = b"
    by auto
  have "map_of out ''arm_controller'' = map_of demo_arm_prefixed ''arm_controller''"
    "map_of out ''base_controller'' = map_of (demo_base 50) ''base_controller''"
    using secs [of "''arm_controller''"] secs [of "''base_controller''"] by (simp_all add: demo_arm_prefixed_def demo_base_def)
  with out merge_controller_params_correct [OF demo_prefix d [of 100] p1 p2 [where r = 100]] c100 show ?thesis by simp
qed

end
