(* ===== verification/Launch.thy ===== *)
theory Launch
  imports Controllers
begin

text \<open>
  The launch files: which processes each of them starts, with which arguments, and in which order. A launch
  description is the list of actions the source returns; substitutions, which ROS evaluates when it
  launches, stay symbolic. Launching itself is ROS: \<open>launched\<close> is the contract of \<open>Node\<close>, \<open>RegisterEventHandler\<close>
  and \<open>OnProcessExit\<close> the files rely on, as a step relation on the sequence of process events. Screen output
  settings and help texts are left out.
\<close>

subsection \<open>Descriptions\<close>

datatype subst =
    Lit string
  | Config string
  | Share string
  | Join "subst list"
  | Cat "subst list"
  | Command "subst list"
  | PyExpr "subst list"

datatype param_value = PSubst subst | PText subst | PBool bool

datatype params = ParamFile subst | ParamDict "(string \<times> param_value) list"

record node =
  nd_package :: string
  nd_executable :: string
  nd_arguments :: "subst list"
  nd_parameters :: "params list"

datatype launch_action =
    Declare string string "string list"
  | Include subst "(string \<times> subst list) list"
  | Start node
  | OnExit node "node list"

definition DESCRIPTION_PKG :: string where "DESCRIPTION_PKG = ''threevn_robot_description''"

definition BRINGUP_PKG :: string where "BRINGUP_PKG = ''threevn_bringup''"

definition SIM_PKG :: string where "SIM_PKG = ''threevn_sim''"

text \<open>The local function \<open>spawner\<close> of the files.\<close>

definition spawner :: "string \<Rightarrow> node" where
  "spawner name = \<lparr>nd_package = ''controller_manager'', nd_executable = ''spawner'',
     nd_arguments = [Lit name, Lit ''--controller-manager'', Lit ''/controller_manager''], nd_parameters = []\<rparr>"

definition params_file :: subst where
  "params_file = Join [Share DESCRIPTION_PKG, Lit ''config'', Cat [Config ''profile'', Lit ''.yaml'']]"

definition xacro_file :: "string \<Rightarrow> subst" where
  "xacro_file name = Join [Share DESCRIPTION_PKG, Lit ''urdf'', Lit name]"

definition world_file :: subst where
  "world_file = Join [Share SIM_PKG, Lit ''worlds'', Cat [Config ''world'', Lit ''.sdf'']]"

definition create_node :: "subst \<Rightarrow> string \<Rightarrow> node" where
  "create_node description name = \<lparr>nd_package = ''ros_gz_sim'', nd_executable = ''create'',
     nd_arguments = [Lit ''-string'', description, Lit ''-name'', Lit name, Lit ''-z'', Lit ''0.0''],
     nd_parameters = []\<rparr>"

definition state_publisher :: "(string \<times> param_value) list \<Rightarrow> node" where
  "state_publisher ps = \<lparr>nd_package = ''robot_state_publisher'', nd_executable = ''robot_state_publisher'',
     nd_arguments = [], nd_parameters = [ParamDict ps]\<rparr>"

definition bridge :: node where
  "bridge = \<lparr>nd_package = ''ros_gz_bridge'', nd_executable = ''parameter_bridge'', nd_arguments = [],
     nd_parameters = [ParamDict [(''config_file'', PSubst (Join [Share SIM_PKG, Lit ''config'', Lit ''gz_bridge.yaml'']))]]\<rparr>"

definition gz_sim :: "subst list \<Rightarrow> launch_action" where
  "gz_sim gz_args = Include (Join [Share ''ros_gz_sim'', Lit ''launch'', Lit ''gz_sim.launch.py'']) [(''gz_args'', gz_args)]"

text \<open>\<open>'-r -v1 ' if 'GUI' == 'true' else '-s -r -v1 '\<close>, with the value of the argument \<open>gui\<close> in the place of \<open>GUI\<close>.\<close>

definition gui_args :: subst where
  "gui_args =
     (let q = [CHR 0x27] in
      PyExpr [Lit (q @ ''-r -v1 '' @ q @ '' if '' @ q), Config ''gui'',
              Lit (q @ '' == '' @ q @ ''true'' @ q @ '' else '' @ q @ ''-s -r -v1 '' @ q)])"

subsection \<open>The launch files\<close>

definition jsb :: node where
  "jsb = spawner ''joint_state_broadcaster''"

definition sim_launch :: "launch_action list" where
  "sim_launch =
     (let controllers_file = Join [Share BRINGUP_PKG, Lit ''config'', Lit ''controllers.yaml''];
          description = Command [Lit ''xacro '', xacro_file ''threevn_arm.urdf.xacro'', Lit '' params_file:='', params_file,
            Lit '' target:=gz'', Lit '' controllers_file:='', controllers_file];
          spawn = create_node description ''threevn_arm''
      in [Declare ''profile'' ''threevn_arm_v1'' [], Declare ''world'' ''empty_bench'' [], Declare ''gui'' ''false'' [],
          gz_sim [gui_args, world_file],
          Start (state_publisher [(''robot_description'', PText description), (''use_sim_time'', PBool True)]),
          Start bridge,
          Start spawn,
          OnExit spawn [jsb],
          OnExit jsb [spawner ''arm_controller'', spawner ''gripper_controller'']])"

definition base_sim_launch :: "launch_action list" where
  "base_sim_launch =
     (let controllers_file = Join [Share BRINGUP_PKG, Lit ''config'', Lit ''base_controllers.yaml''];
          description = Command [Lit ''xacro '', xacro_file ''threevn_base.urdf.xacro'', Lit '' params_file:='', params_file,
            Lit '' target:=gz'', Lit '' controllers_file:='', controllers_file];
          spawn = create_node description ''threevn_base''
      in [Declare ''profile'' ''threevn_base_v1'' [], Declare ''world'' ''empty_bench'' [], Declare ''gui'' ''false'' [],
          gz_sim [gui_args, world_file],
          Start (state_publisher [(''robot_description'', PText description), (''use_sim_time'', PBool True)]),
          Start bridge,
          Start spawn,
          OnExit spawn [jsb],
          OnExit jsb [spawner ''base_controller'']])"

definition robot_launch :: "launch_action list" where
  "robot_launch =
     (let controllers_file = Join [Share BRINGUP_PKG, Lit ''config'', Lit ''controllers.yaml''];
          description = Command [Lit ''xacro '', xacro_file ''threevn_arm.urdf.xacro'', Lit '' params_file:='', params_file,
            Lit '' target:='', Config ''target'']
      in [Declare ''profile'' ''threevn_arm_v1'' [], Declare ''target'' ''mock'' [''mock'', ''esp32''],
          Start \<lparr>nd_package = ''controller_manager'', nd_executable = ''ros2_control_node'', nd_arguments = [],
                 nd_parameters = [ParamDict [(''robot_description'', PText description)], ParamFile controllers_file]\<rparr>,
          Start (state_publisher [(''robot_description'', PText description)]),
          Start jsb,
          OnExit jsb [spawner ''arm_controller'', spawner ''gripper_controller'']])"

definition dashboard_launch :: "launch_action list" where
  "dashboard_launch =
     [Declare ''port'' ''8107'' [], Declare ''host'' ''0.0.0.0'' [],
      Start \<lparr>nd_package = ''threevn_dashboard'', nd_executable = ''dashboard'', nd_arguments = [],
             nd_parameters = [ParamDict [(''port'', PSubst (Config ''port'')), (''host'', PSubst (Config ''host''))]]\<rparr>]"

definition view_launch :: "(string \<Rightarrow> string) \<Rightarrow> launch_action list" where
  "view_launch share =
     (let description = Command [Lit ''xacro '', xacro_file ''threevn_arm.urdf.xacro'', Lit '' params_file:='', params_file,
            Lit '' target:=mock'']
      in [Declare ''profile'' ''threevn_arm_v1'' [],
          Start (state_publisher [(''robot_description'', PText description)]),
          Start \<lparr>nd_package = ''joint_state_publisher_gui'', nd_executable = ''joint_state_publisher_gui'',
                 nd_arguments = [], nd_parameters = []\<rparr>,
          Start \<lparr>nd_package = ''rviz2'', nd_executable = ''rviz2'',
                 nd_arguments = [Lit ''-d'', Lit (share DESCRIPTION_PKG @ ''/rviz/view_arm.rviz'')], nd_parameters = []\<rparr>])"

text \<open>\<open>_setup\<close> of the mobile manipulator: the launch arguments are known, the composition file is read for the
  arm's prefix, the merged configuration is written, and its file name goes into the description. \<open>share\<close> is
  \<open>get_package_share_directory\<close>. A prefix that is not a string cannot be put in front of a joint name.\<close>

definition mm_actions :: "(string \<Rightarrow> string) \<Rightarrow> string \<Rightarrow> string \<Rightarrow> string \<Rightarrow> string \<Rightarrow> launch_action list" where
  "mm_actions share gui world params controllers_file =
     (let description = Command [Lit ''xacro '', Lit (share DESCRIPTION_PKG @ ''/urdf/threevn_mobile_manipulator.urdf.xacro''),
            Lit '' params_file:='', Lit params, Lit '' target:=gz'', Lit '' controllers_file:='', Lit controllers_file];
          spawn = create_node description ''threevn_mm''
      in [gz_sim [Lit (if gui = ''true'' then ''-r -v1 '' else ''-s -r -v1 ''),
            Join [Share SIM_PKG, Lit ''worlds'', Cat [Lit world, Lit ''.sdf'']]],
          Start (state_publisher [(''robot_description'', PText description), (''use_sim_time'', PBool True)]),
          Start bridge,
          Start spawn,
          OnExit spawn [jsb],
          OnExit jsb [spawner ''base_controller''],
          OnExit jsb [spawner ''arm_controller''],
          OnExit jsb [spawner ''gripper_controller'']])"

definition mm_setup ::
  "(string \<Rightarrow> string) \<Rightarrow> (string \<rightharpoonup> json) \<Rightarrow> (string \<rightharpoonup> json) \<Rightarrow> string \<Rightarrow> string \<Rightarrow> string \<Rightarrow> string
   \<Rightarrow> (launch_action list \<times> (string \<rightharpoonup> json)) res" where
  "mm_setup share descriptions config handle profile gui world =
     (let params = share DESCRIPTION_PKG @ ''/config/'' @ profile @ ''.yaml'' in
      case descriptions params of
        None \<Rightarrow> Inl FileNotFoundError
      | Some composition \<Rightarrow>
          rbind (rbind (jitem composition ''mount'') (\<lambda>mount. jitem mount ''prefix'')) (\<lambda>p.
          case p of
            JStr s \<Rightarrow>
              rbind (write_merged_controllers config handle s) (\<lambda>(controllers_file, config').
                Inr (mm_actions share gui world params controllers_file, config'))
          | _ \<Rightarrow> Inl TypeError))"

definition mm_launch :: "launch_action list" where
  "mm_launch = [Declare ''profile'' ''threevn_mm_v1'' [], Declare ''world'' ''empty_bench'' [], Declare ''gui'' ''false'' []]"


subsection \<open>The contract of launching\<close>

datatype launch_event = Started node | Exited node

text \<open>\<open>launched acts tr\<close>: launching \<open>acts\<close> may produce the events \<open>tr\<close>. A listed process starts, a running process
  may exit, and once the target of a handler has exited the handler's processes start.\<close>

inductive launched :: "launch_action list \<Rightarrow> launch_event list \<Rightarrow> bool" for acts where
  nothing: "launched acts []"
| listed: "launched acts tr \<Longrightarrow> Start n \<in> set acts \<Longrightarrow> Started n \<notin> set tr \<Longrightarrow> launched acts (tr @ [Started n])"
| handler: "launched acts tr \<Longrightarrow> OnExit t ns \<in> set acts \<Longrightarrow> Exited t \<in> set tr \<Longrightarrow> n \<in> set ns
    \<Longrightarrow> Started n \<notin> set tr \<Longrightarrow> launched acts (tr @ [Started n])"
| exits: "launched acts tr \<Longrightarrow> Started n \<in> set tr \<Longrightarrow> Exited n \<notin> set tr \<Longrightarrow> launched acts (tr @ [Exited n])"

text \<open>The processes running after a sequence of events, and those a process has to wait for.\<close>

definition running :: "node \<Rightarrow> launch_event list \<Rightarrow> bool" where
  "running n tr \<longleftrightarrow> Started n \<in> set tr \<and> Exited n \<notin> set tr"

definition waits_for :: "launch_action list \<Rightarrow> node \<Rightarrow> node \<Rightarrow> bool" where
  "waits_for acts n t \<longleftrightarrow> Start n \<notin> set acts \<and> (\<forall>t' ns. OnExit t' ns \<in> set acts \<longrightarrow> n \<in> set ns \<longrightarrow> t' = t)"

lemma launched_waits:
  assumes "launched acts tr" "waits_for acts n t" "Started n \<in> set tr"
  shows "\<exists>pre post. tr = pre @ Started n # post \<and> Exited t \<in> set pre"
  using assms
proof (induction rule: launched.induct)
  case (listed tr m)
  then show ?case by (cases "m = n") (fastforce simp: waits_for_def)+
next
  case (handler tr t' ns m)
  then show ?case by (cases "m = n") (fastforce simp: waits_for_def)+
next
  case (exits tr m)
  then show ?case by fastforce
qed simp

lemma launched_exited_started: "launched acts tr \<Longrightarrow> Exited n \<in> set tr \<Longrightarrow> Started n \<in> set tr"
  by (induction rule: launched.induct) auto

lemma launched_started_once: "launched acts tr \<Longrightarrow> distinct tr"
  by (induction rule: launched.induct) auto

lemma spawner_eq [simp]: "spawner a = spawner b \<longleftrightarrow> a = b"
  by (simp add: spawner_def)

lemma create_node_eq [simp]: "create_node d n = create_node d' n' \<longleftrightarrow> d = d' \<and> n = n'"
  by (auto simp: create_node_def)

lemma spawner_neq [simp]:
  "spawner a \<noteq> create_node d n" "create_node d n \<noteq> spawner a" "spawner a \<noteq> state_publisher ps"
  "state_publisher ps \<noteq> spawner a" "spawner a \<noteq> bridge" "bridge \<noteq> spawner a"
  by (simp_all add: spawner_def create_node_def state_publisher_def bridge_def)


lemma jsb_spawner: "jsb = spawner ''joint_state_broadcaster''"
  by (simp add: jsb_def)

lemmas launch_files = sim_launch_def base_sim_launch_def robot_launch_def mm_actions_def Let_def gz_sim_def jsb_spawner

lemma controllers_wait:
  assumes "acts \<in> {sim_launch, base_sim_launch, robot_launch, mm_actions share gui world params cf}"
    and "c \<noteq> ''joint_state_broadcaster''"
  shows "waits_for acts (spawner c) jsb"
  using assms by (auto simp: waits_for_def launch_files) (simp_all add: spawner_def)

lemma broadcaster_waits:
  assumes "acts \<in> {sim_launch, base_sim_launch, mm_actions share gui world params cf}"
  shows "\<exists>d name. waits_for acts jsb (create_node d name)"
  using assms by (auto simp: waits_for_def launch_files)

subsection \<open>Properties\<close>

text \<open>No controller is started before the joint states flow. Whatever one of the four robot launch files is
  given and however its processes interleave: a controller's spawner is started only after the joint state
  broadcaster's spawner has exited, and in the three simulated robots that one is started only after the
  process that creates the model has exited.\<close>

theorem controllers_start_in_order:
  assumes "launched acts tr"
  shows "(acts \<in> {sim_launch, base_sim_launch, robot_launch, mm_actions share gui world params cf}
      \<and> Started (spawner c) \<in> set tr \<and> c \<noteq> ''joint_state_broadcaster''
      \<longrightarrow> (\<exists>pre post. tr = pre @ Started (spawner c) # post \<and> Exited jsb \<in> set pre))
    \<and> (acts \<in> {sim_launch, base_sim_launch, mm_actions share gui world params cf} \<and> Started jsb \<in> set tr
      \<longrightarrow> (\<exists>pre post description name. tr = pre @ Started jsb # post
            \<and> Exited (create_node description name) \<in> set pre))"
proof (intro conjI impI; elim conjE)
  assume a: "acts \<in> {sim_launch, base_sim_launch, robot_launch, mm_actions share gui world params cf}"
    "Started (spawner c) \<in> set tr" "c \<noteq> ''joint_state_broadcaster''"
  show "\<exists>pre post. tr = pre @ Started (spawner c) # post \<and> Exited jsb \<in> set pre"
    by (rule launched_waits [OF assms controllers_wait [OF a(1,3)] a(2)])
next
  assume a: "acts \<in> {sim_launch, base_sim_launch, mm_actions share gui world params cf}" "Started jsb \<in> set tr"
  then obtain d name where "waits_for acts jsb (create_node d name)" using broadcaster_waits by blast
  from launched_waits [OF assms this a(2)]
  show "\<exists>pre post description name. tr = pre @ Started jsb # post \<and> Exited (create_node description name) \<in> set pre"
    by blast
qed

text \<open>A run of the physical robot's launch file up to the arm controller's spawner.\<close>

lemma robot_run: "launched robot_launch [Started jsb, Exited jsb, Started (spawner ''arm_controller'')]"
proof -
  have 1: "launched robot_launch ([] @ [Started jsb])"
    by (rule launched.listed [OF launched.nothing]) (simp_all add: launch_files)
  have 2: "launched robot_launch ([Started jsb] @ [Exited jsb])"
    by (rule launched.exits) (use 1 in simp_all)
  have "launched robot_launch ([Started jsb, Exited jsb] @ [Started (spawner ''arm_controller'')])"
    by (rule launched.handler [where t = jsb and ns = "[spawner ''arm_controller'', spawner ''gripper_controller'']"])
      (use 2 in \<open>simp_all add: launch_files\<close>)
  then show ?thesis by simp
qed

theorem controllers_start_in_order_witness:
  "\<exists>pre post. [Started jsb, Exited jsb, Started (spawner ''arm_controller'')]
     = pre @ Started (spawner ''arm_controller'') # post \<and> Exited jsb \<in> set pre"
  using controllers_start_in_order [OF robot_run, of "\<lambda>s. s" "[]" "[]" "[]" "[]" "''arm_controller''"] by simp

text \<open>On the mobile manipulator the controllers' spawners may all run at once. The file says they are started one
  after the other, because starting them together races on the same service of the controller manager; but
  all three wait for the joint state broadcaster only, not for each other.\<close>

theorem mm_spawners_can_race:
  "\<exists>tr. launched (mm_actions share gui world params cf) tr \<and> running (spawner ''base_controller'') tr
     \<and> running (spawner ''arm_controller'') tr \<and> running (spawner ''gripper_controller'') tr"
proof -
  let ?acts = "mm_actions share gui world params cf"
  obtain spawn where sp: "Start spawn \<in> set ?acts" "OnExit spawn [jsb] \<in> set ?acts" "spawn \<noteq> jsb"
    by (auto simp: launch_files intro: that)
  have h: "OnExit jsb [spawner c] \<in> set ?acts" if "c \<in> {''base_controller'', ''arm_controller'', ''gripper_controller''}" for c
    using that by (auto simp: launch_files)
  have "launched ?acts ([] @ [Started spawn])" by (rule launched.listed [OF launched.nothing sp(1)]) simp
  then have "launched ?acts ([Started spawn] @ [Exited spawn])" by (intro launched.exits) simp_all
  then have "launched ?acts ([Started spawn, Exited spawn] @ [Started jsb])"
    by (intro launched.handler [OF _ sp(2)]) (use sp(3) in simp_all)
  then have "launched ?acts ([Started spawn, Exited spawn, Started jsb] @ [Exited jsb])"
    by (intro launched.exits) (use sp(3) in simp_all)
  then have 1: "launched ?acts ([Started spawn, Exited spawn, Started jsb, Exited jsb])" by simp
  have start: "launched ?acts (tr @ [Started (spawner c)])"
    if "launched ?acts tr" "c \<in> {''base_controller'', ''arm_controller'', ''gripper_controller''}" "Exited jsb \<in> set tr"
      "Started (spawner c) \<notin> set tr" for tr c
    by (rule launched.handler [OF that(1) h [OF that(2)] that(3) _ that(4)]) simp
  have ns: "spawn \<noteq> spawner c" "spawner c \<noteq> spawn" for c
    using sp(1) by (auto simp: launch_files)
  let ?tr = "[Started spawn, Exited spawn, Started jsb, Exited jsb, Started (spawner ''base_controller''),
      Started (spawner ''arm_controller''), Started (spawner ''gripper_controller'')]"
  from 1 have "launched ?acts ((([Started spawn, Exited spawn, Started jsb, Exited jsb] @ [Started (spawner ''base_controller'')])
      @ [Started (spawner ''arm_controller'')]) @ [Started (spawner ''gripper_controller'')])"
    by (intro start) (use ns in \<open>simp_all add: jsb_spawner\<close>)
  then have "launched ?acts ?tr" by simp
  moreover have "running (spawner ''base_controller'') ?tr \<and> running (spawner ''arm_controller'') ?tr
      \<and> running (spawner ''gripper_controller'') ?tr"
    using ns by (auto simp: running_def jsb_spawner)
  ultimately show ?thesis by blast
qed

end
