(* ===== verification/Cad_Profile.thy ===== *)
theory Cad_Profile
  imports Prelude
begin

text \<open>
  The robot profile as the CAD reads it (\<open>profile.py\<close>), and every dimension where two parts meet (\<open>fits.py\<close>).
  A profile is the document \<open>yaml.safe_load\<close> returns. A length that is not a number raises \<open>TypeError\<close> where it
  is read (the source computes with it next). Dimensions are reals, in millimetres.
\<close>

subsection \<open>\<open>profile.py\<close>\<close>

definition MM_PER_M :: real where "MM_PER_M = 1000"

definition load_profile :: "(string \<rightharpoonup> json) \<Rightarrow> string \<Rightarrow> string option \<Rightarrow> json res" where
  "load_profile files standard path =
     (case files (case path of None \<Rightarrow> standard | Some p \<Rightarrow> if p = [] then standard else p) of
        None \<Rightarrow> Inl FileNotFoundError
      | Some doc \<Rightarrow> Inr doc)"

definition mm :: "json \<Rightarrow> real res" where
  "mm metres = rbind (py_float metres) (\<lambda>x. Inr (x * MM_PER_M))"

definition mm_at :: "json \<Rightarrow> string \<Rightarrow> real res" where
  "mm_at geometry k = rbind (jitem geometry k) mm"

datatype link_geometry = BoxLink real real real | CylinderLink real real

definition link_mm :: "json \<Rightarrow> string \<Rightarrow> link_geometry res" where
  "link_mm cfg name =
     rbind (rbind (jitem cfg ''links'') (\<lambda>links. rbind (jitem links name) (\<lambda>l. jitem l ''geometry''))) (\<lambda>geometry.
     rbind (jitem geometry ''type'') (\<lambda>kind.
       if py_eq kind (JStr ''box'') then
         rbind (mm_at geometry ''x'') (\<lambda>x. rbind (mm_at geometry ''y'') (\<lambda>y. rbind (mm_at geometry ''z'') (\<lambda>z.
           Inr (BoxLink x y z))))
       else if py_eq kind (JStr ''cylinder'') then
         rbind (mm_at geometry ''radius'') (\<lambda>r. rbind (mm_at geometry ''length'') (\<lambda>l. Inr (CylinderLink r l)))
       else Inl ValueError))"

text \<open>\<open>link['x']\<close> and so on, of the dictionary \<open>link_mm\<close> returns.\<close>

definition link_item :: "link_geometry \<Rightarrow> string \<Rightarrow> real res" where
  "link_item g k =
     (case map_of (case g of BoxLink x y z \<Rightarrow> [(''x'', x), (''y'', y), (''z'', z)]
                   | CylinderLink r l \<Rightarrow> [(''radius'', r), (''length'', l)]) k of
        None \<Rightarrow> Inl (KeyError k)
      | Some v \<Rightarrow> Inr v)"

text \<open>\<open>dict(x)\<close> copies a dictionary and is empty for an empty string or list; a list of pairs is not modelled.\<close>

fun py_dict :: "json \<Rightarrow> json res" where
  "py_dict (JObj d) = Inr (JObj d)"
| "py_dict (JArr []) = Inr (JObj [])"
| "py_dict (JStr []) = Inr (JObj [])"
| "py_dict (JStr _) = Inl ValueError"
| "py_dict _ = Inl TypeError"

definition servo :: "json \<Rightarrow> string \<Rightarrow> json res" where
  "servo cfg name =
     rbind (rbind (jitem cfg ''servos'') (\<lambda>s. jitem s name)) (\<lambda>spec.
     rbind (jin ''body'' spec) (\<lambda>has.
       if \<not> has then Inl (KeyError ''body'') else rbind (jitem spec ''body'') py_dict))"

definition fabrication :: "json \<Rightarrow> json res" where
  "fabrication cfg =
     rbind (jin ''fabrication'' cfg) (\<lambda>has.
       if \<not> has then Inl (KeyError ''fabrication'') else rbind (jitem cfg ''fabrication'') py_dict)"

definition joint_servo :: "json \<Rightarrow> string \<Rightarrow> json res" where
  "joint_servo cfg joint =
     rbind (rbind (jitem cfg ''joints'') (\<lambda>js. jitem js joint)) (\<lambda>spec.
     rbind (jin ''servo'' spec) (\<lambda>has.
       if \<not> has then Inl (KeyError ''servo'') else jitem spec ''servo''))"

text \<open>A number in a dictionary of the profile.\<close>

definition num :: "json \<Rightarrow> string \<Rightarrow> real res" where
  "num d k = rbind (jitem d k) jnum"

subsection \<open>\<open>fits.py\<close>\<close>

definition screw_bore_radius :: "json \<Rightarrow> real res" where
  "screw_bore_radius cfg =
     rbind (fabrication cfg) (\<lambda>fab.
     rbind (num fab ''m3_hole_mm'') (\<lambda>hole. rbind (num fab ''hole_clearance_mm'') (\<lambda>c. Inr ((hole + c) / 2))))"

definition bushing_inner_radius :: "json \<Rightarrow> real res" where
  "bushing_inner_radius cfg = screw_bore_radius cfg"

definition bushing_outer_radius :: "json \<Rightarrow> real res" where
  "bushing_outer_radius cfg =
     rbind (fabrication cfg) (\<lambda>fab.
     rbind (bushing_inner_radius cfg) (\<lambda>r. rbind (num fab ''min_wall_mm'') (\<lambda>wall. Inr (r + wall))))"

definition bushing_flange_radius :: "json \<Rightarrow> real res" where
  "bushing_flange_radius cfg =
     rbind (fabrication cfg) (\<lambda>fab.
     rbind (bushing_outer_radius cfg) (\<lambda>r. rbind (num fab ''min_wall_mm'') (\<lambda>wall. Inr (r + wall))))"

definition pivot_bore_radius :: "json \<Rightarrow> bool \<Rightarrow> real res" where
  "pivot_bore_radius cfg bushed =
     (if \<not> bushed then screw_bore_radius cfg
      else
        rbind (fabrication cfg) (\<lambda>fab.
        rbind (bushing_outer_radius cfg) (\<lambda>r. rbind (num fab ''hole_clearance_mm'') (\<lambda>c. Inr (r + c)))))"

definition bearing_seat_outer_radius :: "json \<Rightarrow> real res" where
  "bearing_seat_outer_radius cfg =
     rbind (fabrication cfg) (\<lambda>fab.
     rbind (link_mm cfg ''shoulder_link'') (\<lambda>turret.
     rbind (link_item turret ''radius'') (\<lambda>r. rbind (num fab ''min_wall_mm'') (\<lambda>wall. Inr (r + 2 * wall)))))"

definition bearing_seat_inner_radius :: "json \<Rightarrow> real res" where
  "bearing_seat_inner_radius cfg =
     rbind (fabrication cfg) (\<lambda>fab.
     rbind (link_mm cfg ''shoulder_link'') (\<lambda>turret.
     rbind (link_item turret ''radius'') (\<lambda>r. rbind (num fab ''hole_clearance_mm'') (\<lambda>c. Inr (r + c)))))"

definition turret_bore_radius :: "json \<Rightarrow> real res" where
  "turret_bore_radius cfg =
     rbind (fabrication cfg) (\<lambda>fab.
     rbind (bearing_seat_outer_radius cfg) (\<lambda>r. rbind (num fab ''hole_clearance_mm'') (\<lambda>c. Inr (r + c))))"

definition washer_bore_radius :: "json \<Rightarrow> real res" where
  "washer_bore_radius cfg =
     rbind (fabrication cfg) (\<lambda>fab.
     rbind (bearing_seat_outer_radius cfg) (\<lambda>r. rbind (num fab ''hole_clearance_mm'') (\<lambda>c. Inr (r + c))))"

definition washer_outer_radius :: "json \<Rightarrow> real res" where
  "washer_outer_radius cfg =
     rbind (fabrication cfg) (\<lambda>fab.
     rbind (turret_bore_radius cfg) (\<lambda>r. rbind (num fab ''min_wall_mm'') (\<lambda>wall. Inr (r + 2 * wall))))"

text \<open>Every fit, as the hole, the part that enters it and a label.\<close>

definition MATING_PAIRS :: "((json \<Rightarrow> real res) \<times> (json \<Rightarrow> real res) option \<times> string) list" where
  "MATING_PAIRS =
     [(\<lambda>cfg. pivot_bore_radius cfg True, Some bushing_outer_radius, ''bushing in a pivot bore''),
      (turret_bore_radius, Some bearing_seat_outer_radius, ''turret over the bearing seat''),
      (washer_bore_radius, Some bearing_seat_outer_radius, ''thrust washer over the bearing seat''),
      (bushing_inner_radius, None, ''M3 screw through a bushing'')]"

end
