(* ===== verification/Cad_Parts.thy ===== *)
theory Cad_Parts
  imports Cad_Profile
begin

text \<open>
  The printed parts (\<open>parts.py\<close>). A builder is the sequence of modelling calls it makes, in order: each adds a
  primitive to the part or subtracts it, at the location of the enclosing \<open>with Locations\<close> blocks (outermost
  first). What the modeller makes of the calls is outside the source; \<open>material\<close>, in the second half, is what
  its documentation says of these calls, as a set of points, and is used to state properties only. Creating
  a primitive in order to \<open>insert\<close> it is one call with the inserting mode. The modeller may refuse a primitive (a
  rounded rectangle whose corners do not fit, a size that is not positive): \<open>run_builder\<close> makes the calls against a
  modeller, an argument that says which primitives raise what.
\<close>

subsection \<open>Modelling calls\<close>

datatype op_mode = Add | Subtract

datatype zalign = AMin | ACenter

datatype prim =
    PBox real real real
  | PCylinder real real
  | PRounded real real real real
  | PSlot real real real

datatype loc = LXY real | LXZ real | LYZ real | LAt real real real

datatype cad_call = Call op_mode prim zalign "loc list"

type_synonym builder = "json \<Rightarrow> string \<Rightarrow> cad_call list res"

text \<open>Holes several builders make the same way: across a part along \<open>y\<close>, and two opposite ones on a circle.\<close>

definition side_hole :: "real \<Rightarrow> real \<Rightarrow> real \<Rightarrow> real \<Rightarrow> cad_call" where
  "side_hole r width x z = Call Subtract (PCylinder r (width * 2)) ACenter [LXZ (- width / 2), LAt x z 0]"

definition two_screws :: "real \<Rightarrow> real \<Rightarrow> real \<Rightarrow> real \<Rightarrow> real \<Rightarrow> cad_call list" where
  "two_screws bore h circle_radius phase z =
     map (\<lambda>index. let angle = pi * real index + phase in
            Call Subtract (PCylinder bore h) ACenter [LAt (circle_radius * cos angle) (circle_radius * sin angle) z])
       [0..<2]"

subsection \<open>Brackets and beams\<close>

text \<open>The dimensions of \<open>_servo_pocket\<close>.\<close>

definition servo_pocket :: "json \<Rightarrow> json \<Rightarrow> real option \<Rightarrow> prim res" where
  "servo_pocket sv fab depth =
     rbind (num fab ''servo_pocket_clearance_mm'') (\<lambda>slack.
     rbind (num sv ''length_mm'') (\<lambda>l. rbind (num sv ''width_mm'') (\<lambda>w.
     rbind (case depth of None \<Rightarrow> num sv ''height_mm'' | Some d \<Rightarrow> Inr d) (\<lambda>h.
       Inr (PBox (l + 2 * slack) (w + 2 * slack) (h + slack))))))"

definition shoulder_bracket :: builder where
  "shoulder_bracket cfg mechanism =
     (if mechanism \<notin> {''direct'', ''linkage''} then Inl ValueError
      else
        rbind (fabrication cfg) (\<lambda>fab. rbind (servo cfg ''mg996r'') (\<lambda>sv. rbind (link_mm cfg ''shoulder_link'') (\<lambda>shoulder.
        rbind (num fab ''min_wall_mm'') (\<lambda>wall.
        rbind (num sv ''width_mm'') (\<lambda>sw. rbind (num fab ''servo_pocket_clearance_mm'') (\<lambda>slack.
        rbind (num sv ''mount_hole_spacing_mm'') (\<lambda>spacing. rbind (num fab ''m3_head_mm'') (\<lambda>head.
        rbind (num sv ''flange_height_mm'') (\<lambda>fh.
        let width = sw + 2 * wall + 2 * slack;
            radius = (case link_item shoulder ''radius'' of Inl _ \<Rightarrow> 0 | Inr r \<Rightarrow> r);
            depth = max (2 * radius) (spacing + 2 * head);
            height = fh + wall;
            body = Call Add (PRounded depth width (min (wall * 2) 3) height) AMin []
        in if mechanism = ''direct'' then
             rbind (servo_pocket sv fab None) (\<lambda>pocket. rbind (screw_bore_radius cfg) (\<lambda>bore.
               Inr [body, Call Subtract pocket AMin [LAt 0 0 wall],
                    Call Subtract (PCylinder bore (height * 3)) ACenter [LXY height, LAt (- spacing / 2) 0 0],
                    Call Subtract (PCylinder bore (height * 3)) ACenter [LXY height, LAt (spacing / 2) 0 0]]))
           else
             rbind (screw_bore_radius cfg) (\<lambda>bore.
               Inr [body,
                    Call Subtract (PCylinder bore (depth * 3)) ACenter [LYZ depth, LAt 0 (height / 2) 0],
                    Call Subtract (PCylinder bore (depth * 3)) ACenter [LYZ depth, LAt (depth * (3 / 10)) (height / 2) 0]])))))))))))"

definition beam :: "json \<Rightarrow> string \<Rightarrow> string \<Rightarrow> string option \<Rightarrow> cad_call list res" where
  "beam cfg link_name mechanism distal_servo =
     rbind (fabrication cfg) (\<lambda>fab. rbind (link_mm cfg link_name) (\<lambda>link. rbind (num fab ''min_wall_mm'') (\<lambda>wall.
       case link of
         CylinderLink _ _ \<Rightarrow> Inl ValueError
       | BoxLink thickness width len \<Rightarrow>
           rbind (pivot_bore_radius cfg True) (\<lambda>bore.
           let pivot = side_hole bore width 0;
               body = [Call Add (PBox thickness width len) AMin [],
                       Call Subtract (PBox (thickness - 2 * wall) (width - 2 * wall) (len - 2 * wall)) AMin [LAt 0 0 wall],
                       pivot (wall / 2), pivot (len - wall / 2)]
           in if mechanism = ''linkage'' then Inr (body @ [pivot (len * (18 / 100))])
              else case distal_servo of
                None \<Rightarrow> Inr body
              | Some s \<Rightarrow>
                  rbind (servo cfg s) (\<lambda>sv. rbind (num sv ''mount_hole_spacing_mm'') (\<lambda>spacing.
                    Inr (body @ map (\<lambda>offset. Call Subtract (PCylinder bore (wall * 4)) ACenter
                                              [LXY len, LAt 0 (offset * (1 / 4)) 0])
                                    [- spacing / 2, spacing / 2])))))))"

definition upper_arm_link :: builder where
  "upper_arm_link cfg mechanism = beam cfg ''upper_arm_link'' mechanism (Some ''mg996r'')"

definition forearm_link :: builder where
  "forearm_link cfg mechanism = beam cfg ''forearm_link'' mechanism (Some ''sg90'')"

subsection \<open>Base, turret, wrist\<close>

definition hypot :: "real \<Rightarrow> real \<Rightarrow> real" where
  "hypot x y = sqrt (x * x + y * y)"

definition base_plate :: builder where
  "base_plate cfg mechanism =
     rbind (fabrication cfg) (\<lambda>fab. rbind (link_mm cfg ''base_link'') (\<lambda>base. rbind (servo cfg ''mg996r'') (\<lambda>sv.
     rbind (num fab ''min_wall_mm'') (\<lambda>wall.
       case base of
         CylinderLink _ _ \<Rightarrow> Inl ValueError
       | BoxLink x y z \<Rightarrow>
           rbind (bearing_seat_outer_radius cfg) (\<lambda>seat.
           rbind (num sv ''length_mm'') (\<lambda>sl. rbind (num fab ''servo_pocket_clearance_mm'') (\<lambda>slack.
           rbind (num sv ''width_mm'') (\<lambda>sw.
           rbind (bearing_seat_inner_radius cfg) (\<lambda>inner.
           rbind (num fab ''m3_head_mm'') (\<lambda>head. rbind (screw_bore_radius cfg) (\<lambda>bore.
           rbind (servo_pocket sv fab None) (\<lambda>pocket.
           let diagonal = hypot (sl + 2 * slack) (sw + 2 * slack) / 2;
               inset = min x y * (1 / 2) - head
           in Inr ([Call Add (PRounded x y (min (wall * 2) 4) z) AMin [],
                    Call Subtract (PBox (x - 2 * wall) (y - 2 * wall) (z - wall)) AMin [LAt 0 0 wall],
                    Call Add (PCylinder seat z) AMin [],
                    Call Add (PCylinder seat (wall * 2)) AMin [LAt 0 0 z],
                    Call Subtract (PCylinder (max inner diagonal) (z * 2)) AMin [LAt 0 0 wall]]
                   @ map (\<lambda>(sx, sy). Call Subtract (PCylinder bore (z * 3)) ACenter [LAt (sx * inset) (sy * inset) 0])
                         [(- 1, - 1), (- 1, 1), (1, - 1), (1, 1)]
                   @ [Call Subtract pocket AMin [LAt 0 0 wall]])))))))))))))"

text \<open>The height of the shoulder lift axis.\<close>

definition lift_axis :: "json \<Rightarrow> real res" where
  "lift_axis cfg =
     rbind (rbind (jitem cfg ''joints'') (\<lambda>js. rbind (jitem js ''shoulder_lift_joint'') (\<lambda>j.
            rbind (jitem j ''origin'') (\<lambda>oj. rbind (jitem oj ''xyz'') (\<lambda>xyz. jsub xyz (JInt 2)))))) mm"

definition servo_cavities :: "nat \<Rightarrow> real \<Rightarrow> real \<Rightarrow> real \<Rightarrow> real \<Rightarrow> real \<Rightarrow> real \<Rightarrow> cad_call list" where
  "servo_cavities mounted sl sh wall slack height cavity_floor =
     map (\<lambda>index. Call Subtract (PBox (sl + 2 * slack) (sh + 2 * slack) (height - cavity_floor + wall)) AMin
                    [LAt 0 ((real index - (real mounted - 1) / 2) * (sh + 2 * wall)) cavity_floor])
       [0..<mounted]"

definition shoulder_turret :: builder where
  "shoulder_turret cfg mechanism =
     rbind (fabrication cfg) (\<lambda>fab. rbind (link_mm cfg ''shoulder_link'') (\<lambda>turret. rbind (servo cfg ''mg996r'') (\<lambda>sv.
     rbind (num fab ''min_wall_mm'') (\<lambda>wall. rbind (num fab ''servo_pocket_clearance_mm'') (\<lambda>slack.
     rbind (lift_axis cfg) (\<lambda>axis_z.
     rbind (num sv ''mount_hole_spacing_mm'') (\<lambda>spacing. rbind (num fab ''m3_head_mm'') (\<lambda>head.
     rbind (num sv ''width_mm'') (\<lambda>sw.
     let mounted = (if mechanism = ''linkage'' then 2 else 1);
         span = spacing + 2 * head;
         lying_height = sw + 2 * slack;
         cavity_floor = axis_z - lying_height / 2
     in if cavity_floor < wall then Inl ValueError
        else
          rbind (num sv ''height_mm'') (\<lambda>sh. rbind (turret_bore_radius cfg) (\<lambda>tb.
          rbind (num sv ''length_mm'') (\<lambda>sl. rbind (num sv ''horn_diameter_mm'') (\<lambda>horn.
          rbind (num fab ''hole_clearance_mm'') (\<lambda>c. rbind (screw_bore_radius cfg) (\<lambda>bore.
          rbind (num sv ''horn_screw_circle_mm'') (\<lambda>circle.
          let width = max (real mounted * (sh + 2 * wall)) (2 * tb + 2 * wall);
              height = axis_z + lying_height / 2 + wall
          in Inr ([Call Add (PRounded span width (min (wall * 2) 3) height) AMin [],
                   Call Subtract (PCylinder tb (height + wall)) AMin []]
                  @ servo_cavities mounted sl sh wall slack height cavity_floor
                  @ [side_hole (horn / 2 + c) width 0 axis_z]
                  @ map (\<lambda>offset. side_hole bore width offset axis_z) [- spacing / 2, spacing / 2]
                  @ two_screws bore (wall * 6) (circle / 2 + head / 2) (pi / 4) 0)))))))))))))))))"

definition wrist_bracket :: builder where
  "wrist_bracket cfg mechanism =
     rbind (fabrication cfg) (\<lambda>fab. rbind (link_mm cfg ''wrist_link'') (\<lambda>wrist. rbind (servo cfg ''sg90'') (\<lambda>sv.
     rbind (num fab ''min_wall_mm'') (\<lambda>wall.
       case wrist of
         BoxLink _ _ _ \<Rightarrow> Inl ValueError
       | CylinderLink r len \<Rightarrow>
           rbind (num sv ''horn_screw_circle_mm'') (\<lambda>circle.
           rbind (screw_bore_radius cfg) (\<lambda>bore.
           let radius = max r (circle / 2 + wall) in Inr ([Call Add (PCylinder radius len) AMin [],
                    Call Subtract (PCylinder (radius - wall) (len - 2 * wall)) AMin [LAt 0 0 wall]]
                   @ two_screws bore (wall * 4) (circle / 2) 0 0
                   @ two_screws bore (wall * 4) (circle / 2) (pi / 2) len)))))))"


subsection \<open>Gripper\<close>

definition gripper_base :: builder where
  "gripper_base cfg mechanism =
     rbind (fabrication cfg) (\<lambda>fab. rbind (link_mm cfg ''gripper_base_link'') (\<lambda>body.
     rbind (link_mm cfg ''gripper_left_finger_link'') (\<lambda>finger. rbind (servo cfg ''sg90'') (\<lambda>sv.
     rbind (num fab ''min_wall_mm'') (\<lambda>wall.
     rbind (link_item body ''x'') (\<lambda>x. rbind (link_item body ''y'') (\<lambda>y. rbind (link_item body ''z'') (\<lambda>z.
     rbind (servo_pocket sv fab (Some (z - wall))) (\<lambda>pocket.
     rbind (num fab ''hole_clearance_mm'') (\<lambda>slack.
     rbind (link_item finger ''x'') (\<lambda>fx. rbind (link_item finger ''y'') (\<lambda>fy.
       Inr ([Call Add (PRounded x y (min wall 2) z) AMin [],
             Call Subtract pocket AMin [LAt 0 0 wall]]
            @ map (\<lambda>sign. Call Subtract (PBox (fx + 2 * slack) (fy + 2 * slack) (wall * 3)) ACenter
                            [LAt 0 (sign * y / 4) z])
                  [- 1, 1])))))))))))))"

definition gripper_finger :: builder where
  "gripper_finger cfg mechanism =
     rbind (fabrication cfg) (\<lambda>fab. rbind (link_mm cfg ''gripper_left_finger_link'') (\<lambda>finger.
     rbind (num fab ''min_wall_mm'') (\<lambda>wall.
     rbind (link_item finger ''x'') (\<lambda>x. rbind (link_item finger ''y'') (\<lambda>y. rbind (link_item finger ''z'') (\<lambda>z.
       Inr [Call Add (PBox x y z) AMin [],
            Call Subtract (PBox wall (y * 2) (z * (1 / 2))) ACenter [LAt (x / 2) 0 (z * (3 / 4))]]))))))"

subsection \<open>Assembly parts\<close>

fun require_keys :: "json \<Rightarrow> string list \<Rightarrow> unit res" where
  "require_keys d [] = Inr ()"
| "require_keys d (k # ks) = rbind (jin k d) (\<lambda>has. if \<not> has then Inl (KeyError k) else require_keys d ks)"

definition horn_adapter :: "string \<Rightarrow> builder" where
  "horn_adapter servo_name cfg mechanism =
     rbind (fabrication cfg) (\<lambda>fab. rbind (servo cfg servo_name) (\<lambda>sv. rbind (num fab ''min_wall_mm'') (\<lambda>wall.
     rbind (require_keys sv [''horn_screw_circle_mm'', ''horn_screw_count'', ''horn_screw_hole_mm'', ''horn_thickness_mm'']) (\<lambda>_.
     rbind (num sv ''horn_screw_circle_mm'') (\<lambda>circle. rbind (num fab ''m3_head_mm'') (\<lambda>head.
     rbind (num sv ''horn_thickness_mm'') (\<lambda>horn_t. rbind (num fab ''hole_clearance_mm'') (\<lambda>c.
     rbind (num sv ''horn_diameter_mm'') (\<lambda>horn_d.
     rbind (rbind (jitem sv ''horn_screw_count'') py_int) (\<lambda>count.
     rbind (num sv ''horn_screw_hole_mm'') (\<lambda>hole.
     rbind (screw_bore_radius cfg) (\<lambda>bore.
     let outer = circle / 2 + head;
         thickness = horn_t + 2 * wall;
         driven = outer - head / 2
     in Inr ([Call Add (PCylinder outer thickness) AMin [],
              Call Subtract (PCylinder (circle / 2 + wall) (horn_t + c)) AMin [],
              Call Subtract (PCylinder ((horn_d + 2 * c) / 2) (thickness * 3)) ACenter []]
             @ map (\<lambda>index. let angle = 2 * pi * real index / real_of_int count in
                             Call Subtract (PCylinder ((hole + c) / 2) (thickness * 3)) ACenter
                               [LAt (circle / 2 * cos angle) (circle / 2 * sin angle) 0])
                   [0..<nat count]
             @ two_screws bore (thickness * 3) driven (pi / 4) 0)))))))))))))"

definition push_rod :: builder where
  "push_rod cfg mechanism =
     (if mechanism \<noteq> ''linkage'' then Inl ValueError
      else
        rbind (fabrication cfg) (\<lambda>fab. rbind (link_mm cfg ''upper_arm_link'') (\<lambda>upper. rbind (num fab ''min_wall_mm'') (\<lambda>wall.
        rbind (link_item upper ''z'') (\<lambda>len. rbind (pivot_bore_radius cfg True) (\<lambda>bore.
        let width = bore * 2 + 2 * wall;
            thickness = max (wall * 2) 4
        in Inr (Call Add (PSlot len width thickness) AMin []
                # map (\<lambda>x. Call Subtract (PCylinder bore (thickness * 3)) ACenter [LAt x 0 0]) [- len / 2, len / 2])))))))"

definition pivot_bushing :: builder where
  "pivot_bushing cfg mechanism =
     rbind (fabrication cfg) (\<lambda>fab. rbind (num fab ''min_wall_mm'') (\<lambda>wall.
     rbind (bushing_outer_radius cfg) (\<lambda>outer. rbind (bushing_inner_radius cfg) (\<lambda>inner.
     rbind (bushing_flange_radius cfg) (\<lambda>flange.
       Inr [Call Add (PCylinder outer (wall * 4)) AMin [],
            Call Subtract (PCylinder inner (wall * 12)) ACenter [],
            Call Add (PCylinder flange wall) AMin [],
            Call Subtract (PCylinder inner (wall * 4)) AMin []])))))"

definition thrust_washer :: builder where
  "thrust_washer cfg mechanism =
     rbind (fabrication cfg) (\<lambda>fab. rbind (link_mm cfg ''shoulder_link'') (\<lambda>turret. rbind (num fab ''min_wall_mm'') (\<lambda>wall.
       case turret of
         BoxLink _ _ _ \<Rightarrow> Inl ValueError
       | CylinderLink _ _ \<Rightarrow>
           rbind (washer_outer_radius cfg) (\<lambda>outer. rbind (washer_bore_radius cfg) (\<lambda>bore.
             Inr [Call Add (PCylinder outer wall) AMin [],
                  Call Subtract (PCylinder bore (wall * 3)) ACenter []])))))"

subsection \<open>The parts of a mechanism\<close>

definition PARTS :: "(string \<times> builder) list" where
  "PARTS =
     [(''base_plate'', base_plate), (''shoulder_turret'', shoulder_turret), (''upper_arm_link'', upper_arm_link),
      (''forearm_link'', forearm_link), (''wrist_bracket'', wrist_bracket), (''gripper_base'', gripper_base),
      (''gripper_finger'', gripper_finger), (''horn_adapter_mg996r'', horn_adapter ''mg996r''),
      (''horn_adapter_sg90'', horn_adapter ''sg90''), (''pivot_bushing'', pivot_bushing),
      (''thrust_washer'', thrust_washer)]"

definition MECHANISM_ONLY :: "(string \<times> (string \<times> builder) list) list" where
  "MECHANISM_ONLY = [(''linkage'', [(''push_rod'', push_rod), (''shoulder_bracket'', shoulder_bracket)]), (''direct'', [])]"

definition MECHANISMS :: "string list" where
  "MECHANISMS = [''direct'', ''linkage'']"

definition parts_for :: "string \<Rightarrow> (string \<times> builder) list res" where
  "parts_for mechanism =
     (if mechanism \<notin> set MECHANISMS then Inl ValueError
      else case map_of MECHANISM_ONLY mechanism of
        None \<Rightarrow> Inl (KeyError mechanism)
      | Some only \<Rightarrow> Inr (foldl (\<lambda>d (k, v). AList.update k v d) PARTS only))"

subsection \<open>What the calls mean\<close>

type_synonym point = "real \<times> real \<times> real"

definition sq :: "real \<Rightarrow> real" where
  "sq x = x * x"

text \<open>How far a coordinate lies outside \<open>[-h, h]\<close>.\<close>

definition beyond :: "real \<Rightarrow> real \<Rightarrow> real" where
  "beyond h x = max 0 (\<bar>x\<bar> - h)"

definition z_range :: "real \<Rightarrow> zalign \<Rightarrow> real \<Rightarrow> bool" where
  "z_range h a z = (case a of AMin \<Rightarrow> 0 \<le> z \<and> z \<le> h | ACenter \<Rightarrow> \<bar>z\<bar> \<le> h / 2)"

fun in_prim :: "prim \<Rightarrow> zalign \<Rightarrow> point \<Rightarrow> bool" where
  "in_prim (PBox l w h) a (x, y, z) \<longleftrightarrow> \<bar>x\<bar> \<le> l / 2 \<and> \<bar>y\<bar> \<le> w / 2 \<and> z_range h a z"
| "in_prim (PCylinder r h) a (x, y, z) \<longleftrightarrow> 0 \<le> r \<and> sq x + sq y \<le> sq r \<and> z_range h a z"
| "in_prim (PRounded l w r h) a (x, y, z) \<longleftrightarrow> \<bar>x\<bar> \<le> l / 2 \<and> \<bar>y\<bar> \<le> w / 2
     \<and> sq (beyond (l / 2 - r) x) + sq (beyond (w / 2 - r) y) \<le> sq r \<and> z_range h a z"
| "in_prim (PSlot l w h) a (x, y, z) \<longleftrightarrow> sq (beyond (l / 2) x) + sq y \<le> sq (w / 2) \<and> z_range h a z"

text \<open>A point in the coordinates of a location. The normal of the plane \<open>XZ\<close> is \<open>-y\<close>, that of \<open>YZ\<close> is \<open>x\<close>.\<close>

fun to_local :: "loc \<Rightarrow> point \<Rightarrow> point" where
  "to_local (LXY d) (x, y, z) = (x, y, z - d)"
| "to_local (LXZ d) (x, y, z) = (x, z, - y - d)"
| "to_local (LYZ d) (x, y, z) = (y, z, x - d)"
| "to_local (LAt a b c) (x, y, z) = (x - a, y - b, z - c)"

definition hit :: "cad_call \<Rightarrow> point \<Rightarrow> bool" where
  "hit c p = (case c of Call m s a ls \<Rightarrow> in_prim s a (foldl (\<lambda>q l. to_local l q) p ls))"

definition op :: "cad_call \<Rightarrow> op_mode" where
  "op c = (case c of Call m s a ls \<Rightarrow> m)"

definition material :: "cad_call list \<Rightarrow> point \<Rightarrow> bool" where
  "material calls p = foldl (\<lambda>inside c. if op c = Add then inside \<or> hit c p else inside \<and> \<not> hit c p) False calls"


subsection \<open>Lemmas: material\<close>

lemma material_snoc:
  "material (cs @ [c]) p \<longleftrightarrow> (if op c = Add then material cs p \<or> hit c p else material cs p \<and> \<not> hit c p)"
  by (simp add: material_def)

lemma material_Nil [simp]: "\<not> material [] p"
  by (simp add: material_def)

text \<open>What is removed stays removed unless something is added there later.\<close>

lemma material_removed:
  assumes "c \<in> set (x # post)" "op x = Subtract" "list_all (\<lambda>c. op c = Subtract) post" "hit c p"
  shows "\<not> material (pre @ x # post) p"
proof -
  have sub: "\<forall>c \<in> set (x # post). op c = Subtract" using assms(2,3) by (auto simp: list_all_iff)
  have "\<not> material (pre @ ys) p" if "\<forall>c \<in> set ys. op c = Subtract" "c \<in> set ys" for ys
    using that
  proof (induction ys rule: rev_induct)
    case (snoc y ys)
    then show ?case
      using assms(4) by (cases "y = c") (auto simp: material_snoc simp flip: append_assoc)
  qed simp
  from this [OF sub assms(1)] show ?thesis by simp
qed

text \<open>A subtraction where nothing is left changes nothing.\<close>

lemma material_useless:
  assumes "\<And>p. hit c p \<Longrightarrow> \<not> material pre p" "op c = Subtract"
  shows "material (pre @ [c]) = material pre"
proof
  fix p
  show "material (pre @ [c]) p = material pre p" using assms(1) [of p] assms(2) by (auto simp: material_snoc)
qed


subsection \<open>Lemmas: points of a primitive\<close>

lemma sq_mono: "\<bar>a\<bar> \<le> b \<Longrightarrow> sq a \<le> sq b"
  unfolding sq_def by (metis abs_le_square_iff abs_of_nonneg abs_ge_zero order_trans power2_eq_square)

lemma sq_nonneg [simp]: "0 \<le> sq x"
  by (simp add: sq_def)

lemma material_within:
  assumes "material calls p"
  shows "\<exists>c \<in> set calls. op c = Add \<and> hit c p"
  using assms by (induction calls rule: rev_induct) (auto simp: material_snoc split: if_splits)

lemma hit_here [simp]: "hit (Call m s a []) p \<longleftrightarrow> in_prim s a p"
  by (simp add: hit_def)

lemma hit_at [simp]: "hit (Call m s a (l # ls)) p \<longleftrightarrow> hit (Call m s a ls) (to_local l p)"
  by (simp add: hit_def)

lemma op_Call [simp]: "op (Call m s a ls) = m"
  by (simp add: op_def)

subsection \<open>Lemmas: what the builders call\<close>

text \<open>The turret: its body, the bore over its whole height, then only subtractions, the last two of them for the
  screws to the pan servo's horn adapter.\<close>

lemma subtractions [simp]:
  "op (side_hole r width x z) = Subtract" "list_all (\<lambda>c. op c = Subtract) (two_screws bore h d phase z)"
  "list_all (\<lambda>c. op c = Subtract) (servo_cavities mounted sl sh wall slack height fl)"
  by (simp_all add: side_hole_def two_screws_def servo_cavities_def list_all_iff Let_def)

lemma shoulder_turret_calls:
  assumes "shoulder_turret cfg mechanism = Inr calls"
  obtains fab sv wall slack head sw axis_z tb circle bore height mid w l where
    "fabrication cfg = Inr fab" "servo cfg ''mg996r'' = Inr sv" "num fab ''min_wall_mm'' = Inr wall"
    "num fab ''m3_head_mm'' = Inr head" "num sv ''horn_screw_circle_mm'' = Inr circle"
    "turret_bore_radius cfg = Inr tb" "screw_bore_radius cfg = Inr bore"
    "calls = [Call Add (PRounded l w (min (wall * 2) 3) height) AMin [], Call Subtract (PCylinder tb (height + wall)) AMin []]
       @ mid @ two_screws bore (wall * 6) (circle / 2 + head / 2) (pi / 4) 0"
    "list_all (\<lambda>c. op c = Subtract) mid"
proof -
  from assms obtain fab turret sv wall slack axis_z spacing head sw sh tb sl horn c bore circle where
    n: "fabrication cfg = Inr fab" "link_mm cfg ''shoulder_link'' = Inr turret" "servo cfg ''mg996r'' = Inr sv"
      "num fab ''min_wall_mm'' = Inr wall" "num fab ''servo_pocket_clearance_mm'' = Inr slack" "lift_axis cfg = Inr axis_z"
      "num sv ''mount_hole_spacing_mm'' = Inr spacing" "num fab ''m3_head_mm'' = Inr head" "num sv ''width_mm'' = Inr sw"
      "\<not> axis_z - (sw + 2 * slack) / 2 < wall"
      "num sv ''height_mm'' = Inr sh" "turret_bore_radius cfg = Inr tb" "num sv ''length_mm'' = Inr sl"
      "num sv ''horn_diameter_mm'' = Inr horn" "num fab ''hole_clearance_mm'' = Inr c" "screw_bore_radius cfg = Inr bore"
      "num sv ''horn_screw_circle_mm'' = Inr circle"
    by (auto simp: shoulder_turret_def rbind_eq_Inr Let_def split: if_splits)
  let ?mounted = "if mechanism = ''linkage'' then 2 else 1"
  let ?height = "axis_z + (sw + 2 * slack) / 2 + wall"
  let ?width = "max (real ?mounted * (sh + 2 * wall)) (2 * tb + 2 * wall)"
  let ?mid = "servo_cavities ?mounted sl sh wall slack ?height (axis_z - (sw + 2 * slack) / 2)
      @ [side_hole (horn / 2 + c) ?width 0 axis_z] @ map (\<lambda>offset. side_hole bore ?width offset axis_z) [- spacing / 2, spacing / 2]"
  have "calls = [Call Add (PRounded (spacing + 2 * head) ?width (min (wall * 2) 3) ?height) AMin [],
      Call Subtract (PCylinder tb (?height + wall)) AMin []] @ ?mid @ two_screws bore (wall * 6) (circle / 2 + head / 2) (pi / 4) 0"
    using assms unfolding shoulder_turret_def n rbind_Inr Let_def if_not_P [OF n(10)] by simp
  then show thesis by (rule that [OF n(1,3,4,8,17,12,16)]) simp
qed


lemma thrust_washer_calls:
  assumes "thrust_washer cfg mechanism = Inr calls"
  obtains fab wall outer bore where "fabrication cfg = Inr fab" "num fab ''min_wall_mm'' = Inr wall"
    "washer_bore_radius cfg = Inr bore"
    "calls = [Call Add (PCylinder outer wall) AMin [], Call Subtract (PCylinder bore (wall * 3)) ACenter []]"
proof -
  from assms obtain fab turret wall where n: "fabrication cfg = Inr fab" "link_mm cfg ''shoulder_link'' = Inr turret"
    "num fab ''min_wall_mm'' = Inr wall"
    by (auto simp: thrust_washer_def rbind_eq_Inr)
  note c = assms [unfolded thrust_washer_def n rbind_Inr]
  then obtain r l where "turret = CylinderLink r l" by (cases turret) auto
  with c n that show thesis by (auto simp: rbind_eq_Inr)
qed

lemma pivot_bushing_calls:
  assumes "pivot_bushing cfg mechanism = Inr calls"
  obtains fab wall outer inner flange where "fabrication cfg = Inr fab" "num fab ''min_wall_mm'' = Inr wall"
    "bushing_inner_radius cfg = Inr inner"
    "calls = [Call Add (PCylinder outer (wall * 4)) AMin [], Call Subtract (PCylinder inner (wall * 12)) ACenter [],
       Call Add (PCylinder flange wall) AMin [], Call Subtract (PCylinder inner (wall * 4)) AMin []]"
  using assms by (auto simp: pivot_bushing_def rbind_eq_Inr)

lemma base_plate_calls:
  assumes "base_plate cfg mechanism = Inr calls"
  obtains fab sv wall pocket body where "fabrication cfg = Inr fab" "servo cfg ''mg996r'' = Inr sv"
    "num fab ''min_wall_mm'' = Inr wall" "servo_pocket sv fab None = Inr pocket"
    "calls = body @ [Call Subtract pocket AMin [LAt 0 0 wall]]"
proof -
  from assms obtain fab base sv wall where n: "fabrication cfg = Inr fab" "link_mm cfg ''base_link'' = Inr base"
    "servo cfg ''mg996r'' = Inr sv" "num fab ''min_wall_mm'' = Inr wall"
    by (auto simp: base_plate_def rbind_eq_Inr)
  note c = assms [unfolded base_plate_def n rbind_Inr]
  then obtain x y z where base: "base = BoxLink x y z" by (cases base) auto
  note c = c [unfolded base link_geometry.case]
  then obtain seat sl slack sw inner head bore pocket where m:
    "bearing_seat_outer_radius cfg = Inr seat" "num sv ''length_mm'' = Inr sl"
    "num fab ''servo_pocket_clearance_mm'' = Inr slack" "num sv ''width_mm'' = Inr sw"
    "bearing_seat_inner_radius cfg = Inr inner" "num fab ''m3_head_mm'' = Inr head" "screw_bore_radius cfg = Inr bore"
    "servo_pocket sv fab None = Inr pocket"
    by (auto simp: rbind_eq_Inr)
  note c = c [unfolded m rbind_Inr Let_def, symmetric]
  show thesis by (rule that [OF n(1,3,4) m(8)]) (use c in \<open>simp flip: append_assoc\<close>)
qed

lemma beam_calls:
  assumes "beam cfg link_name mechanism distal = Inr calls"
  obtains fab wall thickness width len bore rest where "fabrication cfg = Inr fab" "num fab ''min_wall_mm'' = Inr wall"
    "link_mm cfg link_name = Inr (BoxLink thickness width len)" "pivot_bore_radius cfg True = Inr bore"
    "calls = [Call Add (PBox thickness width len) AMin [],
       Call Subtract (PBox (thickness - 2 * wall) (width - 2 * wall) (len - 2 * wall)) AMin [LAt 0 0 wall],
       side_hole bore width 0 (wall / 2), side_hole bore width 0 (len - wall / 2)] @ rest"
    "list_all (\<lambda>c. op c = Subtract) rest"
    "mechanism = ''linkage'' \<Longrightarrow> rest = [side_hole bore width 0 (len * (18 / 100))]"
    "\<And>s. mechanism \<noteq> ''linkage'' \<Longrightarrow> distal = Some s \<Longrightarrow> \<exists>sv spacing. servo cfg s = Inr sv
       \<and> num sv ''mount_hole_spacing_mm'' = Inr spacing
       \<and> rest = map (\<lambda>y. Call Subtract (PCylinder bore (wall * 4)) ACenter [LXY len, LAt 0 y 0]) [- (spacing / 8), spacing / 8]"
proof -
  from assms obtain fab link wall where n: "fabrication cfg = Inr fab" "link_mm cfg link_name = Inr link"
    "num fab ''min_wall_mm'' = Inr wall"
    by (auto simp: beam_def rbind_eq_Inr)
  note c = assms [unfolded beam_def n rbind_Inr]
  then obtain thickness width len where link: "link = BoxLink thickness width len" by (cases link) auto
  from c [unfolded link link_geometry.case] obtain bore where bore: "pivot_bore_radius cfg True = Inr bore"
    by (auto simp: rbind_eq_Inr)
  note c = c [unfolded link link_geometry.case bore rbind_Inr Let_def]
  show thesis
  proof (cases "mechanism = ''linkage''")
    case True
    show thesis
      by (rule that [OF n(1,3) n(2) [unfolded link] bore, of "[side_hole bore width 0 (len * (18 / 100))]"]) (use c True in auto)
  next
    case False
    show thesis
    proof (cases distal)
      case None
      show thesis by (rule that [OF n(1,3) n(2) [unfolded link] bore, of "[]"]) (use c False None in auto)
    next
      case (Some s)
      then obtain sv spacing where sv: "servo cfg s = Inr sv" "num sv ''mount_hole_spacing_mm'' = Inr spacing"
        using c False by (auto simp: rbind_eq_Inr)
      show thesis
        by (rule that [OF n(1,3) n(2) [unfolded link] bore, of "map (\<lambda>y. Call Subtract (PCylinder bore (wall * 4)) ACenter
              [LXY len, LAt 0 y 0]) [- (spacing / 8), spacing / 8]"]) (use c False Some sv in auto)
    qed
  qed
qed

lemma push_rod_calls:
  assumes "push_rod cfg mechanism = Inr calls"
  obtains fab upper wall len bore thickness w where "mechanism = ''linkage''" "fabrication cfg = Inr fab" "num fab ''min_wall_mm'' = Inr wall"
    "link_mm cfg ''upper_arm_link'' = Inr upper" "link_item upper ''z'' = Inr len" "pivot_bore_radius cfg True = Inr bore"
    "calls = Call Add (PSlot len w thickness) AMin []
       # map (\<lambda>x. Call Subtract (PCylinder bore (thickness * 3)) ACenter [LAt x 0 0]) [- (len / 2), len / 2]"
  using assms by (auto simp: push_rod_def rbind_eq_Inr Let_def split: if_splits)

subsection \<open>Lemmas: clear bores\<close>

text \<open>A part with one cylindrical hole along its axis that covers every height the part has: no material lies
  within the hole's radius, whatever is subtracted besides.\<close>

lemma bored_clear:
  assumes calls: "calls = pre @ Call Subtract (PCylinder r h) a [] # post" "list_all (\<lambda>c. op c = Subtract) post"
    and range: "\<And>c x y z. c \<in> set pre \<Longrightarrow> op c = Add \<Longrightarrow> hit c (x, y, z) \<Longrightarrow> z_range h a z"
    and r: "0 \<le> r" and m: "material calls (x, y, z)"
  shows "sq r < sq x + sq y"
proof (rule ccontr)
  assume near: "\<not> sq r < sq x + sq y"
  obtain c where c: "c \<in> set calls" "op c = Add" "hit c (x, y, z)" using material_within [OF m] by auto
  then have "c \<in> set pre" using calls by (auto simp: list_all_iff)
  then have "hit (Call Subtract (PCylinder r h) a []) (x, y, z)" using range c(2,3) r near by auto
  then have "\<not> material calls (x, y, z)" unfolding calls(1)
    by (intro material_removed [OF _ _ calls(2), of "Call Subtract (PCylinder r h) a []"]) simp_all
  then show False using m by simp
qed

lemma turret_clear:
  assumes "shoulder_turret cfg mechanism = Inr calls" "turret_bore_radius cfg = Inr tb" "0 \<le> tb"
    and "fabrication cfg = Inr fab" "num fab ''min_wall_mm'' = Inr wall" "0 \<le> wall" "material calls (x, y, z)"
  shows "sq tb < sq x + sq y"
proof -
  obtain l w height mid tail where calls: "calls = [Call Add (PRounded l w (min (wall * 2) 3) height) AMin []]
      @ Call Subtract (PCylinder tb (height + wall)) AMin [] # (mid @ tail)" "list_all (\<lambda>c. op c = Subtract) (mid @ tail)"
    by (rule shoulder_turret_calls [OF assms(1)]) (use assms(2,4,5) in auto)
  show ?thesis
    by (rule bored_clear [OF calls _ assms(3,7)]) (use assms(6) in \<open>auto simp: z_range_def\<close>)
qed

lemma washer_clear:
  assumes "thrust_washer cfg mechanism = Inr calls" "washer_bore_radius cfg = Inr r" "0 \<le> r"
    and "fabrication cfg = Inr fab" "num fab ''min_wall_mm'' = Inr wall" "0 \<le> wall" "material calls (x, y, z)"
  shows "sq r < sq x + sq y"
proof -
  obtain outer where calls: "calls = [Call Add (PCylinder outer wall) AMin []] @ Call Subtract (PCylinder r (wall * 3)) ACenter [] # []"
    by (rule thrust_washer_calls [OF assms(1)]) (use assms(2,4,5) in auto)
  show ?thesis
    by (rule bored_clear [OF calls _ _ assms(3,7)]) (use assms(6) in \<open>auto simp: z_range_def\<close>)
qed

lemma bushing_clear:
  assumes "pivot_bushing cfg mechanism = Inr calls" "bushing_inner_radius cfg = Inr r" "0 \<le> r"
    and "fabrication cfg = Inr fab" "num fab ''min_wall_mm'' = Inr wall" "0 \<le> wall" "material calls (x, y, z)"
  shows "sq r < sq x + sq y"
proof -
  obtain outer flange where calls: "calls = [Call Add (PCylinder outer (wall * 4)) AMin [], Call Subtract (PCylinder r (wall * 12)) ACenter [],
       Call Add (PCylinder flange wall) AMin []] @ Call Subtract (PCylinder r (wall * 4)) AMin [] # []"
    by (rule pivot_bushing_calls [OF assms(1)]) (use assms(2,4,5) in auto)
  show ?thesis
    by (rule bored_clear [OF calls _ _ assms(3,7)]) (use assms(6) in \<open>auto simp: z_range_def\<close>)
qed

lemma bore_radii:
  assumes "fabrication cfg = Inr fab" "num fab ''hole_clearance_mm'' = Inr c" "bearing_seat_outer_radius cfg = Inr seat"
  shows "turret_bore_radius cfg = Inr (seat + c)" "washer_bore_radius cfg = Inr (seat + c)"
  using assms by (simp_all add: turret_bore_radius_def washer_bore_radius_def)

lemma hypot_circle:
  assumes "sq (x - d * cos t) + sq (y - d * sin t) \<le> sq b" "0 \<le> b" "0 \<le> d"
  shows "sq x + sq y \<le> sq (d + b)"
proof -
  have n: "cmod (Complex u v) = sqrt (sq u + sq v)" for u v by (simp add: cmod_def sq_def power2_eq_square)
  have "cmod (Complex (x - d * cos t) (y - d * sin t)) \<le> b"
    unfolding n using assms(1,2) by (intro real_le_lsqrt) (simp_all add: sq_def power2_eq_square)
  moreover have "cmod (Complex (d * cos t) (d * sin t)) = d"
  proof -
    have one: "cos t * cos t + sin t * sin t = 1" by (metis power2_eq_square sin_cos_squared_add2)
    have "sq (d * cos t) + sq (d * sin t) = d * d * (cos t * cos t + sin t * sin t)"
      by (simp add: sq_def algebra_simps del: sin_cos_squared_add3)
    also have "\<dots> = d * d" by (simp add: one)
    finally show ?thesis unfolding n using assms(3) by simp
  qed
  moreover have "Complex x y = Complex (d * cos t) (d * sin t) + Complex (x - d * cos t) (y - d * sin t)"
    by (simp add: complex_eq_iff)
  ultimately have "cmod (Complex x y) \<le> d + b" by (metis add_mono norm_triangle_le order_refl)
  then have "(sqrt (sq x + sq y))\<^sup>2 \<le> (d + b)\<^sup>2" unfolding n by (intro power_mono) simp_all
  then show ?thesis by (simp add: sq_def power2_eq_square)
qed

subsection \<open>A profile\<close>

text \<open>The shipped profile, as far as the CAD reads it.\<close>

definition demo_link :: "string \<Rightarrow> (string \<times> json) list \<Rightarrow> json" where
  "demo_link kind ds = JObj [(''geometry'', JObj ((''type'', JStr kind) # ds))]"

definition demo_joint :: "string option \<Rightarrow> string \<Rightarrow> string \<Rightarrow> real \<Rightarrow> json" where
  "demo_joint driver up down z = JObj ((case driver of None \<Rightarrow> [] | Some s \<Rightarrow> [(''servo'', JStr s)])
     @ [(''parent'', JStr up), (''child'', JStr down), (''origin'', JObj [(''xyz'', JArr [JNum 0, JNum 0, JNum z])])])"

definition demo_joint_list :: "(string \<times> json) list" where
  "demo_joint_list =
     [(''shoulder_pan_joint'', demo_joint (Some ''mg996r'') ''base_link'' ''shoulder_link'' (45 / 1000)),
      (''shoulder_lift_joint'', demo_joint (Some ''mg996r'') ''shoulder_link'' ''upper_arm_link'' (20 / 1000)),
      (''elbow_joint'', demo_joint (Some ''mg996r'') ''upper_arm_link'' ''forearm_link'' (110 / 1000)),
      (''wrist_joint'', demo_joint (Some ''sg90'') ''forearm_link'' ''wrist_link'' (95 / 1000)),
      (''gripper_left_finger_joint'', demo_joint (Some ''sg90'') ''gripper_base_link'' ''gripper_left_finger_link'' (25 / 1000)),
      (''gripper_right_finger_joint'', demo_joint None ''gripper_base_link'' ''gripper_right_finger_link'' (25 / 1000))]"

definition demo_servo :: "real \<Rightarrow> real \<Rightarrow> real \<Rightarrow> real \<Rightarrow> real \<Rightarrow> real \<Rightarrow> real \<Rightarrow> real \<Rightarrow> int \<Rightarrow> real \<Rightarrow> real \<Rightarrow> json" where
  "demo_servo kg l w h fh spacing horn circle n hole t = JObj [(''mass_kg'', JNum kg), (''body'', JObj
     [(''length_mm'', JNum l), (''width_mm'', JNum w), (''height_mm'', JNum h), (''flange_height_mm'', JNum fh),
      (''mount_hole_spacing_mm'', JNum spacing), (''horn_diameter_mm'', JNum horn), (''horn_screw_circle_mm'', JNum circle),
      (''horn_screw_count'', JInt n), (''horn_screw_hole_mm'', JNum hole), (''horn_thickness_mm'', JNum t)])]"

definition demo_fab :: json where
  "demo_fab = JObj [(''min_wall_mm'', JNum (12 / 10)), (''hole_clearance_mm'', JNum (35 / 100)),
     (''servo_pocket_clearance_mm'', JNum (3 / 10)), (''m3_hole_mm'', JNum 3), (''m3_head_mm'', JNum (55 / 10)),
     (''max_overhang_deg'', JNum 45), (''max_bridge_mm'', JNum 20), (''nozzle_mm'', JNum (4 / 10)), (''layer_mm'', JNum (2 / 10))]"

definition demo_profile :: json where
  "demo_profile = JObj
     [(''servos'', JObj
        [(''mg996r'', demo_servo (55 / 1000) (407 / 10) (197 / 10) (429 / 10) (277 / 10) (495 / 10) (59 / 10) 16 4 (22 / 10) 2),
         (''sg90'', demo_servo (9 / 1000) (228 / 10) (122 / 10) (225 / 10) (159 / 10) (278 / 10) (46 / 10) 11 2 (18 / 10) (16 / 10))]),
      (''fabrication'', demo_fab),
      (''links'', JObj
        [(''base_link'', demo_link ''box'' [(''x'', JNum (1 / 10)), (''y'', JNum (1 / 10)), (''z'', JNum (45 / 1000))]),
         (''shoulder_link'', demo_link ''cylinder'' [(''radius'', JNum (22 / 1000)), (''length'', JNum (4 / 100))]),
         (''upper_arm_link'', demo_link ''box'' [(''x'', JNum (2 / 100)), (''y'', JNum (3 / 100)), (''z'', JNum (11 / 100))]),
         (''forearm_link'', demo_link ''box'' [(''x'', JNum (18 / 1000)), (''y'', JNum (26 / 1000)), (''z'', JNum (95 / 1000))]),
         (''wrist_link'', demo_link ''cylinder'' [(''radius'', JNum (16 / 1000)), (''length'', JNum (3 / 100))]),
         (''gripper_base_link'', demo_link ''box'' [(''x'', JNum (3 / 100)), (''y'', JNum (4 / 100)), (''z'', JNum (25 / 1000))]),
         (''gripper_left_finger_link'', demo_link ''box'' [(''x'', JNum (8 / 1000)), (''y'', JNum (6 / 1000)), (''z'', JNum (35 / 1000))])]),
      (''joints'', JObj demo_joint_list)]"

lemma demo_values:
  "fabrication demo_profile = Inr demo_fab"
  "num demo_fab ''min_wall_mm'' = Inr (12 / 10)" "num demo_fab ''hole_clearance_mm'' = Inr (35 / 100)"
  "num demo_fab ''servo_pocket_clearance_mm'' = Inr (3 / 10)" "num demo_fab ''m3_hole_mm'' = Inr 3"
  "num demo_fab ''m3_head_mm'' = Inr (55 / 10)"
  by (simp_all add: fabrication_def demo_profile_def demo_fab_def num_def)

lemma demo_links:
  "link_mm demo_profile ''base_link'' = Inr (BoxLink 100 100 45)"
  "link_mm demo_profile ''shoulder_link'' = Inr (CylinderLink 22 40)"
  "link_mm demo_profile ''upper_arm_link'' = Inr (BoxLink 20 30 110)"
  "link_mm demo_profile ''forearm_link'' = Inr (BoxLink 18 26 95)"
  "link_mm demo_profile ''wrist_link'' = Inr (CylinderLink 16 30)"
  "link_mm demo_profile ''gripper_base_link'' = Inr (BoxLink 30 40 25)"
  "link_mm demo_profile ''gripper_left_finger_link'' = Inr (BoxLink 8 6 35)"
  by (simp_all add: link_mm_def demo_profile_def demo_link_def mm_at_def mm_def MM_PER_M_def)

lemma demo_bores:
  "screw_bore_radius demo_profile = Inr (335 / 200)" "bushing_inner_radius demo_profile = Inr (335 / 200)"
  "pivot_bore_radius demo_profile True = Inr (3225 / 1000)"
  "bearing_seat_outer_radius demo_profile = Inr (244 / 10)" "turret_bore_radius demo_profile = Inr (2475 / 100)"
  "washer_bore_radius demo_profile = Inr (2475 / 100)"
  by (simp_all add: screw_bore_radius_def bushing_inner_radius_def bushing_outer_radius_def pivot_bore_radius_def
      bearing_seat_outer_radius_def turret_bore_radius_def washer_bore_radius_def demo_values demo_links link_item_def)

definition demo_mg996r :: json where
  "demo_mg996r = JObj
     [(''length_mm'', JNum (407 / 10)), (''width_mm'', JNum (197 / 10)), (''height_mm'', JNum (429 / 10)),
      (''flange_height_mm'', JNum (277 / 10)), (''mount_hole_spacing_mm'', JNum (495 / 10)),
      (''horn_diameter_mm'', JNum (59 / 10)), (''horn_screw_circle_mm'', JNum 16), (''horn_screw_count'', JInt 4),
      (''horn_screw_hole_mm'', JNum (22 / 10)), (''horn_thickness_mm'', JNum 2)]"

definition demo_sg90 :: json where
  "demo_sg90 = JObj
     [(''length_mm'', JNum (228 / 10)), (''width_mm'', JNum (122 / 10)), (''height_mm'', JNum (225 / 10)),
      (''flange_height_mm'', JNum (159 / 10)), (''mount_hole_spacing_mm'', JNum (278 / 10)),
      (''horn_diameter_mm'', JNum (46 / 10)), (''horn_screw_circle_mm'', JNum 11), (''horn_screw_count'', JInt 2),
      (''horn_screw_hole_mm'', JNum (18 / 10)), (''horn_thickness_mm'', JNum (16 / 10))]"

lemma demo_servos: "servo demo_profile ''mg996r'' = Inr demo_mg996r" "servo demo_profile ''sg90'' = Inr demo_sg90"
  by (simp_all add: servo_def demo_profile_def demo_servo_def demo_mg996r_def demo_sg90_def)

lemma demo_lift: "lift_axis demo_profile = Inr 20"
  by (simp add: lift_axis_def demo_profile_def demo_joint_list_def demo_joint_def mm_def MM_PER_M_def py_index_def)

subsection \<open>Typed profiles\<close>

definition dims :: "json \<Rightarrow> string list \<Rightarrow> bool" where
  "dims d ks \<longleftrightarrow> list_all (\<lambda>k. case num d k of Inr x \<Rightarrow> 0 < x | Inl _ \<Rightarrow> False) ks"

lemma dimsD: "dims d ks \<Longrightarrow> k \<in> set ks \<Longrightarrow> \<exists>x. num d k = Inr x \<and> 0 < x"
  by (cases "num d k") (auto simp: dims_def list_all_iff)

definition servo_ok :: "json \<Rightarrow> bool" where
  "servo_ok sv \<longleftrightarrow> dims sv [''length_mm'', ''width_mm'', ''height_mm'', ''flange_height_mm'', ''mount_hole_spacing_mm'',
       ''horn_diameter_mm'', ''horn_screw_circle_mm'', ''horn_screw_hole_mm'', ''horn_thickness_mm'']
     \<and> (\<exists>d n. sv = JObj d \<and> rbind (jitem sv ''horn_screw_count'') py_int = Inr n)"

text \<open>The lift axis is high enough for a servo lying on its side.\<close>

definition lift_ok :: "json \<Rightarrow> json \<Rightarrow> json \<Rightarrow> bool" where
  "lift_ok cfg fab sv \<longleftrightarrow> (\<exists>z wall slack w. lift_axis cfg = Inr z \<and> num fab ''min_wall_mm'' = Inr wall
     \<and> num fab ''servo_pocket_clearance_mm'' = Inr slack \<and> num sv ''width_mm'' = Inr w \<and> wall \<le> z - (w + 2 * slack) / 2)"

text \<open>The links have the shapes the builders expect, each wide enough for its walls and its rounded corners.\<close>

definition links_ok :: "json \<Rightarrow> real \<Rightarrow> bool" where
  "links_ok cfg wall \<longleftrightarrow>
     (\<exists>x y z. link_mm cfg ''base_link'' = Inr (BoxLink x y z) \<and> 2 * wall < min x y \<and> 2 * min (wall * 2) 4 < min x y \<and> wall < z)
   \<and> (\<exists>x y z. link_mm cfg ''upper_arm_link'' = Inr (BoxLink x y z) \<and> 2 * wall < min x (min y z))
   \<and> (\<exists>x y z. link_mm cfg ''forearm_link'' = Inr (BoxLink x y z) \<and> 2 * wall < min x (min y z))
   \<and> (\<exists>x y z. link_mm cfg ''gripper_base_link'' = Inr (BoxLink x y z) \<and> 2 * min wall 2 < min x y \<and> wall < z)
   \<and> (\<exists>x y z. link_mm cfg ''gripper_left_finger_link'' = Inr (BoxLink x y z) \<and> 0 < min x (min y z))
   \<and> (\<exists>r l. link_mm cfg ''shoulder_link'' = Inr (CylinderLink r l) \<and> 0 < r)
   \<and> (\<exists>r l. link_mm cfg ''wrist_link'' = Inr (CylinderLink r l) \<and> 0 < r \<and> 2 * wall < l)"

text \<open>The servo that bolts to a flange is wider and its holes further apart than the flange's rounded corners.\<close>

definition flange_ok :: "json \<Rightarrow> real \<Rightarrow> real \<Rightarrow> real \<Rightarrow> bool" where
  "flange_ok sv wall slack head \<longleftrightarrow> (\<exists>w spacing. num sv ''width_mm'' = Inr w \<and> num sv ''mount_hole_spacing_mm'' = Inr spacing
     \<and> 2 * min (wall * 2) 3 < spacing + 2 * head \<and> 2 * min (wall * 2) 3 < w + 2 * wall + 2 * slack)"

definition profile_ok :: "json \<Rightarrow> bool" where
  "profile_ok cfg \<longleftrightarrow> (\<exists>fab big small wall slack head. fabrication cfg = Inr fab
     \<and> dims fab [''min_wall_mm'', ''hole_clearance_mm'', ''servo_pocket_clearance_mm'', ''m3_hole_mm'', ''m3_head_mm'']
     \<and> num fab ''min_wall_mm'' = Inr wall \<and> num fab ''servo_pocket_clearance_mm'' = Inr slack \<and> num fab ''m3_head_mm'' = Inr head
     \<and> servo cfg ''mg996r'' = Inr big \<and> servo_ok big \<and> servo cfg ''sg90'' = Inr small \<and> servo_ok small
     \<and> flange_ok big wall slack head \<and> links_ok cfg wall \<and> lift_ok cfg fab big)"

lemma demo_profile_ok: "profile_ok demo_profile"
proof -
  have "servo_ok demo_mg996r" "servo_ok demo_sg90"
    by (simp_all add: servo_ok_def dims_def num_def demo_mg996r_def demo_sg90_def)
  moreover have "lift_ok demo_profile demo_fab demo_mg996r"
    unfolding lift_ok_def
    by (rule exI [of _ 20], rule exI [of _ "12 / 10"], rule exI [of _ "3 / 10"], rule exI [of _ "197 / 10"])
      (simp add: demo_lift demo_values, simp add: num_def demo_mg996r_def)
  moreover have "flange_ok demo_mg996r (12 / 10) (3 / 10) (55 / 10)"
    unfolding flange_ok_def
    by (rule exI [of _ "197 / 10"], rule exI [of _ "495 / 10"]) (simp add: num_def demo_mg996r_def)
  moreover have "links_ok demo_profile (12 / 10)" by (simp add: links_ok_def demo_links)
  moreover have "dims demo_fab [''min_wall_mm'', ''hole_clearance_mm'', ''servo_pocket_clearance_mm'', ''m3_hole_mm'', ''m3_head_mm'']"
    by (simp add: dims_def demo_values)
  ultimately show ?thesis unfolding profile_ok_def using demo_values demo_servos by blast
qed

subsection \<open>The modeller\<close>

text \<open>The modeller checks the sizes of a primitive when it is created, and raises if it refuses them. \<open>modeller\<close> stands for
  that check; a builder then runs to its end if the modeller takes every primitive it creates. That it takes the
  well-sized ones is documented: sizes are positive, and a rounded rectangle is wider than twice its radius.\<close>

fun well_sized :: "prim \<Rightarrow> bool" where
  "well_sized (PBox l w h) \<longleftrightarrow> 0 < l \<and> 0 < w \<and> 0 < h"
| "well_sized (PCylinder r h) \<longleftrightarrow> 0 < r \<and> 0 < h"
| "well_sized (PRounded l w r h) \<longleftrightarrow> 0 < r \<and> 2 * r < l \<and> 2 * r < w \<and> 0 < h"
| "well_sized (PSlot l w h) \<longleftrightarrow> 0 < l \<and> 0 < w \<and> 0 < h"

fun made :: "(prim \<Rightarrow> exn option) \<Rightarrow> cad_call list \<Rightarrow> unit res" where
  "made modeller [] = Inr ()"
| "made modeller (Call m p a ls # cs) = (case modeller p of Some e \<Rightarrow> Inl e | None \<Rightarrow> made modeller cs)"

definition run_builder :: "(prim \<Rightarrow> exn option) \<Rightarrow> builder \<Rightarrow> builder" where
  "run_builder modeller build cfg mechanism =
     rbind (build cfg mechanism) (\<lambda>calls. rbind (made modeller calls) (\<lambda>_. Inr calls))"

fun sized_call :: "cad_call \<Rightarrow> bool" where
  "sized_call (Call m p a ls) = well_sized p"

definition sized :: "cad_call list res \<Rightarrow> bool" where
  "sized r = (case r of Inr calls \<Rightarrow> list_all sized_call calls | Inl e \<Rightarrow> False)"

lemma sized_Inr [simp]: "sized (Inr calls) = list_all sized_call calls"
  by (simp add: sized_def)

lemma sized_ok: "sized r \<Longrightarrow> is_ok r"
  by (cases r) (simp_all add: sized_def)

lemma sized_made:
  assumes "\<And>p. well_sized p \<Longrightarrow> modeller p = None" and "list_all sized_call calls"
  shows "made modeller calls = Inr ()"
  using assms(2)
proof (induction calls)
  case (Cons c cs)
  then show ?case using assms(1) by (cases c) auto
qed simp

lemma sized_run: "(\<And>p. well_sized p \<Longrightarrow> modeller p = None) \<Longrightarrow> sized (build cfg m) \<Longrightarrow> is_ok (run_builder modeller build cfg m)"
  by (cases "build cfg m") (auto simp: run_builder_def sized_def sized_made)

lemma sized_side_hole [simp]: "sized_call (side_hole r width x z) \<longleftrightarrow> 0 < r \<and> 0 < width"
  by (auto simp: side_hole_def)

lemma sized_two_screws [simp]: "list_all sized_call (two_screws bore h d phase z) \<longleftrightarrow> 0 < bore \<and> 0 < h"
  by (simp add: two_screws_def Let_def numeral_2_eq_2)

lemma sized_map: "well_sized p \<Longrightarrow> list_all sized_call (map (\<lambda>i. Call m p a (ls i)) xs)"
  by (induction xs) simp_all

lemma sized_cavities:
  "0 < sl \<Longrightarrow> 0 < sh \<Longrightarrow> 0 < slack \<Longrightarrow> 0 < height - fl + wall \<Longrightarrow> list_all sized_call (servo_cavities mounted sl sh wall slack height fl)"
  by (simp add: servo_cavities_def list_all_iff)

subsection \<open>Lemmas: builders on a typed profile\<close>

lemma fits_values:
  assumes "fabrication cfg = Inr fab" "num fab ''min_wall_mm'' = Inr wall" "num fab ''hole_clearance_mm'' = Inr c"
    "num fab ''m3_hole_mm'' = Inr hole" "link_mm cfg ''shoulder_link'' = Inr (CylinderLink r h)"
  shows "screw_bore_radius cfg = Inr ((hole + c) / 2)" "bushing_inner_radius cfg = Inr ((hole + c) / 2)"
    "bushing_outer_radius cfg = Inr ((hole + c) / 2 + wall)" "bushing_flange_radius cfg = Inr ((hole + c) / 2 + wall + wall)"
    "pivot_bore_radius cfg True = Inr ((hole + c) / 2 + wall + c)" "bearing_seat_outer_radius cfg = Inr (r + 2 * wall)"
    "bearing_seat_inner_radius cfg = Inr (r + c)" "turret_bore_radius cfg = Inr (r + 2 * wall + c)"
    "washer_bore_radius cfg = Inr (r + 2 * wall + c)" "washer_outer_radius cfg = Inr (r + 2 * wall + c + 2 * wall)"
proof -
  show s: "screw_bore_radius cfg = Inr ((hole + c) / 2)" by (simp add: screw_bore_radius_def assms)
  show bi: "bushing_inner_radius cfg = Inr ((hole + c) / 2)" by (simp add: bushing_inner_radius_def s)
  show bo: "bushing_outer_radius cfg = Inr ((hole + c) / 2 + wall)" by (simp add: bushing_outer_radius_def bi assms)
  show so: "bearing_seat_outer_radius cfg = Inr (r + 2 * wall)" by (simp add: bearing_seat_outer_radius_def assms link_item_def)
  show "bushing_flange_radius cfg = Inr ((hole + c) / 2 + wall + wall)" by (simp add: bushing_flange_radius_def bo assms)
  show "pivot_bore_radius cfg True = Inr ((hole + c) / 2 + wall + c)" by (simp add: pivot_bore_radius_def bo assms)
  show "bearing_seat_inner_radius cfg = Inr (r + c)" by (simp add: bearing_seat_inner_radius_def assms link_item_def)
  show tb: "turret_bore_radius cfg = Inr (r + 2 * wall + c)" by (simp add: turret_bore_radius_def so assms)
  show "washer_bore_radius cfg = Inr (r + 2 * wall + c)" by (simp add: washer_bore_radius_def so assms)
  show "washer_outer_radius cfg = Inr (r + 2 * wall + c + 2 * wall)" by (simp add: washer_outer_radius_def tb assms)
qed

lemma require_keys_ok: "sv = JObj d \<Longrightarrow> \<forall>k \<in> set ks. is_ok (jitem sv k) \<Longrightarrow> require_keys sv ks = Inr ()"
proof (induction ks)
  case (Cons k ks)
  then have "map_of d k \<noteq> None" by (auto split: option.splits)
  then have "k \<in> fst ` set d" by (simp add: map_of_eq_None_iff)
  then show ?case using Cons by simp
qed simp

lemma servo_okD:
  assumes "servo_ok sv"
  obtains l w h fh spacing horn circle hole t n where
    "num sv ''length_mm'' = Inr l" "num sv ''width_mm'' = Inr w" "num sv ''height_mm'' = Inr h"
    "num sv ''flange_height_mm'' = Inr fh" "num sv ''mount_hole_spacing_mm'' = Inr spacing"
    "num sv ''horn_diameter_mm'' = Inr horn" "num sv ''horn_screw_circle_mm'' = Inr circle"
    "num sv ''horn_screw_hole_mm'' = Inr hole" "num sv ''horn_thickness_mm'' = Inr t"
    "rbind (jitem sv ''horn_screw_count'') py_int = Inr n"
    "require_keys sv [''horn_screw_circle_mm'', ''horn_screw_count'', ''horn_screw_hole_mm'', ''horn_thickness_mm''] = Inr ()"
    "list_all (\<lambda>x. 0 < x) [l, w, h, fh, spacing, horn, circle, hole, t]"
proof -
  obtain d n where d: "sv = JObj d" and n: "rbind (jitem sv ''horn_screw_count'') py_int = Inr n"
    using assms by (auto simp: servo_ok_def)
  have dm: "dims sv [''length_mm'', ''width_mm'', ''height_mm'', ''flange_height_mm'', ''mount_hole_spacing_mm'',
       ''horn_diameter_mm'', ''horn_screw_circle_mm'', ''horn_screw_hole_mm'', ''horn_thickness_mm'']"
    using assms by (simp add: servo_ok_def)
  note k = dimsD [OF dm]
  have "require_keys sv [''horn_screw_circle_mm'', ''horn_screw_count'', ''horn_screw_hole_mm'', ''horn_thickness_mm''] = Inr ()"
    using k [of "''horn_screw_circle_mm''"] k [of "''horn_screw_hole_mm''"] k [of "''horn_thickness_mm''"] n
    by (intro require_keys_ok [OF d]) (auto simp: num_def rbind_eq_Inr)
  moreover obtain l w h fh spacing horn circle hole t where
    "num sv ''length_mm'' = Inr l" "num sv ''width_mm'' = Inr w" "num sv ''height_mm'' = Inr h"
    "num sv ''flange_height_mm'' = Inr fh" "num sv ''mount_hole_spacing_mm'' = Inr spacing"
    "num sv ''horn_diameter_mm'' = Inr horn" "num sv ''horn_screw_circle_mm'' = Inr circle"
    "num sv ''horn_screw_hole_mm'' = Inr hole" "num sv ''horn_thickness_mm'' = Inr t"
    "list_all (\<lambda>x. 0 < x) [l, w, h, fh, spacing, horn, circle, hole, t]"
    using k [of "''length_mm''"] k [of "''width_mm''"] k [of "''height_mm''"] k [of "''flange_height_mm''"]
      k [of "''mount_hole_spacing_mm''"] k [of "''horn_diameter_mm''"] k [of "''horn_screw_circle_mm''"]
      k [of "''horn_screw_hole_mm''"] k [of "''horn_thickness_mm''"] by auto
  ultimately show thesis using n by (intro that)
qed

lemma beam_sized:
  assumes "fabrication cfg = Inr fab" "num fab ''min_wall_mm'' = Inr wall" "link_mm cfg name = Inr (BoxLink x y z)"
    "pivot_bore_radius cfg True = Inr bore" "servo cfg s = Inr sv" "servo_ok sv"
    and "0 < wall" "0 < bore" "2 * wall < min x (min y z)"
  shows "sized (beam cfg name mechanism (Some s))"
  by (rule servo_okD [OF assms(6)]) (use assms(7-9) in \<open>simp add: beam_def assms(1-5) Let_def\<close>)

lemma pos_add: "0 < a \<Longrightarrow> 0 < b \<Longrightarrow> 0 < a + (b :: real)"
  by simp

lemma builders_sized:
  assumes ok: "profile_ok cfg"
  shows "sized (base_plate cfg m)" "sized (shoulder_turret cfg m)" "sized (upper_arm_link cfg m)" "sized (forearm_link cfg m)"
    "sized (wrist_bracket cfg m)" "sized (gripper_base cfg m)" "sized (gripper_finger cfg m)"
    "sized (horn_adapter ''mg996r'' cfg m)" "sized (horn_adapter ''sg90'' cfg m)" "sized (pivot_bushing cfg m)"
    "sized (thrust_washer cfg m)" "sized (push_rod cfg ''linkage'')" "sized (shoulder_bracket cfg ''linkage'')"
    "sized (shoulder_bracket cfg ''direct'')"
proof -
  obtain fab big small wall slack head where f: "fabrication cfg = Inr fab" "num fab ''min_wall_mm'' = Inr wall"
    "num fab ''servo_pocket_clearance_mm'' = Inr slack" "num fab ''m3_head_mm'' = Inr head"
    and d: "dims fab [''min_wall_mm'', ''hole_clearance_mm'', ''servo_pocket_clearance_mm'', ''m3_hole_mm'', ''m3_head_mm'']"
    and sv: "servo cfg ''mg996r'' = Inr big" "servo cfg ''sg90'' = Inr small" and so: "servo_ok big" "servo_ok small"
    and flange: "flange_ok big wall slack head" and lk: "links_ok cfg wall" and lift: "lift_ok cfg fab big"
    using ok unfolding profile_ok_def by blast
  obtain c m3 where g: "num fab ''hole_clearance_mm'' = Inr c" "num fab ''m3_hole_mm'' = Inr m3"
    and pos: "0 < wall" "0 < slack" "0 < head" "0 < c" "0 < m3"
    using dimsD [OF d, of "''min_wall_mm''"] dimsD [OF d, of "''hole_clearance_mm''"] dimsD [OF d, of "''m3_hole_mm''"]
      dimsD [OF d, of "''servo_pocket_clearance_mm''"] dimsD [OF d, of "''m3_head_mm''"] f by auto
  obtain bx bz bl ux uy uz fx fy fz gx gy gz lx ly lz r h wr wl where links:
    "link_mm cfg ''base_link'' = Inr (BoxLink bx bz bl)" "link_mm cfg ''upper_arm_link'' = Inr (BoxLink ux uy uz)"
    "link_mm cfg ''forearm_link'' = Inr (BoxLink fx fy fz)" "link_mm cfg ''gripper_base_link'' = Inr (BoxLink gx gy gz)"
    "link_mm cfg ''gripper_left_finger_link'' = Inr (BoxLink lx ly lz)"
    "link_mm cfg ''shoulder_link'' = Inr (CylinderLink r h)" "link_mm cfg ''wrist_link'' = Inr (CylinderLink wr wl)"
    and sz: "2 * wall < min bx bz" "2 * min (wall * 2) 4 < min bx bz" "wall < bl" "2 * wall < min ux (min uy uz)"
      "2 * wall < min fx (min fy fz)" "2 * min wall 2 < min gx gy" "wall < gz" "0 < min lx (min ly lz)" "0 < r" "0 < wr" "2 * wall < wl"
    using lk unfolding links_ok_def by blast
  note b = fits_values [OF f(1,2) g links(6)]
  note known = f g sv links b
  obtain bl' bw bh bfh bs bho bc bhs bt bn where big: "num big ''length_mm'' = Inr bl'" "num big ''width_mm'' = Inr bw"
    "num big ''height_mm'' = Inr bh" "num big ''flange_height_mm'' = Inr bfh" "num big ''mount_hole_spacing_mm'' = Inr bs"
    "num big ''horn_diameter_mm'' = Inr bho" "num big ''horn_screw_circle_mm'' = Inr bc"
    "num big ''horn_screw_hole_mm'' = Inr bhs" "num big ''horn_thickness_mm'' = Inr bt"
    "rbind (jitem big ''horn_screw_count'') py_int = Inr bn"
    "require_keys big [''horn_screw_circle_mm'', ''horn_screw_count'', ''horn_screw_hole_mm'', ''horn_thickness_mm''] = Inr ()"
    and bpos: "list_all (\<lambda>x. 0 < x) [bl', bw, bh, bfh, bs, bho, bc, bhs, bt]"
    by (rule servo_okD [OF so(1)])
  obtain sl sw sh sfh ss sho sc shs st sn where small: "num small ''length_mm'' = Inr sl" "num small ''width_mm'' = Inr sw"
    "num small ''height_mm'' = Inr sh" "num small ''flange_height_mm'' = Inr sfh" "num small ''mount_hole_spacing_mm'' = Inr ss"
    "num small ''horn_diameter_mm'' = Inr sho" "num small ''horn_screw_circle_mm'' = Inr sc"
    "num small ''horn_screw_hole_mm'' = Inr shs" "num small ''horn_thickness_mm'' = Inr st"
    "rbind (jitem small ''horn_screw_count'') py_int = Inr sn"
    "require_keys small [''horn_screw_circle_mm'', ''horn_screw_count'', ''horn_screw_hole_mm'', ''horn_thickness_mm''] = Inr ()"
    and spos: "list_all (\<lambda>x. 0 < x) [sl, sw, sh, sfh, ss, sho, sc, shs, st]"
    by (rule servo_okD [OF so(2)])
  have corners: "2 * min (wall * 2) 3 < bs + 2 * head" "2 * min (wall * 2) 3 < bw + 2 * wall + 2 * slack"
    using flange big(2,5) by (auto simp: flange_ok_def)
  obtain az where az: "lift_axis cfg = Inr az" "\<not> az - (bw + 2 * slack) / 2 < wall"
    using lift f big(2) by (auto simp: lift_ok_def)
  have bore: "0 < (m3 + c) / 2 + wall + c" using pos by (intro add_pos_pos divide_pos_pos) simp_all
  have half: "0 < (bw + 2 * slack) / 2" using pos(2) bpos by simp
  moreover have "wall + (bw + 2 * slack) / 2 \<le> az" using az(2) by linarith
  ultimately have "0 < az" using pos(1) by linarith
  then have up: "0 < az + (bw + 2 * slack) / 2 + wall" "0 < 2 * wall + (az + (bw + 2 * slack) / 2)"
    using half pos(1) by linarith+
  have p1: "servo_pocket big fab None = Inr (PBox (bl' + 2 * slack) (bw + 2 * slack) (bh + slack))"
    by (simp add: servo_pocket_def known big del: require_keys.simps)
  have p2: "servo_pocket small fab (Some (gz - wall)) = Inr (PBox (sl + 2 * slack) (sw + 2 * slack) (gz - wall + slack))"
    by (simp add: servo_pocket_def known small del: require_keys.simps)
  show "sized (base_plate cfg m)"
    using pos sz bpos by (simp add: base_plate_def known big p1 Let_def less_max_iff_disj del: require_keys.simps)
  show "sized (shoulder_turret cfg m)"
    unfolding shoulder_turret_def known rbind_Inr az(1) big Let_def if_not_P [OF az(2)]
    using pos sz(9) bpos corners up by (simp add: less_max_iff_disj) (auto intro!: sized_cavities)
  show "sized (upper_arm_link cfg m)" unfolding upper_arm_link_def
    by (rule beam_sized [OF f(1,2) links(2) b(5) sv(1) so(1) pos(1) _ sz(4)]) (rule bore)
  show "sized (forearm_link cfg m)" unfolding forearm_link_def
    by (rule beam_sized [OF f(1,2) links(3) b(5) sv(2) so(2) pos(1) _ sz(5)]) (rule bore)
  show "sized (wrist_bracket cfg m)"
    using pos sz spos by (simp add: wrist_bracket_def known small Let_def less_max_iff_disj del: require_keys.simps)
  show "sized (gripper_base cfg m)"
    using pos sz spos by (simp add: gripper_base_def known p2 link_item_def)
  show "sized (gripper_finger cfg m)" using pos sz by (simp add: gripper_finger_def known link_item_def)
  show "sized (horn_adapter ''mg996r'' cfg m)"
    using pos bpos by (simp add: horn_adapter_def known big Let_def sized_map del: require_keys.simps)
  show "sized (horn_adapter ''sg90'' cfg m)"
    using pos spos by (simp add: horn_adapter_def known small Let_def sized_map del: require_keys.simps)
  show "sized (pivot_bushing cfg m)" using pos by (auto simp: pivot_bushing_def known intro!: add_pos_pos)
  show "sized (thrust_washer cfg m)" using pos sz(9) by (auto simp: thrust_washer_def known intro!: add_pos_pos)
  show "sized (push_rod cfg ''linkage'')" using pos sz(4) by (auto simp: push_rod_def known link_item_def Let_def less_max_iff_disj intro!: add_pos_pos)
  show "sized (shoulder_bracket cfg ''linkage'')" "sized (shoulder_bracket cfg ''direct'')"
    using pos sz bpos corners
    by (simp_all add: shoulder_bracket_def known big p1 Let_def link_item_def less_max_iff_disj del: require_keys.simps)
qed

lemmas builders_ok = builders_sized [THEN sized_ok]

subsection \<open>Properties\<close>

text \<open>C34: a well-sized profile builds. Suppose the modeller takes every primitive whose sizes are positive and whose
  rounded corners fit. If the profile has the printer's constants and both servos as positive lengths, the five boxes and
  two cylinders with room for their walls and corners, a flange servo wider than the corners, and a lift axis high enough
  for a servo lying on its side, then no builder of either mechanism raises, neither reading the profile nor creating a
  primitive; any other mechanism is refused with \<open>ValueError\<close>.\<close>

theorem typed_profile_builds:
  assumes "profile_ok cfg" and "\<And>p. well_sized p \<Longrightarrow> modeller p = None"
  shows "if mechanism \<in> set MECHANISMS
     then \<exists>ps. parts_for mechanism = Inr ps \<and> length ps = (if mechanism = ''linkage'' then 13 else 11)
            \<and> list_all (\<lambda>(name, build). is_ok (run_builder modeller build cfg mechanism)) ps
     else parts_for mechanism = Inl ValueError"
  using builders_sized [OF assms(1)] sized_run [OF assms(2)]
  by (auto simp: parts_for_def MECHANISMS_def MECHANISM_ONLY_def PARTS_def)

theorem typed_profile_builds_witness:
  "\<exists>calls. run_builder (\<lambda>p. if well_sized p then None else Some ValueError) shoulder_turret demo_profile ''direct'' = Inr calls"
  using typed_profile_builds [OF demo_profile_ok, of "\<lambda>p. if well_sized p then None else Some ValueError" "''direct''"]
  by (auto simp: MECHANISMS_def parts_for_def MECHANISM_ONLY_def PARTS_def)

end
