(* ===== verification/Cad_Fits.thy ===== *)
theory Cad_Fits
  imports Cad_Parts
begin

text \<open>
  What the printed parts promise one another: the fits of \<open>fits.py\<close> at the joints, the cavities that have to
  stay open, and where the parts do not do what their comments say. Statements are about the material the
  modelling calls leave (\<open>Cad_Parts\<close>); two parts are compared in one frame when their axes coincide.
\<close>

subsection \<open>Distances\<close>

definition planar :: "real \<Rightarrow> real \<Rightarrow> real" where
  "planar u v = sqrt (sq u + sq v)"

lemma planar_le: "0 \<le> r \<Longrightarrow> sq u + sq v \<le> sq r \<Longrightarrow> planar u v \<le> r"
  unfolding planar_def by (intro real_le_lsqrt) (simp_all add: sq_def power2_eq_square)

lemma planar_less: "0 \<le> r \<Longrightarrow> sq r < sq u + sq v \<Longrightarrow> r < planar u v"
  unfolding planar_def by (intro real_less_rsqrt) (simp add: sq_def power2_eq_square)

lemma planar_triangle: "planar u v \<le> planar u' v' + planar (u - u') (v - v')"
proof -
  have n: "planar a b = cmod (Complex a b)" for a b by (simp add: planar_def cmod_def sq_def power2_eq_square)
  have "Complex u v = Complex u' v' + Complex (u - u') (v - v')" by (simp add: complex_eq_iff)
  then show ?thesis unfolding n by (metis norm_triangle_ineq)
qed

text \<open>A point outside a bore and a point inside a plug on the same axis are further apart than the clearance.\<close>

lemma plug_gap:
  assumes "sq (r + c) < sq u + sq v" "sq u' + sq v' \<le> sq r" "0 \<le> r" "0 \<le> r + c"
  shows "c < planar (u - u') (v - v')"
  using planar_less [OF assms(4,1)] planar_le [OF assms(3,2)] planar_triangle [of u v u' v'] by linarith

lemma fits_bushed:
  assumes "fabrication cfg = Inr fab" "num fab ''hole_clearance_mm'' = Inr c" "bushing_outer_radius cfg = Inr r"
  shows "pivot_bore_radius cfg True = Inr (r + c)"
  using assms by (simp add: pivot_bore_radius_def)

subsection \<open>The fits\<close>

text \<open>Every hole of the assembly is exactly one clearance larger than the part that goes into it.\<close>

theorem every_fit_clears:
  assumes "fabrication cfg = Inr fab" "num fab ''hole_clearance_mm'' = Inr c"
    and "(hole, Some plug, what) \<in> set MATING_PAIRS" "plug cfg = Inr r"
  shows "hole cfg = Inr (r + c)"
  using assms(3,4) bore_radii [OF assms(1,2)] fits_bushed [OF assms(1,2)] unfolding MATING_PAIRS_def by auto

theorem every_fit_clears_witness:
  "turret_bore_radius demo_profile = Inr (244 / 10 + 35 / 100)"
  by (rule every_fit_clears [OF demo_values(1,3), where plug = bearing_seat_outer_radius and what = "''turret over the bearing seat''"])
    (simp_all add: MATING_PAIRS_def demo_bores)

text \<open>What stands above the top face of the base plate is the bearing seat.\<close>

lemma base_plate_adds:
  assumes "base_plate cfg mechanism = Inr calls"
  obtains bx bz bh wall seat r where "link_mm cfg ''base_link'' = Inr (BoxLink bx bz bh)" "bearing_seat_outer_radius cfg = Inr seat"
    "filter (\<lambda>c. op c = Add) calls = [Call Add (PRounded bx bz r bh) AMin [], Call Add (PCylinder seat bh) AMin [],
       Call Add (PCylinder seat (wall * 2)) AMin [LAt 0 0 bh]]"
proof -
  from assms obtain fab base sv wall where n: "fabrication cfg = Inr fab" "link_mm cfg ''base_link'' = Inr base"
    "servo cfg ''mg996r'' = Inr sv" "num fab ''min_wall_mm'' = Inr wall"
    by (auto simp: base_plate_def rbind_eq_Inr)
  note c = assms [unfolded base_plate_def n rbind_Inr]
  then obtain x y z where base: "base = BoxLink x y z" by (cases base) auto
  note c = c [unfolded base link_geometry.case]
  then obtain seat where seat: "bearing_seat_outer_radius cfg = Inr seat" by (auto simp: rbind_eq_Inr)
  show thesis
    by (rule that [OF n(2) [unfolded base] seat, of "min (wall * 2) 4" wall])
      (use c seat in \<open>auto simp: rbind_eq_Inr Let_def\<close>)
qed

lemma above_base:
  assumes "base_plate cfg mechanism = Inr calls" "link_mm cfg ''base_link'' = Inr (BoxLink bx bz bh)"
    and "bearing_seat_outer_radius cfg = Inr seat" "material calls (x, y, z)" "bh < z"
  shows "0 \<le> seat \<and> sq x + sq y \<le> sq seat"
proof -
  obtain c where c: "c \<in> set calls" "op c = Add" "hit c (x, y, z)" using material_within [OF assms(4)] by blast
  obtain r wall where "filter (\<lambda>c. op c = Add) calls = [Call Add (PRounded bx bz r bh) AMin [], Call Add (PCylinder seat bh) AMin [],
       Call Add (PCylinder seat (wall * 2)) AMin [LAt 0 0 bh]]"
    by (rule base_plate_adds [OF assms(1)]) (use assms(2,3) in auto)
  from arg_cong [where f = set, OF this]
  have "c \<in> {Call Add (PRounded bx bz r bh) AMin [], Call Add (PCylinder seat bh) AMin [],
       Call Add (PCylinder seat (wall * 2)) AMin [LAt 0 0 bh]}"
    using c(1,2) by (simp only: set_filter list.set) blast
  with c(3) assms(5) show ?thesis by (auto simp: z_range_def)
qed

text \<open>C28: the pan joint turns. With the axes of base plate, turret and washer on one line, no point of the turret or
  of the thrust washer comes within the clearance of what stands above the base plate's top face.\<close>

theorem pan_joint_clears:
  assumes fab: "fabrication cfg = Inr fab" "num fab ''min_wall_mm'' = Inr wall" "0 \<le> wall"
      "num fab ''hole_clearance_mm'' = Inr c" "0 \<le> c"
    and base: "base_plate cfg mechanism = Inr base" "link_mm cfg ''base_link'' = Inr (BoxLink bx bz bh)"
      "material base (x', y', z')" "bh < z'"
    and part: "build = shoulder_turret \<or> build = thrust_washer" "build cfg mechanism = Inr calls" "material calls (x, y, z)"
  shows "c < planar (x - x') (y - y')"
proof -
  obtain seat where seat: "bearing_seat_outer_radius cfg = Inr seat" by (rule base_plate_adds [OF base(1)])
  have s: "0 \<le> seat" "sq x' + sq y' \<le> sq seat" using above_base [OF base(1,2) seat base(3,4)] by simp_all
  note bores = bore_radii [OF fab(1,4) seat]
  have c: "0 \<le> seat + c" using fab(5) s(1) by simp
  from part(1) have "sq (seat + c) < sq x + sq y"
  proof
    assume "build = shoulder_turret"
    then show ?thesis using turret_clear [OF _ bores(1) c fab(1,2,3) part(3)] part(2) by blast
  next
    assume "build = thrust_washer"
    then show ?thesis using washer_clear [OF _ bores(2) c fab(1,2,3) part(3)] part(2) by blast
  qed
  then show ?thesis by (rule plug_gap [OF _ s(2,1) c])
qed

lemma demo_washer:
  "thrust_washer demo_profile m = Inr [Call Add (PCylinder (2715 / 100) (12 / 10)) AMin [],
     Call Subtract (PCylinder (2475 / 100) (36 / 10)) ACenter []]"
  by (simp add: thrust_washer_def demo_values demo_links demo_bores washer_outer_radius_def)

lemma demo_base: "\<exists>calls. base_plate demo_profile m = Inr calls \<and> material calls (24, 0, 46)"
proof -
  define h where "h = hypot (413 / 10) (203 / 10)"
  have "h < 47" unfolding h_def hypot_def by (rule real_less_lsqrt) simp_all
  have "0 \<le> h" unfolding h_def hypot_def by simp
  then have "sq (max (447 / 20) (h / 2)) < sq 24" unfolding sq_def using \<open>h < 47\<close> by (intro mult_strict_mono) auto
  then have far: "\<not> sq 24 + sq 0 \<le> sq (max (447 / 20) (h / 2))" by (simp add: sq_def)
  have "num demo_mg996r ''length_mm'' = Inr (407 / 10)" "num demo_mg996r ''width_mm'' = Inr (197 / 10)"
    "num demo_mg996r ''height_mm'' = Inr (429 / 10)" "bearing_seat_inner_radius demo_profile = Inr (447 / 20)"
    by (simp_all add: bearing_seat_inner_radius_def demo_values demo_links link_item_def, simp_all add: num_def demo_mg996r_def)
  note v = this demo_values demo_links demo_bores demo_servos
  show ?thesis
    by (simp add: base_plate_def servo_pocket_def v Let_def flip: h_def)
      (use far in \<open>simp add: material_def z_range_def, simp add: sq_def\<close>)
qed

theorem pan_joint_clears_witness: "(35 / 100 :: real) < planar (26 - 24) (0 - 0)"
proof -
  obtain base where base: "base_plate demo_profile ''direct'' = Inr base" "material base (24, 0, 46)"
    using demo_base by blast
  show ?thesis
  proof (rule pan_joint_clears [OF demo_values(1,2) _ demo_values(3) _ base(1) demo_links(1) base(2),
      where build = thrust_washer, OF _ _ _ _ demo_washer])
    show "material [Call Add (PCylinder (2715 / 100) (12 / 10)) AMin [],
       Call Subtract (PCylinder (2475 / 100) (36 / 10)) ACenter []] (26, 0, 1)"
      by (simp add: material_def z_range_def sq_def)
  qed simp_all
qed

text \<open>The pan servo fits. Nothing the base plate is made of lies in the servo's pocket, a clearance wider than
  the servo's body on every side and standing on the floor: the pocket is cut after everything that adds.\<close>

theorem servo_pocket_stays_empty:
  assumes "base_plate cfg mechanism = Inr calls"
    and fab: "fabrication cfg = Inr fab" "num fab ''min_wall_mm'' = Inr wall" "num fab ''servo_pocket_clearance_mm'' = Inr slack"
    and sv: "servo cfg ''mg996r'' = Inr sv" "num sv ''length_mm'' = Inr l" "num sv ''width_mm'' = Inr w" "num sv ''height_mm'' = Inr h"
    and inside: "\<bar>x\<bar> \<le> l / 2 + slack" "\<bar>y\<bar> \<le> w / 2 + slack" "wall \<le> z" "z \<le> wall + h + slack"
  shows "\<not> material calls (x, y, z)"
proof -
  have p: "servo_pocket sv fab None = Inr (PBox (l + 2 * slack) (w + 2 * slack) (h + slack))"
    using fab sv by (simp add: servo_pocket_def)
  obtain body where calls: "calls = body @ [Call Subtract (PBox (l + 2 * slack) (w + 2 * slack) (h + slack)) AMin [LAt 0 0 wall]]"
    by (rule base_plate_calls [OF assms(1)]) (use fab sv p in auto)
  show ?thesis unfolding calls
    by (rule material_removed [where c = "Call Subtract (PBox (l + 2 * slack) (w + 2 * slack) (h + slack)) AMin [LAt 0 0 wall]"])
      (use inside in \<open>auto simp: z_range_def\<close>)
qed

theorem servo_pocket_stays_empty_witness:
  "\<exists>calls. base_plate demo_profile ''direct'' = Inr calls \<and> \<not> material calls (20, 10, 30)"
proof -
  obtain calls where c: "base_plate demo_profile ''direct'' = Inr calls"
    using builders_ok(1) [OF demo_profile_ok] by blast
  have "\<not> material calls (20, 10, 30)"
    by (rule servo_pocket_stays_empty [OF c demo_values(1,2,4) demo_servos(1), where l = "407 / 10" and w = "197 / 10" and h = "429 / 10"]) (simp_all add: num_def demo_mg996r_def)
  with c show ?thesis by blast
qed

subsection \<open>Where the parts do not do what they say\<close>

lemma material_useless_all:
  assumes "\<And>c p. c \<in> set extra \<Longrightarrow> hit c p \<Longrightarrow> \<not> material pre p" "list_all (\<lambda>c. op c = Subtract) extra"
  shows "material (pre @ extra) = material pre"
  using assms
proof (induction extra rule: rev_induct)
  case (snoc c extra)
  have ih: "material (pre @ extra) = material pre" by (rule snoc.IH) (use snoc.prems in auto)
  have "material ((pre @ extra) @ [c]) = material (pre @ extra)"
    by (rule material_useless) (use snoc.prems ih in auto)
  then show ?case using ih by simp
qed simp

text \<open>A screw on a circle that stays inside a bore on the same axis.\<close>

lemma screw_in_bore:
  assumes "c \<in> set (two_screws b h d phase 0)" "hit c (x, y, z)" "0 \<le> b" "0 \<le> d" "d + b \<le> r"
  shows "sq x + sq y \<le> sq r"
proof -
  obtain t where "sq (x - d * cos t) + sq (y - d * sin t) \<le> sq b"
    using assms(1,2) by (auto simp: two_screws_def Let_def)
  from hypot_circle [OF this assms(3,4)] have "sq x + sq y \<le> sq (d + b)" .
  also have "\<dots> \<le> sq r" using assms(3-5) by (intro sq_mono) simp
  finally show ?thesis .
qed

text \<open>C40: the turret's two screws to the pan servo's horn adapter cut nothing: the circle they sit on lies inside the
  bore that already runs through the whole turret, so the part without its last two calls is the same part and
  nothing fastens it.\<close>

theorem turret_adapter_screws_cut_nothing:
  assumes calls: "shoulder_turret cfg mechanism = Inr calls" "turret_bore_radius cfg = Inr tb" "screw_bore_radius cfg = Inr bore"
    and fab: "fabrication cfg = Inr fab" "num fab ''min_wall_mm'' = Inr wall" "num fab ''m3_head_mm'' = Inr head"
    and sv: "servo cfg ''mg996r'' = Inr sv" "num sv ''horn_screw_circle_mm'' = Inr circle"
    and sizes: "0 \<le> wall" "0 \<le> bore" "0 \<le> circle / 2 + head / 2" "circle / 2 + head / 2 + bore \<le> tb"
  shows "material (take (length calls - 2) calls) = material calls"
proof -
  obtain l w height mid where c: "calls = [Call Add (PRounded l w (min (wall * 2) 3) height) AMin [],
      Call Subtract (PCylinder tb (height + wall)) AMin []] @ mid @ two_screws bore (wall * 6) (circle / 2 + head / 2) (pi / 4) 0"
    and mid: "list_all (\<lambda>c. op c = Subtract) mid"
    by (rule shoulder_turret_calls [OF calls(1)]) (use assms in auto)
  let ?pre = "[Call Add (PRounded l w (min (wall * 2) 3) height) AMin []] @ Call Subtract (PCylinder tb (height + wall)) AMin [] # mid"
  let ?screws = "two_screws bore (wall * 6) (circle / 2 + head / 2) (pi / 4) 0"
  have "length ?screws = 2" by (simp add: two_screws_def)
  then have take: "take (length calls - 2) calls = ?pre" "calls = ?pre @ ?screws" unfolding c by simp_all
  have "material (?pre @ ?screws) = material ?pre"
  proof (rule material_useless_all)
    fix c and p :: point
    obtain x y z where p: "p = (x, y, z)" by (cases p)
    assume "c \<in> set ?screws" "hit c p"
    then have "sq x + sq y \<le> sq tb" unfolding p using sizes(2-4) by (rule screw_in_bore)
    moreover have "0 \<le> tb" using sizes(2-4) by simp
    moreover have "sq tb < sq x + sq y" if "material ?pre (x, y, z)"
      by (rule bored_clear [OF refl mid _ \<open>0 \<le> tb\<close> that]) (use sizes(1) in \<open>auto simp: z_range_def\<close>)
    ultimately show "\<not> material ?pre p" unfolding p by auto
  qed simp
  then have "material ?pre = material calls" by (simp only: take(2))
  then show ?thesis by (simp only: take(1))
qed

theorem turret_adapter_screws_cut_nothing_witness:
  "\<exists>calls. shoulder_turret demo_profile ''direct'' = Inr calls \<and> material (take (length calls - 2) calls) = material calls"
proof -
  obtain calls where c: "shoulder_turret demo_profile ''direct'' = Inr calls"
    using builders_ok(2) [OF demo_profile_ok] by blast
  have "material (take (length calls - 2) calls) = material calls"
    by (rule turret_adapter_screws_cut_nothing [OF c demo_bores(5,1) demo_values(1,2,6) demo_servos(1), where circle = 16])
      (simp_all add: num_def demo_mg996r_def)
  with c show ?thesis by blast
qed

text \<open>A bushing is meant to be pressed into its pivot bore. Where the beam has material on the height of a pivot it is
  further from the sleeve of a bushing in that pivot than the hole clearance: the sleeve is loose.\<close>

lemma sleeve_points:
  assumes "in_prim (PCylinder outer h) AMin (u, v, w)"
  shows "sq u + sq v \<le> sq outer" "0 \<le> outer"
  using assms by simp_all

lemma beam_pivot_clear:
  assumes "beam cfg link_name mechanism distal = Inr calls" "link_mm cfg link_name = Inr (BoxLink thickness width len)"
    and "pivot_bore_radius cfg True = Inr bore" "0 \<le> bore" "fabrication cfg = Inr fab" "num fab ''min_wall_mm'' = Inr wall"
    and m: "material calls (x, y, z)" and pivot: "zp = wall / 2 \<or> zp = len - wall / 2"
  shows "sq bore < sq x + sq (z - zp)"
proof (rule ccontr)
  assume near: "\<not> sq bore < sq x + sq (z - zp)"
  obtain rest where calls: "calls = [Call Add (PBox thickness width len) AMin []]
       @ Call Subtract (PBox (thickness - 2 * wall) (width - 2 * wall) (len - 2 * wall)) AMin [LAt 0 0 wall]
       # ([side_hole bore width 0 (wall / 2), side_hole bore width 0 (len - wall / 2)] @ rest)"
    and rest: "list_all (\<lambda>c. op c = Subtract) rest"
    by (rule beam_calls [OF assms(1)]) (use assms(2,3,5,6) in auto)
  obtain c where "c \<in> set calls" "op c = Add" "hit c (x, y, z)" using material_within [OF m] by blast
  then have "\<bar>y\<bar> \<le> width / 2" using calls rest by (auto simp: list_all_iff)
  then have hit: "hit (side_hole bore width 0 zp) (x, y, z)"
    using near assms(4) by (auto simp: side_hole_def z_range_def abs_le_iff)
  have "\<not> material calls (x, y, z)" unfolding calls
    by (rule material_removed [where c = "side_hole bore width 0 zp"]) (use pivot rest hit in auto)
  then show False using m by simp
qed

theorem bushing_is_loose:
  assumes beam: "beam cfg link_name mechanism distal = Inr calls" "link_mm cfg link_name = Inr (BoxLink thickness width len)"
    and fab: "fabrication cfg = Inr fab" "num fab ''min_wall_mm'' = Inr wall" "num fab ''hole_clearance_mm'' = Inr c" "0 \<le> c"
    and sleeve: "bushing_outer_radius cfg = Inr outer" "in_prim (PCylinder outer h) AMin (u, v, w)"
    and pivot: "zp = wall / 2 \<or> zp = len - wall / 2" and m: "material calls (x, y, z)"
  shows "c < planar (x - u) (z - zp - v)"
proof -
  note s = sleeve_points [OF sleeve(2)]
  have o: "0 \<le> outer + c" using s(2) fab(4) by simp
  have "sq (outer + c) < sq x + sq (z - zp)"
    by (rule beam_pivot_clear [OF beam fits_bushed [OF fab(1,3) sleeve(1)] o fab(1,2) m pivot])
  then show ?thesis by (rule plug_gap [OF _ s o])
qed

lemma demo_beam:
  "beam demo_profile ''upper_arm_link'' ''direct'' None = Inr
     [Call Add (PBox 20 30 110) AMin [], Call Subtract (PBox (176 / 10) (276 / 10) (1076 / 10)) AMin [LAt 0 0 (12 / 10)],
      side_hole (3225 / 1000) 30 0 (6 / 10), side_hole (3225 / 1000) 30 0 (1094 / 10)]"
  by (simp add: beam_def demo_values demo_links demo_bores Let_def)

theorem bushing_is_loose_witness: "(35 / 100 :: real) < planar (5 - 2875 / 1000) (1 - 12 / 10 / 2 - 0)"
proof (rule bushing_is_loose [OF demo_beam demo_links(3) demo_values(1,2,3)])
  show "bushing_outer_radius demo_profile = Inr (2875 / 1000)"
    by (simp add: bushing_outer_radius_def demo_values demo_bores)
  show "in_prim (PCylinder (2875 / 1000) 1) AMin (2875 / 1000, 0, 1)" by (simp add: z_range_def sq_def)
  show "material [Call Add (PBox 20 30 110) AMin [], Call Subtract (PBox (176 / 10) (276 / 10) (1076 / 10)) AMin [LAt 0 0 (12 / 10)],
      side_hole (3225 / 1000) 30 0 (6 / 10), side_hole (3225 / 1000) 30 0 (1094 / 10)] (5, 0, 1)"
    by (simp add: material_def side_hole_def z_range_def sq_def)
qed simp_all

text \<open>The pivots of a beam are not closed holes: with a bore wider than half the wall, no material is left between
  either pivot's axis and the end of the beam it sits at, so the screw is held from one side only.\<close>

theorem beam_pivots_break_out:
  assumes beam: "beam cfg link_name mechanism distal = Inr calls" "link_mm cfg link_name = Inr (BoxLink thickness width len)"
    and fab: "fabrication cfg = Inr fab" "num fab ''min_wall_mm'' = Inr wall" "0 \<le> wall"
    and bore: "pivot_bore_radius cfg True = Inr bore" "wall / 2 \<le> bore"
    and on: "0 \<le> z \<and> z \<le> wall / 2 \<or> len - wall / 2 \<le> z \<and> z \<le> len"
  shows "\<not> material calls (0, y, z)"
proof
  assume m: "material calls (0, y, z)"
  have "\<bar>z - wall / 2\<bar> \<le> bore \<or> \<bar>z - (len - wall / 2)\<bar> \<le> bore"
    using on fab(3) bore(2) by linarith
  then obtain zp where zp: "zp = wall / 2 \<or> zp = len - wall / 2" and "\<bar>z - zp\<bar> \<le> bore" by blast
  then have "sq (z - zp) \<le> sq bore" by (intro sq_mono)
  moreover have "sq bore < sq 0 + sq (z - zp)"
    by (rule beam_pivot_clear [OF beam bore(1) _ fab(1,2) m zp]) (use fab(3) bore(2) in simp)
  ultimately show False by (simp add: sq_def)
qed

theorem beam_pivots_break_out_witness:
  "\<not> material [Call Add (PBox 20 30 110) AMin [], Call Subtract (PBox (176 / 10) (276 / 10) (1076 / 10)) AMin [LAt 0 0 (12 / 10)],
      side_hole (3225 / 1000) 30 0 (6 / 10), side_hole (3225 / 1000) 30 0 (1094 / 10)] (0, 15, 0)"
  by (rule beam_pivots_break_out [OF demo_beam demo_links(3) demo_values(1,2) _ demo_bores(3)]) simp_all

end
