(* ===== verification/Cad_Print.thy ===== *)
theory Cad_Print
  imports Prelude "HOL-Library.Product_Lexorder"
begin

text \<open>
  Whether a part prints without support (\<open>printability.py\<close>). A solid is what the source reads of one: its faces
  (kind of surface, normal, centre, area, bounding box, radius), its volume and its bounding box. A normal or centre that the
  modeller refuses with \<open>TypeError\<close> or \<open>ValueError\<close> is \<open>None\<close>.
\<close>

type_synonym vec = "real \<times> real \<times> real"

datatype geom_type = PlaneFace | CylinderFace | OtherFace

record face =
  geom_type :: geom_type
  normal_at :: "vec option"
  center :: "vec option"
  face_area :: real
  face_size :: vec
  face_radius :: "real option"

record solid =
  faces :: "face list"
  volume :: real
  bbox :: vec

definition plus_z :: string where "plus_z = ''+Z up (as modelled)''"

definition ORIENTATIONS :: "(string \<times> vec) list" where
  "ORIENTATIONS =
     [(plus_z, (0, 0, 1)), (''-Z up (flipped)'', (0, 0, - 1)), (''+X up'', (1, 0, 0)), (''-X up'', (- 1, 0, 0)),
      (''+Y up'', (0, 1, 0)), (''-Y up'', (0, - 1, 0))]"

fun vdot :: "vec \<Rightarrow> vec \<Rightarrow> real" where
  "vdot (a, b, c) (x, y, z) = a * x + b * y + c * z"

fun unit_vec :: "vec \<Rightarrow> vec" where
  "unit_vec (a, b, c) = (let n = sqrt (vdot (a, b, c) (a, b, c)) in (a / n, b / n, c / n))"

definition face_normals_and_areas :: "solid \<Rightarrow> (vec \<times> real) list" where
  "face_normals_and_areas s = List.map_filter (\<lambda>f.
     if geom_type f \<noteq> PlaneFace then None
     else case normal_at f of None \<Rightarrow> None | Some n \<Rightarrow> Some (n, face_area f)) (faces s)"

text \<open>Normal, area and height along the build direction of every planar face that can be read, and that direction.\<close>

definition face_points :: "solid \<Rightarrow> vec \<Rightarrow> (vec \<times> real \<times> real) list \<times> vec" where
  "face_points s build_dir =
     (let up = unit_vec build_dir in
       (List.map_filter (\<lambda>f.
          if geom_type f \<noteq> PlaneFace then None
          else case (normal_at f, center f) of (Some n, Some c) \<Rightarrow> Some (n, face_area f, vdot c up) | _ \<Rightarrow> None) (faces s), up))"

definition to_degrees :: "real \<Rightarrow> real" where
  "to_degrees x = x * (180 / pi)"

definition overhang_angle :: "vec \<Rightarrow> vec \<Rightarrow> real option" where
  "overhang_angle normal up =
     (let component = vdot normal up in
      if component \<ge> - (1 / 10 ^ 9) then None else Some (to_degrees (arccos (min 1 (- component)))))"

definition span :: "face \<Rightarrow> real" where
  "span f = (case face_size f of (x, y, z) \<Rightarrow> sort [x, y, z] ! 1)"

definition min_height :: "(vec \<times> real \<times> real) list \<Rightarrow> real" where
  "min_height rows = Min (set (map (\<lambda>(n, a, height). height) rows))"

definition overhanging_area :: "solid \<Rightarrow> vec \<Rightarrow> real \<Rightarrow> real \<Rightarrow> real" where
  "overhanging_area s build_dir limit_deg bridge_mm =
     (case face_points s build_dir of (rows, up) \<Rightarrow>
        if rows = [] then 0
        else let plate = min_height rows in
          foldl (\<lambda>total f.
            case (normal_at f, center f) of
              (Some n, Some c) \<Rightarrow>
                (case overhang_angle n up of
                   None \<Rightarrow> total
                 | Some angle \<Rightarrow>
                     if \<bar>vdot c up - plate\<bar> < 1 / 10 ^ 6 then total
                     else if angle \<ge> limit_deg then total
                     else if bridge_mm \<noteq> 0 \<and> span f \<le> bridge_mm then total
                     else total + face_area f)
            | _ \<Rightarrow> total)
            0 (filter (\<lambda>f. geom_type f = PlaneFace) (faces s)))"

definition worst_overhang :: "solid \<Rightarrow> vec \<Rightarrow> real" where
  "worst_overhang s build_dir =
     (case face_points s build_dir of (rows, up) \<Rightarrow>
        if rows = [] then 90
        else let plate = min_height rows in
          foldl (\<lambda>worst (normal, _, height).
            case overhang_angle normal up of
              None \<Rightarrow> worst
            | Some angle \<Rightarrow> if \<bar>height - plate\<bar> < 1 / 10 ^ 6 then worst else min worst angle) 90 rows)"

definition best_orientation :: "solid \<Rightarrow> real \<Rightarrow> real \<Rightarrow> string \<times> real" where
  "best_orientation s limit_deg bridge_mm =
     (let scored = map (\<lambda>(label, direction). (overhanging_area s direction limit_deg bridge_mm, label)) ORIENTATIONS;
          scored = sort_key (\<lambda>row. (fst row, snd row \<noteq> plus_z)) scored;
          (area, label) = hd scored
      in (label, area))"

record print_report =
  unsupported_as_modelled :: real
  report_orientation :: string
  unsupported_best :: real
  worst_face_deg :: real

definition report :: "solid \<Rightarrow> real \<Rightarrow> real \<Rightarrow> print_report" where
  "report s limit_deg bridge_mm =
     (case best_orientation s limit_deg bridge_mm of (label, area) \<Rightarrow>
       \<lparr>unsupported_as_modelled = overhanging_area s (0, 0, 1) limit_deg bridge_mm, report_orientation = label,
        unsupported_best = area, worst_face_deg = worst_overhang s (0, 0, 1)\<rparr>)"

subsection \<open>Lemmas\<close>

text \<open>The angles of the downward faces that are off the plate, which both measures look at.\<close>

definition hanging :: "solid \<Rightarrow> vec \<Rightarrow> (real \<times> face) list" where
  "hanging s build_dir =
     (case face_points s build_dir of (rows, up) \<Rightarrow> List.map_filter (\<lambda>f.
        case (normal_at f, center f) of
          (Some n, Some c) \<Rightarrow>
            (case overhang_angle n up of
               None \<Rightarrow> None
             | Some angle \<Rightarrow> if \<bar>vdot c up - min_height rows\<bar> < 1 / 10 ^ 6 then None else Some (angle, f))
        | _ \<Rightarrow> None) (filter (\<lambda>f. geom_type f = PlaneFace) (faces s)))"

lemma no_rows_no_hanging:
  assumes "face_points s d = ([], up)"
  shows "hanging s d = []"
proof -
  have none: "\<not> (geom_type f = PlaneFace \<and> normal_at f \<noteq> None \<and> center f \<noteq> None)" if "f \<in> set (faces s)" for f
    using assms that by (force simp: face_points_def Let_def List.map_filter_def filter_empty_conv split: option.splits)
  then show ?thesis unfolding hanging_def assms
    by (auto simp: List.map_filter_def filter_empty_conv split: option.splits)
qed

lemma overhanging_area_hanging:
  "overhanging_area s d limit bridge =
     sum_list (map (face_area \<circ> snd) (filter (\<lambda>(a, f). a < limit \<and> \<not> (bridge \<noteq> 0 \<and> span f \<le> bridge)) (hanging s d)))"
proof -
  obtain rows up where fp: "face_points s d = (rows, up)" by (cases "face_points s d")
  let ?keep = "\<lambda>f. case (normal_at f, center f) of
      (Some n, Some c) \<Rightarrow>
        (case overhang_angle n up of
           None \<Rightarrow> None
         | Some angle \<Rightarrow> if \<bar>vdot c up - min_height rows\<bar> < 1 / 10 ^ 6 then None else Some (angle, f))
    | _ \<Rightarrow> None"
  have "foldl (\<lambda>total f.
            case (normal_at f, center f) of
              (Some n, Some c) \<Rightarrow>
                (case overhang_angle n up of
                   None \<Rightarrow> total
                 | Some angle \<Rightarrow>
                     if \<bar>vdot c up - min_height rows\<bar> < 1 / 10 ^ 6 then total
                     else if angle \<ge> limit then total
                     else if bridge \<noteq> 0 \<and> span f \<le> bridge then total
                     else total + face_area f)
            | _ \<Rightarrow> total) t fs
    = t + sum_list (map (face_area \<circ> snd) (filter (\<lambda>(a, f). a < limit \<and> \<not> (bridge \<noteq> 0 \<and> span f \<le> bridge)) (List.map_filter ?keep fs)))"
    for t :: real and fs
    by (induction fs arbitrary: t) (auto simp: List.map_filter_def split: option.splits)
  from this [of 0] show ?thesis
    using no_rows_no_hanging [of s d up] by (cases "rows = []") (simp_all add: overhanging_area_def hanging_def fp Let_def)
qed

lemma worst_overhang_hanging: "worst_overhang s d = foldl min 90 (map fst (hanging s d))"
proof -
  obtain rows up where fp: "face_points s d = (rows, up)" by (cases "face_points s d")
  then have rows: "rows = List.map_filter (\<lambda>f.
          if geom_type f \<noteq> PlaneFace then None
          else case (normal_at f, center f) of (Some n, Some c) \<Rightarrow> Some (n, face_area f, vdot c up) | _ \<Rightarrow> None) (faces s)"
    by (auto simp: face_points_def Let_def)
  have "foldl (\<lambda>worst (normal, _, height).
            case overhang_angle normal up of
              None \<Rightarrow> worst
            | Some angle \<Rightarrow> if \<bar>height - plate\<bar> < 1 / 10 ^ 6 then worst else min worst angle) w (List.map_filter (\<lambda>f.
          if geom_type f \<noteq> PlaneFace then None
          else case (normal_at f, center f) of (Some n, Some c) \<Rightarrow> Some (n, face_area f, vdot c up) | _ \<Rightarrow> None) fs)
    = foldl min w (map fst (List.map_filter (\<lambda>f. case (normal_at f, center f) of
      (Some n, Some c) \<Rightarrow>
        (case overhang_angle n up of
           None \<Rightarrow> None
         | Some angle \<Rightarrow> if \<bar>vdot c up - plate\<bar> < 1 / 10 ^ 6 then None else Some (angle, f))
    | _ \<Rightarrow> None) (filter (\<lambda>f. geom_type f = PlaneFace) fs)))" for w plate fs
    by (induction fs arbitrary: w) (auto simp: List.map_filter_def split: option.splits)
  from this [of "min_height rows" 90 "faces s"] show ?thesis
    using no_rows_no_hanging [of s d up] unfolding rows [symmetric]
    by (cases "rows = []") (simp_all add: worst_overhang_def hanging_def fp Let_def)
qed

lemma le_foldl_min: "l \<le> foldl min (w :: real) as \<longleftrightarrow> l \<le> w \<and> (\<forall>a \<in> set as. l \<le> a)"
  by (induction as arbitrary: w) auto

lemma hanging_faces: "(a, f) \<in> set (hanging s d) \<Longrightarrow> f \<in> set (faces s)"
  by (auto simp: hanging_def List.map_filter_def split: prod.splits option.splits if_splits)

lemma hd_sort_key:
  assumes "xs \<noteq> []"
  shows "hd (sort_key k xs) \<in> set xs" "x \<in> set xs \<Longrightarrow> k (hd (sort_key k xs)) \<le> k x"
proof -
  have ne: "sort_key k xs \<noteq> []" using assms by (metis length_0_conv length_sort)
  then show "hd (sort_key k xs) \<in> set xs" using hd_in_set by fastforce
  obtain y ys where s: "sort_key k xs = y # ys" using ne by (cases "sort_key k xs") auto
  have "sorted (map k (y # ys))" "set (y # ys) = set xs" using s sorted_sort_key [of k xs] set_sort [of k xs] by metis+
  then show "x \<in> set xs \<Longrightarrow> k (hd (sort_key k xs)) \<le> k x" unfolding s by auto
qed

subsection \<open>Properties\<close>

text \<open>The recommended orientation needs the least support of the six, and a part is only turned when that buys
  something: if the modelled orientation is as good, it is the one recommended.\<close>

theorem best_orientation_minimal:
  assumes "best_orientation s limit bridge = (label, least)"
  shows "(\<exists>d. (label, d) \<in> set ORIENTATIONS \<and> least = overhanging_area s d limit bridge)
     \<and> (\<forall>(l, d) \<in> set ORIENTATIONS. least \<le> overhanging_area s d limit bridge)
     \<and> (least = overhanging_area s (0, 0, 1) limit bridge \<longrightarrow> label = plus_z)"
proof -
  let ?f = "\<lambda>(l, d). (overhanging_area s d limit bridge, l)"
  let ?k = "\<lambda>row :: real \<times> string. (fst row, snd row \<noteq> plus_z)"
  let ?b = "hd (sort_key ?k (map ?f ORIENTATIONS))"
  have ne: "map ?f ORIENTATIONS \<noteq> []" by (simp add: ORIENTATIONS_def)
  have b: "?b = (least, label)"
    using assms by (simp add: best_orientation_def Let_def split: prod.splits)
  have "(least, label) \<in> ?f ` set ORIENTATIONS"
    using hd_sort_key(1) [OF ne, of ?k] unfolding b by simp
  then have one: "\<exists>d. (label, d) \<in> set ORIENTATIONS \<and> least = overhanging_area s d limit bridge" by auto
  have le: "(least, label \<noteq> plus_z) \<le> (overhanging_area s d limit bridge, l \<noteq> plus_z)" if "(l, d) \<in> set ORIENTATIONS" for l d
  proof -
    have "?f (l, d) \<in> set (map ?f ORIENTATIONS)" unfolding set_map using that by (rule imageI)
    from hd_sort_key(2) [OF ne this, of ?k] show ?thesis unfolding b by simp
  qed
  have all: "least \<le> overhanging_area s d limit bridge" if "(l, d) \<in> set ORIENTATIONS" for l d
    using le [OF that] by auto
  have z: "(plus_z, (0, 0, 1)) \<in> set ORIENTATIONS" by (simp add: ORIENTATIONS_def)
  have "label = plus_z" if "least = overhanging_area s (0, 0, 1) limit bridge"
    using le [OF z] that by simp
  then show ?thesis using one all by blast
qed

definition demo_cube :: solid where
  "demo_cube = (let f = \<lambda>n c. \<lparr>geom_type = PlaneFace, normal_at = Some n, center = Some c, face_area = 4, face_size = (2, 2, 0), face_radius = None\<rparr>
     in \<lparr>faces = [f (0, 0, - 1) (0, 0, 0), f (0, 0, 1) (0, 0, 2), f (0, 0, - 1) (0, 0, 1)], volume = 8, bbox = (2, 2, 2)\<rparr>)"

theorem best_orientation_minimal_witness:
  "snd (best_orientation demo_cube 45 0) \<le> overhanging_area demo_cube (0, 0, 1) 45 0"
proof -
  have "(plus_z, (0, 0, 1)) \<in> set ORIENTATIONS" by (simp add: ORIENTATIONS_def)
  then show ?thesis
    using best_orientation_minimal [OF prod.collapse [symmetric], of demo_cube 45 0] by fastforce
qed

text \<open>C36: the two measures agree: when bridging is not counted on, nothing needs support exactly if the worst overhang
  is within the limit. (A limit above a right angle would call vertical walls unsupported, and is not meant.)\<close>

theorem no_support_iff_worst_overhang:
  assumes "\<forall>f \<in> set (faces s). 0 < face_area f" "limit \<le> 90"
  shows "overhanging_area s d limit 0 = 0 \<longleftrightarrow> limit \<le> worst_overhang s d"
proof -
  let ?bad = "filter (\<lambda>(a, f). a < limit) (hanging s d)"
  have pos: "\<forall>x \<in> set (map (face_area \<circ> snd) ?bad). 0 < x" using assms(1) by (auto dest: hanging_faces)
  have area: "overhanging_area s d limit 0 = sum_list (map (face_area \<circ> snd) ?bad)" by (simp add: overhanging_area_hanging)
  have "sum_list xs = 0 \<longleftrightarrow> xs = []" if p: "\<forall>x \<in> set xs. 0 < x" for xs :: "real list"
  proof (cases xs)
    case (Cons x ys)
    then have "0 \<le> sum_list ys" using p by (intro sum_list_nonneg) (simp add: less_imp_le)
    then show ?thesis using Cons p by simp
  qed simp
  from this [OF pos] have "sum_list (map (face_area \<circ> snd) ?bad) = 0 \<longleftrightarrow> ?bad = []" unfolding map_is_Nil_conv .
  then have "overhanging_area s d limit 0 = 0 \<longleftrightarrow> ?bad = []" unfolding area .
  also have "\<dots> \<longleftrightarrow> (\<forall>a \<in> set (map fst (hanging s d)). limit \<le> a)" by (auto simp: filter_empty_conv not_less)
  also have "\<dots> \<longleftrightarrow> limit \<le> worst_overhang s d" unfolding worst_overhang_hanging le_foldl_min using assms(2) by simp
  finally show ?thesis .
qed

theorem no_support_iff_worst_overhang_witness:
  "overhanging_area demo_cube (0, 0, 1) 45 0 = 0 \<longleftrightarrow> 45 \<le> worst_overhang demo_cube (0, 0, 1)"
  by (rule no_support_iff_worst_overhang) (simp_all add: demo_cube_def Let_def)

end
