(* ===== verification/Cad_Account.thy ===== *)
theory Cad_Account
  imports Cad_Parts Cad_Print
begin

text \<open>
  What is read off the generated parts: the mass of each link (\<open>masses.py\<close>), the screw holes (\<open>fasteners.py\<close>) and
  the arm at its home pose (\<open>assembly.py\<close>). The modeller that turns a builder's calls into a solid is the argument
  \<open>render\<close>, which may raise. Dictionaries are association lists in insertion order; a dictionary key read from
  the profile may be any document that can be hashed.
\<close>

type_synonym kernel = "cad_call list \<Rightarrow> solid res"

definition hashable :: "json \<Rightarrow> bool" where
  "hashable j = (case j of JArr _ \<Rightarrow> False | JObj _ \<Rightarrow> False | _ \<Rightarrow> True)"

definition build_solid :: "kernel \<Rightarrow> builder \<Rightarrow> json \<Rightarrow> string \<Rightarrow> solid res" where
  "build_solid render builder cfg mechanism = rbind (builder cfg mechanism) render"

subsection \<open>\<open>masses.py\<close>\<close>

definition PLA_DENSITY :: real where "PLA_DENSITY = 124 / 100"

definition STRUCTURE :: "(string \<times> string) list" where
  "STRUCTURE =
     [(''base_link'', ''base_plate''), (''shoulder_link'', ''shoulder_turret''), (''upper_arm_link'', ''upper_arm_link''),
      (''forearm_link'', ''forearm_link''), (''wrist_link'', ''wrist_bracket''), (''gripper_base_link'', ''gripper_base''),
      (''gripper_left_finger_link'', ''gripper_finger''), (''gripper_right_finger_link'', ''gripper_finger'')]"

definition grams :: "solid \<Rightarrow> real" where
  "grams s = volume s / 1000 * PLA_DENSITY"

text \<open>The loop of \<open>servo_riders\<close> over the joints.\<close>

fun ride :: "json list \<Rightarrow> (json \<times> json list) list \<Rightarrow> (json \<times> json list) list res" where
  "ride [] riders = Inr riders"
| "ride (joint # js) riders =
     rbind (jin ''servo'' joint) (\<lambda>driven.
       if \<not> driven then ride js riders
       else
         rbind (jitem joint ''parent'') (\<lambda>parent.
         if \<not> hashable parent then Inl TypeError
         else rbind (jitem joint ''servo'') (\<lambda>s.
           ride js (AList.update parent ((case map_of riders parent of None \<Rightarrow> [] | Some ss \<Rightarrow> ss) @ [s]) riders))))"

definition servo_riders :: "json \<Rightarrow> (json \<times> json list) list res" where
  "servo_riders cfg = rbind (jitem cfg ''joints'') (\<lambda>js. rbind (jitems js) (\<lambda>js. ride (map snd js) []))"

definition servo_masses :: "json \<Rightarrow> (string \<times> real) list res" where
  "servo_masses cfg =
     rbind (jitem cfg ''servos'') (\<lambda>ss. rbind (jitems ss) (\<lambda>ss.
       rmap (\<lambda>(name, spec). rbind (num spec ''mass_kg'') (\<lambda>kg. Inr (name, kg * 1000))) ss))"

definition mass_of :: "(string \<times> real) list \<Rightarrow> json \<Rightarrow> (string \<times> real) res" where
  "mass_of masses s =
     (case s of
        JStr name \<Rightarrow> (case map_of masses name of None \<Rightarrow> Inl (KeyError name) | Some g \<Rightarrow> Inr (name, g))
      | _ \<Rightarrow> if hashable s then Inl (KeyError []) else Inl TypeError)"

text \<open>The inner loop of \<open>compute\<close>: the servos riding on one link, each with its adapter.\<close>

fun add_riders :: "(string \<Rightarrow> solid res) \<Rightarrow> (string \<times> builder) list \<Rightarrow> (string \<times> real) list \<Rightarrow> json list \<Rightarrow> real \<Rightarrow> real res" where
  "add_riders solid_of available masses [] weight = Inr weight"
| "add_riders solid_of available masses (s # ss) weight =
     rbind (mass_of masses s) (\<lambda>(name, g).
       let adapter = ''horn_adapter_'' @ name in
       case map_of available adapter of
         None \<Rightarrow> add_riders solid_of available masses ss (weight + g)
       | Some _ \<Rightarrow> rbind (solid_of adapter) (\<lambda>s. add_riders solid_of available masses ss (weight + g + grams s)))"

definition part_solid :: "kernel \<Rightarrow> json \<Rightarrow> string \<Rightarrow> (string \<times> builder) list \<Rightarrow> string \<Rightarrow> solid res" where
  "part_solid render cfg mechanism available name =
     (case map_of available name of None \<Rightarrow> Inl (KeyError name) | Some build \<Rightarrow> build_solid render build cfg mechanism)"

fun weigh :: "(string \<Rightarrow> solid res) \<Rightarrow> json \<Rightarrow> (string \<times> builder) list \<Rightarrow> (json \<times> json list) list \<Rightarrow> (string \<times> real) list
    \<Rightarrow> (string \<times> string) list \<Rightarrow> (string \<times> real) list \<Rightarrow> (string \<times> real) list res" where
  "weigh solid_of cfg available riders masses [] out = Inr out"
| "weigh solid_of cfg available riders masses ((link, part) # rest) out =
     (if map_of available part = None then weigh solid_of cfg available riders masses rest out
      else
        rbind (rbind (jitem cfg ''links'') (jin link)) (\<lambda>known.
          if \<not> known then weigh solid_of cfg available riders masses rest out
          else
            rbind (solid_of part) (\<lambda>s.
            rbind (add_riders solid_of available masses (case map_of riders (JStr link) of None \<Rightarrow> [] | Some ss \<Rightarrow> ss) (grams s)) (\<lambda>weight.
              weigh solid_of cfg available riders masses rest (AList.update link (py_round_to 4 (weight / 1000)) out)))))"

definition compute :: "kernel \<Rightarrow> json \<Rightarrow> string \<Rightarrow> (string \<times> real) list res" where
  "compute render cfg mechanism =
     rbind (parts_for mechanism) (\<lambda>available. rbind (servo_riders cfg) (\<lambda>riders. rbind (servo_masses cfg) (\<lambda>masses.
       weigh (part_solid render cfg mechanism available) cfg available riders masses STRUCTURE [])))"

definition compare_masses :: "kernel \<Rightarrow> json \<Rightarrow> string \<Rightarrow> (string \<times> json \<times> real) list res" where
  "compare_masses render cfg mechanism =
     rbind (compute render cfg mechanism) (\<lambda>computed.
       rmap (\<lambda>(link, v). rbind (rbind (jitem cfg ''links'') (\<lambda>ls. rbind (jitem ls link) (\<lambda>l. jitem l ''mass''))) (\<lambda>declared.
               Inr (link, declared, v))) (sort_key fst computed))"

subsection \<open>\<open>fasteners.py\<close>\<close>

text \<open>The loop of \<open>holes_in\<close>: a counter of diameters.\<close>

definition holes_in :: "solid \<Rightarrow> (real \<times> nat) list" where
  "holes_in s = foldl (\<lambda>counts f.
     case (geom_type f, face_radius f) of
       (CylinderFace, Some r) \<Rightarrow>
         let d = py_round_to 2 (r * 2) in AList.update d ((case map_of counts d of None \<Rightarrow> 0 | Some n \<Rightarrow> n) + 1) counts
     | _ \<Rightarrow> counts) [] (faces s)"

record hole_row =
  hole_part :: string
  hole_diameter :: real
  hole_faces :: nat
  hole_kind :: string

definition M3_KIND :: string where "M3_KIND = ''M3 clearance (plain holes and bushing bores alike)''"

definition PIVOT_KIND :: string where "PIVOT_KIND = ''bushed pivot (takes a bushing, not a screw)''"

definition known_sizes :: "json \<Rightarrow> (real \<times> string) list res" where
  "known_sizes cfg =
     rbind (screw_bore_radius cfg) (\<lambda>screw. rbind (pivot_bore_radius cfg True) (\<lambda>pivot.
     let known = dict_of [(py_round_to 2 (screw * 2), M3_KIND), (py_round_to 2 (pivot * 2), PIVOT_KIND)];
         horn = (\<lambda>name known.
           rbind (servo cfg name) (\<lambda>sv. rbind (num sv ''horn_screw_hole_mm'') (\<lambda>hole.
           rbind (fabrication cfg) (\<lambda>fab. rbind (num fab ''hole_clearance_mm'') (\<lambda>c.
             let size = py_round_to 2 (hole + c) in
             Inr (case map_of known size of None \<Rightarrow> AList.update size (name @ '' horn screw'') known | Some _ \<Rightarrow> known))))))
     in rbind (horn ''mg996r'' known) (horn ''sg90'')))"

definition part_rows :: "(real \<times> string) list \<Rightarrow> string \<Rightarrow> solid \<Rightarrow> hole_row list" where
  "part_rows known part s = List.map_filter (\<lambda>(d, n).
     case map_of known d of
       None \<Rightarrow> None
     | Some kind \<Rightarrow> Some \<lparr>hole_part = part, hole_diameter = d, hole_faces = n, hole_kind = kind\<rparr>) (sort_key fst (holes_in s))"

definition schedule :: "kernel \<Rightarrow> json \<Rightarrow> string \<Rightarrow> hole_row list res" where
  "schedule render cfg mechanism =
     rbind (known_sizes cfg) (\<lambda>known. rbind (parts_for mechanism) (\<lambda>ps.
     rbind (rmap (\<lambda>(name, build). rbind (build_solid render build cfg mechanism) (\<lambda>s. Inr (part_rows known name s)))
              (sort_key fst ps)) (\<lambda>rows. Inr (concat rows))))"

definition totals :: "hole_row list \<Rightarrow> (string \<times> nat) list" where
  "totals rows = foldl (\<lambda>out row.
     AList.update (hole_kind row) ((case map_of out (hole_kind row) of None \<Rightarrow> 0 | Some n \<Rightarrow> n) + hole_faces row) out) [] rows"

subsection \<open>\<open>assembly.py\<close>\<close>

definition PLACEMENT :: "(string \<times> string \<times> vec) list" where
  "PLACEMENT =
     [(''base_link'', ''base_plate'', (0, 0, 0)), (''shoulder_link'', ''shoulder_turret'', (0, 0, 0)),
      (''upper_arm_link'', ''upper_arm_link'', (0, 0, 0)), (''forearm_link'', ''forearm_link'', (0, 0, 0)),
      (''wrist_link'', ''wrist_bracket'', (0, 0, 0)), (''gripper_base_link'', ''gripper_base'', (0, 0, 0))]"

fun chain_joints :: "json \<Rightarrow> string list \<Rightarrow> real \<Rightarrow> ((json \<times> real) list \<times> real) res" where
  "chain_joints joints [] height = Inr ([], height)"
| "chain_joints joints (name # names) height =
     rbind (jitem joints name) (\<lambda>joint.
     rbind (rbind (rbind (jitem joint ''origin'') (\<lambda>oj. rbind (jitem oj ''xyz'') (\<lambda>xyz. jsub xyz (JInt 2)))) mm) (\<lambda>dz.
     rbind (jitem joint ''child'') (\<lambda>child.
     rbind (chain_joints joints names (height + dz)) (\<lambda>(out, h). Inr ((child, height + dz) # out, h)))))"

definition chain :: "json \<Rightarrow> (json \<times> real) list res" where
  "chain cfg =
     rbind (jitem cfg ''joints'') (\<lambda>joints.
     rbind (chain_joints joints [''shoulder_pan_joint'', ''shoulder_lift_joint'', ''elbow_joint'', ''wrist_joint''] 0) (\<lambda>(out, height).
     rbind (jget cfg ''frames'' (JObj [])) (\<lambda>frames. rbind (jget frames ''gripper_base_mount'' JNull) (\<lambda>mount.
       if truthy mount then
         rbind (rbind (rbind (jitem mount ''xyz'') (\<lambda>xyz. jsub xyz (JInt 2))) mm) (\<lambda>dz.
           Inr ((JStr ''base_link'', 0) # out @ [(JStr ''gripper_base_link'', height + dz)]))
       else Inr ((JStr ''base_link'', 0) # out)))))"

record placed =
  placed_part :: solid
  placed_rotation :: vec
  placed_at :: vec

fun place :: "(string \<Rightarrow> solid res) \<Rightarrow> (string \<times> builder) list \<Rightarrow> (json \<times> real) list \<Rightarrow> (string \<times> string \<times> vec) list \<Rightarrow> placed list res" where
  "place solid_of available heights [] = Inr []"
| "place solid_of available heights ((link, part, rotation) # rest) =
     (if map_of available part = None then place solid_of available heights rest
      else case map_of heights (JStr link) of
        None \<Rightarrow> place solid_of available heights rest
      | Some h \<Rightarrow>
          rbind (solid_of part) (\<lambda>s. rbind (place solid_of available heights rest) (\<lambda>ps.
            Inr (\<lparr>placed_part = s, placed_rotation = rotation, placed_at = (0, 0, h)\<rparr> # ps))))"

definition assemble :: "kernel \<Rightarrow> json \<Rightarrow> string \<Rightarrow> placed list res" where
  "assemble render cfg mechanism =
     rbind (chain cfg) (\<lambda>links.
     if \<not> list_all (hashable \<circ> fst) links then Inl TypeError
     else rbind (parts_for mechanism) (\<lambda>available.
     rbind (place (part_solid render cfg mechanism available) available (dict_of links) PLACEMENT) (\<lambda>placed.
       if placed = [] then Inl ValueError else Inr placed)))"

definition stack_height :: "json \<Rightarrow> real res" where
  "stack_height cfg = rbind (chain cfg) (\<lambda>links. Inr (Max (set (map snd links))))"

subsection \<open>Lemmas: counters\<close>

definition tally :: "('k \<times> nat) list \<Rightarrow> 'k \<Rightarrow> nat" where
  "tally d k = (case map_of d k of None \<Rightarrow> 0 | Some n \<Rightarrow> n)"

lemma tally_update: "tally (AList.update k v d) k' = (if k' = k then v else tally d k')"
  by (simp add: tally_def)

lemma tally_sum_update:
  "sum_list (map snd (filter (\<lambda>e. P (fst e)) (AList.update k (tally d k + w) d)))
     = sum_list (map snd (filter (\<lambda>e. P (fst e)) d)) + (if P k then w else 0)"
proof (induction d)
  case (Cons kv d)
  then show ?case by (cases kv) (auto simp: tally_def)
qed (simp add: tally_def)

lemma tally_sum_Suc:
  "sum_list (map snd (filter (\<lambda>e. P (fst e)) (AList.update k (Suc (tally d k)) d)))
     = sum_list (map snd (filter (\<lambda>e. P (fst e)) d)) + (if P k then 1 else 0)"
  using tally_sum_update [of P k d 1] by simp

lemma totals_tally: "tally (totals rows) kind = sum_list (map hole_faces (filter (\<lambda>r. hole_kind r = kind) rows))"
proof -
  have "tally (foldl (\<lambda>out row. AList.update (hole_kind row) (tally out (hole_kind row) + hole_faces row) out) out rows) kind
     = tally out kind + sum_list (map hole_faces (filter (\<lambda>r. hole_kind r = kind) rows))" for out
    by (induction rows arbitrary: out) (simp_all add: tally_update)
  from this [of "[]"] show ?thesis by (simp add: totals_def tally_def)
qed

text \<open>The faces of a solid whose diameter has a property.\<close>

definition bored :: "(real \<Rightarrow> bool) \<Rightarrow> face \<Rightarrow> bool" where
  "bored P f = (case (geom_type f, face_radius f) of (CylinderFace, Some r) \<Rightarrow> P (py_round_to 2 (r * 2)) | _ \<Rightarrow> False)"

lemma holes_in_sum: "sum_list (map snd (filter (\<lambda>e. P (fst e)) (holes_in s))) = length (filter (bored P) (faces s))"
proof -
  have "sum_list (map snd (filter (\<lambda>e. P (fst e)) (foldl (\<lambda>counts f.
     case (geom_type f, face_radius f) of
       (CylinderFace, Some r) \<Rightarrow> let d = py_round_to 2 (r * 2) in AList.update d (tally counts d + 1) counts
     | _ \<Rightarrow> counts) counts fs)))
   = sum_list (map snd (filter (\<lambda>e. P (fst e)) counts)) + length (filter (bored P) fs)" for counts fs
  proof (induction fs arbitrary: counts)
    case (Cons f fs)
    then show ?case unfolding foldl_Cons Cons.IH
      by (cases "geom_type f"; cases "face_radius f") (simp_all add: bored_def [of P f] Let_def tally_sum_Suc)
  qed simp
  from this [of "[]" "faces s"] show ?thesis unfolding holes_in_def tally_def by simp
qed

definition is_hole :: "(real \<times> string) list \<Rightarrow> string \<Rightarrow> real \<Rightarrow> bool" where
  "is_hole known kind d \<longleftrightarrow> map_of known d = Some kind"

lemma part_rows_sum:
  "sum_list (map hole_faces (filter (\<lambda>r. hole_kind r = kind) (part_rows known part s)))
     = length (filter (bored (is_hole known kind)) (faces s))"
proof -
  have "sum_list (map hole_faces (filter (\<lambda>r. hole_kind r = kind) (List.map_filter (\<lambda>(d, n).
     case map_of known d of
       None \<Rightarrow> None
     | Some kind \<Rightarrow> Some \<lparr>hole_part = part, hole_diameter = d, hole_faces = n, hole_kind = kind\<rparr>) hs)))
   = sum_list (map snd (filter (\<lambda>e. is_hole known kind (fst e)) hs))" for hs
  proof (induction hs)
    case (Cons h hs)
    then show ?case by (cases h; cases "map_of known (fst h)") (auto simp: List.map_filter_def is_hole_def)
  qed (simp add: List.map_filter_def)
  moreover have "sum_list (map snd (filter Q (sort_key fst hs))) = sum_list (map snd (filter Q hs))"
    for Q and hs :: "(real \<times> nat) list"
    by (rule arg_cong [of "mset _" "mset _" sum_mset, unfolded sum_mset_sum_list]) simp
  ultimately show ?thesis by (simp add: part_rows_def holes_in_sum)
qed

subsection \<open>Lemmas: who rides where\<close>

text \<open>The servos of the driven joints whose parent is a link, in the order of the joints.\<close>

definition servo_on :: "string \<Rightarrow> json \<Rightarrow> json option" where
  "servo_on link joint =
     (case (jin ''servo'' joint, jitem joint ''parent'', jitem joint ''servo'') of
        (Inr True, Inr p, Inr s) \<Rightarrow> if p = JStr link then Some s else None
      | _ \<Rightarrow> None)"

definition riders_of :: "(json \<times> json list) list \<Rightarrow> string \<Rightarrow> json list" where
  "riders_of riders link = (case map_of riders (JStr link) of None \<Rightarrow> [] | Some ss \<Rightarrow> ss)"

lemma ride_riders: "ride js riders = Inr out \<Longrightarrow> riders_of out link = riders_of riders link @ List.map_filter (servo_on link) js"
proof (induction js riders rule: ride.induct)
  case (2 joint js riders)
  from 2(3) obtain driven where d: "jin ''servo'' joint = Inr driven" by (auto simp: rbind_eq_Inr)
  show ?case
  proof (cases driven)
    case False
    then show ?thesis using 2(1) [OF _ ] 2(3) d by (simp add: servo_on_def List.map_filter_def)
  next
    case True
    with 2(3) d obtain p s where p: "jitem joint ''parent'' = Inr p" "hashable p" "jitem joint ''servo'' = Inr s"
      and r: "ride js (AList.update p ((case map_of riders p of None \<Rightarrow> [] | Some ss \<Rightarrow> ss) @ [s]) riders) = Inr out"
      by (auto simp: rbind_eq_Inr split: if_splits)
    have "riders_of out link = riders_of (AList.update p ((case map_of riders p of None \<Rightarrow> [] | Some ss \<Rightarrow> ss) @ [s]) riders) link
        @ List.map_filter (servo_on link) js"
      by (rule 2(2)) (use True p r in auto)
    then show ?thesis using d p True by (auto simp: riders_of_def servo_on_def List.map_filter_def)
  qed
qed (simp add: List.map_filter_def)

definition rider_mass :: "(string \<Rightarrow> solid res) \<Rightarrow> (string \<times> builder) list \<Rightarrow> (string \<times> real) list \<Rightarrow> json \<Rightarrow> real res" where
  "rider_mass solid_of available masses s =
     rbind (mass_of masses s) (\<lambda>(name, g).
       if map_of available (''horn_adapter_'' @ name) = None then Inr g
       else rbind (solid_of (''horn_adapter_'' @ name)) (\<lambda>s. Inr (g + grams s)))"

lemma add_riders_sum:
  "add_riders solid_of available masses ss w = Inr v
     \<longleftrightarrow> (\<exists>gs. rmap (rider_mass solid_of available masses) ss = Inr gs \<and> v = w + sum_list gs)"
proof (induction ss arbitrary: w)
  case (Cons s ss)
  show ?case
  proof (cases "mass_of masses s")
    case (Inr ng)
    then show ?thesis
      by (cases ng; cases "solid_of (''horn_adapter_'' @ fst ng)")
        (auto simp: rider_mass_def Cons rbind_eq_Inr Let_def add_ac split: option.splits)
  qed (simp add: rider_mass_def)
qed auto

definition link_mass :: "(string \<Rightarrow> solid res) \<Rightarrow> (string \<times> builder) list \<Rightarrow> (string \<times> real) list \<Rightarrow> json list \<Rightarrow> string \<Rightarrow> real res" where
  "link_mass solid_of available masses riding part =
     rbind (solid_of part) (\<lambda>s. rbind (rmap (rider_mass solid_of available masses) riding) (\<lambda>gs.
       Inr (py_round_to 4 ((grams s + sum_list gs) / 1000))))"

lemma weigh_eq:
  assumes "map_of available p \<noteq> None" "rbind (jitem cfg ''links'') (jin l) = Inr known"
  shows "weigh solid_of cfg available riders masses ((l, p) # rest) out =
     (if known then rbind (solid_of p) (\<lambda>s. rbind (add_riders solid_of available masses (riders_of riders l) (grams s)) (\<lambda>w.
        weigh solid_of cfg available riders masses rest (AList.update l (py_round_to 4 (w / 1000)) out)))
      else weigh solid_of cfg available riders masses rest out)"
  by (simp only: weigh.simps if_not_P [OF assms(1)] assms(2) rbind_Inr riders_of_def) simp

lemma weigh_ok:
  assumes "weigh solid_of cfg available riders masses ((l, p) # rest) out = Inr out'" "map_of available p \<noteq> None"
  obtains known where "rbind (jitem cfg ''links'') (jin l) = Inr known"
    "\<not> known \<Longrightarrow> weigh solid_of cfg available riders masses rest out = Inr out'"
    "\<And>thesis. known \<Longrightarrow> (\<And>s w. solid_of p = Inr s \<Longrightarrow> add_riders solid_of available masses (riders_of riders l) (grams s) = Inr w
       \<Longrightarrow> weigh solid_of cfg available riders masses rest (AList.update l (py_round_to 4 (w / 1000)) out) = Inr out' \<Longrightarrow> thesis) \<Longrightarrow> thesis"
proof -
  obtain known where k: "rbind (jitem cfg ''links'') (jin l) = Inr known"
    using assms by (auto simp: rbind_eq_Inr)
  show thesis
  proof (rule that [OF k])
    show "weigh solid_of cfg available riders masses rest out = Inr out'" if "\<not> known"
      using assms(1) unfolding weigh_eq [OF assms(2) k] if_not_P [OF that] .
  next
    fix thesis
    assume "known"
    then have "(rbind (solid_of p) (\<lambda>s. rbind (add_riders solid_of available masses (riders_of riders l) (grams s)) (\<lambda>w.
        weigh solid_of cfg available riders masses rest (AList.update l (py_round_to 4 (w / 1000)) out)))) = Inr out'"
      using assms(1) unfolding weigh_eq [OF assms(2) k] by (simp only: if_True)
    moreover assume "\<And>s w. solid_of p = Inr s \<Longrightarrow> add_riders solid_of available masses (riders_of riders l) (grams s) = Inr w
       \<Longrightarrow> weigh solid_of cfg available riders masses rest (AList.update l (py_round_to 4 (w / 1000)) out) = Inr out' \<Longrightarrow> thesis"
    ultimately show thesis unfolding rbind_eq_Inr by blast
  qed
qed

lemma add_riders_total:
  assumes "\<And>p. map_of available p \<noteq> None \<Longrightarrow> is_ok (solid_of p)" "\<forall>s \<in> set ss. is_ok (mass_of masses s)"
  shows "is_ok (add_riders solid_of available masses ss w)"
  using assms(2)
proof (induction ss arbitrary: w)
  case (Cons s ss)
  then obtain name g where m: "mass_of masses s = Inr (name, g)" by auto
  show ?case
  proof (cases "map_of available (''horn_adapter_'' @ name)")
    case (Some b)
    then obtain x where "solid_of (''horn_adapter_'' @ name) = Inr x" using assms(1) by blast
    then show ?thesis using Cons m Some by simp
  qed (use Cons m in simp)
qed simp

text \<open>Weighing does not raise when the parts can be built and every servo has a mass.\<close>

lemma weigh_total:
  assumes "\<And>p. map_of available p \<noteq> None \<Longrightarrow> is_ok (solid_of p)" "\<And>l. is_ok (rbind (jitem cfg ''links'') (jin l))"
    and "\<forall>(l, ss) \<in> set riders. \<forall>s \<in> set ss. is_ok (mass_of masses s)"
  shows "is_ok (weigh solid_of cfg available riders masses rest out)"
proof (induction rest arbitrary: out)
  case (Cons lp rest)
  obtain l p where lp: "lp = (l, p)" by (cases lp)
  show ?case
  proof (cases "map_of available p = None")
    case False
    obtain known s where k: "rbind (jitem cfg ''links'') (jin l) = Inr known" and s: "solid_of p = Inr s"
      using assms(1) [OF False] assms(2) [of l] by blast
    have "\<forall>s \<in> set (riders_of riders l). is_ok (mass_of masses s)"
      using assms(3) by (fastforce simp: riders_of_def split: option.splits dest: map_of_SomeD)
    from add_riders_total [where available = available and solid_of = solid_of, OF assms(1) this] obtain w where
      "add_riders solid_of available masses (riders_of riders l) (grams s) = Inr w" by blast
    then show ?thesis using Cons.IH unfolding lp weigh_eq [OF False k] s rbind_Inr by simp
  qed (use Cons.IH lp in simp)
qed simp

lemma weigh_step:
  assumes "weigh solid_of cfg available riders masses ((l, p) # rest) out = Inr out'"
  shows "\<exists>out1. weigh solid_of cfg available riders masses rest out1 = Inr out' \<and> (\<forall>link. link \<noteq> l \<longrightarrow> map_of out1 link = map_of out link)"
proof (cases "map_of available p = None")
  case False
  show ?thesis by (rule weigh_ok [OF assms False]) (metis fun_upd_other map_of_update_eq)
qed (use assms in auto)

lemma weigh_keeps:
  "weigh solid_of cfg available riders masses rest out = Inr out' \<Longrightarrow> link \<notin> fst ` set rest \<Longrightarrow> map_of out' link = map_of out link"
proof (induction rest arbitrary: out)
  case (Cons lp rest)
  obtain l p where lp: "lp = (l, p)" by (cases lp)
  show ?case using weigh_step [OF Cons.prems(1) [unfolded lp]] Cons.IH Cons.prems(2) lp by fastforce
qed simp

lemma weigh_mass:
  assumes "weigh solid_of cfg available riders masses rest out = Inr out'" "distinct (map fst rest)" "(link, part) \<in> set rest"
    and av: "map_of available part \<noteq> None"
  shows "\<exists>known. rbind (jitem cfg ''links'') (jin link) = Inr known
    \<and> (if known then \<exists>v. map_of out' link = Some v \<and> link_mass solid_of available masses (riders_of riders link) part = Inr v
       else map_of out' link = map_of out link)"
  using assms(1-3)
proof (induction rest arbitrary: out)
  case (Cons lp rest)
  show ?case
  proof (cases "lp = (link, part)")
    case True
    then have fresh: "link \<notin> fst ` set rest" using Cons.prems(2) by simp
    obtain known where k: "rbind (jitem cfg ''links'') (jin link) = Inr known"
      "\<not> known \<Longrightarrow> map_of out' link = map_of out link"
      "known \<Longrightarrow> \<exists>v. map_of out' link = Some v \<and> link_mass solid_of available masses (riders_of riders link) part = Inr v"
    proof (rule weigh_ok [OF Cons.prems(1) [unfolded True] av], goal_cases)
      case (1 known)
      show ?case
      proof (rule 1(1) [OF 1(2)])
        show "map_of out' link = map_of out link" if "\<not> known" using weigh_keeps [OF 1(3) [OF that] fresh] .
        show "\<exists>v. map_of out' link = Some v \<and> link_mass solid_of available masses (riders_of riders link) part = Inr v" if "known"
        proof (rule 1(4) [OF that])
          fix s w
          assume s: "solid_of part = Inr s" "add_riders solid_of available masses (riders_of riders link) (grams s) = Inr w"
            and r: "weigh solid_of cfg available riders masses rest (AList.update link (py_round_to 4 (w / 1000)) out) = Inr out'"
          have "map_of out' link = Some (py_round_to 4 (w / 1000))" using weigh_keeps [OF r fresh] by simp
          then show ?thesis using s by (auto simp: link_mass_def add_riders_sum)
        qed
      qed
    qed
    show ?thesis
      by (rule exI [of _ known], rule conjI [OF k(1)], cases known) (simp_all only: k(2,3) if_True if_False simp_thms)
  next
    case False
    obtain l p where lp: "lp = (l, p)" by (cases lp)
    have ne: "l \<noteq> link" using Cons.prems(2,3) False lp by (auto simp: rev_image_eqI)
    obtain out1 where out1: "weigh solid_of cfg available riders masses rest out1 = Inr out'" "map_of out1 link = map_of out link"
      using weigh_step [OF Cons.prems(1) [unfolded lp]] ne by metis
    have d: "distinct (map fst rest)" "(link, part) \<in> set rest" using Cons.prems(2,3) False by simp_all
    show ?thesis using Cons.IH [OF out1(1) d] unfolding out1(2) .
  qed
qed simp

subsection \<open>Properties\<close>

text \<open>What a link weighs. Every link of \<open>STRUCTURE\<close> that the profile has gets a mass: its printed part, and for
  every joint that has a servo and hangs from this link, in the order of the joints, that servo and one horn
  adapter. A joint without a servo adds nothing, and no servo is counted on two links.\<close>

theorem link_masses:
  assumes "compute render cfg mechanism = Inr out" "parts_for mechanism = Inr available"
    and "jitem cfg ''joints'' = Inr (JObj joints)" "servo_masses cfg = Inr masses"
    and "(link, part) \<in> set STRUCTURE"
  shows "\<exists>known. rbind (jitem cfg ''links'') (jin link) = Inr known
    \<and> (if known then \<exists>kg. map_of out link = Some kg \<and>
         link_mass (part_solid render cfg mechanism available) available masses
           (List.map_filter (servo_on link) (map snd joints)) part = Inr kg
       else map_of out link = None)"
proof -
  obtain riders where r: "servo_riders cfg = Inr riders"
      "weigh (part_solid render cfg mechanism available) cfg available riders masses STRUCTURE [] = Inr out"
    using assms(1,2,4) by (auto simp: compute_def rbind_eq_Inr)
  then have "ride (map snd joints) [] = Inr riders" using assms(3) by (simp add: servo_riders_def)
  then have riding: "riders_of riders link = List.map_filter (servo_on link) (map snd joints)"
    using ride_riders [where riders = "[]" and link = link] by (simp add: riders_of_def)
  have "distinct (map fst STRUCTURE)" by (simp add: STRUCTURE_def)
  moreover have "map_of available part \<noteq> None"
    using assms(2,5) by (auto simp: STRUCTURE_def parts_for_def MECHANISM_ONLY_def PARTS_def split: if_splits)
  ultimately show ?thesis using weigh_mass [OF r(2) _ assms(5)] unfolding riding map_of.simps by blast
qed

text \<open>The hole schedule loses and invents nothing: for every kind of hole, its total is the number of cylindrical
  faces, over all parts of the mechanism, whose rounded diameter is the size of that kind.\<close>

theorem schedule_counts_every_hole:
  assumes "schedule render cfg mechanism = Inr rows" "known_sizes cfg = Inr known" "parts_for mechanism = Inr ps"
  shows "\<exists>solids. list_all2 (\<lambda>(name, build) s. build_solid render build cfg mechanism = Inr s) (sort_key fst ps) solids
    \<and> (\<forall>kind. tally (totals rows) kind
          = sum_list (map (\<lambda>s. length (filter (bored (is_hole known kind)) (faces s))) solids))"
proof -
  obtain rowss where r: "rmap (\<lambda>(name, build). rbind (build_solid render build cfg mechanism) (\<lambda>s. Inr (part_rows known name s)))
       (sort_key fst ps) = Inr rowss" and rows: "rows = concat rowss"
    using assms by (auto simp: schedule_def rbind_eq_Inr)
  have "\<exists>solids. list_all2 (\<lambda>(name, build) s. build_solid render build cfg mechanism = Inr s) qs solids
      \<and> (\<forall>kind. sum_list (map hole_faces (filter (\<lambda>r. hole_kind r = kind) (concat rowss)))
           = sum_list (map (\<lambda>s. length (filter (bored (is_hole known kind)) (faces s))) solids))"
    if "rmap (\<lambda>(name, build). rbind (build_solid render build cfg mechanism) (\<lambda>s. Inr (part_rows known name s))) qs = Inr rowss"
    for qs rowss
    using that
  proof (induction qs arbitrary: rowss)
    case (Cons q qs)
    then obtain name build s rs where q: "q = (name, build)" "build_solid render build cfg mechanism = Inr s"
      and rs: "rmap (\<lambda>(name, build). rbind (build_solid render build cfg mechanism) (\<lambda>s. Inr (part_rows known name s))) qs = Inr rs"
        "rowss = part_rows known name s # rs"
      by (cases q) (auto simp: rbind_eq_Inr)
    from Cons.IH [OF rs(1)] obtain solids where
      "list_all2 (\<lambda>(name, build) s. build_solid render build cfg mechanism = Inr s) qs solids"
      "\<forall>kind. sum_list (map hole_faces (filter (\<lambda>r. hole_kind r = kind) (concat rs)))
           = sum_list (map (\<lambda>s. length (filter (bored (is_hole known kind)) (faces s))) solids)"
      by blast
    then show ?case by (intro exI [of _ "s # solids"]) (simp add: q rs(2) part_rows_sum)
  qed simp
  from this [OF r] show ?thesis unfolding rows totals_tally .
qed

subsection \<open>A modeller for examples\<close>

definition demo_solid :: solid where
  "demo_solid = \<lparr>faces = [\<lparr>geom_type = CylinderFace, normal_at = None, center = None, face_area = 10, face_size = (3, 3, 3),
       face_radius = Some (335 / 200)\<rparr>], volume = 8, bbox = (2, 2, 2)\<rparr>"

definition demo_render :: kernel where
  "demo_render calls = Inr demo_solid"

lemma demo_builds:
  assumes "(name, build) \<in> set PARTS"
  shows "build_solid demo_render build demo_profile ''direct'' = Inr demo_solid"
proof -
  have "is_ok (build demo_profile ''direct'')"
    using assms builders_ok(1-11) [OF demo_profile_ok, of "''direct''"] unfolding PARTS_def by auto
  then show ?thesis by (auto simp: build_solid_def demo_render_def)
qed

lemma demo_part_solid: "name \<in> fst ` set PARTS \<Longrightarrow> part_solid demo_render demo_profile ''direct'' PARTS name = Inr demo_solid"
proof -
  assume "name \<in> fst ` set PARTS"
  then obtain build where "map_of PARTS name = Some build" by (metis map_of_eq_None_iff option.exhaust)
  then show ?thesis using demo_builds [OF map_of_SomeD] by (simp add: part_solid_def)
qed

lemma demo_direct: "parts_for ''direct'' = Inr PARTS"
  by (simp add: parts_for_def MECHANISMS_def MECHANISM_ONLY_def)

lemma demo_joints: "jitem demo_profile ''joints'' = Inr (JObj demo_joint_list)"
  by (simp add: demo_profile_def)

lemma demo_masses: "servo_masses demo_profile = Inr [(''mg996r'', 55), (''sg90'', 9)]"
  by (simp add: servo_masses_def demo_profile_def demo_servo_def num_def)

lemma demo_riders: "servo_riders demo_profile = Inr
   [(JStr ''base_link'', [JStr ''mg996r'']), (JStr ''shoulder_link'', [JStr ''mg996r'']), (JStr ''upper_arm_link'', [JStr ''mg996r'']),
    (JStr ''forearm_link'', [JStr ''sg90'']), (JStr ''gripper_base_link'', [JStr ''sg90''])]"
  by (simp add: servo_riders_def demo_joints demo_joint_list_def demo_joint_def hashable_def)

lemma demo_compute: "is_ok (compute demo_render demo_profile ''direct'')"
proof -
  have "is_ok (weigh (part_solid demo_render demo_profile ''direct'' PARTS) demo_profile PARTS
      [(JStr ''base_link'', [JStr ''mg996r'']), (JStr ''shoulder_link'', [JStr ''mg996r'']), (JStr ''upper_arm_link'', [JStr ''mg996r'']),
       (JStr ''forearm_link'', [JStr ''sg90'']), (JStr ''gripper_base_link'', [JStr ''sg90''])]
      [(''mg996r'', 55), (''sg90'', 9)] STRUCTURE [])"
  proof (rule weigh_total)
    show "is_ok (part_solid demo_render demo_profile ''direct'' PARTS p)" if "map_of PARTS p \<noteq> None" for p
      using demo_part_solid [of p] that by (metis map_of_eq_None_iff)
    show "is_ok (rbind (jitem demo_profile ''links'') (jin l))" for l by (simp add: demo_profile_def)
  qed (auto simp: mass_of_def)
  then show ?thesis by (simp add: compute_def demo_direct demo_riders demo_masses)
qed

theorem link_masses_witness:
  "\<exists>out. compute demo_render demo_profile ''direct'' = Inr out
     \<and> map_of out ''shoulder_link'' = Some (py_round_to 4 ((992 / 100000 + (55 + 992 / 100000)) / 1000))"
proof -
  obtain out where out: "compute demo_render demo_profile ''direct'' = Inr out" using demo_compute by blast
  have in_structure: "(''shoulder_link'', ''shoulder_turret'') \<in> set STRUCTURE" by (simp add: STRUCTURE_def)
  have known: "rbind (jitem demo_profile ''links'') (jin ''shoulder_link'') = Inr True" by (simp add: demo_profile_def)
  have riding: "List.map_filter (servo_on ''shoulder_link'') (map snd demo_joint_list) = [JStr ''mg996r'']"
    by (simp add: demo_joint_list_def demo_joint_def servo_on_def List.map_filter_def)
  have names: "''shoulder_turret'' \<in> fst ` set PARTS" "''horn_adapter_mg996r'' \<in> fst ` set PARTS" by (simp_all add: PARTS_def)
  obtain b where "map_of PARTS ''horn_adapter_mg996r'' = Some b" by (simp add: PARTS_def)
  then have "link_mass (part_solid demo_render demo_profile ''direct'' PARTS) PARTS [(''mg996r'', 55), (''sg90'', 9)]
      [JStr ''mg996r''] ''shoulder_turret'' = Inr (py_round_to 4 ((992 / 100000 + (55 + 992 / 100000)) / 1000))"
    by (simp add: link_mass_def rider_mass_def mass_of_def demo_part_solid [OF names(1)] demo_part_solid [OF names(2)]
        grams_def demo_solid_def PLA_DENSITY_def)
  then show ?thesis
    using link_masses [OF out demo_direct demo_joints demo_masses in_structure] out unfolding known riding by auto
qed

lemma demo_sizes: "known_sizes demo_profile = Inr [(335 / 100, M3_KIND), (645 / 100, PIVOT_KIND),
   (255 / 100, ''mg996r horn screw''), (215 / 100, ''sg90 horn screw'')]"
proof -
  have "num demo_mg996r ''horn_screw_hole_mm'' = Inr (22 / 10)" "num demo_sg90 ''horn_screw_hole_mm'' = Inr (18 / 10)"
    by (simp_all add: num_def demo_mg996r_def demo_sg90_def)
  moreover have "py_round_to 2 (67 / 20) = 335 / 100" "py_round_to 2 (129 / 20) = 645 / 100" "py_round_to 2 (51 / 20) = 255 / 100"
    "py_round_to 2 (43 / 20) = 215 / 100"
    by (simp_all add: py_round_to_def py_round_def)
  ultimately show ?thesis
    by (simp add: known_sizes_def demo_bores demo_values demo_servos dict_of_def)
qed

lemma demo_schedule: "is_ok (schedule demo_render demo_profile ''direct'')"
proof -
  have "rmap (\<lambda>(name, build). rbind (build_solid demo_render build demo_profile ''direct'') (\<lambda>s. Inr (part_rows known name s)))
     (sort_key fst PARTS) = Inr (map (\<lambda>(name, build). part_rows known name demo_solid) (sort_key fst PARTS))" for known
    by (rule rmap_ok) (auto simp: demo_builds)
  then show ?thesis by (simp add: schedule_def demo_sizes demo_direct)
qed

theorem schedule_counts_every_hole_witness:
  "\<exists>rows. schedule demo_render demo_profile ''direct'' = Inr rows \<and> tally (totals rows) M3_KIND = 11"
proof -
  obtain rows where rows: "schedule demo_render demo_profile ''direct'' = Inr rows" using demo_schedule by blast
  from schedule_counts_every_hole [OF rows demo_sizes demo_direct] obtain solids where
    s: "list_all2 (\<lambda>(name, build) s. build_solid demo_render build demo_profile ''direct'' = Inr s) (sort_key fst PARTS) solids"
    and t: "tally (totals rows) M3_KIND = sum_list (map (\<lambda>s. length (filter (bored (is_hole [(335 / 100, M3_KIND), (645 / 100, PIVOT_KIND),
        (255 / 100, ''mg996r horn screw''), (215 / 100, ''sg90 horn screw'')] M3_KIND)) (faces s))) solids)"
    by blast
  have "solids ! i = demo_solid" if "i < length solids" for i
  proof -
    obtain name build where b: "sort_key fst PARTS ! i = (name, build)" by (cases "sort_key fst PARTS ! i")
    have "i < length (sort_key fst PARTS)" using that list_all2_lengthD [OF s] by simp
    then have "(name, build) \<in> set PARTS" using b by (metis nth_mem set_sort)
    from demo_builds [OF this] show ?thesis
      using list_all2_nthD2 [OF s that] unfolding b case_prod_conv by (metis sum.inject(2))
  qed
  moreover have "length solids = 11" using list_all2_lengthD [OF s] by (simp add: PARTS_def)
  ultimately have "solids = replicate 11 demo_solid" by (simp add: list_eq_iff_nth_eq)
  moreover have "py_round_to 2 (67 / 20) = 335 / 100" by (simp add: py_round_to_def py_round_def)
  ultimately have "tally (totals rows) M3_KIND = 11"
    unfolding t by (simp add: demo_solid_def bored_def is_hole_def sum_list_replicate)
  with rows show ?thesis by blast
qed

end
