(* ===== verification/Cad_Export.thy ===== *)
theory Cad_Export
  imports Cad_Account
begin

text \<open>
  Generating the printable files (\<open>export.py\<close>): one STL and one STEP file per part, a printing guide and the
  assembly of every mechanism, and the comparison of the two. A file is the path it is written to; of the
  guide, this theory has the table, the totals and what it reads of the profile, \<open>Cad_Guide\<close> the text.
\<close>

record summary =
  sm_part :: string
  sm_orientation :: string
  sm_unsupported :: real
  sm_volume :: real
  sm_mass :: real
  sm_bbox :: vec
  sm_stl :: string
  sm_step :: string

definition path_join :: "string \<Rightarrow> string \<Rightarrow> string" where
  "path_join dir name = dir @ ''/'' @ name"

subsection \<open>\<open>generate\<close>\<close>

text \<open>The body of the loop: the two files are written before the printability is judged.\<close>

definition generate_part :: "kernel \<Rightarrow> json \<Rightarrow> json \<Rightarrow> string \<Rightarrow> string \<Rightarrow> string \<times> builder \<Rightarrow> summary res \<times> string list" where
  "generate_part render cfg fab mechanism out_dir p =
     (case p of (name, build) \<Rightarrow>
       (case build_solid render build cfg mechanism of
          Inl e \<Rightarrow> (Inl e, [])
        | Inr s \<Rightarrow>
            let stl = path_join out_dir (name @ ''.stl''); step = path_join out_dir (name @ ''.step'') in
            (rbind (num fab ''max_overhang_deg'') (\<lambda>limit. rbind (num fab ''max_bridge_mm'') (\<lambda>bridge.
               let r = report s limit bridge in
               Inr \<lparr>sm_part = name, sm_orientation = report_orientation r, sm_unsupported = unsupported_best r,
                    sm_volume = volume s, sm_mass = volume s / 1000 * (124 / 100), sm_bbox = bbox s, sm_stl = stl, sm_step = step\<rparr>)),
             [stl, step])))"

fun generate_parts :: "kernel \<Rightarrow> json \<Rightarrow> json \<Rightarrow> string \<Rightarrow> string \<Rightarrow> (string \<times> builder) list \<Rightarrow> summary list res \<times> string list" where
  "generate_parts render cfg fab mechanism out_dir [] = (Inr [], [])"
| "generate_parts render cfg fab mechanism out_dir (p # ps) =
     (case generate_part render cfg fab mechanism out_dir p of
        (Inl e, files) \<Rightarrow> (Inl e, files)
      | (Inr row, files) \<Rightarrow>
          (case generate_parts render cfg fab mechanism out_dir ps of
             (rows, files') \<Rightarrow> (rbind rows (\<lambda>rows. Inr (row # rows)), files @ files')))"

definition generate :: "kernel \<Rightarrow> json \<Rightarrow> string \<Rightarrow> string \<Rightarrow> summary list res \<times> string list" where
  "generate render cfg mechanism out_dir =
     (case rbind (fabrication cfg) (\<lambda>fab. rbind (parts_for mechanism) (\<lambda>ps. Inr (fab, ps))) of
        Inl e \<Rightarrow> (Inl e, [])
      | Inr (fab, ps) \<Rightarrow> generate_parts render cfg fab mechanism out_dir (sort_key fst ps))"

subsection \<open>\<open>compare\<close>\<close>

definition LIFTED_PARTS :: "string list" where
  "LIFTED_PARTS = [''upper_arm_link'', ''forearm_link'', ''wrist_bracket'', ''gripper_base'']"

definition LIFTED_SERVOS :: "(string \<times> string list) list" where
  "LIFTED_SERVOS = [(''direct'', [''mg996r'', ''sg90'', ''sg90'']), (''linkage'', [''sg90'', ''sg90''])]"

definition by_part :: "summary list \<Rightarrow> (string \<times> real) list" where
  "by_part rows = dict_of (map (\<lambda>row. (sm_part row, sm_mass row)) rows)"

definition get0 :: "(string \<times> real) list \<Rightarrow> string \<Rightarrow> real" where
  "get0 d k = (case map_of d k of None \<Rightarrow> 0 | Some x \<Rightarrow> x)"

record comparison =
  printed_g :: real
  lifted_g :: real

definition printed :: "summary list \<Rightarrow> real" where
  "printed rows = (let d = by_part rows in
     sum_list (map snd d) + get0 d ''gripper_finger'' + 3 * get0 d ''pivot_bushing'')"

definition compare :: "json \<Rightarrow> (string \<times> summary list) list \<Rightarrow> (string \<times> comparison) list res" where
  "compare cfg results =
     rbind (servo_masses cfg) (\<lambda>servos.
       rmap (\<lambda>(mechanism, rows).
         let d = by_part rows in
         rbind (case map_of LIFTED_SERVOS mechanism of None \<Rightarrow> Inl (KeyError mechanism) | Some ss \<Rightarrow> Inr ss) (\<lambda>ss.
         rbind (rmap (\<lambda>s. case map_of servos s of None \<Rightarrow> Inl (KeyError s) | Some g \<Rightarrow> Inr g) ss) (\<lambda>gs.
           Inr (mechanism, \<lparr>printed_g = printed rows,
             lifted_g = sum_list (map (get0 d) LIFTED_PARTS) + 2 * get0 d ''gripper_finger'' + sum_list gs\<rparr>)))) results)"

subsection \<open>The printing guide\<close>

record guide =
  guide_perimeters :: real
  guide_rows :: "(string \<times> nat \<times> real \<times> string \<times> vec) list"
  guide_total :: real
  guide_fasteners :: "(string \<times> nat) list"

definition quantities :: "(string \<times> nat) list" where
  "quantities = [(''gripper_finger'', 2), (''pivot_bushing'', 4)]"

definition quantity :: "string \<Rightarrow> nat" where
  "quantity part = (case map_of quantities part of None \<Rightarrow> 1 | Some n \<Rightarrow> n)"

definition printing_guide :: "kernel \<Rightarrow> json \<Rightarrow> string \<Rightarrow> summary list \<Rightarrow> guide res" where
  "printing_guide render cfg mechanism rows =
     rbind (fabrication cfg) (\<lambda>fab.
     rbind (num fab ''max_overhang_deg'') (\<lambda>limit. rbind (num fab ''max_bridge_mm'') (\<lambda>bridge.
     rbind (num fab ''nozzle_mm'') (\<lambda>nozzle. rbind (jitem fab ''layer_mm'') (\<lambda>layer.
     rbind (num fab ''min_wall_mm'') (\<lambda>wall. rbind (py_div wall nozzle) (\<lambda>perimeters.
     rbind (schedule render cfg mechanism) (\<lambda>holes.
       Inr \<lparr>guide_perimeters = perimeters,
            guide_rows = map (\<lambda>row. let qty = quantity (sm_part row) in
              (sm_part row, qty, sm_mass row * real qty, sm_orientation row, sm_bbox row)) rows,
            guide_total = foldl (\<lambda>t row. t + sm_mass row * real (quantity (sm_part row))) 0 rows,
            guide_fasteners = sort_key fst (totals holes)\<rparr>))))))))"

subsection \<open>\<open>main\<close>\<close>

record cad_output =
  out_files :: "string list"
  out_guides :: "(string \<times> guide) list"
  out_heights :: "(string \<times> real) list"
  out_summary :: "(string \<times> comparison) list option"
  out_saving :: "real option"
  out_over_budget :: "string list"

fun generate_all :: "kernel \<Rightarrow> json \<Rightarrow> string \<Rightarrow> string list \<Rightarrow> (string \<times> summary list) list res \<times> string list" where
  "generate_all render cfg out [] = (Inr [], [])"
| "generate_all render cfg out (m # ms) =
     (case generate render cfg m (path_join out m) of
        (Inl e, files) \<Rightarrow> (Inl e, files)
      | (Inr rows, files) \<Rightarrow>
          (case generate_all render cfg out ms of
             (rest, files') \<Rightarrow> (rbind rest (\<lambda>rest. Inr ((m, rows) # rest)), files @ files')))"

text \<open>The second loop: the guide is written, then the assembly exported and its height printed.\<close>

fun finish_all :: "kernel \<Rightarrow> json \<Rightarrow> string \<Rightarrow> (string \<times> summary list) list
    \<Rightarrow> ((string \<times> guide) list \<times> (string \<times> real) list) res \<times> string list" where
  "finish_all render cfg out [] = (Inr ([], []), [])"
| "finish_all render cfg out ((m, rows) # rest) =
     (let dir = path_join out m in
      case printing_guide render cfg m rows of
        Inl e \<Rightarrow> (Inl e, [])
      | Inr g \<Rightarrow>
          (case assemble render cfg m of
             Inl e \<Rightarrow> (Inl e, [path_join dir ''PRINTING.md''])
           | Inr built \<Rightarrow>
               (case stack_height cfg of
                  Inl e \<Rightarrow> (Inl e, [path_join dir ''PRINTING.md'', path_join dir ''assembly.step''])
                | Inr h \<Rightarrow>
                    (case finish_all render cfg out rest of
                       (r, files) \<Rightarrow>
                         (rbind r (\<lambda>(gs, hs). Inr ((m, g) # gs, (m, h) # hs)),
                          [path_join dir ''PRINTING.md'', path_join dir ''assembly.step''] @ files)))))"

definition PLA_BUDGET :: real where "PLA_BUDGET = 250"

text \<open>\<open>main\<close> on parsed arguments. An unknown mechanism ends the parser with exit code 2.\<close>

definition cad_main :: "(string \<rightharpoonup> json) \<Rightarrow> string \<Rightarrow> kernel \<Rightarrow> string option \<Rightarrow> string \<Rightarrow> string \<Rightarrow> (int \<times> cad_output option) res \<times> string list" where
  "cad_main profiles standard render profile out mechanism =
     (if mechanism \<notin> set (MECHANISMS @ [''both'']) then (Inr (2, None), [])
      else case load_profile profiles standard profile of
        Inl e \<Rightarrow> (Inl e, [])
      | Inr cfg \<Rightarrow>
          let wanted = (if mechanism = ''both'' then MECHANISMS else [mechanism]) in
          (case generate_all render cfg out wanted of
             (Inl e, files) \<Rightarrow> (Inl e, files)
           | (Inr collected, files) \<Rightarrow>
               (case finish_all render cfg out collected of
                  (Inl e, files') \<Rightarrow> (Inl e, files @ files')
                | (Inr (guides, heights), files') \<Rightarrow>
                    (if length wanted \<le> 1
                     then Inr (0, Some \<lparr>out_files = files @ files', out_guides = guides, out_heights = heights,
                                       out_summary = None, out_saving = None, out_over_budget = []\<rparr>)
                     else
                       rbind (compare cfg collected) (\<lambda>rows.
                       rbind (case map_of rows ''direct'' of None \<Rightarrow> Inl (KeyError ''direct'') | Some d \<Rightarrow> Inr d) (\<lambda>direct.
                       rbind (case map_of rows ''linkage'' of None \<Rightarrow> Inl (KeyError ''linkage'') | Some l \<Rightarrow> Inr l) (\<lambda>linkage.
                       rbind (py_div (100 * (lifted_g direct - lifted_g linkage)) (lifted_g direct)) (\<lambda>saving.
                         Inr (0, Some \<lparr>out_files = files @ files', out_guides = guides, out_heights = heights,
                           out_summary = Some rows, out_saving = Some saving,
                           out_over_budget = map fst (filter (\<lambda>(m, row). printed_g row > PLA_BUDGET) rows)\<rparr>))))),
                     files @ files'))))"

subsection \<open>Lemmas\<close>

lemma dict_of_distinct: "distinct (map fst kvs) \<Longrightarrow> dict_of kvs = kvs"
proof (induction kvs rule: rev_induct)
  case (snoc kv kvs)
  obtain k v where kv: "kv = (k, v)" by (cases kv)
  have "k \<notin> fst ` set d \<Longrightarrow> AList.update k v d = d @ [(k, v)]" for d :: "('a \<times> 'b) list"
    by (induction d) auto
  moreover have "dict_of kvs = kvs" "k \<notin> fst ` set kvs" using snoc kv by auto
  ultimately show ?case by (simp add: dict_of_def kv)
qed (simp add: dict_of_def)

lemma generate_parts_ok:
  assumes "generate_parts render cfg fab mechanism out_dir ps = (Inr rows, files)"
  shows "list_all2 (\<lambda>p row. \<exists>s. build_solid render (snd p) cfg mechanism = Inr s \<and> sm_part row = fst p
           \<and> sm_mass row = volume s / 1000 * (124 / 100)
           \<and> (\<exists>limit bridge. num fab ''max_overhang_deg'' = Inr limit \<and> num fab ''max_bridge_mm'' = Inr bridge
               \<and> best_orientation s limit bridge = (sm_orientation row, sm_unsupported row))) ps rows
     \<and> files = concat (map (\<lambda>p. [path_join out_dir (fst p @ ''.stl''), path_join out_dir (fst p @ ''.step'')]) ps)"
  using assms
proof (induction ps arbitrary: rows files)
  case (Cons p ps)
  obtain r1 f1 where g1: "generate_part render cfg fab mechanism out_dir p = (r1, f1)" by fastforce
  with Cons.prems obtain row where row: "r1 = Inr row" by (cases r1) auto
  obtain r2 f2 where g2: "generate_parts render cfg fab mechanism out_dir ps = (r2, f2)" by fastforce
  with Cons.prems g1 row obtain rest where rest: "r2 = Inr rest" "rows = row # rest" "files = f1 @ f2"
    by (auto simp: rbind_eq_Inr)
  note ih = Cons.IH [OF g2 [unfolded rest(1)]]
  from g1 row obtain s limit bridge where s: "build_solid render (snd p) cfg mechanism = Inr s"
    "num fab ''max_overhang_deg'' = Inr limit" "num fab ''max_bridge_mm'' = Inr bridge"
    by (auto simp: generate_part_def rbind_eq_Inr Let_def split: prod.splits sum.splits)
  obtain label least where b: "best_orientation s limit bridge = (label, least)" by fastforce
  have "sm_part row = fst p \<and> sm_mass row = volume s / 1000 * (124 / 100) \<and> sm_orientation row = label \<and> sm_unsupported row = least"
    "f1 = [path_join out_dir (fst p @ ''.stl''), path_join out_dir (fst p @ ''.step'')]"
    using g1 row s b by (auto simp: generate_part_def Let_def report_def split: prod.splits)
  then show ?case using ih s b rest by auto
qed simp

lemma generate_ok:
  assumes "generate render cfg mechanism out_dir = (Inr rows, files)"
  obtains fab ps where "fabrication cfg = Inr fab" "parts_for mechanism = Inr ps"
    "generate_parts render cfg fab mechanism out_dir (sort_key fst ps) = (Inr rows, files)"
  using assms by (auto simp: generate_def rbind_eq_Inr rbind_eq_Inl split: sum.splits)

lemma parts_distinct: "parts_for mechanism = Inr ps \<Longrightarrow> distinct (map fst ps)"
  by (auto simp: parts_for_def MECHANISM_ONLY_def PARTS_def split: if_splits)

lemma sort_key_distinct: "distinct (map f xs) \<Longrightarrow> distinct (map f (sort_key g xs))"
  by (metis distinct_map distinct_sort set_sort)

lemma generate_names:
  assumes "generate render cfg mechanism out_dir = (Inr rows, files)" "parts_for mechanism = Inr ps"
  shows "map sm_part rows = map fst (sort_key fst ps)" "distinct (map sm_part rows)"
proof -
  obtain fab where g: "generate_parts render cfg fab mechanism out_dir (sort_key fst ps) = (Inr rows, files)"
    by (rule generate_ok [OF assms(1)]) (use assms(2) in auto)
  show names: "map sm_part rows = map fst (sort_key fst ps)"
    using generate_parts_ok [OF g] by (auto simp: list_eq_iff_nth_eq list_all2_conv_all_nth)
  show "distinct (map sm_part rows)" unfolding names by (rule sort_key_distinct [OF parts_distinct [OF assms(2)]])
qed

lemma get0_sum:
  "distinct (map fst d) \<Longrightarrow> get0 d k = sum_list (map (\<lambda>(k', x). if k' = k then x else 0) d)"
proof (induction d)
  case (Cons kx d)
  obtain k' x where kx: "kx = (k', x)" by (cases kx)
  have "sum_list (map (\<lambda>(k'', x). if k'' = k then x else 0) d) = 0" if "k \<notin> fst ` set d"
    using that by (induction d) (auto simp: case_prod_unfold)
  then show ?case using Cons kx by (auto simp: get0_def)
qed (simp add: get0_def)

lemma guide_sum: "foldl (\<lambda>t row. t + sm_mass row * real (quantity (sm_part row))) t rows
   = t + sum_list (map (\<lambda>row. sm_mass row * real (quantity (sm_part row))) rows)"
  by (induction rows arbitrary: t) simp_all

lemma quantity_split:
  "x * real (quantity part) = x + (if part = ''gripper_finger'' then x else 0) + 3 * (if part = ''pivot_bushing'' then x else 0)"
  by (simp add: quantity_def quantities_def)

lemma printed_sum:
  assumes "distinct (map sm_part rows)"
  shows "printed rows = sum_list (map (\<lambda>row. sm_mass row * real (quantity (sm_part row))) rows)"
proof -
  let ?d = "map (\<lambda>row. (sm_part row, sm_mass row)) rows"
  have d: "by_part rows = ?d" "distinct (map fst ?d)"
    using assms by (simp_all add: by_part_def dict_of_distinct comp_def)
  have "sum_list (map (\<lambda>row. sm_mass row * real (quantity (sm_part row))) rows)
    = sum_list (map snd ?d) + sum_list (map (\<lambda>(k', x). if k' = ''gripper_finger'' then x else 0) ?d)
      + 3 * sum_list (map (\<lambda>(k', x). if k' = ''pivot_bushing'' then x else 0) ?d)"
    unfolding quantity_split by (induction rows) (simp_all add: algebra_simps)
  then show ?thesis by (simp only: printed_def d(1) Let_def get0_sum [OF d(2)])
qed

subsection \<open>Properties\<close>

text \<open>What \<open>generate\<close> writes: one STL and one STEP file for each part the mechanism needs, in the order of their
  names, and a row for each whose mass is that of the solid and whose orientation needs the least support of
  the six at the profile's limits.\<close>

theorem generate_is_complete:
  assumes "generate render cfg mechanism out_dir = (Inr rows, files)" "parts_for mechanism = Inr ps" "fabrication cfg = Inr fab"
    and "num fab ''max_overhang_deg'' = Inr limit" "num fab ''max_bridge_mm'' = Inr bridge"
  shows "map sm_part rows = map fst (sort_key fst ps)
    \<and> files = concat (map (\<lambda>(name, _). [path_join out_dir (name @ ''.stl''), path_join out_dir (name @ ''.step'')]) (sort_key fst ps))
    \<and> list_all2 (\<lambda>(name, build) row. \<exists>s. build_solid render build cfg mechanism = Inr s
        \<and> sm_mass row = grams s \<and> best_orientation s limit bridge = (sm_orientation row, sm_unsupported row))
        (sort_key fst ps) rows"
proof -
  have g: "generate_parts render cfg fab mechanism out_dir (sort_key fst ps) = (Inr rows, files)"
    by (rule generate_ok [OF assms(1)]) (use assms(2,3) in auto)
  note ok = generate_parts_ok [OF g]
  have "list_all2 (\<lambda>(name, build) row. \<exists>s. build_solid render build cfg mechanism = Inr s
        \<and> sm_mass row = grams s \<and> best_orientation s limit bridge = (sm_orientation row, sm_unsupported row))
        (sort_key fst ps) rows"
    by (rule list_all2_mono [OF conjunct1 [OF ok]]) (use assms(4,5) in \<open>auto simp: grams_def PLA_DENSITY_def\<close>)
  then show ?thesis using conjunct2 [OF ok] generate_names(1) [OF assms(1,2)] by (simp add: case_prod_unfold)
qed

lemma demo_limits: "num demo_fab ''max_overhang_deg'' = Inr 45" "num demo_fab ''max_bridge_mm'' = Inr 20"
  by (simp_all add: num_def demo_fab_def)

lemma demo_generate: "is_ok (fst (generate demo_render demo_profile ''direct'' ''out''))"
proof -
  have "is_ok (fst (generate_parts demo_render demo_profile demo_fab ''direct'' ''out'' ps))" if "set ps \<subseteq> set PARTS" for ps
    using that
  proof (induction ps)
    case (Cons p ps)
    obtain name build where p: "p = (name, build)" by (cases p)
    have "build_solid demo_render build demo_profile ''direct'' = Inr demo_solid" using demo_builds Cons.prems p by auto
    then obtain row files where "generate_part demo_render demo_profile demo_fab ''direct'' ''out'' p = (Inr row, files)"
      by (simp add: generate_part_def p demo_limits Let_def)
    then show ?case using Cons by (auto split: prod.splits)
  qed simp
  then show ?thesis by (simp add: generate_def demo_values demo_direct)
qed

theorem generate_is_complete_witness:
  "\<exists>rows files. generate demo_render demo_profile ''direct'' ''out'' = (Inr rows, files) \<and> length rows = 11"
proof -
  obtain rows files where g: "generate demo_render demo_profile ''direct'' ''out'' = (Inr rows, files)"
    using demo_generate by (metis prod.collapse)
  have "map sm_part rows = map fst (sort_key fst PARTS)"
    using generate_is_complete [OF g demo_direct demo_values(1) demo_limits] by (rule conjunct1)
  then have "length rows = length PARTS" by (metis length_map length_sort)
  then show ?thesis using g by (simp add: PARTS_def)
qed

text \<open>Two totals that are computed apart agree: the plastic the comparison charges a mechanism for is the total
  of the mechanism's printing guide.\<close>

theorem guide_total_is_printed:
  assumes "generate render cfg mechanism out_dir = (Inr rows, files)" "printing_guide render cfg mechanism rows = Inr g"
    and "compare cfg results = Inr summary" "distinct (map fst results)" "(mechanism, rows) \<in> set results"
  shows "\<exists>c. map_of summary mechanism = Some c \<and> printed_g c = guide_total g"
proof -
  obtain ps where ps: "parts_for mechanism = Inr ps" by (rule generate_ok [OF assms(1)])
  have "guide_total g = sum_list (map (\<lambda>row. sm_mass row * real (quantity (sm_part row))) rows)"
    using assms(2) by (auto simp: printing_guide_def rbind_eq_Inr guide_sum)
  then have total: "printed rows = guide_total g" using printed_sum [OF generate_names(2) [OF assms(1) ps]] by simp
  obtain f where f: "rmap f results = Inr summary" "\<And>m rs c. f (m, rs) = Inr c \<Longrightarrow> fst c = m \<and> printed_g (snd c) = printed rs"
    using assms(3) by (auto simp: compare_def rbind_eq_Inr Let_def intro!: that)
  have all: "list_all2 (\<lambda>x c. fst c = fst x \<and> printed_g (snd c) = printed (snd x)) results summary"
    by (rule list_all2_mono [OF f(1) [unfolded rmap_eq_Inr_iff]]) (use f(2) in auto)
  then have keys: "map fst summary = map fst results" by (auto simp: list_eq_iff_nth_eq list_all2_conv_all_nth)
  from assms(5) obtain i where i: "i < length results" "results ! i = (mechanism, rows)" by (metis in_set_conv_nth)
  then have c: "summary ! i \<in> set summary" "fst (summary ! i) = mechanism" "printed_g (snd (summary ! i)) = printed rows"
    using all by (auto simp: list_all2_conv_all_nth)
  have "map_of summary mechanism = Some (snd (summary ! i))"
    using c(1,2) assms(4) keys by (metis map_of_is_SomeI prod.collapse)
  then show ?thesis using c(3) total by simp
qed

theorem guide_total_is_printed_witness:
  "\<exists>rows files g summary c. generate demo_render demo_profile ''direct'' ''out'' = (Inr rows, files)
     \<and> printing_guide demo_render demo_profile ''direct'' rows = Inr g
     \<and> compare demo_profile [(''direct'', rows)] = Inr summary
     \<and> map_of summary ''direct'' = Some c \<and> printed_g c = guide_total g"
proof -
  obtain rows files where g: "generate demo_render demo_profile ''direct'' ''out'' = (Inr rows, files)"
    using demo_generate by (metis prod.collapse)
  have fab: "num demo_fab ''nozzle_mm'' = Inr (4 / 10)" "is_ok (jitem demo_fab ''layer_mm'')"
    by (simp_all add: num_def demo_fab_def)
  obtain guide where guide: "printing_guide demo_render demo_profile ''direct'' rows = Inr guide"
    using fab demo_schedule by (auto simp: printing_guide_def demo_values demo_limits py_div_def)
  obtain summary where summary: "compare demo_profile [(''direct'', rows)] = Inr summary"
    by (simp add: compare_def demo_masses LIFTED_SERVOS_def Let_def)
  show ?thesis
    using guide_total_is_printed [OF g guide summary] g guide summary by auto
qed

text \<open>The guide counts one adapter per kind of servo, whatever the number of joints it drives: on the shipped profile,
  three joints are driven by one kind, and \<open>masses.py\<close> weighs an adapter for each of the three.\<close>

theorem guide_counts_one_adapter:
  "quantity ''horn_adapter_mg996r'' = 1
   \<and> length (filter (\<lambda>(name, joint). jitem joint ''servo'' = Inr (JStr ''mg996r'')) demo_joint_list) = 3"
  by (simp add: quantity_def quantities_def demo_joint_list_def demo_joint_def)

end
