(* ===== verification/Cad_Guide.thy ===== *)
theory Cad_Guide
  imports Cad_Export
begin

text \<open>
  The printing guide as the Markdown \<open>printing_guide\<close> of \<open>export.py\<close> returns, line by line: settings read from the
  profile, the table of parts, the total, the count of holes and the prose. The figures are those of
  \<open>Cad_Export\<close>; \<open>str\<close> is Python's \<open>str()\<close> on numbers.
\<close>

definition guide_title :: "string \<Rightarrow> string list" where
  "guide_title mechanism =
     [''# Printing the '' @ mechanism @ '' arm'', [],
      ''GENERATED by `make cad`. Do not edit - it is rebuilt from the'',
      ''geometry, so editing it only makes it disagree with the parts.'', [], ''## Settings'', []]"

definition NO_SUPPORT :: string where
  "NO_SUPPORT = ''- **No support anywhere.** Every part is designed to print''"

definition guide_settings :: "(json \<Rightarrow> string) \<Rightarrow> json \<Rightarrow> real \<Rightarrow> string list res" where
  "guide_settings str fab perimeters =
     rbind (num fab ''max_overhang_deg'') (\<lambda>limit. rbind (num fab ''max_bridge_mm'') (\<lambda>bridge.
     rbind (jitem fab ''nozzle_mm'') (\<lambda>nozzle. rbind (jitem fab ''layer_mm'') (\<lambda>layer.
     rbind (jitem fab ''min_wall_mm'') (\<lambda>wall.
       Inr [''- nozzle **'' @ shown str nozzle @ '' mm**, layer **'' @ shown str layer @ '' mm**'',
            ''- walls **'' @ shown str wall @ '' mm** ('' @ py_fixed 0 perimeters @ '' perimeters)'',
            ''- PLA. Every mass below assumes 1.24 g/cm3.'',
            NO_SUPPORT,
            ''  unsupported at a '' @ py_fixed 0 limit @ '' degree overhang limit, bridging'',
            ''  up to '' @ py_fixed 0 bridge @ '' mm. If your slicer wants support, check the'',
            ''  orientation column before enabling it.'', []])))))"

definition part_row :: "string \<times> nat \<times> real \<times> string \<times> vec \<Rightarrow> string" where
  "part_row r = (case r of (part, qty, mass, orient, (x, y, z)) \<Rightarrow>
     ''| `'' @ part @ ''` | '' @ show_nat qty @ '' | '' @ py_fixed 1 mass @ '' g | '' @ orient @ '' | ''
     @ py_fixed 0 x @ '' x '' @ py_fixed 0 y @ '' x '' @ py_fixed 0 z @ '' mm |'')"

definition PARTS_TABLE :: "string list" where
  "PARTS_TABLE = [''## Parts'', [], ''| part | qty | mass | orientation | size |'', ''|---|---|---|---|---|'']"

definition guide_fastener_lines :: "(string \<times> nat) list \<Rightarrow> string list" where
  "guide_fastener_lines kinds =
     [''## Fasteners'', [], ''Counted from the holes in the parts, not from a drawing:'', [], ''| hole | count |'', ''|---|---|'']
     @ map (\<lambda>(kind, count). ''| '' @ kind @ '' | '' @ show_nat count @ '' |'') kinds"

definition GUIDE_PROSE :: "string list" where
  "GUIDE_PROSE =
  [[],
   ''These are **cylindrical faces, not a shopping list**, and the'',
   ''difference matters:'',
   [],
   ''- A hole through a hollow part appears twice, once per wall.'',
   ''- Two coaxial holes in two parts are one screw, not two.'',
   ''- Hole depth is not screw length; that depends on what is behind'',
   ''  it, which needs an assembly model that does not exist yet.'',
   ''- Whether a hole takes a nut, a heat-set insert or a'',
   ''  self-tapping screw has not been decided.'',
   [],
   ''So: buy an M3 assortment. A confident schedule derived from half'',
   ''the information would be worse than this note.'',
   [],
   ''## Before you print'',
   [],
   ''- **Measure your servo horn.** The horn adapter is built from'',
   ''  `horn_provenance: estimated` dimensions - horns vary between'',
   ''  manufacturers even for a servo sold as an MG996R, and these'',
   ''  are the numbers in the profile most likely to be wrong.'',
   ''- **Print one bushing and one washer first.** They take minutes'',
   ''  and they test the press fit and the clearance, which are the'',
   ''  two things a geometric check cannot verify.'',
   ''- Nothing here has been printed. These parts pass geometric and'',
   ''  printability checks, which is a different claim from parts'',
   ''  that fit together.'',
   []]"

definition guide_text :: "kernel \<Rightarrow> (json \<Rightarrow> string) \<Rightarrow> json \<Rightarrow> string \<Rightarrow> summary list \<Rightarrow> string list res" where
  "guide_text render str cfg mechanism rows =
     rbind (fabrication cfg) (\<lambda>fab.
     rbind (printing_guide render cfg mechanism rows) (\<lambda>g.
     rbind (guide_settings str fab (guide_perimeters g)) (\<lambda>settings.
       Inr (guide_title mechanism @ settings @ PARTS_TABLE @ map part_row (guide_rows g)
            @ [[], ''**'' @ py_fixed 0 (guide_total g) @ '' g of PLA** for one arm.'', []]
            @ guide_fastener_lines (guide_fasteners g) @ GUIDE_PROSE))))"

subsection \<open>Properties\<close>

text \<open>The guide has one row per part it was given, in that order, with the quantity, the mass for that quantity
  and the recommended orientation, and states the total the comparison is checked against.\<close>

theorem guide_lists_every_part:
  assumes "guide_text render str cfg mechanism rows = Inr ls"
  shows "\<exists>before after. ls = before @ PARTS_TABLE
           @ map (\<lambda>row. part_row (sm_part row, quantity (sm_part row), sm_mass row * real (quantity (sm_part row)),
                                 sm_orientation row, sm_bbox row)) rows
           @ [[], ''**'' @ py_fixed 0 (foldl (\<lambda>t row. t + sm_mass row * real (quantity (sm_part row))) 0 rows)
                  @ '' g of PLA** for one arm.'', []] @ after"
proof -
  obtain fab g settings where g: "printing_guide render cfg mechanism rows = Inr g"
    and ls: "ls = (guide_title mechanism @ settings) @ PARTS_TABLE @ map part_row (guide_rows g)
            @ [[], ''**'' @ py_fixed 0 (guide_total g) @ '' g of PLA** for one arm.'', []]
            @ (guide_fastener_lines (guide_fasteners g) @ GUIDE_PROSE)"
    using assms by (auto simp: guide_text_def rbind_eq_Inr)
  have "guide_rows g = map (\<lambda>row. (sm_part row, quantity (sm_part row), sm_mass row * real (quantity (sm_part row)),
      sm_orientation row, sm_bbox row)) rows"
    "guide_total g = foldl (\<lambda>t row. t + sm_mass row * real (quantity (sm_part row))) 0 rows"
    using g by (auto simp: printing_guide_def rbind_eq_Inr Let_def)
  then have "ls = (guide_title mechanism @ settings) @ PARTS_TABLE
           @ map (\<lambda>row. part_row (sm_part row, quantity (sm_part row), sm_mass row * real (quantity (sm_part row)),
                                 sm_orientation row, sm_bbox row)) rows
           @ [[], ''**'' @ py_fixed 0 (foldl (\<lambda>t row. t + sm_mass row * real (quantity (sm_part row))) 0 rows)
                  @ '' g of PLA** for one arm.'', []] @ (guide_fastener_lines (guide_fasteners g) @ GUIDE_PROSE)"
    unfolding ls by (simp add: comp_def)
  then show ?thesis by blast
qed

text \<open>The guide always says that no support is needed. The area that needs support is computed for every part
  and then not read: changing it changes nothing, and the sentence is there whatever it is.\<close>

theorem guide_ignores_support:
  "guide_text render str cfg mechanism (map (\<lambda>row. row\<lparr>sm_unsupported := f row\<rparr>) rows)
     = guide_text render str cfg mechanism rows
   \<and> (case guide_text render str cfg mechanism rows of Inl e \<Rightarrow> True | Inr ls \<Rightarrow> NO_SUPPORT \<in> set ls)"
proof -
  have "foldl (\<lambda>t row. t + sm_mass row * real (quantity (sm_part row))) t (map (\<lambda>row. row\<lparr>sm_unsupported := f row\<rparr>) rows)
      = foldl (\<lambda>t row. t + sm_mass row * real (quantity (sm_part row))) t rows" for t
    by (induction rows arbitrary: t) simp_all
  then have "printing_guide render cfg mechanism (map (\<lambda>row. row\<lparr>sm_unsupported := f row\<rparr>) rows)
      = printing_guide render cfg mechanism rows"
    by (simp add: printing_guide_def comp_def)
  then show ?thesis
    by (auto simp: guide_text_def guide_settings_def rbind_eq_Inr split: sum.splits)
qed

end
