(* ===== verification/Verify_Base.thy ===== *)
theory Verify_Base
  imports Collect Fusion
begin

text \<open>
  Driving the base and comparing headings (\<open>scripts/verify_base_drive.py\<close>, \<open>scripts/verify_heading.py\<close>). As for the
  recorder, the simulator and the ROS graph are a record of functions over an arbitrary world: what a \<open>gz\<close> call
  prints or raises, which messages one \<open>spin_once\<close> delivers and what it then raises, if anything (an interrupt, a
  context that was shut down), whether a publication goes out or raises, how often a timed loop runs. An exception
  ends the script where it is raised: the scripts have no handler. A script's result is its exit code and the figures
  it prints, or the exception; the prose it prints is left out.
\<close>

record base_odom =
  om_x :: real
  om_y :: real
  om_q :: "real \<times> real \<times> real \<times> real"

record ('w, 'e) bench =
  bn_gz :: "string \<Rightarrow> 'w \<Rightarrow> string list res \<times> 'w"
  bn_spin :: "'w \<Rightarrow> 'e list \<times> exn option \<times> 'w"
  bn_publish :: "real \<times> real \<Rightarrow> 'w \<Rightarrow> unit res \<times> 'w"
  bn_iterations :: "'w \<Rightarrow> nat \<times> 'w"

text \<open>Sequencing: what follows an exception is not run, the node and the world stay as they were when it was raised.
  \<open>asking\<close> is a request to the outside that does not touch the node.\<close>

definition then_run :: "'a res \<times> 'n \<times> 'w \<Rightarrow> ('a \<Rightarrow> 'n \<Rightarrow> 'w \<Rightarrow> 'b res \<times> 'n \<times> 'w) \<Rightarrow> 'b res \<times> 'n \<times> 'w" where
  "then_run m f = (case m of (Inl e, n, w) \<Rightarrow> (Inl e, n, w) | (Inr x, n, w) \<Rightarrow> f x n w)"

definition asking :: "('w \<Rightarrow> 'a res \<times> 'w) \<Rightarrow> 'n \<Rightarrow> 'w \<Rightarrow> 'a res \<times> 'n \<times> 'w" where
  "asking g n w = (case g w of (r, w1) \<Rightarrow> (r, n, w1))"

text \<open>\<open>yaw_of\<close> of both scripts, on \<open>(x, y, z, w)\<close>.\<close>

definition quat_yaw :: "real \<times> real \<times> real \<times> real \<Rightarrow> real" where
  "quat_yaw q = (case q of (x, y, z, w) \<Rightarrow> atan2 (2 * (w * z + x * y)) (1 - 2 * (y * y + z * z)))"

text \<open>The parser of both \<open>ground_truth\<close> functions is that of \<open>collect.py\<close>, read for planar fields.\<close>

definition planar_truth :: "string \<Rightarrow> string list \<Rightarrow> (real \<times> real \<times> real) option res" where
  "planar_truth model ls =
     (case scan_block model ls False [] of
        (False, _) \<Rightarrow> Inr None
      | (True, block) \<Rightarrow>
          rbind (field ''orientation'' ''z'' False block) (\<lambda>qz.
          rbind (field ''orientation'' ''w'' False block) (\<lambda>qw.
          rbind (field ''position'' ''x'' False block) (\<lambda>x.
          rbind (field ''position'' ''y'' False block) (\<lambda>y.
            Inr (Some (x, y, yaw_of qz qw)))))))"

definition ground_truth :: "('w, 'e) bench \<Rightarrow> 'w \<Rightarrow> (real \<times> real \<times> real) option res \<times> 'w" where
  "ground_truth b w =
     (case bn_gz b ''/world/empty_bench/dynamic_pose/info'' w of
        (Inl e, w1) \<Rightarrow> (if caught e [CSubprocessError, COSError] then Inr None else Inl e, w1)
      | (Inr ls, w1) \<Rightarrow> (planar_truth ''threevn_base'' ls, w1))"

definition yaw_truth :: "string list \<Rightarrow> real option res" where
  "yaw_truth ls =
     (case scan_block ROBOT_MODEL ls False [] of
        (False, _) \<Rightarrow> Inr None
      | (True, block) \<Rightarrow>
          rbind (field ''orientation'' ''z'' False block) (\<lambda>qz.
          rbind (field ''orientation'' ''w'' False block) (\<lambda>qw. Inr (Some (yaw_of qz qw)))))"

definition ground_truth_yaw :: "('w, 'e) bench \<Rightarrow> string \<Rightarrow> 'w \<Rightarrow> real option res \<times> 'w" where
  "ground_truth_yaw b world w =
     (case bn_gz b (DYNAMIC_TOPIC world) w of
        (Inl e, w1) \<Rightarrow> (if caught e [CSubprocessError, COSError] then Inr None else Inl e, w1)
      | (Inr ls, w1) \<Rightarrow> (yaw_truth ls, w1))"

subsection \<open>Loops of a node\<close>

text \<open>\<open>spin_once\<close>, the timed loop around it, and the loop that publishes before each spin. \<open>cb\<close> is the node's
  callbacks, \<open>send\<close> what a publication that went out does to the node.\<close>

definition node_spin :: "('w, 'e) bench \<Rightarrow> ('n \<Rightarrow> 'e \<Rightarrow> 'n) \<Rightarrow> 'n \<Rightarrow> 'w \<Rightarrow> unit res \<times> 'n \<times> 'w" where
  "node_spin b cb n w =
     (case bn_spin b w of (evs, raised, w1) \<Rightarrow>
       (case raised of None \<Rightarrow> Inr () | Some e \<Rightarrow> Inl e, foldl cb n evs, w1))"

fun node_spins :: "('w, 'e) bench \<Rightarrow> ('n \<Rightarrow> 'e \<Rightarrow> 'n) \<Rightarrow> nat \<Rightarrow> 'n \<Rightarrow> 'w \<Rightarrow> unit res \<times> 'n \<times> 'w" where
  "node_spins b cb 0 n w = (Inr (), n, w)"
| "node_spins b cb (Suc k) n w = then_run (node_spin b cb n w) (\<lambda>_ n1 w1. node_spins b cb k n1 w1)"

definition spin_timed :: "('w, 'e) bench \<Rightarrow> ('n \<Rightarrow> 'e \<Rightarrow> 'n) \<Rightarrow> 'n \<Rightarrow> 'w \<Rightarrow> unit res \<times> 'n \<times> 'w" where
  "spin_timed b cb n w = (case bn_iterations b w of (k, w1) \<Rightarrow> node_spins b cb k n w1)"

definition publish_cmd ::
  "('w, 'e) bench \<Rightarrow> (real \<times> real \<Rightarrow> 'n \<Rightarrow> 'n) \<Rightarrow> real \<times> real \<Rightarrow> 'n \<Rightarrow> 'w \<Rightarrow> unit res \<times> 'n \<times> 'w" where
  "publish_cmd b send c n w =
     (case bn_publish b c w of (Inl e, w1) \<Rightarrow> (Inl e, n, w1) | (Inr _, w1) \<Rightarrow> (Inr (), send c n, w1))"

fun send_n ::
  "('w, 'e) bench \<Rightarrow> ('n \<Rightarrow> 'e \<Rightarrow> 'n) \<Rightarrow> (real \<times> real \<Rightarrow> 'n \<Rightarrow> 'n) \<Rightarrow> real \<times> real \<Rightarrow> nat \<Rightarrow> 'n \<Rightarrow> 'w \<Rightarrow> unit res \<times> 'n \<times> 'w" where
  "send_n b cb send c 0 n w = (Inr (), n, w)"
| "send_n b cb send c (Suc k) n w =
     then_run (publish_cmd b send c n w) (\<lambda>_ n1 w1.
     then_run (node_spin b cb n1 w1) (\<lambda>_ n2 w2. send_n b cb send c k n2 w2))"

text \<open>Hold a command for a timed loop, publish the stop command \<open>stops\<close> times, settle. There is no \<open>try\<close> around the
  loop: an exception in it skips the stops.\<close>

definition hold_and_stop ::
  "('w, 'e) bench \<Rightarrow> ('n \<Rightarrow> 'e \<Rightarrow> 'n) \<Rightarrow> (real \<times> real \<Rightarrow> 'n \<Rightarrow> 'n) \<Rightarrow> nat \<Rightarrow> real \<times> real \<Rightarrow> 'n \<Rightarrow> 'w \<Rightarrow> unit res \<times> 'n \<times> 'w" where
  "hold_and_stop b cb send stops cmd n w =
     (case bn_iterations b w of (k, w1) \<Rightarrow>
      then_run (send_n b cb send cmd k n w1) (\<lambda>_ n1 w2.
      then_run (send_n b cb send (0, 0) stops n1 w2) (\<lambda>_ n2 w3. spin_timed b cb n2 w3)))"

subsection \<open>\<open>verify_base_drive.py\<close>\<close>

record driver =
  dr_odom :: "base_odom option"
  dr_cmds :: "(real \<times> real) list"

definition dr_new :: driver where "dr_new = \<lparr>dr_odom = None, dr_cmds = []\<rparr>"

definition dr_on_odom :: "driver \<Rightarrow> base_odom \<Rightarrow> driver" where
  "dr_on_odom d m = d\<lparr>dr_odom := Some m\<rparr>"

definition dr_send :: "real \<times> real \<Rightarrow> driver \<Rightarrow> driver" where
  "dr_send c d = d\<lparr>dr_cmds := dr_cmds d @ [c]\<rparr>"

fun wait_odom_n :: "('w, base_odom) bench \<Rightarrow> nat \<Rightarrow> driver \<Rightarrow> 'w \<Rightarrow> unit res \<times> driver \<times> 'w" where
  "wait_odom_n b 0 d w = (Inr (), d, w)"
| "wait_odom_n b (Suc k) d w =
     (if dr_odom d \<noteq> None then (Inr (), d, w)
      else then_run (node_spin b dr_on_odom d w) (\<lambda>_ d1 w1. wait_odom_n b k d1 w1))"

definition wait_for_odom :: "('w, base_odom) bench \<Rightarrow> driver \<Rightarrow> 'w \<Rightarrow> bool res \<times> driver \<times> 'w" where
  "wait_for_odom b d w =
     (case bn_iterations b w of (k, w1) \<Rightarrow>
      then_run (wait_odom_n b k d w1) (\<lambda>_ d1 w2. (Inr (dr_odom d1 \<noteq> None), d1, w2)))"

definition dr_pose :: "driver \<Rightarrow> (real \<times> real \<times> real) res" where
  "dr_pose d = (case dr_odom d of None \<Rightarrow> Inl AttributeError | Some m \<Rightarrow> Inr (om_x m, om_y m, quat_yaw (om_q m)))"

definition base_drive :: "('w, base_odom) bench \<Rightarrow> real \<Rightarrow> real \<Rightarrow> driver \<Rightarrow> 'w \<Rightarrow> unit res \<times> driver \<times> 'w" where
  "base_drive b lin ang = hold_and_stop b dr_on_odom dr_send 10 (lin, ang)"

definition deg :: "real \<Rightarrow> real" where "deg x = x * (180 / pi)"

definition plane_dist :: "real \<times> real \<times> real \<Rightarrow> real \<times> real \<times> real \<Rightarrow> real" where
  "plane_dist p q = (case (p, q) of ((x0, y0, _), (x1, y1, _)) \<Rightarrow> sqrt ((x1 - x0)\<^sup>2 + (y1 - y0)\<^sup>2))"

definition turn_deg :: "real \<times> real \<times> real \<Rightarrow> real \<times> real \<times> real \<Rightarrow> real" where
  "turn_deg p q = (case (p, q) of ((_, _, a), (_, _, b)) \<Rightarrow> deg (py_mod (b - a + pi) (2 * pi) - pi))"

record drive_truth =
  dt_dist :: real
  dt_turn :: real
  dt_linear_error :: real
  dt_heading_error :: real

record drive_figures =
  df_cmd_dist :: real
  df_cmd_turn :: real
  df_odom_dist :: real
  df_odom_turn :: real
  df_truth :: "drive_truth option"

definition drive_figures_of ::
  "real \<times> real \<times> real \<Rightarrow> real \<times> real \<times> real \<Rightarrow> real \<times> real \<times> real
    \<Rightarrow> (real \<times> real \<times> real) option \<Rightarrow> (real \<times> real \<times> real) option \<Rightarrow> (real \<times> real \<times> real) option \<Rightarrow> drive_figures" where
  "drive_figures_of p0 p1 p2 g0 g1 g2 =
     (let odom_dist = plane_dist p0 p1; odom_turn = turn_deg p1 p2 in
      \<lparr>df_cmd_dist = (3 / 10) * 3, df_cmd_turn = deg (1 * 2), df_odom_dist = odom_dist, df_odom_turn = odom_turn,
       df_truth = (case (g0, g1, g2) of
         (Some a, Some b, Some c) \<Rightarrow>
           let true_dist = plane_dist a b; true_turn = turn_deg b c in
           Some \<lparr>dt_dist = true_dist, dt_turn = true_turn,
             dt_linear_error = 100 * (odom_dist - true_dist) / max true_dist (1 / 10 ^ 9),
             dt_heading_error = 100 * (odom_turn - true_turn) / max \<bar>true_turn\<bar> (1 / 10 ^ 9)\<rparr>
       | _ \<Rightarrow> None)\<rparr>)"

definition base_main :: "('w, base_odom) bench \<Rightarrow> 'w \<Rightarrow> (int \<times> drive_figures option) res \<times> driver \<times> 'w" where
  "base_main b w =
     then_run (wait_for_odom b dr_new w) (\<lambda>ready d w.
     if \<not> ready then (Inr (1, None), d, w)
     else
       then_run (spin_timed b dr_on_odom d w) (\<lambda>_ d w.
       then_run (dr_pose d, d, w) (\<lambda>p0 d w.
       then_run (asking (ground_truth b) d w) (\<lambda>g0 d w.
       then_run (base_drive b (3 / 10) 0 d w) (\<lambda>_ d w.
       then_run (dr_pose d, d, w) (\<lambda>p1 d w.
       then_run (asking (ground_truth b) d w) (\<lambda>g1 d w.
       then_run (base_drive b 0 1 d w) (\<lambda>_ d w.
       then_run (dr_pose d, d, w) (\<lambda>p2 d w.
       then_run (asking (ground_truth b) d w) (\<lambda>g2 d w.
         (Inr (0, Some (drive_figures_of p0 p1 p2 g0 g1 g2)), d, w)))))))))))"

subsection \<open>\<open>verify_heading.py\<close>\<close>

datatype heading_event = OdomEvent base_odom | FusedEvent base_odom | ImuEvent int int real

record heading =
  hd_odom :: "base_odom option"
  hd_fused :: "base_odom option"
  hd_gyro_yaw :: real
  hd_last_imu :: "real option"
  hd_cmds :: "(real \<times> real) list"

definition hd_new :: heading where
  "hd_new = \<lparr>hd_odom = None, hd_fused = None, hd_gyro_yaw = 0, hd_last_imu = None, hd_cmds = []\<rparr>"

fun hd_on :: "heading \<Rightarrow> heading_event \<Rightarrow> heading" where
  "hd_on h (OdomEvent m) = h\<lparr>hd_odom := Some m\<rparr>"
| "hd_on h (FusedEvent m) = h\<lparr>hd_fused := Some m\<rparr>"
| "hd_on h (ImuEvent sec nanosec rate) =
     (let stamp = real_of_int sec + real_of_int nanosec / 10 ^ 9;
          h1 = (case hd_last_imu h of
                  None \<Rightarrow> h
                | Some t \<Rightarrow> let dt = stamp - t in
                    if 0 < dt \<and> dt < 1 / 2 then h\<lparr>hd_gyro_yaw := hd_gyro_yaw h + rate * dt\<rparr> else h)
      in h1\<lparr>hd_last_imu := Some stamp\<rparr>)"

definition hd_send :: "real \<times> real \<Rightarrow> heading \<Rightarrow> heading" where
  "hd_send c h = h\<lparr>hd_cmds := hd_cmds h @ [c]\<rparr>"

fun hd_wait_n :: "('w, heading_event) bench \<Rightarrow> nat \<Rightarrow> heading \<Rightarrow> 'w \<Rightarrow> bool res \<times> heading \<times> 'w" where
  "hd_wait_n b 0 h w = (Inr False, h, w)"
| "hd_wait_n b (Suc k) h w =
     then_run (node_spin b hd_on h w) (\<lambda>_ h1 w1.
       if hd_odom h1 \<noteq> None \<and> hd_last_imu h1 \<noteq> None then (Inr True, h1, w1) else hd_wait_n b k h1 w1)"

definition hd_wait_ready :: "('w, heading_event) bench \<Rightarrow> heading \<Rightarrow> 'w \<Rightarrow> bool res \<times> heading \<times> 'w" where
  "hd_wait_ready b h w = (case bn_iterations b w of (k, w1) \<Rightarrow> hd_wait_n b k h w1)"

definition hd_turn :: "('w, heading_event) bench \<Rightarrow> real \<Rightarrow> heading \<Rightarrow> 'w \<Rightarrow> unit res \<times> heading \<times> 'w" where
  "hd_turn b rate = hold_and_stop b hd_on hd_send 12 (0, rate)"

definition odom_yaw :: "base_odom option \<Rightarrow> real res" where
  "odom_yaw m = (case m of None \<Rightarrow> Inl AttributeError | Some m \<Rightarrow> Inr (quat_yaw (om_q m)))"

text \<open>\<open>None - truth0\<close>: a ground truth that cannot be read any more.\<close>

definition since :: "real \<Rightarrow> real option \<Rightarrow> real res" where
  "since t0 t = (case t of None \<Rightarrow> Inl TypeError | Some t \<Rightarrow> Inr (wrap (t - t0)))"

record turns =
  tu_truth :: real
  tu_odom :: real
  tu_gyro :: real
  tu_fused :: "real option"

record errs =
  er_wheel :: "real list"
  er_gyro :: "real list"
  er_fused :: "real list"

text \<open>The headings since the start, read after a turn. The order is the source's: truth, wheels, gyro, fused.\<close>

definition read_turns :: "real \<Rightarrow> real \<Rightarrow> real \<Rightarrow> real option \<Rightarrow> real option \<Rightarrow> heading \<Rightarrow> turns res" where
  "read_turns truth0 odom0 gyro0 fused0 truth h =
     rbind (since truth0 truth) (\<lambda>t.
     rbind (odom_yaw (hd_odom h)) (\<lambda>o1.
     rbind (case fused0 of None \<Rightarrow> Inr None | Some f0 \<Rightarrow> rbind (odom_yaw (hd_fused h)) (\<lambda>f. Inr (Some (wrap (f - f0))))) (\<lambda>f.
       Inr \<lparr>tu_truth = t, tu_odom = wrap (o1 - odom0), tu_gyro = wrap (hd_gyro_yaw h - gyro0), tu_fused = f\<rparr>)))"

definition leg_errors :: "turns \<Rightarrow> turns \<Rightarrow> errs \<Rightarrow> errs" where
  "leg_errors previous t e =
     (let turned = wrap (tu_truth t - tu_truth previous) in
      \<lparr>er_wheel = er_wheel e @ [wrap (tu_odom t - tu_odom previous) - turned],
       er_gyro = er_gyro e @ [wrap (tu_gyro t - tu_gyro previous) - turned],
       er_fused = (case (tu_fused t, tu_fused previous) of
                     (Some f, Some f') \<Rightarrow> er_fused e @ [wrap (f - f') - turned] | _ \<Rightarrow> er_fused e)\<rparr>)"

fun legs ::
  "('w, heading_event) bench \<Rightarrow> string \<Rightarrow> (real option \<Rightarrow> heading \<Rightarrow> turns res) \<Rightarrow> (real \<times> real) list \<Rightarrow> turns \<Rightarrow> errs \<Rightarrow> heading \<Rightarrow> 'w
    \<Rightarrow> (turns \<times> errs) res \<times> heading \<times> 'w" where
  "legs b world read [] previous e h w = (Inr (previous, e), h, w)"
| "legs b world read ((rate, seconds) # ls) previous e h w =
     then_run (hd_turn b rate h w) (\<lambda>_ h1 w1.
     then_run (asking (ground_truth_yaw b world) h1 w1) (\<lambda>truth h2 w2.
     then_run (read truth h2, h2, w2) (\<lambda>t h3 w3. legs b world read ls t (leg_errors previous t e) h3 w3)))"

definition LEGS :: "(real \<times> real) list" where
  "LEGS = [(8 / 10, 2), (- (8 / 10), 2), (6 / 10, 3), (- (6 / 10), 3)]"

definition mean_worst :: "real list \<Rightarrow> (real \<times> real) option" where
  "mean_worst vs = (if vs = [] then None
     else Some (deg (sum_list (map abs vs) / real (length vs)), deg (Max (set (map abs vs)))))"

record heading_figures =
  hf_commanded :: real
  hf_wheel :: "(real \<times> real) option"
  hf_gyro :: "(real \<times> real) option"
  hf_fused :: "(real \<times> real) option"
  hf_net_wheel :: real
  hf_net_gyro :: real
  hf_net_fused :: "real option"

definition heading_main :: "('w, heading_event) bench \<Rightarrow> string \<Rightarrow> 'w \<Rightarrow> (int \<times> heading_figures option) res \<times> heading \<times> 'w" where
  "heading_main b world w =
     then_run (hd_wait_ready b hd_new w) (\<lambda>ready h w.
     if \<not> ready then (Inr (1, None), h, w)
     else
       then_run (spin_timed b hd_on h w) (\<lambda>_ h w.
       then_run (asking (ground_truth_yaw b world) h w) (\<lambda>truth0 h w.
       then_run (odom_yaw (hd_odom h), h, w) (\<lambda>odom0 h w.
       case truth0 of None \<Rightarrow> (Inr (1, None), h, w) | Some truth0 \<Rightarrow>
       let gyro0 = hd_gyro_yaw h; fused0 = map_option (\<lambda>m. quat_yaw (om_q m)) (hd_fused h);
           read = read_turns truth0 odom0 gyro0 fused0 in
       then_run (legs b world read LEGS \<lparr>tu_truth = 0, tu_odom = 0, tu_gyro = 0, tu_fused = Some 0\<rparr>
             \<lparr>er_wheel = [], er_gyro = [], er_fused = []\<rparr> h w) (\<lambda>(prev, e) h w.
       then_run (asking (ground_truth_yaw b world) h w) (\<lambda>truth h w.
       then_run (read truth h, h, w) (\<lambda>t h w.
         (Inr (0, Some
            \<lparr>hf_commanded = deg (sum_list (map (\<lambda>(rate, seconds). rate * seconds) LEGS)),
             hf_wheel = mean_worst (er_wheel e), hf_gyro = mean_worst (er_gyro e), hf_fused = mean_worst (er_fused e),
             hf_net_wheel = deg (wrap (tu_odom t - tu_truth t)), hf_net_gyro = deg (wrap (tu_gyro t - tu_truth t)),
             hf_net_fused = map_option (\<lambda>f. deg (wrap (f - tu_truth t))) (tu_fused t)\<rparr>), h, w))))))))"

subsection \<open>How a run ends\<close>

text \<open>A run that returns satisfies \<open>P\<close>, a run that raises satisfies \<open>E\<close>.\<close>

definition ends :: "('a \<Rightarrow> 'n \<Rightarrow> bool) \<Rightarrow> (exn \<Rightarrow> 'n \<Rightarrow> bool) \<Rightarrow> 'a res \<times> 'n \<times> 'w \<Rightarrow> bool" where
  "ends P E m = (case m of (Inl e, n, w) \<Rightarrow> E e n | (Inr x, n, w) \<Rightarrow> P x n)"

lemma then_run_simps [simp]:
  "then_run (Inl e, n, w) f = (Inl e, n, w)" "then_run (Inr x, n, w) f = f x n w"
  by (simp_all add: then_run_def)

lemma then_run_cases [consumes 1, case_names raised returned]:
  assumes "then_run m f = (r, n', w')"
  obtains e where "m = (Inl e, n', w')" "r = Inl e"
  | x n w where "m = (Inr x, n, w)" "f x n w = (r, n', w')"
  using assms by (cases m) (auto simp: then_run_def split: sum.splits)

lemma then_run_Inr:
  "then_run m f = (Inr y, n', w') \<Longrightarrow> \<exists>x n w. m = (Inr x, n, w) \<and> f x n w = (Inr y, n', w')"
  by (erule then_run_cases) auto

lemma ends_simps [simp]: "ends P E (Inl e, n, w) = E e n" "ends P E (Inr x, n, w) = P x n"
  by (simp_all add: ends_def)

lemma ends_then:
  "ends P E m \<Longrightarrow> (\<And>x n w. P x n \<Longrightarrow> ends Q E (f x n w)) \<Longrightarrow> ends Q E (then_run m f)"
  by (cases m; cases "fst m") (simp_all add: ends_def then_run_def)

lemma ends_mono:
  "ends P E m \<Longrightarrow> (\<And>x n. P x n \<Longrightarrow> Q x n) \<Longrightarrow> (\<And>e n. E e n \<Longrightarrow> F e n) \<Longrightarrow> ends Q F m"
  by (auto simp: ends_def split: prod.splits sum.splits)

lemma ends_asking: "(\<And>x. P x n) \<Longrightarrow> (\<And>e. E e n) \<Longrightarrow> ends P E (asking g n w)"
  by (auto simp: asking_def ends_def split: prod.splits sum.splits)

lemma ends_pure: "(\<And>x. P x n) \<Longrightarrow> (\<And>e. E e n) \<Longrightarrow> ends P E (r, n, w)"
  by (cases r) auto

lemma ends_if: "(c \<Longrightarrow> ends P E m) \<Longrightarrow> (\<not> c \<Longrightarrow> ends P E m') \<Longrightarrow> ends P E (if c then m else m')"
  by simp

lemma ends_option: "ends P E m \<Longrightarrow> (\<And>x. ends P E (f x)) \<Longrightarrow> ends P E (case opt of None \<Rightarrow> m | Some x \<Rightarrow> f x)"
  by (simp split: option.split)

lemma ends_prod: "(\<And>x y. ends P E (f x y n w)) \<Longrightarrow> ends P E ((case p of (x, y) \<Rightarrow> f x y) n w)"
  by (simp split: prod.split)

text \<open>What spinning and publishing may raise.\<close>

definition publish_raises :: "('w, 'e) bench \<Rightarrow> exn set" where
  "publish_raises b = {e. \<exists>c w w'. bn_publish b c w = (Inl e, w')}"

definition bench_raises :: "('w, 'e) bench \<Rightarrow> exn set" where
  "bench_raises b = {e. \<exists>w evs w'. bn_spin b w = (evs, Some e, w')} \<union> publish_raises b"

subsection \<open>Publishers of velocity commands\<close>

text \<open>The commands of a script: stops, and moves from the given list. At rest: nothing was sent, or the last \<open>k\<close>
  commands are stops. A run that raised is safe if it is at rest, unless the exception is one of spinning or publishing.\<close>

definition only_moves :: "(real \<times> real) list \<Rightarrow> (real \<times> real) list \<Rightarrow> bool" where
  "only_moves moves cs \<longleftrightarrow> set cs \<subseteq> insert (0, 0) (set moves)"

definition at_rest :: "nat \<Rightarrow> (real \<times> real) list \<Rightarrow> bool" where
  "at_rest k cs \<longleftrightarrow> cs = [] \<or> suffix (replicate k (0, 0)) cs"

definition rests :: "(real \<times> real) list \<Rightarrow> nat \<Rightarrow> (real \<times> real) list \<Rightarrow> bool" where
  "rests moves k cs \<longleftrightarrow> only_moves moves cs \<and> at_rest k cs"

definition rests_or :: "exn set \<Rightarrow> (real \<times> real) list \<Rightarrow> nat \<Rightarrow> exn \<Rightarrow> (real \<times> real) list \<Rightarrow> bool" where
  "rests_or es moves k e cs \<longleftrightarrow> only_moves moves cs \<and> (at_rest k cs \<or> e \<in> es)"

lemma rests_Nil [simp]: "rests moves k []"
  by (simp add: rests_def only_moves_def at_rest_def)

lemma rests_rests_or: "rests moves k cs \<Longrightarrow> rests_or es moves k e cs"
  by (simp add: rests_def rests_or_def)

lemma rests_hold: "rests moves k cs \<Longrightarrow> c \<in> set moves \<Longrightarrow> rests moves k (cs @ replicate n c @ replicate k (0, 0))"
  by (auto simp: rests_def only_moves_def at_rest_def suffix_def set_replicate_conv_if)

text \<open>An attribute no callback changes; and, as one, the list of commands a node has sent, to which \<open>publish\<close> appends.\<close>

locale kept_attribute =
  fixes cb :: "'n \<Rightarrow> 'e \<Rightarrow> 'n" and get :: "'n \<Rightarrow> 'a"
  assumes cb_get: "get (cb n e) = get n"
begin

lemma fold_get: "get (foldl cb n evs) = get n"
  by (induction evs arbitrary: n) (simp_all add: cb_get)

lemma once_get:
  "get n = a \<Longrightarrow> ends (\<lambda>_ n'. get n' = a) (\<lambda>e n'. get n' = a \<and> e \<in> bench_raises b) (node_spin b cb n w)"
  by (auto simp: node_spin_def fold_get bench_raises_def split: prod.splits option.splits)

lemma spin_get:
  "get n = a \<Longrightarrow> ends (\<lambda>_ n'. get n' = a) (\<lambda>e n'. get n' = a \<and> e \<in> bench_raises b) (node_spins b cb k n w)"
  by (induction k arbitrary: n w) (auto intro: ends_then once_get)

lemma timed_get:
  "get n = a \<Longrightarrow> ends (\<lambda>_ n'. get n' = a) (\<lambda>e n'. get n' = a \<and> e \<in> bench_raises b) (spin_timed b cb n w)"
  by (auto simp: spin_timed_def intro: spin_get split: prod.splits)

lemma once_kept: "node_spin b cb n w = (x, n', w') \<Longrightarrow> get n' = get n"
  using once_get [of n "get n" b w] by (cases x) simp_all

lemma spin_kept: "node_spins b cb k n w = (x, n', w') \<Longrightarrow> get n' = get n"
  using spin_get [of n "get n" b k w] by (cases x) simp_all

lemma timed_kept: "spin_timed b cb n w = (x, n', w') \<Longrightarrow> get n' = get n"
  using timed_get [of n "get n" b w] by (cases x) simp_all

end

locale velocity_publisher = kept_attribute cb cmds
  for cb :: "'n \<Rightarrow> 'e \<Rightarrow> 'n" and cmds :: "'n \<Rightarrow> (real \<times> real) list" +
  fixes send :: "real \<times> real \<Rightarrow> 'n \<Rightarrow> 'n"
  assumes send_cmds: "cmds (send c n) = cmds n @ [c]"
begin

lemma publish_ends:
  "cmds n = cs \<Longrightarrow> ends (\<lambda>_ n'. cmds n' = cs @ [c]) (\<lambda>e n'. cmds n' = cs \<and> e \<in> publish_raises b) (publish_cmd b send c n w)"
  by (auto simp: publish_cmd_def send_cmds publish_raises_def simp del: split_paired_Ex split: prod.splits sum.splits)

lemma send_n_ends:
  "cmds n = cs \<Longrightarrow> ends (\<lambda>_ n'. cmds n' = cs @ replicate k c)
     (\<lambda>e n'. (\<exists>j. cmds n' = cs @ replicate j c) \<and> e \<in> bench_raises b) (send_n b cb send c k n w)"
proof (induction k arbitrary: n w cs)
  case (Suc k)
  let ?E = "\<lambda>e n'. (\<exists>j. cmds n' = cs @ replicate j c) \<and> e \<in> bench_raises b"
  have more: "\<exists>j'. (cs @ [c]) @ replicate j c = cs @ replicate j' c" for j
    by (rule exI [of _ "Suc j"]) simp
  have pub: "ends (\<lambda>_ n'. cmds n' = cs @ [c]) ?E (publish_cmd b send c n w)"
    by (rule ends_mono [OF publish_ends [OF Suc.prems]]) (auto simp: bench_raises_def intro: exI [of _ 0])
  have spin: "ends (\<lambda>_ n'. cmds n' = cs @ [c]) ?E (node_spin b cb n1 w1)" if "cmds n1 = cs @ [c]" for n1 w1
    by (rule ends_mono [OF once_get [OF that]]) (auto intro: exI [of _ 1])
  have rest: "ends (\<lambda>_ n'. cmds n' = cs @ replicate (Suc k) c) ?E (send_n b cb send c k n2 w2)" if "cmds n2 = cs @ [c]" for n2 w2
    by (rule ends_mono [OF Suc.IH [OF that]]) (use more in auto)
  show ?case unfolding send_n.simps by (rule ends_then [OF pub]) (rule ends_then [OF spin rest])
qed (auto intro: exI [of _ 0])

lemma timed_rests:
  "rests moves k (cmds n) \<Longrightarrow>
     ends (\<lambda>_ n'. rests moves k (cmds n')) (\<lambda>e n'. rests_or (bench_raises b) moves k e (cmds n')) (spin_timed b cb n w)"
  by (rule ends_mono [OF timed_get [OF refl]]) (auto simp: rests_def rests_or_def)

lemma hold_rests:
  assumes "rests moves k (cmds n)" and "c \<in> set moves"
  shows "ends (\<lambda>_ n'. rests moves k (cmds n')) (\<lambda>e n'. rests_or (bench_raises b) moves k e (cmds n'))
    (hold_and_stop b cb send k c n w)"
proof -
  let ?E = "\<lambda>e n'. rests_or (bench_raises b) moves k e (cmds n')"
  have unsafe: "rests_or (bench_raises b) moves k e (cmds n @ replicate i c @ replicate j (0, 0))" if "e \<in> bench_raises b" for e i j
    using assms that by (auto simp: rests_def rests_or_def only_moves_def set_replicate_conv_if)
  have hold: "ends (\<lambda>_ n'. cmds n' = cmds n @ replicate i c) ?E (send_n b cb send c i n v)" for i v
    by (rule ends_mono [OF send_n_ends [OF refl]]) (use unsafe [where j = 0] in auto)
  have stop: "ends (\<lambda>_ n'. rests moves k (cmds n')) ?E (send_n b cb send (0, 0) k n1 v)" if "cmds n1 = cmds n @ replicate i c" for i n1 v
    by (rule ends_mono [OF send_n_ends [OF that]]) (use unsafe rests_hold [OF assms] in auto)
  show ?thesis unfolding hold_and_stop_def
    by (auto intro!: ends_then [OF hold] ends_then [OF stop] timed_rests split: prod.splits)
qed

end

interpretation dr: velocity_publisher dr_on_odom dr_cmds dr_send
  by unfold_locales (simp_all add: dr_on_odom_def dr_send_def)

lemma hd_cb_cmds: "hd_cmds (hd_on h e) = hd_cmds h"
  by (cases e) (simp_all add: Let_def split: option.splits)

interpretation hd: velocity_publisher hd_on hd_cmds hd_send
  by unfold_locales (simp_all only: hd_cb_cmds, simp add: hd_send_def)

lemma wait_odom_cmds:
  "dr_cmds d = cs \<Longrightarrow> ends (\<lambda>_ d'. dr_cmds d' = cs) (\<lambda>e d'. dr_cmds d' = cs \<and> e \<in> bench_raises b) (wait_odom_n b k d w)"
  by (induction k arbitrary: d w) (auto intro: ends_then dr.once_get)

lemma hd_wait_cmds:
  "hd_cmds h = cs \<Longrightarrow> ends (\<lambda>_ h'. hd_cmds h' = cs) (\<lambda>e h'. hd_cmds h' = cs \<and> e \<in> bench_raises b) (hd_wait_n b k h w)"
  by (induction k arbitrary: h w) (auto intro: ends_then hd.once_get)

abbreviation base_moves :: "(real \<times> real) list" where "base_moves \<equiv> [(3 / 10, 0), (0, 1)]"
abbreviation heading_moves :: "(real \<times> real) list" where "heading_moves \<equiv> map (\<lambda>(rate, s). (0, rate)) LEGS"

text \<open>A step of the script that leaves the commands alone.\<close>

lemma rests_pure:
  "rests moves k (get n) \<Longrightarrow> ends (\<lambda>_ n'. rests moves k (get n')) (\<lambda>e n'. rests_or es moves k e (get n')) (r, n, w)"
  by (intro ends_pure rests_rests_or)

lemma rests_asking:
  "rests moves k (get n) \<Longrightarrow> ends (\<lambda>_ n'. rests moves k (get n')) (\<lambda>e n'. rests_or es moves k e (get n')) (asking g n w)"
  by (intro ends_asking rests_rests_or)

lemma legs_rest:
  "rests moves 12 (hd_cmds h) \<Longrightarrow> (\<lambda>(rate, s). (0, rate)) ` set ls \<subseteq> set moves
    \<Longrightarrow> ends (\<lambda>_ h'. rests moves 12 (hd_cmds h')) (\<lambda>e h'. rests_or (bench_raises b) moves 12 e (hd_cmds h')) (legs b world rd ls prev er h w)"
proof (induction ls arbitrary: prev er h w)
  case (Cons l ls)
  obtain rate secs where l: "l = (rate, secs)" by (cases l)
  have "(0, rate) \<in> set moves" and "(\<lambda>(rate, s). (0, rate)) ` set ls \<subseteq> set moves" using Cons.prems(2) l by auto
  then show ?case unfolding l legs.simps hd_turn_def
    by (intro ends_then [OF hd.hold_rests [OF Cons.prems(1)]] ends_then [OF rests_asking] ends_then [OF rests_pure] Cons.IH)
qed simp

lemma base_wait_rest:
  "ends (\<lambda>_ d. rests base_moves 10 (dr_cmds d)) (\<lambda>e d. rests_or (bench_raises b) base_moves 10 e (dr_cmds d)) (wait_for_odom b dr_new w)"
proof -
  have "dr_cmds dr_new = []" by (simp add: dr_new_def)
  then have "ends (\<lambda>_ d. rests base_moves 10 (dr_cmds d)) (\<lambda>e d. rests_or (bench_raises b) base_moves 10 e (dr_cmds d)) (wait_odom_n b k dr_new v)"
    for k v by (rule ends_mono [OF wait_odom_cmds]) (simp_all add: rests_rests_or)
  then show ?thesis unfolding wait_for_odom_def by (auto intro: ends_then rests_pure split: prod.splits)
qed

lemma heading_wait_rest:
  "ends (\<lambda>_ h. rests heading_moves 12 (hd_cmds h)) (\<lambda>e h. rests_or (bench_raises b) heading_moves 12 e (hd_cmds h)) (hd_wait_ready b hd_new w)"
proof -
  have "hd_cmds hd_new = []" by (simp add: hd_new_def)
  then have "ends (\<lambda>_ h. rests heading_moves 12 (hd_cmds h)) (\<lambda>e h. rests_or (bench_raises b) heading_moves 12 e (hd_cmds h)) (hd_wait_n b k hd_new v)"
    for k v by (rule ends_mono [OF hd_wait_cmds]) (simp_all add: rests_rests_or)
  then show ?thesis unfolding hd_wait_ready_def by (simp split: prod.splits)
qed

lemma base_main_rest:
  "ends (\<lambda>_ d. rests base_moves 10 (dr_cmds d)) (\<lambda>e d. rests_or (bench_raises b) base_moves 10 e (dr_cmds d)) (base_main b w)"
proof -
  have moves: "(3 / 10, 0) \<in> set base_moves" "(0, 1) \<in> set base_moves" by simp_all
  show ?thesis unfolding base_main_def base_drive_def
    by (intro ends_then [OF base_wait_rest] ends_if ends_then [OF dr.timed_rests] ends_then [OF rests_pure]
        ends_then [OF rests_asking] ends_then [OF dr.hold_rests] moves; (assumption | rule rests_pure))
qed

lemma heading_main_rest:
  "ends (\<lambda>_ h. rests heading_moves 12 (hd_cmds h)) (\<lambda>e h. rests_or (bench_raises b) heading_moves 12 e (hd_cmds h)) (heading_main b world w)"
proof -
  have moves: "(\<lambda>(rate, s). (0, rate)) ` set LEGS \<subseteq> set heading_moves" by simp
  show ?thesis unfolding heading_main_def Let_def
    by (intro ends_then [OF heading_wait_rest] ends_if ends_option ends_prod ends_then [OF hd.timed_rests] ends_then [OF rests_pure]
        ends_then [OF rests_asking] ends_then [OF legs_rest] moves; (assumption | rule rests_pure))
qed

lemma wrap_mod: "\<exists>k :: int. wrap a = a + 2 * pi * k"
proof -
  obtain k :: int where "py_mod (a + pi) (2 * pi) = a + pi - 2 * pi * k" using py_mod_cong by metis
  then have "wrap a = a + 2 * pi * real_of_int (- k)" by (simp add: wrap_def)
  then show ?thesis by blast
qed

lemma wrap_diff: "\<exists>k :: int. wrap a - wrap b = a - b + 2 * pi * k"
proof -
  obtain i j :: int where "wrap a = a + 2 * pi * i" "wrap b = b + 2 * pi * j" using wrap_mod by metis
  then have "wrap a - wrap b = a - b + 2 * pi * real_of_int (i - j)" by (simp add: algebra_simps)
  then show ?thesis by blast
qed

text \<open>One leg's error, up to full turns.\<close>

lemma leg_error_mod:
  fixes o1 o2 t1 t2 s :: real
  assumes "o1 - t1 = s + 2 * pi * real_of_int i"
  shows "\<exists>k :: int. o2 - t2 = s + (wrap (o2 - o1) - wrap (t2 - t1)) + 2 * pi * k"
proof -
  obtain j :: int where "wrap (o2 - o1) - wrap (t2 - t1) = o2 - o1 - (t2 - t1) + 2 * pi * j" using wrap_diff by blast
  then have "o2 - t2 = s + (wrap (o2 - o1) - wrap (t2 - t1)) + 2 * pi * real_of_int (i - j)"
    using assms by (simp add: algebra_simps)
  then show ?thesis by blast
qed

lemma legs_telescope_gen:
  assumes "legs b world rd ls p e0 h w = (Inr (t, e), h', w')"
    and "\<exists>k :: int. tu_odom p - tu_truth p = sum_list (er_wheel e0) + 2 * pi * k"
    and "\<exists>k :: int. tu_gyro p - tu_truth p = sum_list (er_gyro e0) + 2 * pi * k"
  shows "(\<exists>k :: int. tu_odom t - tu_truth t = sum_list (er_wheel e) + 2 * pi * k)
    \<and> (\<exists>k :: int. tu_gyro t - tu_truth t = sum_list (er_gyro e) + 2 * pi * k)
    \<and> length (er_wheel e) = length (er_wheel e0) + length ls \<and> length (er_gyro e) = length (er_gyro e0) + length ls"
  using assms
proof (induction ls arbitrary: p e0 h w)
  case (Cons l ls)
  obtain rate secs where l: "l = (rate, secs)" by (cases l)
  obtain truth t1 h1 w2 where rest: "legs b world rd ls t1 (leg_errors p t1 e0) h1 w2 = (Inr (t, e), h', w')"
    using Cons.prems(1) by (auto simp: l elim!: then_run_cases)
  have "\<exists>k :: int. tu_odom t1 - tu_truth t1 = sum_list (er_wheel (leg_errors p t1 e0)) + 2 * pi * k"
    using Cons.prems(2) leg_error_mod by (fastforce simp: leg_errors_def Let_def)
  moreover have "\<exists>k :: int. tu_gyro t1 - tu_truth t1 = sum_list (er_gyro (leg_errors p t1 e0)) + 2 * pi * k"
    using Cons.prems(3) leg_error_mod by (fastforce simp: leg_errors_def Let_def)
  ultimately show ?case using Cons.IH [OF rest] by (auto simp: leg_errors_def Let_def)
qed simp

subsection \<open>Properties of the base scripts\<close>

text \<open>Why the net error says little: up to full turns it is the sum of the signed errors of the legs, so equal and
  opposite turns cancel in it, for the wheels and for the gyro alike.\<close>

theorem net_error_is_sum_of_legs:
  assumes "legs b world rd ls \<lparr>tu_truth = 0, tu_odom = 0, tu_gyro = 0, tu_fused = f\<rparr> \<lparr>er_wheel = [], er_gyro = [], er_fused = []\<rparr> h w
     = (Inr (t, e), h', w')"
  shows "(\<exists>k :: int. tu_odom t - tu_truth t = sum_list (er_wheel e) + 2 * pi * k)
    \<and> (\<exists>k :: int. tu_gyro t - tu_truth t = sum_list (er_gyro e) + 2 * pi * k)
    \<and> length (er_wheel e) = length ls \<and> length (er_gyro e) = length ls"
  using legs_telescope_gen [OF assms] by (auto intro: exI [of _ 0])

subsection \<open>A simulator that goes away\<close>

text \<open>It answers the first request for the pose and fails from the second on.\<close>

definition demo_odom :: base_odom where "demo_odom = \<lparr>om_x = 0, om_y = 0, om_q = (0, 0, 0, 1)\<rparr>"

definition lost_bench :: "(nat, heading_event) bench" where
  "lost_bench = \<lparr>bn_gz = (\<lambda>topic n. (if n = 0 then Inr [''name: '' @ quoted ROBOT_MODEL] else Inl SubprocessError, Suc n)),
     bn_spin = (\<lambda>n. ([OdomEvent demo_odom, ImuEvent 0 0 0], None, n)), bn_publish = (\<lambda>c n. (Inr (), n)),
     bn_iterations = (\<lambda>n. (1, n))\<rparr>"

definition lost_node :: "(real \<times> real) list \<Rightarrow> heading" where
  "lost_node cs = \<lparr>hd_odom = Some demo_odom, hd_fused = None, hd_gyro_yaw = 0, hd_last_imu = Some 0, hd_cmds = cs\<rparr>"

lemma lost_spin:
  "node_spin lost_bench hd_on (lost_node cs) n = (Inr (), lost_node cs, n)" "node_spin lost_bench hd_on hd_new n = (Inr (), lost_node [], n)"
  "bn_iterations lost_bench n = (1, n)" "publish_cmd lost_bench hd_send c (lost_node cs) n = (Inr (), lost_node (cs @ [c]), n)"
  by (simp_all add: node_spin_def publish_cmd_def lost_bench_def lost_node_def hd_new_def hd_send_def Let_def)

lemma lost_send: "send_n lost_bench hd_on hd_send c k (lost_node cs) n = (Inr (), lost_node (cs @ replicate k c), n)"
  by (induction k arbitrary: cs) (simp_all add: lost_spin)

lemma lost_turn: "hd_turn lost_bench rate (lost_node cs) n = (Inr (), lost_node (cs @ (0, rate) # replicate 12 (0, 0)), n)"
  unfolding hd_turn_def hold_and_stop_def lost_spin(3) prod.case lost_send spin_timed_def
  by (simp only: One_nat_def node_spins.simps lost_spin(1,3) lost_send then_run_simps prod.case) simp

lemma lost_truth:
  "ground_truth_yaw lost_bench world 0 = (Inr (Some (yaw_of 0 0)), Suc 0)"
  "ground_truth_yaw lost_bench world (Suc n) = (Inr None, Suc (Suc n))"
proof -
  have "sublist ''name:'' (''name: '' @ x)" for x
    using sublist_appendI [of "''name:''" "[]" "'' '' @ x"] by simp
  moreover have "sublist (quoted ROBOT_MODEL) (''name: '' @ quoted ROBOT_MODEL)"
    using sublist_appendI [of "quoted ROBOT_MODEL" "''name: ''" "[]"] by simp
  ultimately show "ground_truth_yaw lost_bench world 0 = (Inr (Some (yaw_of 0 0)), Suc 0)"
    by (simp add: ground_truth_yaw_def lost_bench_def yaw_truth_def)
qed (simp add: ground_truth_yaw_def lost_bench_def caught_def)

theorem net_error_is_sum_of_legs_witness:
  "\<exists>t e h' w'. legs lost_bench ''w'' (\<lambda>truth h. Inr \<lparr>tu_truth = 1, tu_odom = 2, tu_gyro = 1, tu_fused = None\<rparr>) LEGS
     \<lparr>tu_truth = 0, tu_odom = 0, tu_gyro = 0, tu_fused = Some 0\<rparr> \<lparr>er_wheel = [], er_gyro = [], er_fused = []\<rparr> (lost_node []) 1
     = (Inr (t, e), h', w') \<and> length (er_wheel e) = 4"
proof -
  let ?t = "\<lparr>tu_truth = 1, tu_odom = 2, tu_gyro = 1, tu_fused = None\<rparr>"
  have run: "\<exists>t e h' w'. legs lost_bench ''w'' (\<lambda>truth h. Inr ?t) ls p e0 (lost_node cs) (Suc n) = (Inr (t, e), h', w')" for ls p e0 cs n
  proof (induction ls arbitrary: p e0 cs n)
    case (Cons l ls)
    then show ?case by (cases l) (simp add: lost_turn lost_truth asking_def)
  qed simp
  obtain t e h' w' where l: "legs lost_bench ''w'' (\<lambda>truth h. Inr ?t) LEGS
     \<lparr>tu_truth = 0, tu_odom = 0, tu_gyro = 0, tu_fused = Some 0\<rparr> \<lparr>er_wheel = [], er_gyro = [], er_fused = []\<rparr> (lost_node []) 1
     = (Inr (t, e), h', w')"
    using run [of LEGS _ _ "[]" 0] unfolding One_nat_def by blast
  then show ?thesis using net_error_is_sum_of_legs [OF l] by (auto simp: LEGS_def)
qed

text \<open>The simulator can go away during the run: the script then ends with an uncaught \<open>TypeError\<close> instead of saying so,
  after it has driven a leg, since only the first reading is checked for \<open>None\<close>.\<close>

theorem heading_main_can_raise:
  "fst (heading_main lost_bench ''w'' 0) = Inl TypeError \<and> hd_cmds (fst (snd (heading_main lost_bench ''w'' 0))) \<noteq> []"
proof -
  have "hd_wait_ready lost_bench hd_new 0 = (Inr True, lost_node [], 0)"
    by (simp add: hd_wait_ready_def lost_spin) (simp add: lost_node_def)
  moreover have "spin_timed lost_bench hd_on (lost_node []) 0 = (Inr (), lost_node [], 0)"
    by (simp add: spin_timed_def lost_spin)
  moreover have "odom_yaw (hd_odom (lost_node cs)) = Inr (quat_yaw (0, 0, 0, 1))" for cs
    by (simp add: odom_yaw_def lost_node_def demo_odom_def)
  ultimately show ?thesis
    by (simp add: heading_main_def asking_def lost_truth LEGS_def lost_turn read_turns_def since_def Let_def) (simp add: lost_node_def)
qed

subsection \<open>An interrupted drive\<close>

text \<open>Odometry arrives with every spin; the third spin, the first one of the forward leg, raises.\<close>

definition interrupted_bench :: "(nat, base_odom) bench" where
  "interrupted_bench = \<lparr>bn_gz = (\<lambda>topic n. (Inl SubprocessError, n)),
     bn_spin = (\<lambda>n. ([demo_odom], if n < 2 then None else Some OtherException, Suc n)), bn_publish = (\<lambda>c n. (Inr (), n)),
     bn_iterations = (\<lambda>n. (1, n))\<rparr>"

lemma interrupted_run:
  "base_main interrupted_bench 0 = (Inl OtherException, \<lparr>dr_odom = Some demo_odom, dr_cmds = [(3 / 10, 0)]\<rparr>, 3)"
  by (simp add: base_main_def wait_for_odom_def spin_timed_def node_spin_def base_drive_def hold_and_stop_def publish_cmd_def
      ground_truth_def asking_def interrupted_bench_def dr_new_def dr_on_odom_def dr_send_def dr_pose_def caught_def numeral_eq_Suc)

text \<open>An exception inside the driving loop, such as an interrupt while it spins, ends the script with the robot under
  way: the stops are after the loop, and nothing sends them when it is left by an exception.\<close>

theorem interrupted_drive_keeps_moving:
  "\<exists>d w. base_main interrupted_bench 0 = (Inl OtherException, d, w) \<and> OtherException \<in> bench_raises interrupted_bench
     \<and> dr_cmds d \<noteq> [] \<and> last (dr_cmds d) = (3 / 10, 0) \<and> \<not> at_rest 10 (dr_cmds d)"
proof -
  have "bn_spin interrupted_bench 2 = ([demo_odom], Some OtherException, 3)" by (simp add: interrupted_bench_def)
  then have "OtherException \<in> bench_raises interrupted_bench" unfolding bench_raises_def by blast
  then show ?thesis by (auto simp: interrupted_run at_rest_def suffix_def dest: arg_cong [of _ _ length])
qed

end
