(* ===== verification/Verify_Rig.thy ===== *)
theory Verify_Rig
  imports Verify_Base
begin

text \<open>
  Driving and moving the arm at once (\<open>scripts/verify_mm.py\<close>), and the error of the detection
  (\<open>scripts/verify_perception.py\<close>). The first runs a thread: while the main thread spins, the driver thread
  publishes; how their steps interleave is a schedule the world chooses. An exception in the driver thread ends that
  thread only (\<open>rg_thread\<close> keeps it); an exception in the main thread ends the script, but the driver is no daemon
  thread, so the interpreter waits until it has published all it has. The rest of the outside is as in
  \<open>Verify_Base\<close>, with what the action server and the transform tree do.
\<close>

subsection \<open>\<open>verify_mm.py\<close>\<close>

definition ARM_JOINTS :: "string list" where
  "ARM_JOINTS = map (\<lambda>n. ''arm_'' @ n) [''shoulder_pan_joint'', ''shoulder_lift_joint'', ''elbow_joint'', ''wrist_joint'']"

definition WHEELS :: "string list" where
  "WHEELS = [''front_left_wheel_joint'', ''front_right_wheel_joint'', ''rear_left_wheel_joint'', ''rear_right_wheel_joint'']"

text \<open>The answer to a goal: \<open>None\<close> for no handle, otherwise whether it was accepted.\<close>

datatype rig_event = RigOdom base_odom | RigStates "string list" "real list" | GoalAnswer "bool option"

record rig =
  rg_odom :: "base_odom option"
  rg_states :: "(string \<times> real) list option"
  rg_future :: "bool option option"
  rg_cmds :: "(real \<times> real) list"
  rg_goals :: "(string list \<times> real list \<times> int) list"
  rg_thread :: "exn option"

definition rg_new :: rig where
  "rg_new = \<lparr>rg_odom = None, rg_states = None, rg_future = None, rg_cmds = [], rg_goals = [], rg_thread = None\<rparr>"

fun rg_on :: "rig \<Rightarrow> rig_event \<Rightarrow> rig" where
  "rg_on r (RigOdom m) = r\<lparr>rg_odom := Some m\<rparr>"
| "rg_on r (RigStates names positions) = r\<lparr>rg_states := Some (dict_of (zip names positions))\<rparr>"
| "rg_on r (GoalAnswer a) = (if rg_goals r = [] then r else r\<lparr>rg_future := Some a\<rparr>)"

definition rg_send :: "real \<times> real \<Rightarrow> rig \<Rightarrow> rig" where
  "rg_send c r = r\<lparr>rg_cmds := rg_cmds r @ [c]\<rparr>"

record 'w rig_world =
  rw_goal :: "string list \<times> real list \<times> int \<Rightarrow> 'w \<Rightarrow> unit res \<times> 'w"
  rw_server :: "'w \<Rightarrow> bool res \<times> 'w"
  rw_schedule :: "'w \<Rightarrow> bool list \<times> 'w"

type_synonym 'w rig_bench = "('w, rig_event) bench"

fun rg_wait_n :: "'w rig_bench \<Rightarrow> nat \<Rightarrow> rig \<Rightarrow> 'w \<Rightarrow> bool res \<times> rig \<times> 'w" where
  "rg_wait_n b 0 r w = (Inr False, r, w)"
| "rg_wait_n b (Suc k) r w =
     then_run (node_spin b rg_on r w) (\<lambda>_ r1 w1.
       if rg_odom r1 \<noteq> None \<and> rg_states r1 \<noteq> None then (Inr True, r1, w1) else rg_wait_n b k r1 w1)"

definition wait_until_ready :: "'w rig_bench \<Rightarrow> rig \<Rightarrow> 'w \<Rightarrow> bool res \<times> rig \<times> 'w" where
  "wait_until_ready b r w = (case bn_iterations b w of (k, w1) \<Rightarrow> rg_wait_n b k r w1)"

text \<open>What \<open>drive\<close> publishes: the command for as often as its loop runs, then ten stops.\<close>

definition drive_commands :: "nat \<Rightarrow> real \<times> real \<Rightarrow> (real \<times> real) list" where
  "drive_commands k c = replicate k c @ replicate 10 (0, 0)"

text \<open>The driver thread alone, to its end.\<close>

fun publish_all :: "'w rig_bench \<Rightarrow> (real \<times> real) list \<Rightarrow> rig \<Rightarrow> 'w \<Rightarrow> rig \<times> 'w" where
  "publish_all b [] r w = (r, w)"
| "publish_all b (c # cs) r w =
     (case publish_cmd b rg_send c r w of
        (Inl e, r1, w1) \<Rightarrow> (r1\<lparr>rg_thread := Some e\<rparr>, w1)
      | (Inr _, r1, w1) \<Rightarrow> publish_all b cs r1 w1)"

text \<open>\<open>driver.start()\<close>, \<open>wait(5.0)\<close>, \<open>driver.join()\<close>: the schedule says which thread moves next; when it is used up,
  the main thread finishes its spins and then waits for the driver to publish what it has left, as the interpreter
  does when a spin raised.\<close>

fun both :: "'w rig_bench \<Rightarrow> bool list \<Rightarrow> nat \<Rightarrow> (real \<times> real) list \<Rightarrow> rig \<Rightarrow> 'w \<Rightarrow> unit res \<times> rig \<times> 'w" where
  "both b [] k cs r w =
     (case node_spins b rg_on k r w of (res, r1, w1) \<Rightarrow> case publish_all b cs r1 w1 of (r2, w2) \<Rightarrow> (res, r2, w2))"
| "both b (True # s) k [] r w = both b s k [] r w"
| "both b (True # s) k (c # cs) r w =
     (case publish_cmd b rg_send c r w of
        (Inl e, r1, w1) \<Rightarrow> both b s k [] (r1\<lparr>rg_thread := Some e\<rparr>) w1
      | (Inr _, r1, w1) \<Rightarrow> both b s k cs r1 w1)"
| "both b (False # s) 0 cs r w = both b s 0 cs r w"
| "both b (False # s) (Suc k) cs r w =
     (case node_spin b rg_on r w of
        (Inl e, r1, w1) \<Rightarrow> (case publish_all b cs r1 w1 of (r2, w2) \<Rightarrow> (Inl e, r2, w2))
      | (Inr _, r1, w1) \<Rightarrow> both b s k cs r1 w1)"

definition send_arm :: "'w rig_world \<Rightarrow> real list \<Rightarrow> rig \<Rightarrow> 'w \<Rightarrow> unit res \<times> rig \<times> 'w" where
  "send_arm rw positions r w =
     (let goal = (ARM_JOINTS, positions, 3) in
      case rw_goal rw goal w of
        (Inl e, w1) \<Rightarrow> (Inl e, r, w1)
      | (Inr _, w1) \<Rightarrow> (Inr (), r\<lparr>rg_goals := rg_goals r @ [goal]\<rparr>, w1))"

definition rig_pose :: "rig \<Rightarrow> (real \<times> real) res" where
  "rig_pose r = (case rg_odom r of None \<Rightarrow> Inl AttributeError | Some m \<Rightarrow> Inr (om_x m, om_y m))"

definition rig_joint :: "rig \<Rightarrow> string \<Rightarrow> real res" where
  "rig_joint r j =
     (case rg_states r of
        None \<Rightarrow> Inl TypeError
      | Some d \<Rightarrow> (case map_of d j of None \<Rightarrow> Inl (KeyError j) | Some x \<Rightarrow> Inr x))"

definition dist_of :: "real \<times> real \<Rightarrow> real \<times> real \<Rightarrow> real" where
  "dist_of p q = (case (p, q) of ((a, b), (c, d)) \<Rightarrow> sqrt ((a - c)\<^sup>2 + (b - d)\<^sup>2))"

definition goal_accepted :: "rig \<Rightarrow> bool" where
  "goal_accepted r = (rg_future r = Some (Some True))"

record mm_report =
  mr_missing :: "string list"
  mr_server :: bool
  mr_verdicts :: "(bool \<times> real \<times> real) option"

definition mm_drive :: "'w rig_bench \<Rightarrow> 'w rig_world \<Rightarrow> rig \<Rightarrow> 'w \<Rightarrow> unit res \<times> rig \<times> 'w" where
  "mm_drive b rw r w =
     then_run (send_arm rw [4 / 10, 3 / 10, - (2 / 10), 1 / 10] r w) (\<lambda>_ r1 w1.
       case bn_iterations b w1 of (cmds, w2) \<Rightarrow>
       case bn_iterations b w2 of (k, w3) \<Rightarrow>
       case rw_schedule rw w3 of (s, w4) \<Rightarrow>
       then_run (both b s k (drive_commands cmds (25 / 100, 0)) r1 w4) (\<lambda>_ r2 w5. spin_timed b rg_on r2 w5))"

text \<open>\<open>pose(rig)\<close> and the first arm joint, in the source's order; then the verdicts.\<close>

definition rig_reading :: "rig \<Rightarrow> ((real \<times> real) \<times> real) res" where
  "rig_reading r = rbind (rig_pose r) (\<lambda>p. rbind (rig_joint r (ARM_JOINTS ! 0)) (\<lambda>j. Inr (p, j)))"

definition mm_verdict :: "(real \<times> real) \<times> real \<Rightarrow> (real \<times> real) \<times> real \<Rightarrow> rig \<Rightarrow> int \<times> mm_report" where
  "mm_verdict start now r =
     (let moved = dist_of (fst start) (fst now); turned = \<bar>snd now - snd start\<bar>; accepted = goal_accepted r;
          ok = accepted \<and> moved > 2 / 10 \<and> turned > 2 / 10
      in (if ok then 0 else 1, \<lparr>mr_missing = [], mr_server = True, mr_verdicts = Some (accepted, moved, turned)\<rparr>))"

definition mm_failed :: "string list \<Rightarrow> int \<times> mm_report" where
  "mm_failed missing = (1, \<lparr>mr_missing = missing, mr_server = False, mr_verdicts = None\<rparr>)"

definition mm_missing :: "rig \<Rightarrow> string list" where
  "mm_missing r = (let known = (case rg_states r of None \<Rightarrow> [] | Some d \<Rightarrow> map fst d) in
     filter (\<lambda>j. j \<notin> set known) (ARM_JOINTS @ WHEELS))"

definition mm_main :: "'w rig_bench \<Rightarrow> 'w rig_world \<Rightarrow> 'w \<Rightarrow> (int \<times> mm_report) res \<times> rig \<times> 'w" where
  "mm_main b rw w =
     then_run (wait_until_ready b rg_new w) (\<lambda>ready r w.
     if \<not> ready then (Inr (mm_failed []), r, w)
     else if mm_missing r \<noteq> [] then (Inr (mm_failed (mm_missing r)), r, w)
     else
       then_run (asking (rw_server rw) r w) (\<lambda>up r w.
       if \<not> up then (Inr (mm_failed []), r, w)
       else
         then_run (rig_reading r, r, w) (\<lambda>start r w.
         then_run (mm_drive b rw r w) (\<lambda>_ r w.
         then_run (rig_reading r, r, w) (\<lambda>now r w. (Inr (mm_verdict start now r), r, w))))))"

subsection \<open>\<open>verify_perception.py\<close>\<close>

definition CUBE_IN_WORLD :: point3 where "CUBE_IN_WORLD = (4 / 10, 0, 25 / 1000)"

record seen_pose =
  sn_frame :: string
  sn_position :: point3

datatype check_event = Optical seen_pose | InBase seen_pose

record check_node =
  ck_optical :: "seen_pose option"
  ck_base :: "seen_pose option"

definition ck_new :: check_node where "ck_new = \<lparr>ck_optical = None, ck_base = None\<rparr>"

fun ck_on :: "check_node \<Rightarrow> check_event \<Rightarrow> check_node" where
  "ck_on c (Optical p) = c\<lparr>ck_optical := Some p\<rparr>"
| "ck_on c (InBase p) = c\<lparr>ck_base := Some p\<rparr>"

definition seen_count :: "check_node \<Rightarrow> nat" where
  "seen_count c = (if ck_optical c = None then 0 else 1) + (if ck_base c = None then 0 else 1)"

fun ck_wait_n :: "('w, check_event) bench \<Rightarrow> nat \<Rightarrow> check_node \<Rightarrow> 'w \<Rightarrow> unit res \<times> check_node \<times> 'w" where
  "ck_wait_n b 0 c w = (Inr (), c, w)"
| "ck_wait_n b (Suc k) c w =
     (if 2 \<le> seen_count c then (Inr (), c, w)
      else then_run (node_spin b ck_on c w) (\<lambda>_ c1 w1. ck_wait_n b k c1 w1))"

definition ck_wait :: "('w, check_event) bench \<Rightarrow> check_node \<Rightarrow> 'w \<Rightarrow> bool res \<times> check_node \<times> 'w" where
  "ck_wait b c w =
     (case bn_iterations b w of (k, w1) \<Rightarrow> then_run (ck_wait_n b k c w1) (\<lambda>_ c1 w2. (Inr (seen_count c1 = 2), c1, w2)))"

text \<open>The loop of \<open>truth_in_base\<close>: only \<open>TransformException\<close> is waited out.\<close>

fun truth_n :: "('w, check_event) bench \<Rightarrow> (point3 \<Rightarrow> 'w \<Rightarrow> point3 res \<times> 'w) \<Rightarrow> nat \<Rightarrow> check_node \<Rightarrow> 'w
    \<Rightarrow> point3 option res \<times> check_node \<times> 'w" where
  "truth_n b transform 0 c w = (Inr None, c, w)"
| "truth_n b transform (Suc k) c w =
     (case transform CUBE_IN_WORLD w of
        (Inr p, w1) \<Rightarrow> (Inr (Some p), c, w1)
      | (Inl e, w1) \<Rightarrow>
          if caught e [CTransformException]
          then then_run (node_spin b ck_on c w1) (\<lambda>_ c1 w2. truth_n b transform k c1 w2)
          else (Inl e, c, w1))"

definition truth_in_base :: "('w, check_event) bench \<Rightarrow> (point3 \<Rightarrow> 'w \<Rightarrow> point3 res \<times> 'w) \<Rightarrow> check_node \<Rightarrow> 'w
    \<Rightarrow> point3 option res \<times> check_node \<times> 'w" where
  "truth_in_base b transform c w = (case bn_iterations b w of (k, w1) \<Rightarrow> truth_n b transform k c w1)"

definition dist3 :: "point3 \<Rightarrow> point3 \<Rightarrow> real" where
  "dist3 p q = (case (p, q) of ((a, b, c), (x, y, z)) \<Rightarrow> sqrt ((a - x)\<^sup>2 + (b - y)\<^sup>2 + (c - z)\<^sup>2))"

record check_report =
  cr_optical :: seen_pose
  cr_found :: point3
  cr_truth :: point3
  cr_error :: real

definition perception_main :: "('w, check_event) bench \<Rightarrow> (point3 \<Rightarrow> 'w \<Rightarrow> point3 res \<times> 'w) \<Rightarrow> 'w
    \<Rightarrow> (int \<times> check_report option) res \<times> check_node \<times> 'w" where
  "perception_main b transform w =
     then_run (ck_wait b ck_new w) (\<lambda>ready c w.
     if \<not> ready then (Inr (1, None), c, w)
     else
       then_run (truth_in_base b transform c w) (\<lambda>truth c w.
       case truth of
         None \<Rightarrow> (Inr (1, None), c, w)
       | Some truth \<Rightarrow>
          (case (ck_optical c, ck_base c) of
             (Some optical, Some base) \<Rightarrow>
               let error = dist3 (sn_position base) truth in
               (Inr (if error < 6 / 100 then 0 else 1,
                  Some \<lparr>cr_optical = optical, cr_found = sn_position base, cr_truth = truth, cr_error = error\<rparr>), c, w)
           | (None, _) \<Rightarrow> (Inl (KeyError ''optical''), c, w)
           | (_, None) \<Rightarrow> (Inl (KeyError ''base''), c, w))))"

subsection \<open>Lemmas\<close>

text \<open>What spinning leaves alone: the commands, the goals and the driver thread.\<close>

definition sent_by :: "rig \<Rightarrow> (real \<times> real) list \<times> (string list \<times> real list \<times> int) list \<times> exn option" where
  "sent_by r = (rg_cmds r, rg_goals r, rg_thread r)"

lemma rg_cb_sent: "sent_by (rg_on r e) = sent_by r"
  by (cases e) (simp_all add: sent_by_def)

lemma rg_cb_cmds: "rg_cmds (rg_on r e) = rg_cmds r"
  by (cases e) simp_all

interpretation rg: velocity_publisher rg_on rg_cmds rg_send
  by unfold_locales (simp_all only: rg_cb_cmds, simp add: rg_send_def)

interpretation rgs: kept_attribute rg_on sent_by
  by unfold_locales (rule rg_cb_sent)

text \<open>The driver thread published all of its commands, or the first ones until a publication raised.\<close>

definition drives :: "'w rig_bench \<Rightarrow> (real \<times> real) list \<Rightarrow> rig \<Rightarrow> rig \<Rightarrow> bool" where
  "drives b cs r r' \<longleftrightarrow> (\<exists>ds es. cs = ds @ es \<and> rg_cmds r' = rg_cmds r @ ds \<and> rg_goals r' = rg_goals r
     \<and> (if es = [] then rg_thread r' = rg_thread r else \<exists>e \<in> publish_raises b. rg_thread r' = Some e))"

lemma drives_Nil: "drives b [] r r' \<longleftrightarrow> sent_by r' = sent_by r"
  by (auto simp: drives_def sent_by_def)

lemma drives_from: "sent_by r1 = sent_by r \<Longrightarrow> drives b cs r1 r' \<Longrightarrow> drives b cs r r'"
  by (simp add: drives_def sent_by_def cong: if_cong split del: if_split)

lemma drives_to: "sent_by r' = sent_by r1 \<Longrightarrow> drives b cs r r1 \<Longrightarrow> drives b cs r r'"
  by (simp add: drives_def sent_by_def cong: if_cong split del: if_split)

lemma drives_step:
  assumes "publish_cmd b rg_send c r w = (Inr u, r1, w1)" and "drives b cs r1 r'"
  shows "drives b (c # cs) r r'"
proof -
  have "r1 = rg_send c r" using assms(1) by (auto simp: publish_cmd_def split: prod.splits sum.splits)
  moreover obtain ds es where "cs = ds @ es" "rg_cmds r' = rg_cmds r1 @ ds" "rg_goals r' = rg_goals r1"
    "if es = [] then rg_thread r' = rg_thread r1 else \<exists>e \<in> publish_raises b. rg_thread r' = Some e"
    using assms(2) unfolding drives_def by blast
  ultimately show ?thesis unfolding drives_def by (intro exI [of _ "c # ds"] exI [of _ es]) (simp add: rg_send_def)
qed

lemma drives_stop:
  assumes "publish_cmd b rg_send c r w = (Inl e, r1, w1)" and "sent_by r' = sent_by (r1\<lparr>rg_thread := Some e\<rparr>)"
  shows "drives b (c # cs) r r'"
proof -
  have "r1 = r" "e \<in> publish_raises b"
    using assms(1) by (auto simp: publish_cmd_def publish_raises_def simp del: split_paired_Ex split: prod.splits sum.splits)
  then show ?thesis using assms(2) unfolding drives_def by (intro exI [of _ "[]"] exI [of _ "c # cs"]) (auto simp: sent_by_def)
qed

lemma publish_all_drives: "publish_all b cs r w = (r', w') \<Longrightarrow> drives b cs r r'"
proof (induction b cs r w rule: publish_all.induct)
  case (2 b c cs r w)
  then show ?case by (auto split: prod.splits sum.splits intro: drives_stop drives_step)
qed (simp add: drives_Nil)

text \<open>Whatever the interleaving and whatever ends the main thread, the driver's commands go out once each and in order.\<close>

lemma both_drives: "both b s k cs r w = (x, r', w') \<Longrightarrow> drives b cs r r'"
proof (induction b s k cs r w rule: both.induct)
  case (1 b k cs r w)
  then show ?case by (auto split: prod.splits dest!: rgs.spin_kept publish_all_drives intro: drives_from)
next
  case (3 b s k c cs r w)
  then show ?case by (auto simp: drives_Nil split: prod.splits sum.splits intro: drives_stop drives_step)
next
  case (5 b s k cs r w)
  then show ?case by (auto split: prod.splits sum.splits dest!: rgs.once_kept publish_all_drives intro: drives_from)
qed simp_all

definition ARM_GOAL :: "string list \<times> real list \<times> int" where
  "ARM_GOAL = (ARM_JOINTS, [4 / 10, 3 / 10, - (2 / 10), 1 / 10], 3)"

text \<open>One run of the driving part: the goal was not sent, or it was and the driver thread ran.\<close>

lemma mm_drive_cases [consumes 1, case_names unsent driven]:
  assumes "mm_drive b rw r w = (x, r', w')"
  obtains e where "x = Inl e" "r' = r"
  | k r1 where "rg_cmds r1 = rg_cmds r" "rg_goals r1 = rg_goals r @ [ARM_GOAL]" "rg_thread r1 = rg_thread r"
      "drives b (drive_commands k (25 / 100, 0)) r1 r'"
proof (cases "rw_goal rw ARM_GOAL w")
  case (Pair y w1)
  show thesis
  proof (cases y)
    case (Inl e)
    then have "mm_drive b rw r w = (Inl e, r, w1)" using Pair by (simp add: mm_drive_def send_arm_def ARM_GOAL_def)
    then show thesis using assms that(1) by simp
  next
    case (Inr u)
    let ?r1 = "r\<lparr>rg_goals := rg_goals r @ [ARM_GOAL]\<rparr>"
    obtain n k s w4 where run: "then_run (both b s k (drive_commands n (25 / 100, 0)) ?r1 w4) (\<lambda>_ r2 w5. spin_timed b rg_on r2 w5) = (x, r', w')"
      using assms Inr Pair by (auto simp: mm_drive_def send_arm_def ARM_GOAL_def split: prod.splits)
    have "drives b (drive_commands n (25 / 100, 0)) ?r1 r'"
      using run by (cases rule: then_run_cases) (auto dest: both_drives rgs.timed_kept intro: drives_to)
    then show thesis by (intro that(2) [of ?r1 n]) simp_all
  qed
qed

lemma rig_ready_new: "ends (\<lambda>_ r. sent_by r = ([], [], None)) (\<lambda>_ r. sent_by r = ([], [], None)) (wait_until_ready b rg_new w)"
proof -
  have "ends (\<lambda>_ r'. sent_by r' = s) (\<lambda>_ r'. sent_by r' = s) (rg_wait_n b k r v)" if "sent_by r = s" for k r v s
    using that
  proof (induction k arbitrary: r v)
    case (Suc k)
    have "ends (\<lambda>_ r'. sent_by r' = s) (\<lambda>_ r'. sent_by r' = s) (node_spin b rg_on r v)"
      by (rule ends_mono [OF rgs.once_get [OF Suc.prems]]) simp_all
    then show ?case unfolding rg_wait_n.simps by (rule ends_then) (simp add: Suc.IH)
  qed simp
  moreover have "sent_by rg_new = ([], [], None)" by (simp add: sent_by_def rg_new_def)
  ultimately show ?thesis unfolding wait_until_ready_def by (simp split: prod.split)
qed

text \<open>The three ways a run ends after it was ready: unsent, or driven and then any result.\<close>

definition mm_stopped :: "'w rig_bench \<Rightarrow> rig \<Rightarrow> bool" where
  "mm_stopped b r \<longleftrightarrow> only_moves [(25 / 100, 0)] (rg_cmds r)
     \<and> (at_rest 10 (rg_cmds r) \<or> (\<exists>e. e \<in> publish_raises b \<and> rg_thread r = Some e))"

lemma unsent_stopped: "sent_by r = ([], [], None) \<Longrightarrow> mm_stopped b r"
  by (simp add: sent_by_def mm_stopped_def only_moves_def at_rest_def)

lemma driven_stopped:
  assumes "drives b (drive_commands k (25 / 100, 0)) r r'" and "rg_cmds r = []"
  shows "mm_stopped b r'"
proof -
  obtain ds es where d: "drive_commands k (25 / 100, 0) = ds @ es" "rg_cmds r' = ds"
    "if es = [] then rg_thread r' = rg_thread r else \<exists>e \<in> publish_raises b. rg_thread r' = Some e"
    using assms unfolding drives_def by auto
  have "set ds \<subseteq> set (drive_commands k (25 / 100, 0))" unfolding d(1) by simp
  then have "only_moves [(25 / 100, 0)] ds"
    by (auto simp: only_moves_def drive_commands_def set_replicate_conv_if split: if_splits)
  moreover have "at_rest 10 ds" if "es = []"
    using d(1) that by (auto simp: at_rest_def drive_commands_def suffix_def)
  ultimately show ?thesis using d(2,3) unfolding mm_stopped_def by (cases "es = []") auto
qed

lemma mm_drive_stopped:
  assumes "sent_by r = ([], [], None)"
  shows "ends (\<lambda>_ r'. mm_stopped b r') (\<lambda>_ r'. mm_stopped b r') (mm_drive b rw r w)"
proof -
  obtain x r' w' where d: "mm_drive b rw r w = (x, r', w')" by (metis prod_cases3)
  then have "mm_stopped b r'"
    by (cases rule: mm_drive_cases) (use assms in \<open>auto simp: sent_by_def intro: unsent_stopped driven_stopped\<close>)
  then show ?thesis unfolding d by (simp add: ends_pure)
qed

lemma mm_main_stopped: "ends (\<lambda>_ r. mm_stopped b r) (\<lambda>_ r. mm_stopped b r) (mm_main b rw w)"
proof -
  let ?S = "\<lambda>_ r. mm_stopped b r" and ?N = "\<lambda>_ r. sent_by r = ([], [], None)"
  have ready: "ends ?N ?S (wait_until_ready b rg_new w)"
    by (rule ends_mono [OF rig_ready_new]) (auto intro: unsent_stopped)
  have pure: "ends ?N ?S (x, r, v)" "ends ?N ?S (asking g r v)" "ends ?S ?S (x, r, v)" if "sent_by r = ([], [], None)" for x r v g
    using that by (auto intro: ends_pure ends_asking unsent_stopped)
  have tail: "ends ?S ?S (then_run (mm_drive b rw r v) (\<lambda>_ r w.
      then_run (rig_reading r, r, w) (\<lambda>now r w. (Inr (mm_verdict start now r), r, w))))" if "sent_by r = ([], [], None)" for r v start
    by (rule ends_then [OF mm_drive_stopped [OF that]], rule ends_then [OF ends_pure]) auto
  show ?thesis unfolding mm_main_def
    by (intro ends_then [OF ready] ends_if pure(3) ends_then [OF pure(1)] ends_then [OF pure(2)] tail; assumption)
qed

lemma mm_missing_none:
  assumes "mm_missing r = []"
  shows "\<forall>n \<in> set (ARM_JOINTS @ WHEELS). \<exists>x. rig_joint r n = Inr x"
proof
  fix n
  assume "n \<in> set (ARM_JOINTS @ WHEELS)"
  then have "n \<in> set (case rg_states r of None \<Rightarrow> [] | Some d \<Rightarrow> map fst d)"
    using assms by (auto simp: mm_missing_def filter_empty_conv)
  then obtain d where "rg_states r = Some d" "n \<in> fst ` set d" by (cases "rg_states r") auto
  then show "\<exists>x. rig_joint r n = Inr x"
    by (cases "map_of d n") (auto simp: rig_joint_def map_of_eq_None_iff)
qed

text \<open>A run that passes went through every step.\<close>

lemma mm_main_passes:
  assumes "mm_main b rw w = (Inr (0, rep), r, w')"
  obtains r1 w1 w2 start now where "wait_until_ready b rg_new w = (Inr True, r1, w1)" "mm_missing r1 = []"
    "rig_reading r1 = Inr start" "mm_drive b rw r1 w2 = (Inr (), r, w')" "rig_reading r = Inr now"
    "mm_verdict start now r = (0, rep)"
proof -
  have fails: "mm_failed m \<noteq> (0, rep)" for m by (simp add: mm_failed_def)
  obtain r1 w1 where s1: "wait_until_ready b rg_new w = (Inr True, r1, w1)" "mm_missing r1 = []"
    and rest: "then_run (asking (rw_server rw) r1 w1) (\<lambda>up r w.
       if \<not> up then (Inr (mm_failed []), r, w)
       else then_run (rig_reading r, r, w) (\<lambda>start r w.
         then_run (mm_drive b rw r w) (\<lambda>_ r w.
         then_run (rig_reading r, r, w) (\<lambda>now r w. (Inr (mm_verdict start now r), r, w))))) = (Inr (0, rep), r, w')"
    using assms unfolding mm_main_def by (auto simp: fails split: if_splits elim!: then_run_cases)
  from then_run_Inr [OF rest] obtain u w2 where "then_run (rig_reading r1, r1, w2) (\<lambda>start r w.
         then_run (mm_drive b rw r w) (\<lambda>_ r w.
         then_run (rig_reading r, r, w) (\<lambda>now r w. (Inr (mm_verdict start now r), r, w)))) = (Inr (0, rep), r, w')"
    by (auto simp: fails asking_def split: if_splits prod.splits)
  from then_run_Inr [OF this] obtain start where s2: "rig_reading r1 = Inr start"
    and rest: "then_run (mm_drive b rw r1 w2) (\<lambda>_ r w.
         then_run (rig_reading r, r, w) (\<lambda>now r w. (Inr (mm_verdict start now r), r, w))) = (Inr (0, rep), r, w')"
    by blast
  from then_run_Inr [OF rest] obtain r3 w3 where s3: "mm_drive b rw r1 w2 = (Inr (), r3, w3)"
    and rest: "then_run (rig_reading r3, r3, w3) (\<lambda>now r w. (Inr (mm_verdict start now r), r, w)) = (Inr (0, rep), r, w')"
    by auto
  from then_run_Inr [OF rest] obtain now where "rig_reading r = Inr now" "mm_verdict start now r = (0, rep)" "r3 = r" "w3 = w'"
    by blast
  then show thesis using that [OF s1 s2] s3 by blast
qed

subsection \<open>Properties\<close>

text \<open>C29: the driving scripts leave the robot stopped. A run of the base or heading script that returns an exit code ends with
  nothing commanded, or with ten (twelve) stops as the last commands; so does one that ends with an exception, unless the
  exception is one that spinning or publishing raised, which may come inside the driving loop (that it then can leave
  the robot moving is \<open>interrupted_drive_keeps_moving\<close>). The mobile manipulator check drives from a thread that an
  exception in the main thread does not stop: for every interleaving, and whether the run returns or raises, the last
  commands are ten stops, or a publication of the driver thread itself raised. No script ever commands any other
  motion than its own moves and stops.\<close>

theorem scripts_leave_robot_stopped:
  "ends (\<lambda>_ d. only_moves [(3 / 10, 0), (0, 1)] (dr_cmds d) \<and> at_rest 10 (dr_cmds d))
     (\<lambda>e d. only_moves [(3 / 10, 0), (0, 1)] (dr_cmds d) \<and> (at_rest 10 (dr_cmds d) \<or> e \<in> bench_raises b)) (base_main b w)
   \<and> ends (\<lambda>_ h. only_moves (map (\<lambda>(rate, s). (0, rate)) LEGS) (hd_cmds h) \<and> at_rest 12 (hd_cmds h))
     (\<lambda>e h. only_moves (map (\<lambda>(rate, s). (0, rate)) LEGS) (hd_cmds h) \<and> (at_rest 12 (hd_cmds h) \<or> e \<in> bench_raises b'))
     (heading_main b' world v)
   \<and> (let r = fst (snd (mm_main b'' rw u)) in
       only_moves [(25 / 100, 0)] (rg_cmds r)
       \<and> (at_rest 10 (rg_cmds r) \<or> (\<exists>e. e \<in> publish_raises b'' \<and> rg_thread r = Some e)))"
proof (intro conjI)
  obtain x r u' where "mm_main b'' rw u = (x, r, u')" by (metis prod_cases3)
  then show "let r = fst (snd (mm_main b'' rw u)) in only_moves [(25 / 100, 0)] (rg_cmds r)
       \<and> (at_rest 10 (rg_cmds r) \<or> (\<exists>e. e \<in> publish_raises b'' \<and> rg_thread r = Some e))"
    using mm_main_stopped [of b'' rw u] by (cases x) (simp_all add: mm_stopped_def)
qed (use base_main_rest [of b w] heading_main_rest [of b' world v] in \<open>simp_all add: rests_def rests_or_def\<close>)

text \<open>C30: what a passing run of the mobile manipulator check has established: every arm joint and every wheel was in one joint
  state, exactly one arm goal was sent and it was accepted, the base was driven by exactly one held command
  and its stops (or by the first of these, when a publication raised and ended the driver thread), and both the base and the
  first arm joint were read more than 0.2 away from where they started.\<close>

theorem mm_pass_is_earned:
  assumes "mm_main b rw w = (Inr (0, rep), r, w')"
  shows "goal_accepted r \<and> rg_goals r = [(ARM_JOINTS, [4 / 10, 3 / 10, - (2 / 10), 1 / 10], 3)]
    \<and> (\<exists>k cs unsent. drive_commands k (25 / 100, 0) = cs @ unsent \<and> rg_cmds r = cs
         \<and> (unsent = [] \<or> (\<exists>e. e \<in> publish_raises b \<and> rg_thread r = Some e)))
    \<and> (\<exists>r1 w1 p0 j0 p j. wait_until_ready b rg_new w = (Inr True, r1, w1)
         \<and> (\<forall>n \<in> set (ARM_JOINTS @ WHEELS). \<exists>x. rig_joint r1 n = Inr x)
         \<and> rig_pose r1 = Inr p0 \<and> rig_pose r = Inr p \<and> 2 / 10 < dist_of p0 p
         \<and> rig_joint r1 (ARM_JOINTS ! 0) = Inr j0 \<and> rig_joint r (ARM_JOINTS ! 0) = Inr j \<and> 2 / 10 < \<bar>j - j0\<bar>)"
  using assms
proof (rule mm_main_passes)
  fix r1 w1 w2 start now
  assume ready: "wait_until_ready b rg_new w = (Inr True, r1, w1)" and all: "mm_missing r1 = []"
    and start: "rig_reading r1 = Inr start" and drive: "mm_drive b rw r1 w2 = (Inr (), r, w')"
    and now: "rig_reading r = Inr now" and verdict: "mm_verdict start now r = (0, rep)"
  have new: "rg_cmds r1 = []" "rg_goals r1 = []"
    using rig_ready_new [of b w] by (simp_all add: ready sent_by_def)
  obtain k r2 where d: "rg_cmds r2 = rg_cmds r1" "rg_goals r2 = rg_goals r1 @ [ARM_GOAL]"
    and "drives b (drive_commands k (25 / 100, 0)) r2 r"
    using drive by (cases rule: mm_drive_cases) auto
  then obtain ds es where "drive_commands k (25 / 100, 0) = ds @ es" "rg_cmds r = ds" "rg_goals r = [ARM_GOAL]"
    "es = [] \<or> (\<exists>e. e \<in> publish_raises b \<and> rg_thread r = Some e)"
    using new unfolding drives_def by (auto split: if_splits)
  moreover have "\<forall>n \<in> set (ARM_JOINTS @ WHEELS). \<exists>x. rig_joint r1 n = Inr x" by (rule mm_missing_none [OF all])
  moreover obtain p0 j0 p j where "start = (p0, j0)" "now = (p, j)" by fastforce
  ultimately show ?thesis
    using ready start now verdict unfolding ARM_GOAL_def
    by (auto simp: mm_verdict_def rig_reading_def rbind_eq_Inr Let_def split: if_splits)
qed

text \<open>A robot that is elsewhere once it has been told to move.\<close>

definition demo_states :: "real \<Rightarrow> (string \<times> real) list" where
  "demo_states x = map (\<lambda>j. (j, x)) (ARM_JOINTS @ WHEELS)"

definition demo_rig :: "bool rig_bench" where
  "demo_rig = \<lparr>bn_gz = (\<lambda>_ w. (Inl OSError, w)),
     bn_spin = (\<lambda>w. ([RigOdom \<lparr>om_x = of_bool w, om_y = 0, om_q = (0, 0, 0, 1)\<rparr>,
       RigStates (ARM_JOINTS @ WHEELS) (replicate 8 (of_bool w)), GoalAnswer (Some True)], None, w)),
     bn_publish = (\<lambda>c w. (Inr (), True)), bn_iterations = (\<lambda>w. (1, w))\<rparr>"

definition demo_rig_world :: "bool rig_world" where
  "demo_rig_world = \<lparr>rw_goal = (\<lambda>_ w. (Inr (), w)), rw_server = (\<lambda>w. (Inr True, w)), rw_schedule = (\<lambda>w. ([], w))\<rparr>"

definition demo_node :: "bool \<Rightarrow> bool option option \<Rightarrow> (real \<times> real) list \<Rightarrow> (string list \<times> real list \<times> int) list \<Rightarrow> rig" where
  "demo_node w a cs gs = \<lparr>rg_odom = Some \<lparr>om_x = of_bool w, om_y = 0, om_q = (0, 0, 0, 1)\<rparr>,
     rg_states = Some (demo_states (of_bool w)), rg_future = a, rg_cmds = cs, rg_goals = gs, rg_thread = None\<rparr>"

lemma demo_dict: "dict_of (zip (ARM_JOINTS @ WHEELS) (replicate 8 x)) = demo_states x"
  by (simp add: dict_of_def demo_states_def ARM_JOINTS_def WHEELS_def numeral_eq_Suc)

lemma demo_spin:
  "node_spin demo_rig rg_on rg_new w = (Inr (), demo_node w None [] [], w)"
  "node_spin demo_rig rg_on (demo_node v a cs gs) w = (Inr (), demo_node w (if gs = [] then a else Some (Some True)) cs gs, w)"
  by (simp_all add: node_spin_def demo_rig_def demo_node_def rg_new_def demo_dict)

lemma demo_publish: "publish_all demo_rig cs (demo_node v a ds gs) w = (demo_node v a (ds @ cs) gs, if cs = [] then w else True)"
  by (induction cs arbitrary: ds w) (simp_all add: publish_cmd_def demo_node_def rg_send_def demo_rig_def)

lemma demo_reads: "rig_reading (demo_node w a cs gs) = Inr ((of_bool w, 0), of_bool w)"
  by (simp add: rig_reading_def rig_pose_def rig_joint_def demo_node_def demo_states_def ARM_JOINTS_def)

lemma demo_drive:
  "mm_drive demo_rig demo_rig_world (demo_node False None [] []) False
     = (Inr (), demo_node True (Some (Some True)) (drive_commands 1 (25 / 100, 0)) [(ARM_JOINTS, [4 / 10, 3 / 10, - (2 / 10), 1 / 10], 3)], True)"
proof -
  have it: "bn_iterations demo_rig w = (1, w)" for w by (simp add: demo_rig_def)
  have a: "send_arm demo_rig_world ps (demo_node False None [] []) False = (Inr (), demo_node False None [] [(ARM_JOINTS, ps, 3)], False)" for ps
    by (simp add: send_arm_def demo_node_def demo_rig_world_def)
  have s: "rw_schedule demo_rig_world w = ([], w)" for w by (simp add: demo_rig_world_def)
  show ?thesis unfolding mm_drive_def a then_run_simps it prod.case s both.simps One_nat_def node_spins.simps demo_spin demo_publish spin_timed_def
    by (simp add: demo_spin drive_commands_def)
qed

theorem mm_pass_is_earned_witness:
  "\<exists>rep r w'. mm_main demo_rig demo_rig_world False = (Inr (0, rep), r, w') \<and> goal_accepted r"
proof -
  have ready: "wait_until_ready demo_rig rg_new False = (Inr True, demo_node False None [] [], False)"
  proof -
    have "bn_iterations demo_rig False = (1, False)" by (simp add: demo_rig_def)
    then show ?thesis by (simp add: wait_until_ready_def demo_spin) (simp add: demo_node_def)
  qed
  have all: "mm_missing (demo_node False None [] []) = []"
    by (simp add: mm_missing_def demo_node_def demo_states_def comp_def filter_empty_conv)
  have up: "asking (rw_server demo_rig_world) r False = (Inr True, r, False)" for r by (simp add: asking_def demo_rig_world_def)
  have acc: "goal_accepted (demo_node True (Some (Some True)) cs gs)" for cs gs by (simp add: goal_accepted_def demo_node_def)
  have run: "\<exists>rep r w'. mm_main demo_rig demo_rig_world False = (Inr (0, rep), r, w')"
    unfolding mm_main_def ready then_run_simps all up demo_reads demo_drive by (simp add: mm_verdict_def acc dist_of_def) blast
  then obtain rep r w' where m: "mm_main demo_rig demo_rig_world False = (Inr (0, rep), r, w')" by blast
  from mm_pass_is_earned [OF this] m show ?thesis by blast
qed

end
