(* ===== verification/Spec2Isabelle.thy ===== *)
theory Spec2Isabelle
  imports Entry_Points Report_Text Kinematics Train Describe Launch Cad_Fits Cad_Guide Verify_Rig
begin

text \<open>
  \<^bold>\<open>The program.\<close> The repository is the software of a small mobile manipulator: a robot with an arm, a
  gripper, a camera and a differential base, run in a simulator or on hardware, with everything around it
  that turns recordings into a served model and reports the robot's state. Its Python parts interact
  like this. The \<^emph>\<open>recorder\<close> (\<open>src/src/threevn_data\<close>) drives the robot past a target the simulator
  places, and writes images, labels and a manifest. The \<^emph>\<open>trainer\<close> (\<open>src/src/threevn_ml\<close>) reads such a
  directory, runs the \<^emph>\<open>detector\<close> (\<open>src/src/threevn_perception\<close>) on every image, splits by episode, fits
  and judges models and writes an artifact. The \<^emph>\<open>registry\<close> (\<open>src/src/threevn_mlops\<close>) stores artifacts,
  and its command line promotes one when the \<^emph>\<open>gates\<close> have no objection; the \<^emph>\<open>serving node\<close> runs what
  is promoted, with a \<^emph>\<open>drift monitor\<close>. The \<^emph>\<open>dashboard\<close> (\<open>src/src/threevn_dashboard\<close>) keeps the last
  state of joints, controllers and hardware, answers HTTP requests and pushes to a fleet server and an
  OTLP collector. The \<^emph>\<open>robot client\<close> and the \<^emph>\<open>scenarios\<close> (\<open>src/src/threevn_control\<close>) move the arm within
  its limits and give the acceptance verdict; \<^emph>\<open>forward kinematics\<close> predicts where the tool is. The
  \<^emph>\<open>yaw fusion\<close> (\<open>src/src/threevn_navigation\<close>) corrects odometry with a gyro. The \<^emph>\<open>launch
  files\<close> merge the two subsystems' controllers and start the processes in order. The \<^emph>\<open>CAD\<close> (\<open>src/cad\<close>) builds the
  printed parts from the profile the robot description reads, and weighs and counts them. The \<^emph>\<open>verification
  scripts\<close> (\<open>src/scripts\<close>) drive a running robot and judge what it did.

  \<^bold>\<open>Theories and sources.\<close>
  \<^item> \<open>Prelude\<close>: exceptions, the result type \<open>'a res\<close> (\<open>Inl\<close> the exception) with \<open>rbind\<close>, JSON documents
    and the accesses Python makes to them, rounding, \<open>%\<close>, indexing, and the locales \<open>inv_system\<close>, \<open>log_system\<close>,
    \<open>write_once\<close> for operations that keep an invariant, only append, and never rewrite an entry.
  \<^item> \<open>Gates\<close>, \<open>Registry\<close>, \<open>Registry_Cli\<close>, \<open>Drift\<close>, \<open>Serve\<close>: \<open>gates.py\<close>, \<open>registry.py\<close>, \<open>cli.py\<close>, \<open>drift.py\<close>,
    \<open>serve.py\<close> of \<open>threevn_mlops\<close>. \<open>Gates\<close> shows that \<open>check_all\<close> implements an abstract admissibility;
    \<open>Registry\<close> that every reachable registry is consistent with its log; \<open>Registry_Cli\<close> that production
    changes only through the gates or an explicit force; \<open>Serve\<close> when the node starts and what it keeps.
  \<^item> \<open>Detector\<close>, \<open>Find_Target\<close>: \<open>detector.py\<close>, \<open>find_target.py\<close>. Pixels are bytes, differences are 16-bit;
    the flood fill returns the largest 4-connected component; range and projection are inverse.
  \<^item> \<open>Models\<close>: \<open>features.py\<close>, \<open>models.py\<close>. Ridge regression minimises its objective, the closed form agrees
    with the detector, the error summary is ordered.
  \<^item> \<open>Manifest\<close>, \<open>Dataset\<close>, \<open>Collect\<close>: \<open>manifest.py\<close>, \<open>dataset.py\<close>, \<open>collect.py\<close>. A recording loads and its
    manifest is true of it; splits are partitions that keep episodes whole; reports measure what they name.
  \<^item> \<open>Train\<close>: \<open>train.py\<close>. What a run writes meets the gates, can be served, and was judged on unseen episodes.
  \<^item> \<open>Robot_State\<close>, \<open>Push\<close>, \<open>Dashboard\<close>: \<open>robot_state.py\<close>; \<open>fleet_reporter.py\<close> and \<open>otlp_metrics.py\<close>;
    \<open>dashboard_node.py\<close>, \<open>http_server.py\<close> and \<open>version.py\<close>. Readiness is what the history of updates says;
    every attempt to push is counted once; metrics say what the snapshot says; the stream reads back.
  \<^item> \<open>Workers\<close>, \<open>Dashboard_Node\<close>: \<open>start\<close>, \<open>stop\<close> and \<open>_run\<close> of both exporters as steps of the owner, the threads
    and the clock; construction, shutdown and \<open>main\<close> of the dashboard with both inside. The threads implement
    the sequential loop, keep their pace, and are silent and soon over once stopped. The locale \<open>hosted_worker\<close>
    carries this from a worker to the process that hosts it.
  \<^item> \<open>Robot_Client\<close>, \<open>Scenarios\<close>, \<open>Kinematics\<close>: \<open>robot_client.py\<close>; \<open>scenarios/\<close>, \<open>acceptance.py\<close>,
    \<open>run_scenario.py\<close>; \<open>kinematics.py\<close>. No goal leaves the known limits, verdicts are what the steps say,
    transforms are rigid and compose.
  \<^item> \<open>Report_Text\<close>: the texts of a run, \<open>ScenarioResult.report\<close> and \<open>render_markdown\<close>. A report can be rendered and
    lists what was requested, but can contradict itself on telemetry.
  \<^item> \<open>Entry_Points\<close>: \<open>main\<close> of the four nodes, \<open>src/scripts/profile_entry.py\<close>. What was constructed is released.
  \<^item> \<open>Fusion\<close>: \<open>fusion.py\<close>, \<open>fused_odom.py\<close>. The heading is the integral of the corrected rate, bounded by half
    a turn.
  \<^item> \<open>Describe\<close>: \<open>describe.py\<close>. What the recorder wrote can always be described.
  \<^item> \<open>Controllers\<close>, \<open>Launch\<close>: the controller merge of \<open>mm_sim.launch.py\<close>; every launch file as a description,
    with the order in which its processes can start. Nothing is configured twice; spawners wait for the
    joint state broadcaster, but not for one another.
  \<^item> \<open>Cad_Profile\<close>, \<open>Cad_Parts\<close>, \<open>Cad_Fits\<close>: \<open>profile.py\<close> and \<open>fits.py\<close>; \<open>parts.py\<close>, every builder as the modelling
    calls it makes; and what the parts promise one another. A typed profile builds, joints clear, cavities stay
    open, and some screws and bushings do not do what their comments say.
  \<^item> \<open>Cad_Print\<close>, \<open>Cad_Account\<close>, \<open>Cad_Export\<close>, \<open>Cad_Guide\<close>: \<open>printability.py\<close>; \<open>masses.py\<close>, \<open>fasteners.py\<close> and
    \<open>assembly.py\<close>; \<open>export.py\<close>, with the printing guide as text.
    The two overhang measures agree, every driven joint's servo is weighed once, no hole is lost, and the
    totals of guide and comparison are the same.
  \<^item> \<open>Verify_Base\<close>, \<open>Verify_Rig\<close>: \<open>verify_base_drive.py\<close> and \<open>verify_heading.py\<close>; \<open>verify_mm.py\<close> and
    \<open>verify_perception.py\<close> of \<open>src/scripts\<close>. A script that returns leaves the robot stopped, an exception of spinning or
    publishing need not (these calls may raise in the model, in the main thread and in the driver thread), and a pass is earned.
  \<^item> This theory: what holds across components, from a recording to a served model and from the dashboard to the
    acceptance report.

  \<^bold>\<open>Conventions.\<close> A class is a record of its attributes, a method a function from the state (and its
  arguments) to a result or exception and the new state; state changed before an exception is kept.
  Exceptions are the values of the datatype \<open>exn\<close>. JSON text is not modelled: a file holds the document \<open>json.loads\<close>
  returns. Floats are reals, except positions a limit check decides on, which may be infinite or not a
  number. Log and print calls are output values where the code branches on them or a property counts
  them. A run of callbacks is a list of events, each handled completely, as the executors and locks of the
  source make it; where threads share state without a lock (\<open>Workers\<close>, the driver thread of \<open>Verify_Rig\<close>) every
  interleaving of their steps is a run.

  \<^bold>\<open>Arguments.\<close> Code outside the repository is an argument: \<open>digest\<close> and \<open>sha256\<close> (hashes), \<open>now\<close> and \<open>clk\<close> (times),
  \<open>solve\<close> (\<open>np.linalg.solve\<close>), \<open>transform\<close> (tf2), \<open>ros\<close> and \<open>sim\<close> (records of what the ROS graph and the
  simulator answer over an arbitrary world), \<open>opener\<close> (one HTTP request), \<open>bind\<close> (the server
  socket), \<open>dumps\<close>, \<open>str\<close> and \<open>msg\<close> (texts of documents, values and reasons), \<open>draw\<close>, \<open>rng\<close> and \<open>rnd\<close> (random
  draws), \<open>git\<close> and the environment, \<open>thumb\<close> and \<open>open_rgb\<close> (image decoding),
  \<open>render\<close> (the solid modeller's measures) and \<open>modeller\<close> (which primitives it refuses), \<open>bench\<close> (the simulator and graph the scripts see). Where a property needs something
  of an argument, it is a hypothesis, and a witness gives a concrete one.

  \<^bold>\<open>Loops.\<close> Loops over data are structural recursions or have a measure: the flood fill by unseen pixels, the
  shuffle by its index, the chain of joints by the source's own guard of 64. A loop that runs until a
  deadline runs as often as the world says, an arbitrary natural number, so what is proved holds for every
  duration. No fuel is used.

  \<^bold>\<open>Not modelled.\<close> The solid modeller is outside the repository: a part is the sequence of calls made to it, and the
  material those calls leave is a specification; which primitives it refuses is an argument. The hardware interface, the firmware and the fleet server
  are C++ and Go; packaging, worlds and robot descriptions are declarations. The prose the
  scripts print, socket handling and argument parsing are left out of the components that are
  modelled. An interval that is infinite or not a number is outside the reals; the waits that end a thread are
  modelled for finite ones.

  \<^bold>\<open>Open.\<close> Floats as such: rounding errors, infinities and NaN outside the limit check.
\<close>

section \<open>From a recording to a served model\<close>

lemma train_main_trained:
  assumes "train_main solve open_rgb rng (git_description env git cwd (Some ''/ws'')) args w = Inr (0, Some out, caches)"
  obtains ridge model base geo shape cf x parts doc dataset commit dirty where
    "ridge_to_dict ridge = Inr model" "dataset_doc doc = Inr dataset"
    "out = sort_doc (artifact_doc model base geo shape cf x (ta_seed args) parts dataset (commit_doc commit dirty))"
proof -
  obtain doc i features labels frames a where
    "train_on solve (rng (ta_seed args)) (git_description env git cwd (Some ''/ws'')) args doc i features labels frames = Inr a"
    and out: "out = sort_doc a"
    by (rule train_main_okD [OF assms])
  then obtain parts base geo ridge shape model x dataset c where
    "ridge_to_dict ridge = Inr model" "dataset_doc doc = Inr dataset"
    "git_description env git cwd (Some ''/ws'') = Inr c"
    "a = artifact_doc model base geo shape \<lparr>g_intrinsics = i, g_target_width = ta_target_width args\<rparr> x (ta_seed args)
           parts dataset c"
    by (auto elim!: train_on_okD)
  with that out git_description_doc show thesis by metis
qed

lemma register_new:
  assumes "summary_row t1 nt (version_of digest a) a = Inr row"
  shows "\<exists>s. register digest t1 t2 a nt empty_store = (Inr (version_of digest a), s)
     \<and> artifact_of (version_of digest a) s = Inr a \<and> production s = Inr None
     \<and> version_of digest a \<in> fst ` set (ix_versions (read_index s)) \<and> production_version s = None"
  using assms
  by (auto simp: register_def Let_def empty_store_def read_index_def empty_index_def write_index_def artifact_of_def
      production_def production_version_def)

text \<open>C5: a model that was trained can be registered, promoted and served. On an empty registry, the artifact
  of a successful training run is registered; if the gates have no objection (which, by the training
  property, only needs a known training commit and a better test score than the closed form), promoting it
  without force exits with 0, and the serving node then starts and predicts with the model that was
  fitted.\<close>

theorem trained_model_reaches_production:
  assumes run: "train_main solve open_rgb rng (git_description env git cwd (Some ''/ws'')) args w = Inr (0, Some out, caches)"
    and gates: "check_all out FEATURE_NAMES None None = Inr []" and hash: "version_of digest out \<noteq> []"
  shows "\<exists>l1 s1 l2 s2 node. cli_main digest t1 t2 (CRegister (Inr out) nt) empty_store = (Inr 0, l1, s1)
     \<and> cli_main digest t3 t4 (CPromote (Some (version_of digest out)) reason False) s1 = (Inr 0, l2, s2)
     \<and> serve_init width n s2 = Inr node \<and> sv_version node = version_of digest out
     \<and> rbind (jitem out ''model'') ridge_from_dict = Inr (sv_model node)"
proof -
  obtain ridge model base geo shape cf x parts doc dataset commit dirty where
    model: "ridge_to_dict ridge = Inr model" and ds: "dataset_doc doc = Inr dataset"
    and out: "out = sort_doc (artifact_doc model base geo shape cf x (ta_seed args) parts dataset (commit_doc commit dirty))"
    by (rule train_main_trained [OF run])
  let ?v = "version_of digest out"
  obtain row where "summary_row t1 nt ?v out = Inr row" using trained_summary_row [OF ds] unfolding out by blast
  from register_new [OF this, of t2] obtain s1 where
    reg: "register digest t1 t2 out nt empty_store = (Inr ?v, s1)" and art: "artifact_of ?v s1 = Inr out"
    and prod: "production s1 = Inr None" "production_version s1 = None" and known: "?v \<in> fst ` set (ix_versions (read_index s1))"
    by blast
  have reg': "cli_main digest t1 t2 (CRegister (Inr out) nt) empty_store = (Inr 0, [Registered ?v], s1)"
    by (simp add: cli_main_def reg)
  define s2 where "s2 = snd (promote t3 ?v reason False s1)"
  have "gate_failures ?v s1 = Inr []" by (simp add: gate_failures_def art prod gates)
  moreover have "promote t3 ?v reason False s1 = (Inr None, s2)"
    using known prod(2) by (simp add: promote_def Let_def s2_def production_version_def)
  moreover have "chosen_version (Some ?v) s1 = Some ?v" using hash by (simp add: chosen_version_def)
  ultimately have pro: "\<exists>l2. cli_main digest t3 t4 (CPromote (Some ?v) reason False) s1 = (Inr 0, l2, s2)"
    by (simp add: cli_main_def cli_promote_def)
  have "production_version s2 = Some ?v" "artifact_of ?v s2 = Inr out"
    using known prod(2) art
    by (simp_all add: s2_def promote_def Let_def production_version_def read_index_def write_index_def artifact_of_def)
  from serve_init_trained [OF model ds this [unfolded out]] obtain node where
    "serve_init width n s2 = Inr node" "sv_model node = ridge" "sv_version node = ?v" unfolding out by blast
  moreover have "rbind (jitem out ''model'') ridge_from_dict = Inr ridge"
    unfolding out jitem_sorted_artifact using ridge_from_sorted(2) [OF model] by (simp add: artifact_doc_def sorted_res_def)
  ultimately show ?thesis using reg' pro by blast
qed

theorem trained_model_reaches_production_witness:
  "\<exists>out l1 s1 l2 s2 node.
     cli_main (\<lambda>j. ''5ac0'') ''t1'' ''t2'' (CRegister (Inr out) ''first'') empty_store = (Inr 0, l1, s1)
     \<and> cli_main (\<lambda>j. ''5ac0'') ''t3'' ''t4'' (CPromote (Some ''5ac0'') ''go'' False) s1 = (Inr 0, l2, s2)
     \<and> serve_init (1 / 20) 30 s2 = Inr node"
proof -
  obtain out where gates: "check_all out FEATURE_NAMES None None = Inr []" and run: "train_main demo_solve (\<lambda>p. Inl OSError)
      (\<lambda>seed n. n - 1) (git_description [(''THREEVN_GIT_COMMIT'', ''9f'')] (\<lambda>a. Inl OSError) ''/'' (Some ''/ws'')) demo_args
      demo_world = Inr (0, Some out, tw_caches demo_world)" using demo_train by blast
  have v: "version_of (\<lambda>j. ''5ac0'') out = ''5ac0''" by (simp add: version_of_def)
  from trained_model_reaches_production [OF run gates, of "\<lambda>j. ''5ac0''"] show ?thesis unfolding v by blast
qed

section \<open>The acceptance report and the dashboard\<close>

text \<open>C19: the acceptance report says what the dashboard says. When both endpoints answer, the telemetry is, item by item,
  what the running robot's snapshot holds: its readiness, the three freshness flags, the number of joint state messages
  and the uptime, the list of controllers and the list of hardware components with their states, and the version block.
  That document is what the report carries, and the report can be rendered.\<close>

theorem report_carries_dashboard:
  fixes env :: "string \<Rightarrow> string option" and host stamp :: string and files :: site and tj tc th tu :: real and s :: robot_state
  defines "site \<equiv> files\<lparr>si_version := version_info env host stamp\<rparr>"
    and "sn \<equiv> snapshot_of tj tc th tu s"
  shows "\<exists>version state t. fetch (Inr (body_doc msg (snd (do_GET site tj tc th tu s ''/api/version'')))) = Inr (Some version)
     \<and> fetch (Inr (body_doc msg (snd (do_GET site tj tc th tu s ''/api/state'')))) = Inr (Some state)
     \<and> collect_telemetry (Some version) (Some state) = Inr t
     \<and> t = JObj
         [(''available'', JBool True),
          (''version'', JObj (map (\<lambda>(k, x). (k, JStr x)) (version_info env host stamp))),
          (''readiness'', JObj
            [(''ready'', JBool (is_ready tj tc th tu s)),
             (''joints_fresh'', JBool (sn_joints_fresh sn)),
             (''controllers_fresh'', JBool (sn_controllers_fresh sn)),
             (''hardware_fresh'', JBool (sn_hardware_fresh sn)),
             (''joint_messages'', JInt (int (rs_joint_messages s))),
             (''uptime_seconds'', JNum (sn_uptime_seconds sn))]),
          (''controllers'', JArr (map (\<lambda>(n, st). JObj [(''name'', JStr n), (''state'', JStr st)]) (sn_controllers sn))),
          (''hardware'', JArr (map (\<lambda>(n, st). JObj [(''name'', JStr n), (''state'', JStr st)]) (sn_hardware sn)))]
     \<and> jitem (report_doc exn_text started_at secs (build_report results t names)) ''telemetry'' = Inr t
     \<and> is_ok (render_markdown str (report_doc exn_text started_at secs (build_report results t names)))"
proof -
  let ?v = "JObj (map (\<lambda>(k, x). (k, JStr x)) (version_info env host stamp))"
  let ?s = "JObj (snapshot_items sn)"
  have routes: "route_of ''/api/version'' = ''/api/version''" "route_of ''/api/state'' = ''/api/state''"
    by (simp_all add: route_of_def)
  have fv: "fetch (Inr (body_doc msg (snd (do_GET site tj tc th tu s ''/api/version'')))) = Inr (Some ?v)"
    and fs: "fetch (Inr (body_doc msg (snd (do_GET site tj tc th tu s ''/api/state'')))) = Inr (Some ?s)"
    by (simp_all add: fetch_def body_doc_def do_GET_def routes site_def sn_def Let_def)
  have "truthy ?v" "snapshot_items sn \<noteq> []" by (simp_all add: version_info_def snapshot_items_def)
  note both = telemetry_of_both [OF this]
  have sn: "sn_ready sn = is_ready tj tc th tu s" "sn_joint_messages sn = rs_joint_messages s"
    by (simp_all add: sn_def is_ready_def snapshot_of_def Let_def)
  have doc: "jitem (report_doc exn_text started_at secs (build_report results t names)) ''telemetry'' = Inr t" for t
    by (simp add: report_doc_def build_report_def)
  let ?t = "JObj [(''available'', JBool True), (''version'', ?v),
      (''readiness'', JObj [(''ready'', JBool (is_ready tj tc th tu s)), (''joints_fresh'', JBool (sn_joints_fresh sn)),
         (''controllers_fresh'', JBool (sn_controllers_fresh sn)), (''hardware_fresh'', JBool (sn_hardware_fresh sn)),
         (''joint_messages'', JInt (int (rs_joint_messages s))), (''uptime_seconds'', JNum (sn_uptime_seconds sn))]),
      (''controllers'', JArr (map (\<lambda>(n, st). JObj [(''name'', JStr n), (''state'', JStr st)]) (sn_controllers sn))),
      (''hardware'', JArr (map (\<lambda>(n, st). JObj [(''name'', JStr n), (''state'', JStr st)]) (sn_hardware sn)))]"
  have t: "collect_telemetry (Some ?v) (Some ?s) = Inr ?t"
    unfolding both by (simp add: look_up_def snapshot_items_def pairs_doc_def sn)
  have "is_ok (render_markdown str (report_doc exn_text started_at secs (build_report results ?t names)))"
    by (rule report_renders [OF t]) simp
  then show ?thesis by (intro exI [of _ ?v] exI [of _ ?s] exI [of _ ?t] conjI fv fs t doc refl)
qed

end
